(* ===== verification/GoPrelude.thy ===== *)
theory GoPrelude
  imports Main
begin

text \<open>
  The prelude of the development: the computations the components are written in (a state
  passing computation that returns an error or a value, as a Go function returns
  \<open>(value, error)\<close>), a weakest-precondition calculus for them, the list operations that stand
  for SQL statements on a table, and the functions of Go's \<open>strings\<close> package that the modelled
  code calls. The lemma collections \<open>wp_simps\<close> and \<open>table_simps\<close> carry most component proofs.
\<close>

named_theorems wp_simps \<open>weakest preconditions of the primitive computations\<close>
named_theorems table_simps \<open>facts on table operations\<close>

section \<open>Error values\<close>

text \<open>
  A Go error is its text and the sentinel errors that \<open>errors.Is\<close> finds in its chain.
  \<open>errorf\<close> is \<open>fmt.Errorf\<close> or \<open>errors.New\<close> with no wrapped error, \<open>wrapf\<close> wraps one with \<open>%w\<close>.
\<close>

datatype 'k goerr = GoErr (err_kinds: "'k list") (err_text: string)

definition errorf :: "string \<Rightarrow> 'k goerr" where
  "errorf txt = GoErr [] txt"

definition sentinel :: "'k \<Rightarrow> string \<Rightarrow> 'k goerr" where
  "sentinel k txt = GoErr [k] txt"

definition wrapf :: "string \<Rightarrow> 'k goerr \<Rightarrow> 'k goerr" where
  "wrapf pre e = GoErr (err_kinds e) (pre @ err_text e)"

definition errors_is :: "'k goerr \<Rightarrow> 'k \<Rightarrow> bool" where
  "errors_is e k \<longleftrightarrow> k \<in> set (err_kinds e)"

lemma errors_is_errorf [simp]: "\<not> errors_is (errorf txt) k"
  by (simp add: errors_is_def errorf_def)

lemma errors_is_sentinel [simp]: "errors_is (sentinel k txt) j \<longleftrightarrow> j = k"
  by (auto simp: errors_is_def sentinel_def)

lemma errors_is_wrapf [simp]: "errors_is (wrapf pre e) k \<longleftrightarrow> errors_is e k"
  by (simp add: errors_is_def wrapf_def)

lemma err_text_simps [simp]:
  "err_text (errorf txt) = txt" "err_text (sentinel k txt) = txt"
  "err_text (wrapf pre e) = pre @ err_text e"
  by (simp_all add: errorf_def sentinel_def wrapf_def)

lemma errorf_inject [simp]: "errorf a = errorf b \<longleftrightarrow> a = b"
  by (simp add: errorf_def)

text \<open>\<open>errors.Join\<close>: nil for no error, else the texts on lines of their own.\<close>

fun errors_join :: "'k goerr list \<Rightarrow> 'k goerr option" where
  "errors_join [] = None"
| "errors_join (e # es) =
     (case errors_join es of
        None \<Rightarrow> Some (GoErr (err_kinds e) (err_text e))
      | Some f \<Rightarrow> Some (GoErr (err_kinds e @ err_kinds f) (err_text e @ CHR 0x0A # err_text f)))"

lemma errors_join_None [simp]: "errors_join es = None \<longleftrightarrow> es = []"
  by (cases es) (auto split: option.split)

lemma errors_join_is:
  "errors_join es = Some e \<Longrightarrow> errors_is e k \<longleftrightarrow> (\<exists>x \<in> set es. errors_is x k)"
proof (induction es arbitrary: e)
  case (Cons a es)
  then show ?case by (cases "errors_join es") (auto simp: errors_is_def)
qed simp

section \<open>Computations with an error result\<close>

type_synonym ('e, 's, 'a) eff = "'s \<Rightarrow> ('e + 'a) \<times> 's"

definition returnE :: "'a \<Rightarrow> ('e, 's, 'a) eff" where
  "returnE x = (\<lambda>s. (Inr x, s))"

definition throwE :: "'e \<Rightarrow> ('e, 's, 'a) eff" where
  "throwE e = (\<lambda>s. (Inl e, s))"

definition bindE :: "('e, 's, 'a) eff \<Rightarrow> ('a \<Rightarrow> ('e, 's, 'b) eff) \<Rightarrow> ('e, 's, 'b) eff" where
  "bindE m f = (\<lambda>s. case m s of (Inl e, s') \<Rightarrow> (Inl e, s') | (Inr x, s') \<Rightarrow> f x s')"

text \<open>\<open>attemptE m\<close> hands the error of \<open>m\<close> to the caller as a value, as \<open>x, err := f()\<close> does.\<close>

definition attemptE :: "('e, 's, 'a) eff \<Rightarrow> ('e, 's, 'e + 'a) eff" where
  "attemptE m = (\<lambda>s. case m s of (r, s') \<Rightarrow> (Inr r, s'))"

definition getE :: "('s \<Rightarrow> 'a) \<Rightarrow> ('e, 's, 'a) eff" where
  "getE f = (\<lambda>s. (Inr (f s), s))"

definition modifyE :: "('s \<Rightarrow> 's) \<Rightarrow> ('e, 's, unit) eff" where
  "modifyE f = (\<lambda>s. (Inr (), f s))"

text \<open>Evaluation rules: a computation is only unfolded where it is run on a state.\<close>

lemma eff_code [code]:
  "returnE x s = (Inr x, s)" "throwE e s = (Inl e, s)"
  "bindE m f s = (case m s of (Inl e, s') \<Rightarrow> (Inl e, s') | (Inr x, s') \<Rightarrow> f x s')"
  "attemptE m s = (case m s of (r, s') \<Rightarrow> (Inr r, s'))"
  "getE g s = (Inr (g s), s)" "modifyE h s = (Inr (), h s)"
  by (simp_all add: returnE_def throwE_def bindE_def attemptE_def getE_def modifyE_def)

definition wp :: "('e, 's, 'a) eff \<Rightarrow> ('e + 'a \<Rightarrow> 's \<Rightarrow> bool) \<Rightarrow> 's \<Rightarrow> bool" where
  "wp m Q s = (case m s of (r, s') \<Rightarrow> Q r s')"

lemma wp_returnE [wp_simps]: "wp (returnE x) Q s = Q (Inr x) s"
  by (simp add: wp_def returnE_def)

lemma wp_throwE [wp_simps]: "wp (throwE e) Q s = Q (Inl e) s"
  by (simp add: wp_def throwE_def)

lemma wp_bindE [wp_simps]:
  "wp (bindE m f) Q s = wp m (\<lambda>r s'. case r of Inl e \<Rightarrow> Q (Inl e) s' | Inr x \<Rightarrow> wp (f x) Q s') s"
  by (simp add: wp_def bindE_def split: prod.split sum.split)

lemma wp_attemptE [wp_simps]: "wp (attemptE m) Q s = wp m (\<lambda>r s'. Q (Inr r) s') s"
  by (simp add: wp_def attemptE_def split: prod.split)

lemma wp_getE [wp_simps]: "wp (getE f) Q s = Q (Inr (f s)) s"
  by (simp add: wp_def getE_def)

lemma wp_modifyE [wp_simps]: "wp (modifyE f) Q s = Q (Inr ()) (f s)"
  by (simp add: wp_def modifyE_def)

lemma wp_if [wp_simps]: "wp (if b then m else n) Q s = (if b then wp m Q s else wp n Q s)"
  by simp

lemma wp_case_option [wp_simps]:
  "wp (case x of None \<Rightarrow> m | Some y \<Rightarrow> f y) Q s = (case x of None \<Rightarrow> wp m Q s | Some y \<Rightarrow> wp (f y) Q s)"
  by (simp split: option.split)

lemma wp_case_sum [wp_simps]:
  "wp (case x of Inl e \<Rightarrow> g e | Inr y \<Rightarrow> f y) Q s = (case x of Inl e \<Rightarrow> wp (g e) Q s | Inr y \<Rightarrow> wp (f y) Q s)"
  by (simp split: sum.split)

lemma wp_let [wp_simps]: "wp (Let x f) Q s = wp (f x) Q s"
  by (simp add: Let_def)

lemma wp_mono: "wp m P s \<Longrightarrow> (\<And>r s'. P r s' \<Longrightarrow> Q r s') \<Longrightarrow> wp m Q s"
  by (simp add: wp_def split: prod.splits)

lemma wp_conj: "wp m P s \<Longrightarrow> wp m Q s \<Longrightarrow> wp m (\<lambda>r s'. P r s' \<and> Q r s') s"
  by (simp add: wp_def split: prod.splits)

lemma wp_run: "wp m Q s \<Longrightarrow> m s = (r, s') \<Longrightarrow> Q r s'"
  by (simp add: wp_def)

text \<open>The rule that splits a computation at a bind with a chosen intermediate condition.\<close>

lemma wp_bindI:
  assumes "wp m R s"
    and "\<And>e s'. R (Inl e) s' \<Longrightarrow> Q (Inl e) s'"
    and "\<And>x s'. R (Inr x) s' \<Longrightarrow> wp (f x) Q s'"
  shows "wp (bindE m f) Q s"
  unfolding wp_bindE by (rule wp_mono [OF assms(1)]) (auto split: sum.split intro: assms(2,3))

section \<open>Tables\<close>

text \<open>A SQL table is the list of its rows; the order of the rows is not specified by SQL.\<close>

definition upd_where :: "('a \<Rightarrow> bool) \<Rightarrow> ('a \<Rightarrow> 'a) \<Rightarrow> 'a list \<Rightarrow> 'a list" where
  "upd_where P f xs = map (\<lambda>x. if P x then f x else x) xs"

definition count_where :: "('a \<Rightarrow> bool) \<Rightarrow> 'a list \<Rightarrow> nat" where
  "count_where P xs = length (filter P xs)"

text \<open>\<open>ORDER BY key ASC LIMIT 1\<close>: a least row; the first one in the table's order among equals.\<close>

fun least_by :: "('a \<Rightarrow> int) \<Rightarrow> 'a list \<Rightarrow> 'a option" where
  "least_by k [] = None"
| "least_by k (x # xs) =
     (case least_by k xs of None \<Rightarrow> Some x | Some y \<Rightarrow> if k y < k x then Some y else Some x)"

lemma length_upd_where [simp, table_simps]: "length (upd_where P f xs) = length xs"
  by (simp add: upd_where_def)

lemma upd_where_Nil [simp, table_simps]: "upd_where P f [] = []"
  by (simp add: upd_where_def)

lemma upd_where_Cons [simp, table_simps]:
  "upd_where P f (x # xs) = (if P x then f x else x) # upd_where P f xs"
  by (simp add: upd_where_def)

lemma set_upd_where: "set (upd_where P f xs) = (\<lambda>x. if P x then f x else x) ` set xs"
  by (simp add: upd_where_def)

lemma upd_where_none [table_simps]: "(\<And>x. x \<in> set xs \<Longrightarrow> \<not> P x) \<Longrightarrow> upd_where P f xs = xs"
  by (induction xs) (auto simp: upd_where_def)

lemma count_where_0: "count_where P xs = 0 \<longleftrightarrow> (\<forall>x \<in> set xs. \<not> P x)"
  by (auto simp: count_where_def filter_empty_conv)

lemma map_upd_where_key [table_simps]:
  "(\<And>x. x \<in> set xs \<Longrightarrow> P x \<Longrightarrow> k (f x) = k x) \<Longrightarrow> map k (upd_where P f xs) = map k xs"
  by (induction xs) (auto simp: upd_where_def)

text \<open>A condition that names the primary key matches one row at most.\<close>

lemma count_where_key:
  "distinct (map k xs) \<Longrightarrow> (\<And>x. P x \<Longrightarrow> k x = i) \<Longrightarrow>
   count_where P xs = (if \<exists>x \<in> set xs. P x then 1 else 0)"
proof (induction xs)
  case Nil
  then show ?case by (simp add: count_where_def)
next
  case (Cons a xs)
  then have IH: "count_where P xs = (if \<exists>x \<in> set xs. P x then 1 else 0)" by simp
  show ?case
  proof (cases "P a")
    case True
    then have "\<not> (\<exists>x \<in> set xs. P x)"
      using Cons.prems by (auto dest: image_eqI [where f = k])
    then show ?thesis using True by (auto simp: count_where_def filter_empty_conv)
  next
    case False
    then show ?thesis using IH by (simp add: count_where_def)
  qed
qed

lemma find_key_unique:
  "distinct (map k xs) \<Longrightarrow> x \<in> set xs \<Longrightarrow> List.find (\<lambda>y. k y = k x) xs = Some x"
  by (induction xs) auto

lemma find_SomeD: "List.find P xs = Some x \<Longrightarrow> x \<in> set xs \<and> P x"
  by (auto simp: find_Some_iff in_set_conv_nth)

lemma find_NoneD: "List.find P xs = None \<Longrightarrow> x \<in> set xs \<Longrightarrow> \<not> P x"
  by (auto simp: find_None_iff)

lemma find_snoc: "List.find P xs = None \<Longrightarrow> List.find P (xs @ ys) = List.find P ys"
  by (induction xs) (auto split: if_splits)

lemma key_inj: "distinct (map k xs) \<Longrightarrow> x \<in> set xs \<Longrightarrow> y \<in> set xs \<Longrightarrow> k x = k y \<Longrightarrow> x = y"
  by (metis distinct_map inj_onD)

lemma find_upd_where_key:
  assumes "distinct (map k xs)" and "\<And>x. P x \<Longrightarrow> k (f x) = k x"
  shows "List.find (\<lambda>y. k y = i) (upd_where P f xs) =
    map_option (\<lambda>x. if P x then f x else x) (List.find (\<lambda>y. k y = i) xs)"
  using assms by (induction xs) auto

lemma least_by_None [simp]: "least_by k xs = None \<longleftrightarrow> xs = []"
  by (cases xs) (auto split: option.split)

lemma least_by_Some: "least_by k xs = Some x \<Longrightarrow> x \<in> set xs \<and> (\<forall>y \<in> set xs. k x \<le> k y)"
proof (induction xs arbitrary: x)
  case (Cons a xs)
  then show ?case by (force split: option.splits if_splits)
qed simp

lemma least_by_unique:
  assumes "x \<in> set xs" and "\<forall>y \<in> set xs. y \<noteq> x \<longrightarrow> k x < k y"
  shows "least_by k xs = Some x"
proof -
  obtain y where y: "least_by k xs = Some y"
    using assms(1) by (cases "least_by k xs") auto
  then show ?thesis using assms least_by_Some [OF y] by force
qed

end
