(* ===== verification/GoStrings.thy ===== *)
theory GoStrings
  imports GoPrelude "HOL-Library.Sublist"
begin

text \<open>
  The functions of Go's \<open>strings\<close> and \<open>strconv\<close> packages that the modelled code calls. A Go
  string is a list of bytes, and so is a \<open>string\<close> here. \<open>TrimSpace\<close> removes every Unicode white
  space character, given by its UTF-8 byte sequence; \<open>ToLower\<close> and \<open>ToUpper\<close> map the ASCII letters
  and leave other bytes alone.
\<close>

section \<open>Prefixes, suffixes, substrings\<close>

definition HasPrefix :: "string \<Rightarrow> string \<Rightarrow> bool" where
  "HasPrefix s p \<longleftrightarrow> take (length p) s = p"

definition HasSuffix :: "string \<Rightarrow> string \<Rightarrow> bool" where
  "HasSuffix s p \<longleftrightarrow> HasPrefix (rev s) (rev p)"

definition TrimPrefix :: "string \<Rightarrow> string \<Rightarrow> string" where
  "TrimPrefix s p = (if HasPrefix s p then drop (length p) s else s)"

definition TrimSuffix :: "string \<Rightarrow> string \<Rightarrow> string" where
  "TrimSuffix s p = (if HasSuffix s p then take (length s - length p) s else s)"

fun Contains :: "string \<Rightarrow> string \<Rightarrow> bool" where
  "Contains [] sub = (sub = [])"
| "Contains (c # s) sub = (HasPrefix (c # s) sub \<or> Contains s sub)"

text \<open>\<open>strings.Split\<close> and \<open>strings.Join\<close> with a separator of one byte.\<close>

fun Split :: "char \<Rightarrow> string \<Rightarrow> string list" where
  "Split sep [] = [[]]"
| "Split sep (c # s) =
     (if c = sep then [] # Split sep s
      else (case Split sep s of [] \<Rightarrow> [[c]] | w # ws \<Rightarrow> (c # w) # ws))"

fun Join :: "char \<Rightarrow> string list \<Rightarrow> string" where
  "Join sep [] = []"
| "Join sep [w] = w"
| "Join sep (w # v # ws) = w @ sep # Join sep (v # ws)"

text \<open>\<open>strings.Join\<close> with any separator.\<close>

fun JoinStr :: "string \<Rightarrow> string list \<Rightarrow> string" where
  "JoinStr sep [] = []"
| "JoinStr sep [w] = w"
| "JoinStr sep (w # v # ws) = w @ sep @ JoinStr sep (v # ws)"

text \<open>\<open>strings.Cut(s, sep)\<close> with a separator of one byte: the parts around its first occurrence.\<close>

definition Cut :: "char \<Rightarrow> string \<Rightarrow> string \<times> string \<times> bool" where
  "Cut sep s = (case dropWhile (\<lambda>c. c \<noteq> sep) s of
     [] \<Rightarrow> (s, [], False)
   | _ # rest \<Rightarrow> (takeWhile (\<lambda>c. c \<noteq> sep) s, rest, True))"

text \<open>\<open>strings.Trim(s, cutset)\<close> with a cutset of one byte.\<close>

definition TrimChar :: "char \<Rightarrow> string \<Rightarrow> string" where
  "TrimChar c s = rev (dropWhile (\<lambda>d. d = c) (rev (dropWhile (\<lambda>d. d = c) s)))"

section \<open>White space and case\<close>

definition white_space :: "string list" where
  "white_space =
     [[CHR 0x09], [CHR 0x0A], [CHR 0x0B], [CHR 0x0C], [CHR 0x0D], [CHR 0x20],
      [CHR 0xC2, CHR 0x85], [CHR 0xC2, CHR 0xA0], [CHR 0xE1, CHR 0x9A, CHR 0x80],
      [CHR 0xE2, CHR 0x80, CHR 0x80], [CHR 0xE2, CHR 0x80, CHR 0x81],
      [CHR 0xE2, CHR 0x80, CHR 0x82], [CHR 0xE2, CHR 0x80, CHR 0x83],
      [CHR 0xE2, CHR 0x80, CHR 0x84], [CHR 0xE2, CHR 0x80, CHR 0x85],
      [CHR 0xE2, CHR 0x80, CHR 0x86], [CHR 0xE2, CHR 0x80, CHR 0x87],
      [CHR 0xE2, CHR 0x80, CHR 0x88], [CHR 0xE2, CHR 0x80, CHR 0x89],
      [CHR 0xE2, CHR 0x80, CHR 0x8A], [CHR 0xE2, CHR 0x80, CHR 0xA8],
      [CHR 0xE2, CHR 0x80, CHR 0xA9], [CHR 0xE2, CHR 0x80, CHR 0xAF],
      [CHR 0xE2, CHR 0x81, CHR 0x9F], [CHR 0xE3, CHR 0x80, CHR 0x80]]"

function strip_left :: "string list \<Rightarrow> string \<Rightarrow> string" where
  "strip_left ws s =
     (case List.find (\<lambda>w. w \<noteq> [] \<and> HasPrefix s w) ws of
        None \<Rightarrow> s
      | Some w \<Rightarrow> strip_left ws (drop (length w) s))"
  by pat_completeness auto
termination
proof (relation "measure (\<lambda>(ws, s). length s)", simp)
  fix ws :: "string list" and s w :: string
  assume "List.find (\<lambda>w. w \<noteq> [] \<and> HasPrefix s w) ws = Some w"
  then have "w \<noteq> []" and "take (length w) s = w"
    by (auto dest: find_SomeD simp: HasPrefix_def)
  then have "length w \<noteq> 0" and "s \<noteq> []" by (auto simp: take_eq_Nil)
  then show "((ws, drop (length w) s), ws, s) \<in> measure (\<lambda>(ws, s). length s)" by simp
qed

declare strip_left.simps [simp del]

definition TrimSpace :: "string \<Rightarrow> string" where
  "TrimSpace s = rev (strip_left (map rev white_space) (rev (strip_left white_space s)))"

definition upper_letters :: string where
  "upper_letters = ''ABCDEFGHIJKLMNOPQRSTUVWXYZ''"

definition lower_letters :: string where
  "lower_letters = ''abcdefghijklmnopqrstuvwxyz''"

definition lower_char :: "char \<Rightarrow> char" where
  "lower_char c = (case map_of (zip upper_letters lower_letters) c of None \<Rightarrow> c | Some d \<Rightarrow> d)"

definition upper_char :: "char \<Rightarrow> char" where
  "upper_char c = (case map_of (zip lower_letters upper_letters) c of None \<Rightarrow> c | Some d \<Rightarrow> d)"

definition ToLower :: "string \<Rightarrow> string" where
  "ToLower s = map lower_char s"

definition ToUpper :: "string \<Rightarrow> string" where
  "ToUpper s = map upper_char s"

text \<open>\<open>strconv.Itoa\<close> on a number that is not negative.\<close>

fun Itoa :: "nat \<Rightarrow> string" where
  "Itoa n = (if n < 10 then [''0123456789'' ! n] else Itoa (n div 10) @ [''0123456789'' ! (n mod 10)])"

declare Itoa.simps [simp del]

text \<open>\<open>strconv.Quote\<close> (the verb \<open>%q\<close>) on printable ASCII.\<close>

definition Quote :: "string \<Rightarrow> string" where
  "Quote s = CHR 0x22 # concat (map (\<lambda>c. if c = CHR 0x22 \<or> c = CHR 0x5C then [CHR 0x5C, c] else [c]) s)
     @ [CHR 0x22]"

section \<open>Facts\<close>

lemma HasPrefix_append [simp]: "HasPrefix (p @ s) p"
  by (simp add: HasPrefix_def)

lemma HasPrefix_Nil [simp]: "HasPrefix s []"
  by (simp add: HasPrefix_def)

lemma HasPrefix_Cons [simp]: "HasPrefix (c # s) (d # p) \<longleftrightarrow> c = d \<and> HasPrefix s p"
  by (auto simp: HasPrefix_def)

lemma HasPrefix_Nil_Cons [simp]: "\<not> HasPrefix [] (d # p)"
  by (simp add: HasPrefix_def)

lemma HasPrefix_prefix: "HasPrefix s p \<longleftrightarrow> prefix p s"
  by (auto simp: HasPrefix_def prefix_def) (metis append_take_drop_id)

lemma Contains_append: "Contains (u @ sub @ v) sub"
proof (induction u)
  case Nil
  then show ?case using HasPrefix_append [of sub v] by (cases "sub @ v") auto
qed simp

lemma Split_not_Nil [simp]: "Split sep s \<noteq> []"
  by (cases s) (auto split: list.split)

lemma Join_Cons: "ws \<noteq> [] \<Longrightarrow> Join sep (w # ws) = w @ sep # Join sep ws"
  by (cases ws) auto

text \<open>Joining the parts of a split gives the string back, for every string.\<close>

lemma Join_Split: "Join sep (Split sep s) = s"
proof (induction s)
  case (Cons c s)
  show ?case
  proof (cases "Split sep s")
    case Nil
    then show ?thesis by simp
  next
    case (Cons w ws)
    then show ?thesis using Cons.IH by (cases ws) (auto simp: Join_Cons)
  qed
qed simp

lemma Split_parts: "w \<in> set (Split sep s) \<Longrightarrow> sep \<notin> set w"
proof (induction s arbitrary: w)
  case (Cons c s)
  show ?case
  proof (cases "Split sep s")
    case Nil
    then show ?thesis by simp
  next
    case (Cons v vs)
    then show ?thesis using Cons.IH Cons.prems by (auto split: if_splits)
  qed
qed simp

lemma Split_append_sep: "sep \<notin> set w \<Longrightarrow> Split sep (w @ sep # s) = w # Split sep s"
  by (induction w) auto

lemma Split_no_sep: "sep \<notin> set w \<Longrightarrow> Split sep w = [w]"
  by (induction w) auto

lemma Split_Join: "ws \<noteq> [] \<Longrightarrow> \<forall>w \<in> set ws. sep \<notin> set w \<Longrightarrow> Split sep (Join sep ws) = ws"
proof (induction sep ws rule: Join.induct)
  case (3 sep w v ws)
  then show ?case by (simp add: Split_append_sep)
qed (auto simp: Split_no_sep)

lemma Split_inject: "Split sep s = Split sep t \<Longrightarrow> s = t"
  by (metis Join_Split)

lemma Cut_found: "Cut sep s = (a, b, True) \<Longrightarrow> s = a @ sep # b \<and> sep \<notin> set a"
proof -
  assume c: "Cut sep s = (a, b, True)"
  obtain d rest where dr: "dropWhile (\<lambda>c. c \<noteq> sep) s = d # rest"
    and a: "a = takeWhile (\<lambda>c. c \<noteq> sep) s" and b: "b = rest"
    using c by (auto simp: Cut_def split: list.splits)
  have *: "s = takeWhile (\<lambda>c. c \<noteq> sep) s @ d # rest \<and> \<not> d \<noteq> sep"
    using dr by (rule dropWhile_eq_Cons_conv [THEN iffD1])
  then have "d = sep" by blast
  have "s = a @ sep # b" unfolding a b using * [THEN conjunct1] by (unfold \<open>d = sep\<close>)
  moreover have "sep \<notin> set a" using a by (auto dest: set_takeWhileD)
  ultimately show ?thesis by simp
qed

lemma Cut_append: "sep \<notin> set a \<Longrightarrow> Cut sep (a @ sep # b) = (a, b, True)"
proof -
  assume a: "sep \<notin> set a"
  then have "\<And>x. x \<in> set a \<Longrightarrow> x \<noteq> sep" by auto
  then show ?thesis by (simp add: Cut_def dropWhile_append2 takeWhile_append2)
qed

lemma TrimChar_id: "s \<noteq> [] \<Longrightarrow> hd s \<noteq> c \<Longrightarrow> last s \<noteq> c \<Longrightarrow> TrimChar c s = s"
proof -
  assume s: "s \<noteq> []" "hd s \<noteq> c" "last s \<noteq> c"
  have "dropWhile (\<lambda>d. d = c) s = s" using s(1,2) by (cases s) auto
  moreover have "dropWhile (\<lambda>d. d = c) (rev s) = rev s"
    using s(1,3) by (cases "rev s") (auto simp: last_rev hd_rev [symmetric])
  ultimately show ?thesis by (simp add: TrimChar_def)
qed

lemma TrimChar_ends:
  assumes "TrimChar c s \<noteq> []"
  shows "hd (TrimChar c s) \<noteq> c \<and> last (TrimChar c s) \<noteq> c"
proof -
  define t where "t = dropWhile (\<lambda>d. d = c) s"
  define u where "u = dropWhile (\<lambda>d. d = c) (rev t)"
  have T: "TrimChar c s = rev u" by (simp add: TrimChar_def t_def u_def)
  then have u: "u \<noteq> []" using assms by simp
  have "hd u \<noteq> c" using u unfolding u_def by (rule hd_dropWhile)
  moreover have "suffix u (rev t)" by (simp add: u_def suffix_dropWhile)
  then have "last u = last (rev t)" using u by (auto simp: suffix_def)
  moreover have "t \<noteq> []" using u by (auto simp: u_def)
  then have "hd t \<noteq> c" unfolding t_def by (rule hd_dropWhile)
  ultimately show ?thesis using u \<open>t \<noteq> []\<close> by (simp add: T hd_rev last_rev)
qed

lemma TrimChar_idem: "TrimChar c (TrimChar c s) = TrimChar c s"
proof (cases "TrimChar c s = []")
  case True
  show ?thesis unfolding True by (simp add: TrimChar_def)
next
  case False
  then show ?thesis using TrimChar_ends [OF False] by (simp add: TrimChar_id)
qed

lemma strip_left_Some:
  "List.find (\<lambda>w. w \<noteq> [] \<and> HasPrefix s w) ws = Some w \<Longrightarrow> strip_left ws s = strip_left ws (drop (length w) s)"
  by (simp add: strip_left.simps [of ws s])

lemma strip_left_None:
  "List.find (\<lambda>w. w \<noteq> [] \<and> HasPrefix s w) ws = None \<Longrightarrow> strip_left ws s = s"
  by (simp add: strip_left.simps [of ws s])

lemma strip_left_none:
  "\<forall>w \<in> set ws. w \<noteq> [] \<longrightarrow> \<not> HasPrefix s w \<Longrightarrow> strip_left ws s = s"
  by (rule strip_left_None) (auto simp: find_None_iff)

lemma strip_left_suffix: "suffix (strip_left ws s) s"
proof (induction ws s rule: strip_left.induct)
  case (1 ws s)
  show ?case
  proof (cases "List.find (\<lambda>w. w \<noteq> [] \<and> HasPrefix s w) ws")
    case None
    then show ?thesis by (simp add: strip_left_None)
  next
    case (Some w)
    then have "suffix (strip_left ws (drop (length w) s)) (drop (length w) s)" by (rule "1.IH")
    also have "suffix (drop (length w) s) s" by (rule suffix_drop)
    finally have "suffix (strip_left ws (drop (length w) s)) s" .
    then show ?thesis by (simp only: strip_left_Some [OF Some])
  qed
qed

lemma strip_left_no_prefix: "w \<in> set ws \<Longrightarrow> w \<noteq> [] \<Longrightarrow> \<not> HasPrefix (strip_left ws s) w"
proof (induction ws s rule: strip_left.induct)
  case (1 ws s)
  show ?case
  proof (cases "List.find (\<lambda>w. w \<noteq> [] \<and> HasPrefix s w) ws")
    case None
    then show ?thesis using "1.prems" by (auto simp: strip_left_None dest: find_NoneD)
  next
    case (Some v)
    then show ?thesis using "1.IH" "1.prems" by (simp add: strip_left_Some)
  qed
qed

lemma TrimSpace_idem: "TrimSpace (TrimSpace s) = TrimSpace s"
proof -
  define l where "l = strip_left white_space s"
  define r where "r = strip_left (map rev white_space) (rev l)"
  have "suffix r (rev l)" by (simp add: r_def strip_left_suffix)
  then have pre: "prefix (rev r) l" by (simp add: suffix_to_prefix)
  have l0: "\<not> HasPrefix (rev r) w" if "w \<in> set white_space" "w \<noteq> []" for w
  proof
    assume "HasPrefix (rev r) w"
    then have "HasPrefix l w" using pre by (auto simp: HasPrefix_prefix intro: prefix_order.trans)
    then show False using strip_left_no_prefix [OF that, of s] by (simp add: l_def)
  qed
  have "strip_left white_space (rev r) = rev r" by (rule strip_left_none) (use l0 in blast)
  moreover have "strip_left (map rev white_space) r = r"
    by (rule strip_left_none) (auto simp: r_def strip_left_no_prefix)
  ultimately show ?thesis by (simp add: TrimSpace_def l_def [symmetric] r_def [symmetric])
qed

lemma lower_char_idem: "lower_char (lower_char c) = lower_char c"
proof -
  have "\<forall>d \<in> set lower_letters. lower_char d = d" by code_simp
  moreover have "lower_char c = c \<or> lower_char c \<in> set lower_letters"
    by (auto simp: lower_char_def split: option.split dest!: map_of_SomeD set_zip_rightD)
  ultimately show ?thesis by auto
qed

lemma ToLower_idem: "ToLower (ToLower s) = ToLower s"
  by (simp add: ToLower_def lower_char_idem)

lemma upper_char_idem: "upper_char (upper_char c) = upper_char c"
proof -
  have "\<forall>d \<in> set upper_letters. upper_char d = d" by code_simp
  moreover have "upper_char c = c \<or> upper_char c \<in> set upper_letters"
    by (auto simp: upper_char_def split: option.split dest!: map_of_SomeD set_zip_rightD)
  ultimately show ?thesis by auto
qed

lemma ToUpper_idem: "ToUpper (ToUpper s) = ToUpper s"
  by (simp add: ToUpper_def upper_char_idem)

lemma Itoa_not_Nil [simp]: "Itoa n \<noteq> []"
  by (subst Itoa.simps) simp

end
