(* ===== verification/DbWorld.thy ===== *)
theory DbWorld
  imports GoStrings
begin

text \<open>
  The world of a process that works on a database shared with other processes.

  A statement outside a transaction is atomic; before it runs, other processes may have changed the
  database. What they did is given by the \<open>script\<close> of the world, one entry for each statement: a
  function on the database and a fault (none, or a driver error raised before or after the statement
  took effect). A transaction runs its statements without interference between them. The clock, the
  random source and the cancellation of the caller's context are inputs of the world too, so a
  theorem that holds for every world holds for every interleaving, crash and clock.

  The second half is a rely/guarantee logic for such computations: the locale \<open>rely_guarantee\<close>
  fixes an invariant of the database and a relation that every process may assume of the others and
  must keep itself; its lemmas are the proof rules. TaskSafety interprets it for the task store.
\<close>

section \<open>The world and its primitives\<close>

datatype 'k fault = NoFault | FaultBefore "'k goerr" | FaultAfter "'k goerr"

record ('k, 'd) world =
  db :: 'd
  script :: "('k fault \<times> ('d \<Rightarrow> 'd)) list"
  clock :: int
  ticks :: "int list"
  entropy :: "nat list"
  ctx_errs :: "'k goerr option list"

type_synonym ('k, 'd, 'a) dbop = "('k goerr, ('k, 'd) world, 'a) eff"
type_synonym ('k, 'd, 'a) sql = "'d \<Rightarrow> ('k goerr + 'a) \<times> 'd"

definition run_sql :: "'k fault \<Rightarrow> ('k, 'd, 'a) sql \<Rightarrow> ('k, 'd, 'a) sql" where
  "run_sql flt f d = (case flt of
     NoFault \<Rightarrow> f d
   | FaultBefore e \<Rightarrow> (Inl e, d)
   | FaultAfter e \<Rightarrow> (Inl e, snd (f d)))"

text \<open>One statement outside a transaction: interference, then the fault or the statement.\<close>

definition stmt :: "('k, 'd, 'a) sql \<Rightarrow> ('k, 'd, 'a) dbop" where
  "stmt f w = (case script w of
     [] \<Rightarrow> (case f (db w) of (r, d) \<Rightarrow> (r, w\<lparr>db := d\<rparr>))
   | (flt, env) # rest \<Rightarrow>
       (case run_sql flt f (env (db w)) of (r, d) \<Rightarrow> (r, w\<lparr>db := d, script := rest\<rparr>)))"

text \<open>One statement inside a transaction: no interference, a fault may still occur.\<close>

definition tx_stmt :: "('k, 'd, 'a) sql \<Rightarrow> ('k, 'd, 'a) dbop" where
  "tx_stmt f w = (case script w of
     [] \<Rightarrow> (case f (db w) of (r, d) \<Rightarrow> (r, w\<lparr>db := d\<rparr>))
   | (flt, env) # rest \<Rightarrow>
       (case run_sql flt f (db w) of (r, d) \<Rightarrow> (r, w\<lparr>db := d, script := rest\<rparr>)))"

text \<open>
  A transaction: begin, the body, commit. An error restores the database as it was after the begin,
  except an error that the driver reports for a commit that took effect.
\<close>

definition transaction :: "('k, 'd, 'a) dbop \<Rightarrow> ('k, 'd, 'a) dbop" where
  "transaction body =
     bindE (stmt (\<lambda>d. (Inr (), d))) (\<lambda>_ w.
       case body w of
         (Inl e, w') \<Rightarrow> (Inl e, w'\<lparr>db := db w\<rparr>)
       | (Inr x, w') \<Rightarrow>
           (case script w' of
              [] \<Rightarrow> (Inr x, w')
            | (FaultBefore e, env) # rest \<Rightarrow> (Inl e, w'\<lparr>db := db w, script := rest\<rparr>)
            | (FaultAfter e, env) # rest \<Rightarrow> (Inl e, w'\<lparr>script := rest\<rparr>)
            | (NoFault, env) # rest \<Rightarrow> (Inr x, w'\<lparr>script := rest\<rparr>)))"

text \<open>\<open>time.Now()\<close> in nanoseconds, and \<open>time.Now().Unix()\<close>.\<close>

definition now_nanos :: "('k, 'd, int) dbop" where
  "now_nanos w = (case ticks w of
     [] \<Rightarrow> (Inr (clock w), w)
   | d # ds \<Rightarrow> (Inr (clock w + d), w\<lparr>clock := clock w + d, ticks := ds\<rparr>))"

definition now :: "('k, 'd, int) dbop" where
  "now = bindE now_nanos (\<lambda>n. returnE (n div 1000000000))"

lemma now_code [code]:
  "now w = (case now_nanos w of (Inl e, w') \<Rightarrow> (Inl e, w') | (Inr n, w') \<Rightarrow> (Inr (n div 1000000000), w'))"
  by (simp add: now_def bindE_def returnE_def split: prod.split sum.split)

text \<open>A number drawn from \<open>crypto/rand\<close>.\<close>

definition draw :: "('k, 'd, nat) dbop" where
  "draw w = (case entropy w of
     [] \<Rightarrow> (Inr 0, w)
   | n # ns \<Rightarrow> (Inr n, w\<lparr>entropy := ns\<rparr>))"

text \<open>\<open>ctx.Err()\<close>, or a select that leaves when the context is done.\<close>

definition ctx_err :: "('k, 'd, 'k goerr option) dbop" where
  "ctx_err w = (case ctx_errs w of
     [] \<Rightarrow> (Inr None, w)
   | e # es \<Rightarrow> (Inr e, w\<lparr>ctx_errs := es\<rparr>))"

definition hex_digit :: "nat \<Rightarrow> char" where
  "hex_digit n = ''0123456789abcdef'' ! (n mod 16)"

text \<open>\<open>hex.EncodeToString\<close> of a number of \<open>k\<close> hexadecimal digits, most significant digit first.\<close>

primrec hex_string :: "nat \<Rightarrow> nat \<Rightarrow> string" where
  "hex_string 0 n = []"
| "hex_string (Suc k) n = hex_string k (n div 16) @ [hex_digit n]"

lemma length_hex_string [simp]: "length (hex_string k n) = k"
  by (induction k arbitrary: n) simp_all

lemma hex_string_not_Nil: "0 < k \<Longrightarrow> hex_string k n \<noteq> []"
  by (metis length_hex_string list.size(3) less_irrefl)

section \<open>The rely/guarantee logic\<close>

text \<open>Every entry of the script keeps the invariant and stays inside the relation.\<close>

definition env_ok :: "('d \<Rightarrow> bool) \<Rightarrow> ('d \<Rightarrow> 'd \<Rightarrow> bool) \<Rightarrow> ('k, 'd) world \<Rightarrow> bool" where
  "env_ok ok adv w \<longleftrightarrow> (\<forall>(flt, env) \<in> set (script w). \<forall>d. ok d \<longrightarrow> ok (env d) \<and> adv d (env d))"

text \<open>
  \<open>hoare ok adv P m Q\<close>: from a world whose other processes keep the relation, with the invariant and
  \<open>P\<close>, the computation \<open>m\<close> keeps the invariant and the relation, whatever its result is, and a
  result without an error satisfies \<open>Q\<close> on the database at that moment.
\<close>

definition hoare :: "('d \<Rightarrow> bool) \<Rightarrow> ('d \<Rightarrow> 'd \<Rightarrow> bool) \<Rightarrow> ('d \<Rightarrow> bool) \<Rightarrow> ('k, 'd, 'a) dbop \<Rightarrow>
    ('a \<Rightarrow> 'd \<Rightarrow> bool) \<Rightarrow> bool" where
  "hoare ok adv P m Q \<longleftrightarrow> (\<forall>w. env_ok ok adv w \<and> ok (db w) \<and> P (db w) \<longrightarrow>
     wp m (\<lambda>r w'. env_ok ok adv w' \<and> ok (db w') \<and> adv (db w) (db w') \<and>
                   (case r of Inl e \<Rightarrow> True | Inr x \<Rightarrow> Q x (db w'))) w)"

text \<open>The same inside a transaction, where the invariant may be broken for a while.\<close>

definition txh :: "('d \<Rightarrow> bool) \<Rightarrow> ('d \<Rightarrow> 'd \<Rightarrow> bool) \<Rightarrow> ('d \<Rightarrow> bool) \<Rightarrow> ('k, 'd, 'a) dbop \<Rightarrow>
    ('a \<Rightarrow> 'd \<Rightarrow> bool) \<Rightarrow> bool" where
  "txh ok adv P m Q \<longleftrightarrow> (\<forall>w. env_ok ok adv w \<and> P (db w) \<longrightarrow>
     wp m (\<lambda>r w'. env_ok ok adv w' \<and> (case r of Inl e \<Rightarrow> True | Inr x \<Rightarrow> Q x (db w'))) w)"

definition stable :: "('d \<Rightarrow> bool) \<Rightarrow> ('d \<Rightarrow> 'd \<Rightarrow> bool) \<Rightarrow> ('d \<Rightarrow> bool) \<Rightarrow> bool" where
  "stable ok adv P \<longleftrightarrow> (\<forall>d d'. ok d \<and> ok d' \<and> adv d d' \<and> P d \<longrightarrow> P d')"

lemma env_ok_script: "script w' = script w \<Longrightarrow> env_ok ok adv w' = env_ok ok adv w"
  by (simp add: env_ok_def)

lemma env_ok_tail: "env_ok ok adv w \<Longrightarrow> script w = e # rest \<Longrightarrow> script w' = rest \<Longrightarrow> env_ok ok adv w'"
  by (simp add: env_ok_def)

lemma env_ok_Nil: "script w = [] \<Longrightarrow> env_ok ok adv w"
  by (simp add: env_ok_def)

locale rely_guarantee =
  fixes ok :: "'d \<Rightarrow> bool" and adv :: "'d \<Rightarrow> 'd \<Rightarrow> bool"
  assumes adv_refl: "ok d \<Longrightarrow> adv d d"
    and adv_trans: "ok d \<Longrightarrow> ok d' \<Longrightarrow> ok d'' \<Longrightarrow> adv d d' \<Longrightarrow> adv d' d'' \<Longrightarrow> adv d d''"
begin

lemma hoare_bind:
  fixes m :: "('k, 'd, 'a) dbop"
  assumes m: "hoare ok adv P m R" and f: "\<And>x. hoare ok adv (R x) (f x) Q"
  shows "hoare ok adv P (bindE m f) Q"
  unfolding hoare_def
proof (intro allI impI)
  fix w :: "('k, 'd) world"
  assume w: "env_ok ok adv w \<and> ok (db w) \<and> P (db w)"
  show "wp (bindE m f) (\<lambda>r w'. env_ok ok adv w' \<and> ok (db w') \<and> adv (db w) (db w') \<and>
      (case r of Inl e \<Rightarrow> True | Inr x \<Rightarrow> Q x (db w'))) w"
  proof (rule wp_bindI)
    show "wp m (\<lambda>r w'. env_ok ok adv w' \<and> ok (db w') \<and> adv (db w) (db w') \<and>
        (case r of Inl e \<Rightarrow> True | Inr x \<Rightarrow> R x (db w'))) w"
      using m w by (simp add: hoare_def)
  next
    fix x and w' :: "('k, 'd) world"
    assume w': "env_ok ok adv w' \<and> ok (db w') \<and> adv (db w) (db w') \<and>
      (case Inr x of Inl e \<Rightarrow> True | Inr x \<Rightarrow> R x (db w'))"
    then have "wp (f x) (\<lambda>r w''. env_ok ok adv w'' \<and> ok (db w'') \<and> adv (db w') (db w'') \<and>
        (case r of Inl e \<Rightarrow> True | Inr x \<Rightarrow> Q x (db w''))) w'"
      using f [of x] by (simp add: hoare_def)
    then show "wp (f x) (\<lambda>r w''. env_ok ok adv w'' \<and> ok (db w'') \<and> adv (db w) (db w'') \<and>
        (case r of Inl e \<Rightarrow> True | Inr x \<Rightarrow> Q x (db w''))) w'"
      using w w' by (auto elim!: wp_mono intro: adv_trans)
  qed simp
qed

lemma hoare_return: "(\<And>d. ok d \<Longrightarrow> P d \<Longrightarrow> Q x d) \<Longrightarrow> hoare ok adv P (returnE x) Q"
  by (auto simp: hoare_def wp_simps adv_refl)

lemma hoare_throw: "hoare ok adv P (throwE e) Q"
  by (auto simp: hoare_def wp_simps adv_refl)

lemma hoare_pre: "hoare ok adv R m Q \<Longrightarrow> (\<And>d. ok d \<Longrightarrow> P d \<Longrightarrow> R d) \<Longrightarrow> hoare ok adv P m Q"
  by (auto simp: hoare_def)

lemma hoare_post: "hoare ok adv P m R \<Longrightarrow> (\<And>x d. ok d \<Longrightarrow> R x d \<Longrightarrow> Q x d) \<Longrightarrow> hoare ok adv P m Q"
  by (fastforce simp: hoare_def elim!: wp_mono split: sum.splits)

lemma hoare_top: "hoare ok adv P m R \<Longrightarrow> hoare ok adv P m (\<lambda>x d. True)"
  by (erule hoare_post) simp

lemma hoare_frame:
  fixes m :: "('k, 'd, 'a) dbop"
  assumes m: "hoare ok adv P m Q" and R: "stable ok adv R"
  shows "hoare ok adv (\<lambda>d. P d \<and> R d) m (\<lambda>x d. Q x d \<and> R d)"
  unfolding hoare_def
proof (intro allI impI)
  fix w :: "('k, 'd) world"
  assume w: "env_ok ok adv w \<and> ok (db w) \<and> P (db w) \<and> R (db w)"
  then have "wp m (\<lambda>r w'. env_ok ok adv w' \<and> ok (db w') \<and> adv (db w) (db w') \<and>
      (case r of Inl e \<Rightarrow> True | Inr x \<Rightarrow> Q x (db w'))) w"
    using m by (simp add: hoare_def)
  then show "wp m (\<lambda>r w'. env_ok ok adv w' \<and> ok (db w') \<and> adv (db w) (db w') \<and>
      (case r of Inl e \<Rightarrow> True | Inr x \<Rightarrow> Q x (db w') \<and> R (db w'))) w"
    using w R by (auto elim!: wp_mono split: sum.splits simp: stable_def)
qed

lemma hoare_attempt:
  "hoare ok adv P m R \<Longrightarrow>
   hoare ok adv P (attemptE m) (\<lambda>r d. case r of Inl e \<Rightarrow> True | Inr x \<Rightarrow> R x d)"
  by (fastforce simp: hoare_def wp_simps elim!: wp_mono)

lemma hoare_if:
  "(b \<Longrightarrow> hoare ok adv P m Q) \<Longrightarrow> (\<not> b \<Longrightarrow> hoare ok adv P n Q) \<Longrightarrow>
   hoare ok adv P (if b then m else n) Q"
  by simp

lemma hoare_option:
  "(x = None \<Longrightarrow> hoare ok adv P m Q) \<Longrightarrow> (\<And>y. x = Some y \<Longrightarrow> hoare ok adv P (f y) Q) \<Longrightarrow>
   hoare ok adv P (case x of None \<Rightarrow> m | Some y \<Rightarrow> f y) Q"
  by (cases x) auto

lemma hoare_sum:
  "(\<And>e. x = Inl e \<Longrightarrow> hoare ok adv P (g e) Q) \<Longrightarrow> (\<And>y. x = Inr y \<Longrightarrow> hoare ok adv P (f y) Q) \<Longrightarrow>
   hoare ok adv P (case x of Inl e \<Rightarrow> g e | Inr y \<Rightarrow> f y) Q"
  by (cases x) auto

lemma hoare_now_nanos: "hoare ok adv P now_nanos (\<lambda>n. P)"
  by (auto simp: hoare_def wp_def now_nanos_def adv_refl env_ok_def split: list.split)

lemma hoare_now: "hoare ok adv P now (\<lambda>n. P)"
  unfolding now_def by (rule hoare_bind [OF hoare_now_nanos]) (rule hoare_return)

lemma hoare_draw: "hoare ok adv P draw (\<lambda>n. P)"
  by (auto simp: hoare_def wp_def draw_def adv_refl env_ok_def split: list.split)

lemma hoare_ctx_err: "hoare ok adv P ctx_err (\<lambda>e. P)"
  by (auto simp: hoare_def wp_def ctx_err_def adv_refl env_ok_def split: list.split)

text \<open>A statement: the interference first, which the precondition must survive, then its effect.\<close>

lemma hoare_stmt:
  fixes f :: "('k, 'd, 'a) sql"
  assumes P: "stable ok adv P"
    and f: "\<And>d r d'. ok d \<Longrightarrow> P d \<Longrightarrow> f d = (r, d') \<Longrightarrow>
      ok d' \<and> adv d d' \<and> (case r of Inl e \<Rightarrow> True | Inr x \<Rightarrow> Q x d')"
  shows "hoare ok adv P (stmt f) Q"
  unfolding hoare_def
proof (intro allI impI)
  fix w :: "('k, 'd) world"
  assume w: "env_ok ok adv w \<and> ok (db w) \<and> P (db w)"
  show "wp (stmt f) (\<lambda>r w'. env_ok ok adv w' \<and> ok (db w') \<and> adv (db w) (db w') \<and>
      (case r of Inl e \<Rightarrow> True | Inr x \<Rightarrow> Q x (db w'))) w"
  proof (cases "script w")
    case Nil
    obtain r d' where fd: "f (db w) = (r, d')" by (cases "f (db w)")
    with Nil show ?thesis using f [OF _ _ fd] w by (cases r) (auto simp: wp_def stmt_def env_ok_def)
  next
    case (Cons a rest)
    obtain flt env where a: "a = (flt, env)" by (cases a)
    let ?d = "env (db w)"
    have d: "ok ?d" "adv (db w) ?d" using w Cons a by (auto simp: env_ok_def)
    then have Pd: "P ?d" using P w unfolding stable_def by blast
    obtain r d' where fd: "f ?d = (r, d')" by (cases "f ?d")
    note e = f [OF d(1) Pd fd]
    then have t: "adv (db w) d'" using d w adv_trans [of "db w" ?d d'] by blast
    have "env_ok ok adv (w\<lparr>db := x, script := rest\<rparr>)" for x
      using w Cons by (auto simp: env_ok_def)
    with e t d Cons a fd show ?thesis
      by (cases flt; cases r) (auto simp: wp_def stmt_def run_sql_def)
  qed
qed

lemma txh_bind:
  fixes m :: "('k, 'd, 'a) dbop"
  assumes "txh ok adv P m R" and "\<And>x. txh ok adv (R x) (f x) Q"
  shows "txh ok adv P (bindE m f) Q"
  unfolding txh_def
proof (intro allI impI)
  fix w :: "('k, 'd) world"
  assume w: "env_ok ok adv w \<and> P (db w)"
  show "wp (bindE m f) (\<lambda>r w'. env_ok ok adv w' \<and> (case r of Inl e \<Rightarrow> True | Inr x \<Rightarrow> Q x (db w'))) w"
    by (rule wp_bindI [where R = "\<lambda>r w'. env_ok ok adv w' \<and> (case r of Inl e \<Rightarrow> True | Inr x \<Rightarrow> R x (db w'))"])
      (use assms w in \<open>auto simp: txh_def\<close>)
qed

lemma txh_return: "(\<And>d. P d \<Longrightarrow> Q x d) \<Longrightarrow> txh ok adv P (returnE x) Q"
  by (auto simp: txh_def wp_simps)

lemma txh_throw: "txh ok adv P (throwE e) Q"
  by (auto simp: txh_def wp_simps)

lemma txh_pre: "txh ok adv R m Q \<Longrightarrow> (\<And>d. P d \<Longrightarrow> R d) \<Longrightarrow> txh ok adv P m Q"
  by (auto simp: txh_def)

lemma txh_if:
  "(b \<Longrightarrow> txh ok adv P m Q) \<Longrightarrow> (\<not> b \<Longrightarrow> txh ok adv P n Q) \<Longrightarrow> txh ok adv P (if b then m else n) Q"
  by simp

lemma txh_attempt:
  "txh ok adv P m R \<Longrightarrow>
   txh ok adv P (attemptE m) (\<lambda>r d. case r of Inl e \<Rightarrow> True | Inr x \<Rightarrow> R x d)"
  by (fastforce simp: txh_def wp_simps elim!: wp_mono)

lemma txh_sum:
  "(\<And>e. x = Inl e \<Longrightarrow> txh ok adv P (g e) Q) \<Longrightarrow> (\<And>y. x = Inr y \<Longrightarrow> txh ok adv P (f y) Q) \<Longrightarrow>
   txh ok adv P (case x of Inl e \<Rightarrow> g e | Inr y \<Rightarrow> f y) Q"
  by (cases x) auto

lemma txh_now: "txh ok adv P now (\<lambda>n. P)"
  by (auto simp: txh_def now_def wp_simps wp_def now_nanos_def env_ok_def returnE_def bindE_def
      split: list.split)

lemma txh_draw: "txh ok adv P draw (\<lambda>n. P)"
  by (auto simp: txh_def wp_def draw_def env_ok_def split: list.split)

lemma txh_stmt:
  fixes f :: "('k, 'd, 'a) sql"
  assumes "\<And>d x d'. P d \<Longrightarrow> f d = (Inr x, d') \<Longrightarrow> Q x d'"
  shows "txh ok adv P (tx_stmt f) Q"
  unfolding txh_def
proof (intro allI impI)
  fix w :: "('k, 'd) world"
  assume w: "env_ok ok adv w \<and> P (db w)"
  obtain r d' where fd: "f (db w) = (r, d')" by (cases "f (db w)")
  show "wp (tx_stmt f) (\<lambda>r w'. env_ok ok adv w' \<and> (case r of Inl e \<Rightarrow> True | Inr x \<Rightarrow> Q x (db w'))) w"
  proof (cases "script w")
    case Nil
    then show ?thesis
      using w fd assms [of "db w"] by (cases r) (auto simp: wp_def tx_stmt_def env_ok_def)
  next
    case (Cons a rest)
    obtain flt env where a: "a = (flt, env)" by (cases a)
    have "env_ok ok adv (w\<lparr>db := x, script := rest\<rparr>)" "env_ok ok adv (w\<lparr>script := rest\<rparr>)" for x
      using w Cons by (auto simp: env_ok_def)
    then show ?thesis
      using w fd assms [of "db w"] Cons a
      by (cases flt; cases r) (auto simp: wp_def tx_stmt_def run_sql_def)
  qed
qed

text \<open>A transaction: what its body does to the database from where it began is one step.\<close>

lemma hoare_transaction:
  fixes body :: "('k, 'd, 'a) dbop"
  assumes P: "stable ok adv P"
    and body: "\<And>d0. ok d0 \<Longrightarrow> P d0 \<Longrightarrow> txh ok adv (\<lambda>d. d = d0) body (\<lambda>x d. ok d \<and> adv d0 d \<and> Q x d)"
  shows "hoare ok adv P (transaction body) Q"
  unfolding transaction_def
proof (rule hoare_bind)
  show "hoare ok adv P (stmt (\<lambda>d. (Inr (), d))) (\<lambda>_. P)"
    by (rule hoare_stmt [OF P]) (auto simp: adv_refl)
next
  fix u
  show "hoare ok adv P (\<lambda>w. case body w of
       (Inl e, w') \<Rightarrow> (Inl e, w'\<lparr>db := db w\<rparr>)
     | (Inr x, w') \<Rightarrow> (case script w' of [] \<Rightarrow> (Inr x, w')
            | (FaultBefore e, env) # rest \<Rightarrow> (Inl e, w'\<lparr>db := db w, script := rest\<rparr>)
            | (FaultAfter e, env) # rest \<Rightarrow> (Inl e, w'\<lparr>script := rest\<rparr>)
            | (NoFault, env) # rest \<Rightarrow> (Inr x, w'\<lparr>script := rest\<rparr>))) Q"
    unfolding hoare_def
  proof (intro allI impI)
    fix w :: "('k, 'd) world"
    assume w: "env_ok ok adv w \<and> ok (db w) \<and> P (db w)"
    obtain r w' where b: "body w = (r, w')" by (cases "body w")
    have B: "env_ok ok adv w'" "\<And>x. r = Inr x \<Longrightarrow> ok (db w') \<and> adv (db w) (db w') \<and> Q x (db w')"
      using body [of "db w"] w b by (auto simp: txh_def wp_def)
    show "wp (\<lambda>w. case body w of
       (Inl e, w') \<Rightarrow> (Inl e, w'\<lparr>db := db w\<rparr>)
     | (Inr x, w') \<Rightarrow> (case script w' of [] \<Rightarrow> (Inr x, w')
            | (FaultBefore e, env) # rest \<Rightarrow> (Inl e, w'\<lparr>db := db w, script := rest\<rparr>)
            | (FaultAfter e, env) # rest \<Rightarrow> (Inl e, w'\<lparr>script := rest\<rparr>)
            | (NoFault, env) # rest \<Rightarrow> (Inr x, w'\<lparr>script := rest\<rparr>)))
       (\<lambda>r w'. env_ok ok adv w' \<and> ok (db w') \<and> adv (db w) (db w') \<and>
          (case r of Inl e \<Rightarrow> True | Inr x \<Rightarrow> Q x (db w'))) w"
      using B w b by (cases r) (auto simp: wp_def adv_refl env_ok_def split: list.split fault.split)
  qed
qed

end

end
