(* ===== verification/TaskStore.thy ===== *)
theory TaskStore
  imports DbWorld
begin

text \<open>
  The durable task store of the agent module (\<open>extensions/agent/tasks/tasks.go\<close>): its rows, its
  tables with the SQL statements the code runs on them, and the retried transaction. The world the
  statements run in (other processes, faults, clock, random source) is that of DbWorld.
\<close>

section \<open>Rows\<close>

datatype task_status =
    StatusQueued | StatusRunning | StatusWaiting | StatusSucceeded
  | StatusFailed | StatusCanceled | StatusTimedOut | StatusUnknown

fun status_text :: "task_status \<Rightarrow> string" where
  "status_text StatusQueued = ''queued''"
| "status_text StatusRunning = ''running''"
| "status_text StatusWaiting = ''waiting_approval''"
| "status_text StatusSucceeded = ''succeeded''"
| "status_text StatusFailed = ''failed''"
| "status_text StatusCanceled = ''canceled''"
| "status_text StatusTimedOut = ''timed_out''"
| "status_text StatusUnknown = ''unknown''"

datatype task_err_kind = ErrNoRows | ErrUnknownResult

type_synonym terr = "task_err_kind goerr"

record task =
  tID :: string
  tTenantID :: string
  tOwner :: string
  tIdempotencyKey :: string
  tKind :: string
  tTool :: string
  tArgs :: string
  tArgsHash :: string
  tPolicyVersion :: string
  tStatus :: task_status
  tVersion :: int
  tExecNonce :: string
  tReservedTokens :: int
  tLeaseOwner :: string
  tLeaseExpires :: int
  tBudgetTokens :: int
  tApprovalID :: string
  tResult :: string
  tErrorText :: string
  tAttempts :: int
  tMaxAttempts :: int
  tExpiresAt :: int
  tCreatedAt :: int
  tUpdatedAt :: int

record approval =
  aID :: string
  aTenantID :: string
  aOperator :: string
  aTool :: string
  aArgsHash :: string
  aPolicyVersion :: string
  aExpiresAt :: int
  aConsumed :: bool
  aConsumedBy :: string
  aCreatedAt :: int

record audit =
  uID :: string
  uTaskID :: string
  uTenantID :: string
  uActor :: string
  uAction :: string
  uToStatus :: task_status
  uApprovalID :: string
  uUsage :: int
  uCreatedAt :: int

record outcome =
  oResult :: string
  oUsage :: int
  oRetryable :: bool
  oErr :: "terr option"

text \<open>\<open>&Task{}\<close>, the zero value (the status is set before it is ever stored).\<close>

definition zero_task :: task where
  "zero_task = \<lparr>tID = [], tTenantID = [], tOwner = [], tIdempotencyKey = [], tKind = [], tTool = [],
     tArgs = [], tArgsHash = [], tPolicyVersion = [], tStatus = StatusQueued, tVersion = 0,
     tExecNonce = [], tReservedTokens = 0, tLeaseOwner = [], tLeaseExpires = 0, tBudgetTokens = 0,
     tApprovalID = [], tResult = [], tErrorText = [], tAttempts = 0, tMaxAttempts = 0,
     tExpiresAt = 0, tCreatedAt = 0, tUpdatedAt = 0\<rparr>"

section \<open>The database\<close>

record tables =
  agent_tasks :: "task list"
  agent_approvals :: "approval list"
  agent_task_audit :: "audit list"

type_synonym 'a taskop = "(task_err_kind, tables, 'a) dbop"
type_synonym 'a tasksql = "(task_err_kind, tables, 'a) sql"

text \<open>The store's configuration: the policy generation, the crash hooks, and the digest function
  of \<open>crypto/sha256\<close> with \<open>encoding/hex\<close>, which is a parameter of the model.\<close>

record store =
  PolicyVersion :: string
  BeforeClaim :: "(task \<Rightarrow> terr option) option"
  BeforeExecute :: "(task \<Rightarrow> terr option) option"
  BeforeStore :: "(task \<Rightarrow> terr option) option"
  BeforeApprovalCommit :: "(task \<Rightarrow> terr option) option"
  sha256hex :: "string \<Rightarrow> string"

text \<open>\<open>newID()\<close>: 16 random bytes in hexadecimal.\<close>

definition newID :: "string taskop" where
  "newID = bindE draw (\<lambda>n. returnE (hex_string 32 n))"

lemma newID_code [code]:
  "newID w = (case draw w of (Inl e, w') \<Rightarrow> (Inl e, w') | (Inr n, w') \<Rightarrow> (Inr (hex_string 32 n), w'))"
  by (simp add: newID_def bindE_def returnE_def split: prod.split sum.split)

section \<open>SQL statements\<close>

text \<open>The tables of a fresh database, as the schema of \<open>MigrationUp\<close> creates them.\<close>

definition empty_tables :: tables where
  "empty_tables = \<lparr>agent_tasks = [], agent_approvals = [], agent_task_audit = []\<rparr>"

definition task_key :: "task \<Rightarrow> string \<times> string" where
  "task_key t = (tTenantID t, tIdempotencyKey t)"

text \<open>\<open>PRIMARY KEY (id)\<close> and \<open>UNIQUE (tenant_id, idempotency_key)\<close> of the schema.\<close>

definition tasks_unique :: "task list \<Rightarrow> bool" where
  "tasks_unique rows \<longleftrightarrow> distinct (map tID rows) \<and> distinct (map task_key rows)"

definition unique_violation :: terr where
  "unique_violation = errorf ''UNIQUE constraint failed''"

definition insert_task :: "task \<Rightarrow> unit tasksql" where
  "insert_task t d =
     (let rows = agent_tasks d @ [t] in
      if tasks_unique rows then (Inr (), d\<lparr>agent_tasks := rows\<rparr>) else (Inl unique_violation, d))"

definition insert_approval :: "approval \<Rightarrow> unit tasksql" where
  "insert_approval a d =
     (let rows = agent_approvals d @ [a] in
      if distinct (map aID rows) then (Inr (), d\<lparr>agent_approvals := rows\<rparr>)
      else (Inl unique_violation, d))"

definition insert_audit :: "audit \<Rightarrow> unit tasksql" where
  "insert_audit u d =
     (let rows = agent_task_audit d @ [u] in
      if distinct (map uID rows) then (Inr (), d\<lparr>agent_task_audit := rows\<rparr>)
      else (Inl unique_violation, d))"

text \<open>\<open>UPDATE agent_tasks SET f WHERE P\<close>; the result is the number of rows affected.\<close>

definition update_tasks :: "(task \<Rightarrow> bool) \<Rightarrow> (task \<Rightarrow> task) \<Rightarrow> nat tasksql" where
  "update_tasks P f d =
     (let rows = upd_where P f (agent_tasks d) in
      if tasks_unique rows then (Inr (count_where P (agent_tasks d)), d\<lparr>agent_tasks := rows\<rparr>)
      else (Inl unique_violation, d))"

definition update_approvals :: "(approval \<Rightarrow> bool) \<Rightarrow> (approval \<Rightarrow> approval) \<Rightarrow> nat tasksql" where
  "update_approvals P f d =
     (Inr (count_where P (agent_approvals d)),
      d\<lparr>agent_approvals := upd_where P f (agent_approvals d)\<rparr>)"

definition no_rows :: terr where
  "no_rows = sentinel ErrNoRows ''sql: no rows in result set''"

definition select_row :: "('r \<Rightarrow> bool) \<Rightarrow> (tables \<Rightarrow> 'r list) \<Rightarrow> 'r tasksql" where
  "select_row P tab d = (case List.find P (tab d) of None \<Rightarrow> (Inl no_rows, d) | Some r \<Rightarrow> (Inr r, d))"

text \<open>\<open>insertTaskSQL\<close>, \<open>selectTaskSQL\<close> and the full-row \<open>updateTaskColumns\<close> list, which leaves out
  \<open>id\<close> and \<open>created_at\<close>.\<close>

definition updateTaskArgs :: "task \<Rightarrow> task \<Rightarrow> task" where
  "updateTaskArgs t r = t\<lparr>tID := tID r, tCreatedAt := tCreatedAt r\<rparr>"

definition get :: "string \<Rightarrow> task taskop" where
  "get i = stmt (select_row (\<lambda>t. tID t = i) agent_tasks)"

definition getOn :: "string \<Rightarrow> task taskop" where
  "getOn i = tx_stmt (select_row (\<lambda>t. tID t = i) agent_tasks)"

definition getByTenantKey :: "string \<Rightarrow> string \<Rightarrow> task taskop" where
  "getByTenantKey tenant key =
     bindE (stmt (select_row (\<lambda>t. tTenantID t = tenant \<and> tIdempotencyKey t = key) agent_tasks))
       (\<lambda>t. get (tID t))"

definition updateWhere :: "task \<Rightarrow> (task \<Rightarrow> bool) \<Rightarrow> bool taskop" where
  "updateWhere t cond =
     bindE (stmt (update_tasks cond (updateTaskArgs t))) (\<lambda>affected. returnE (affected = 1))"

definition updateWhereOn :: "task \<Rightarrow> (task \<Rightarrow> bool) \<Rightarrow> bool taskop" where
  "updateWhereOn t cond =
     bindE (tx_stmt (update_tasks cond (updateTaskArgs t))) (\<lambda>affected. returnE (affected = 1))"

section \<open>Error classes and transactions\<close>

definition isUniqueViolation :: "terr \<Rightarrow> bool" where
  "isUniqueViolation e \<longleftrightarrow> Contains (err_text e) ''UNIQUE constraint'' \<or>
     Contains (err_text e) ''Duplicate entry'' \<or> Contains (err_text e) ''duplicate key''"

definition isLockContention :: "terr \<Rightarrow> bool" where
  "isLockContention e \<longleftrightarrow>
     list_ex (Contains (err_text e))
       [''SQLITE_BUSY'', ''database is locked'', ''deadlock detected'', ''could not obtain lock'',
        ''SQLSTATE 40P01'', ''SQLSTATE 55P03'']"

definition transactOnce :: "'a taskop \<Rightarrow> 'a taskop" where
  "transactOnce body = transaction body"

text \<open>The retry loop of \<open>transact\<close>, with \<open>left\<close> attempts left after this one.\<close>

fun transact_loop :: "nat \<Rightarrow> 'a taskop \<Rightarrow> 'a taskop" where
  "transact_loop left body =
     bindE (attemptE (transactOnce body)) (\<lambda>r. case r of
       Inr x \<Rightarrow> returnE x
     | Inl e \<Rightarrow>
         (if \<not> isLockContention e then throwE e
          else (case left of
                  0 \<Rightarrow> throwE e
                | Suc n \<Rightarrow> bindE ctx_err (\<lambda>c. case c of
                             Some ce \<Rightarrow> throwE ce
                           | None \<Rightarrow> transact_loop n body))))"

declare transact_loop.simps [simp del]

lemma transact_loop_code [code]:
  "transact_loop left body w =
     bindE (attemptE (transactOnce body)) (\<lambda>r. case r of
       Inr x \<Rightarrow> returnE x
     | Inl e \<Rightarrow>
         (if \<not> isLockContention e then throwE e
          else (case left of
                  0 \<Rightarrow> throwE e
                | Suc n \<Rightarrow> bindE ctx_err (\<lambda>c. case c of
                             Some ce \<Rightarrow> throwE ce
                           | None \<Rightarrow> transact_loop n body)))) w"
  by (simp add: transact_loop.simps)

definition transact :: "'a taskop \<Rightarrow> 'a taskop" where
  "transact body = transact_loop 9 body"

end
