(* ===== verification/TaskOps.thy ===== *)
theory TaskOps
  imports TaskStore
begin

text \<open>
  The operations of \<open>Store\<close> and \<open>Worker\<close> (\<open>extensions/agent/tasks/tasks.go\<close>), each the composition
  of statements that the code runs, with its early returns and its errors. Statements of one
  operation that are not in a transaction can be separated by other processes (see TaskStore).
\<close>

section \<open>Small helpers\<close>

definition isTerminal :: "task_status \<Rightarrow> bool" where
  "isTerminal st \<longleftrightarrow>
     st \<in> {StatusSucceeded, StatusFailed, StatusCanceled, StatusTimedOut, StatusUnknown}"

definition ArgsHash :: "store \<Rightarrow> string \<Rightarrow> string" where
  "ArgsHash st args = sha256hex st (TrimSpace args)"

definition run_hook :: "(task \<Rightarrow> terr option) option \<Rightarrow> task \<Rightarrow> unit taskop" where
  "run_hook h t = (case h of
     None \<Rightarrow> returnE ()
   | Some f \<Rightarrow> (case f t of None \<Rightarrow> returnE () | Some e \<Rightarrow> throwE e))"

definition newApproval :: "string \<Rightarrow> task \<Rightarrow> approval taskop" where
  "newApproval policy t =
     bindE newID (\<lambda>i. bindE now (\<lambda>n1. bindE now (\<lambda>n2.
       returnE \<lparr>aID = ''apr_'' @ i, aTenantID = tTenantID t, aOperator = [], aTool = tTool t,
         aArgsHash = tArgsHash t, aPolicyVersion = policy, aExpiresAt = n1 + 3600,
         aConsumed = False, aConsumedBy = [], aCreatedAt = n2\<rparr>)))"

definition insertApprovalOn :: "approval \<Rightarrow> unit taskop" where
  "insertApprovalOn a = tx_stmt (insert_approval (a\<lparr>aConsumed := False, aConsumedBy := []\<rparr>))"

definition insertTaskOn :: "task \<Rightarrow> unit taskop" where
  "insertTaskOn t = tx_stmt (insert_task t)"

definition insertTaskAuditOn :: "task \<Rightarrow> string \<Rightarrow> string \<Rightarrow> int \<Rightarrow> unit taskop" where
  "insertTaskAuditOn t action actor usage =
     bindE newID (\<lambda>i. bindE now (\<lambda>n.
       tx_stmt (insert_audit \<lparr>uID = i, uTaskID = tID t, uTenantID = tTenantID t, uActor = actor,
         uAction = action, uToStatus = tStatus t, uApprovalID = tApprovalID t, uUsage = usage,
         uCreatedAt = n\<rparr>)))"

text \<open>\<open>insert\<close> of a task outside a transaction.\<close>

definition insert_row :: "task \<Rightarrow> unit taskop" where
  "insert_row t =
     bindE (attemptE (stmt (insert_task t))) (\<lambda>r. case r of
       Inr u \<Rightarrow> returnE u
     | Inl e \<Rightarrow> throwE (if isUniqueViolation e then wrapf ''duplicate task: '' e else e))"

section \<open>Submit\<close>

definition submit_body :: "store \<Rightarrow> task \<Rightarrow> unit taskop" where
  "submit_body st t =
     bindE (newApproval (PolicyVersion st) t) (\<lambda>a.
     bindE (attemptE (insertApprovalOn a)) (\<lambda>r. case r of
       Inl e \<Rightarrow> throwE (wrapf ''create approval: '' e)
     | Inr _ \<Rightarrow>
         (let t' = t\<lparr>tApprovalID := aID a, tStatus := StatusWaiting\<rparr> in
          bindE (insertTaskOn t') (\<lambda>_. insertTaskAuditOn t' ''submit'' (tOwner t') 0))))"

definition Submit :: "store \<Rightarrow> task \<Rightarrow> task taskop" where
  "Submit st task =
     (if TrimSpace (tTenantID task) = [] \<or> TrimSpace (tIdempotencyKey task) = []
      then throwE (errorf ''tenant and idempotency key are required'')
      else if tKind task \<noteq> ''readonly'' \<and> tKind task \<noteq> ''write''
      then throwE (errorf ''task kind must be readonly or write'')
      else (let task = (if tMaxAttempts task \<le> 0 then task\<lparr>tMaxAttempts := 3\<rparr> else task) in
        bindE (attemptE (getByTenantKey (tTenantID task) (tIdempotencyKey task))) (\<lambda>r. case r of
          Inr existing \<Rightarrow> returnE existing
        | Inl err \<Rightarrow>
            (if \<not> errors_is err ErrNoRows then throwE err
             else bindE newID (\<lambda>i. bindE now (\<lambda>n.
               (let t = task\<lparr>tID := i, tArgsHash := ArgsHash st (tArgs task),
                      tStatus := StatusQueued, tPolicyVersion := PolicyVersion st,
                      tCreatedAt := n, tUpdatedAt := n\<rparr> in
                if tKind t = ''write'' then
                  bindE (attemptE (transact (submit_body st t))) (\<lambda>r. case r of
                    Inr _ \<Rightarrow> get i
                  | Inl e \<Rightarrow>
                      (if isUniqueViolation e then
                         bindE (attemptE (getByTenantKey (tTenantID t) (tIdempotencyKey t)))
                           (\<lambda>r2. case r2 of Inr existing \<Rightarrow> returnE existing | Inl _ \<Rightarrow> throwE e)
                       else throwE e))
                else
                  bindE (attemptE (insert_row t)) (\<lambda>r. case r of
                    Inr _ \<Rightarrow> get i
                  | Inl e \<Rightarrow>
                      bindE (attemptE (getByTenantKey (tTenantID t) (tIdempotencyKey t)))
                        (\<lambda>r2. case r2 of Inr existing \<Rightarrow> returnE existing | Inl _ \<Rightarrow> throwE e)))))))))"

section \<open>Approve\<close>

definition approve_body :: "store \<Rightarrow> string \<Rightarrow> string \<Rightarrow> unit taskop" where
  "approve_body st approvalID operator =
     bindE (tx_stmt (update_approvals (\<lambda>a. aID a = approvalID \<and> \<not> aConsumed a)
              (\<lambda>a. a\<lparr>aConsumed := True, aConsumedBy := operator, aOperator := operator\<rparr>)))
     (\<lambda>affected.
       if affected \<noteq> 1 then throwE (errorf ''approval already consumed'')
       else bindE (attemptE (tx_stmt (select_row (\<lambda>t. tApprovalID t = approvalID) agent_tasks)))
       (\<lambda>r. case r of
         Inl e \<Rightarrow> throwE (if errors_is e ErrNoRows then errorf ''no task for approval'' else e)
       | Inr row \<Rightarrow>
           bindE (getOn (tID row)) (\<lambda>task.
             if tStatus task \<noteq> StatusWaiting
             then throwE (errorf (''task is '' @ status_text (tStatus task) @ '', not waiting for approval''))
             else if tOwner task = operator
             then throwE (errorf ''task owner cannot approve their own write'')
             else bindE (run_hook (BeforeApprovalCommit st) task) (\<lambda>_. bindE now (\<lambda>n.
               (let t' = task\<lparr>tStatus := StatusQueued, tUpdatedAt := n\<rparr> in
                bindE (updateWhereOn t' (\<lambda>x. tID x = tID row \<and> tStatus x = StatusWaiting))
                (\<lambda>committed.
                  if \<not> committed then throwE (errorf ''task changed during approval'')
                  else insertTaskAuditOn t' ''approve'' operator 0)))))))"

definition Approve :: "store \<Rightarrow> string \<Rightarrow> string \<Rightarrow> string \<Rightarrow> task taskop" where
  "Approve st approvalID operator args =
     (if TrimSpace operator = [] then throwE (errorf ''operator is required'')
      else bindE (attemptE (stmt (select_row (\<lambda>a. aID a = approvalID) agent_approvals))) (\<lambda>r. case r of
        Inl e \<Rightarrow> throwE (if errors_is e ErrNoRows then errorf ''approval not found'' else e)
      | Inr approval \<Rightarrow>
          (if aConsumed approval then throwE (errorf ''approval already consumed'')
           else bindE now (\<lambda>n.
             if aExpiresAt approval < n then throwE (errorf ''approval expired'')
             else if ArgsHash st args \<noteq> aArgsHash approval
             then throwE (errorf ''parameters changed since approval'')
             else if aPolicyVersion approval \<noteq> PolicyVersion st
             then throwE (errorf ''policy changed since approval'')
             else bindE (transact (approve_body st approvalID operator)) (\<lambda>_.
               bindE (stmt (select_row (\<lambda>t. tApprovalID t = approvalID) agent_tasks)) (\<lambda>row.
                 get (tID row)))))))"

section \<open>Claim\<close>

text \<open>The rows the claim query selects, before \<open>ORDER BY created_at ASC LIMIT 1\<close>.\<close>

definition claimable :: "int \<Rightarrow> int \<Rightarrow> string list \<Rightarrow> task \<Rightarrow> bool" where
  "claimable n1 n2 excluded t \<longleftrightarrow> tStatus t = StatusQueued \<and> (tExpiresAt t = 0 \<or> n1 < tExpiresAt t) \<and>
     (tLeaseExpires t \<le> n2 \<or> tLeaseOwner t = []) \<and> tID t \<notin> set excluded"

definition select_oldest :: "(task \<Rightarrow> bool) \<Rightarrow> task tasksql" where
  "select_oldest P d = (case least_by tCreatedAt (filter P (agent_tasks d)) of
     None \<Rightarrow> (Inl no_rows, d) | Some t \<Rightarrow> (Inr t, d))"

definition claimCAS :: "task \<Rightarrow> string \<Rightarrow> int \<Rightarrow> (task option) taskop" where
  "claimCAS task owner lease =
     bindE now_nanos (\<lambda>nn. bindE now (\<lambda>n.
     bindE (stmt (update_tasks
              (\<lambda>t. tID t = tID task \<and> tVersion t = tVersion task \<and> tStatus t = StatusQueued)
              (\<lambda>t. t\<lparr>tStatus := StatusRunning, tVersion := tVersion t + 1, tLeaseOwner := owner,
                     tLeaseExpires := (nn + lease) div 1000000000, tUpdatedAt := n\<rparr>)))
     (\<lambda>affected. if affected \<noteq> 1 then returnE None
                 else bindE (get (tID task)) (\<lambda>c. returnE (Some c)))))"

fun claim_loop :: "nat \<Rightarrow> string list \<Rightarrow> string \<Rightarrow> int \<Rightarrow> task taskop" where
  "claim_loop 0 excluded owner lease = throwE no_rows"
| "claim_loop (Suc k) excluded owner lease =
     bindE now (\<lambda>n1. bindE now (\<lambda>n2.
     bindE (stmt (select_oldest (claimable n1 n2 excluded))) (\<lambda>task.
       if tBudgetTokens task < 0 then throwE (errorf ''task budget exhausted'')
       else bindE (claimCAS task owner lease) (\<lambda>won. case won of
              Some claimed \<Rightarrow> returnE claimed
            | None \<Rightarrow> claim_loop k (excluded @ [tID task]) owner lease))))"

definition Claim :: "store \<Rightarrow> string \<Rightarrow> int \<Rightarrow> task taskop" where
  "Claim st owner lease =
     bindE (run_hook (BeforeClaim st) zero_task) (\<lambda>_. claim_loop 8 [] owner lease)"

section \<open>Complete\<close>

definition unknown_text :: string where
  "unknown_text = ''external result unknown; reconcile, do not blind-retry''"

text \<open>The row an attempt's outcome leads to: status first, then the accounting.\<close>

definition settle_status :: "outcome \<Rightarrow> task \<Rightarrow> task" where
  "settle_status out t =
     (let t = t\<lparr>tAttempts := tAttempts t + 1\<rparr> in
      case oErr out of
        Some e \<Rightarrow>
          (if errors_is e ErrUnknownResult \<or> (tKind t = ''write'' \<and> tExecNonce t \<noteq> [])
           then t\<lparr>tStatus := StatusUnknown, tErrorText := unknown_text\<rparr>
           else if oRetryable out \<and> tAttempts t < tMaxAttempts t
           then t\<lparr>tStatus := StatusQueued, tLeaseOwner := [], tLeaseExpires := 0,
                  tErrorText := err_text e\<rparr>
           else t\<lparr>tStatus := StatusFailed, tErrorText := err_text e\<rparr>)
      | None \<Rightarrow> t\<lparr>tStatus := StatusSucceeded, tResult := oResult out\<rparr>)"

definition settle_budget :: "outcome \<Rightarrow> task \<Rightarrow> task" where
  "settle_budget out t =
     (if tStatus t \<noteq> StatusUnknown
      then (if 0 < tReservedTokens t
            then t\<lparr>tBudgetTokens := tBudgetTokens t + (tReservedTokens t - oUsage out), tReservedTokens := 0\<rparr>
            else t\<lparr>tBudgetTokens := tBudgetTokens t - oUsage out\<rparr>)
      else t)"

definition settle :: "outcome \<Rightarrow> int \<Rightarrow> task \<Rightarrow> task" where
  "settle out n t =
     (let t = settle_budget out (settle_status out t)
      in t\<lparr>tVersion := tVersion t + 1, tUpdatedAt := n\<rparr>)"

definition complete_body :: "string \<Rightarrow> int \<Rightarrow> task \<Rightarrow> string \<Rightarrow> int \<Rightarrow> bool taskop" where
  "complete_body i version t worker usage =
     bindE (updateWhereOn t (\<lambda>x. tID x = i \<and> tVersion x = version \<and> tStatus x = StatusRunning))
     (\<lambda>committed.
       if \<not> committed \<or> tKind t \<noteq> ''write'' then returnE committed
       else bindE (insertTaskAuditOn t ''complete'' worker usage) (\<lambda>_. returnE committed))"

definition Complete :: "store \<Rightarrow> string \<Rightarrow> int \<Rightarrow> outcome \<Rightarrow> task taskop" where
  "Complete st i version out =
     (if oUsage out < 0 then throwE (errorf ''usage cannot be negative'')
      else bindE (run_hook (BeforeStore st) (zero_task\<lparr>tID := i\<rparr>)) (\<lambda>_.
      bindE (get i) (\<lambda>task.
        if tVersion task \<noteq> version then
          (if isTerminal (tStatus task) then returnE task
           else throwE (errorf ''fencing version mismatch: worker is stale''))
        else if isTerminal (tStatus task) then returnE task
        else bindE now (\<lambda>n.
          bindE (transact (complete_body i version (settle out n task) (tLeaseOwner task) (oUsage out)))
            (\<lambda>committed. get i)))))"

section \<open>Cancel and SweepTimeouts\<close>

definition canceled_row :: "int \<Rightarrow> task \<Rightarrow> task" where
  "canceled_row n t =
     (let t' = (if tStatus t = StatusRunning \<and> tKind t = ''write'' \<and> tExecNonce t \<noteq> []
                then t\<lparr>tStatus := StatusUnknown, tErrorText := unknown_text\<rparr>
                else t\<lparr>tStatus := StatusCanceled\<rparr>)
      in t'\<lparr>tVersion := tVersion t + 1, tLeaseOwner := [], tLeaseExpires := 0, tUpdatedAt := n\<rparr>)"

text \<open>The loop of \<open>Cancel\<close> under a bound on its iterations; \<open>Cancel\<close> gives one iteration for each
  entry of the script and one more, which is enough (see \<open>cancel_loop_enough\<close> in TaskSafety).\<close>

definition cancel_stuck :: terr where
  "cancel_stuck = errorf ''Cancel: iteration bound reached''"

fun cancel_loop :: "nat \<Rightarrow> string \<Rightarrow> task taskop" where
  "cancel_loop 0 i = throwE cancel_stuck"
| "cancel_loop (Suc k) i =
     bindE (get i) (\<lambda>task.
       if isTerminal (tStatus task) then returnE task
       else bindE now (\<lambda>n.
         bindE (updateWhere (canceled_row n task)
                  (\<lambda>x. tID x = i \<and> tVersion x = tVersion task \<and>
                       tStatus x \<in> {StatusQueued, StatusWaiting, StatusRunning}))
         (\<lambda>committed.
           if committed then get i
           else bindE ctx_err (\<lambda>c. case c of Some e \<Rightarrow> throwE e | None \<Rightarrow> cancel_loop k i))))"

definition Cancel :: "string \<Rightarrow> task taskop" where
  "Cancel i = (\<lambda>w. cancel_loop (Suc (length (script w))) i w)"

definition overdue :: "int \<Rightarrow> task \<Rightarrow> bool" where
  "overdue cutoff t \<longleftrightarrow> 0 < tExpiresAt t \<and> tExpiresAt t \<le> cutoff"

definition running_intent :: "task \<Rightarrow> bool" where
  "running_intent t \<longleftrightarrow> tStatus t = StatusRunning \<and> tKind t = ''write'' \<and> tExecNonce t \<noteq> []"

definition sweep_body :: "int \<Rightarrow> nat taskop" where
  "sweep_body cutoff =
     bindE (tx_stmt (update_tasks (\<lambda>t. running_intent t \<and> overdue cutoff t)
              (\<lambda>t. t\<lparr>tStatus := StatusUnknown, tErrorText := unknown_text, tLeaseOwner := [],
                     tLeaseExpires := 0, tVersion := tVersion t + 1, tUpdatedAt := cutoff\<rparr>)))
     (\<lambda>unknownCount.
     bindE (tx_stmt (update_tasks
              (\<lambda>t. tStatus t \<in> {StatusQueued, StatusRunning, StatusWaiting} \<and>
                   \<not> running_intent t \<and> overdue cutoff t)
              (\<lambda>t. t\<lparr>tStatus := StatusTimedOut, tLeaseOwner := [], tLeaseExpires := 0,
                     tVersion := tVersion t + 1, tUpdatedAt := cutoff\<rparr>)))
     (\<lambda>timeoutCount. returnE (unknownCount + timeoutCount)))"

definition SweepTimeouts :: "nat taskop" where
  "SweepTimeouts = bindE now (\<lambda>cutoff. transact (sweep_body cutoff))"

section \<open>Recover\<close>

definition Recover :: "nat taskop" where
  "Recover =
     bindE now (\<lambda>n1. bindE now (\<lambda>n2.
     bindE (stmt (update_tasks
              (\<lambda>t. tStatus t = StatusRunning \<and> tLeaseExpires t \<le> n2 \<and>
                   \<not> (tKind t = ''write'' \<and> tExecNonce t \<noteq> []))
              (\<lambda>t. t\<lparr>tStatus := StatusQueued, tLeaseOwner := [], tLeaseExpires := 0,
                     tVersion := tVersion t + 1, tUpdatedAt := n1\<rparr>)))
     (\<lambda>moved.
     bindE now (\<lambda>n3. bindE now (\<lambda>n4.
     bindE (stmt (update_tasks
              (\<lambda>t. tStatus t = StatusRunning \<and> tLeaseExpires t \<le> n4 \<and>
                   tKind t = ''write'' \<and> tExecNonce t \<noteq> [])
              (\<lambda>t. t\<lparr>tStatus := StatusUnknown, tLeaseOwner := [], tLeaseExpires := 0,
                     tVersion := tVersion t + 1, tUpdatedAt := n3\<rparr>)))
     (\<lambda>held. returnE (moved + held)))))))"

section \<open>Reserve, RecordIntent, RenewLease\<close>

definition stale_worker :: terr where
  "stale_worker = errorf ''fencing version mismatch: worker is stale''"

definition fenced :: "string \<Rightarrow> int \<Rightarrow> task \<Rightarrow> bool" where
  "fenced i version x \<longleftrightarrow> tID x = i \<and> tVersion x = version \<and> tStatus x = StatusRunning"

definition Reserve :: "string \<Rightarrow> int \<Rightarrow> int \<Rightarrow> task taskop" where
  "Reserve i version amount =
     bindE (get i) (\<lambda>task.
       if tVersion task \<noteq> version then throwE stale_worker
       else if tStatus task \<noteq> StatusRunning
       then throwE (errorf (''task is '' @ status_text (tStatus task) @ '', not running''))
       else if tKind task \<noteq> ''write'' then throwE (errorf ''reservation applies to write tasks'')
       else if 0 < tReservedTokens task then returnE task
       else if amount \<le> 0 then throwE (errorf ''reservation amount must be positive'')
       else if tBudgetTokens task < amount
       then throwE (errorf ''insufficient budget for reservation'')
       else bindE newID (\<lambda>nonce. bindE now (\<lambda>n.
         bindE (updateWhere (task\<lparr>tBudgetTokens := tBudgetTokens task - amount,
                  tReservedTokens := tReservedTokens task + amount, tExecNonce := nonce,
                  tVersion := tVersion task + 1, tUpdatedAt := n\<rparr>) (fenced i version))
         (\<lambda>committed.
           if \<not> committed then throwE (errorf ''task changed during reservation'') else get i))))"

definition RecordIntent :: "string \<Rightarrow> int \<Rightarrow> task taskop" where
  "RecordIntent i version =
     bindE (get i) (\<lambda>task.
       if tVersion task \<noteq> version then throwE stale_worker
       else if tStatus task \<noteq> StatusRunning
       then throwE (errorf (''task is '' @ status_text (tStatus task) @ '', not running''))
       else if tKind task \<noteq> ''write'' then throwE (errorf ''execution intent applies to write tasks'')
       else bindE newID (\<lambda>nonce. bindE now (\<lambda>n.
         bindE (updateWhere (task\<lparr>tExecNonce := nonce, tVersion := tVersion task + 1, tUpdatedAt := n\<rparr>)
                  (fenced i version))
         (\<lambda>committed.
           if \<not> committed then throwE (errorf ''task changed during intent recording'')
           else get i))))"

text \<open>Durations are in nanoseconds; \<open>time.Minute\<close> is 60 seconds.\<close>

definition RenewLease :: "string \<Rightarrow> string \<Rightarrow> int \<Rightarrow> bool taskop" where
  "RenewLease i owner lease =
     (let lease = (if lease \<le> 0 then 60000000000 else lease) in
      bindE now (\<lambda>n1. bindE now (\<lambda>n2.
      bindE (stmt (update_tasks
               (\<lambda>t. tID t = i \<and> tLeaseOwner t = owner \<and> tStatus t = StatusRunning)
               (\<lambda>t. t\<lparr>tLeaseExpires := n1 + lease div 1000000000, tUpdatedAt := n2\<rparr>)))
      (\<lambda>affected. returnE (affected = 1)))))"

section \<open>Reconciliation of unknown results\<close>

definition confirm_body :: "string \<Rightarrow> string \<Rightarrow> string \<Rightarrow> int \<Rightarrow> unit taskop" where
  "confirm_body i actor result actualUsage =
     bindE (getOn i) (\<lambda>task.
       if tStatus task \<noteq> StatusUnknown
       then throwE (errorf (''task is '' @ status_text (tStatus task) @ '', not unknown''))
       else bindE now (\<lambda>n.
         (let t' = task\<lparr>tStatus := StatusSucceeded, tResult := result,
                tBudgetTokens := tBudgetTokens task + (tReservedTokens task - actualUsage),
                tReservedTokens := 0, tAttempts := tAttempts task + 1,
                tVersion := tVersion task + 1, tUpdatedAt := n\<rparr> in
          bindE (updateWhereOn t' (\<lambda>x. tID x = i \<and> tStatus x = StatusUnknown \<and>
                                       tVersion x = tVersion task))
          (\<lambda>committed.
            if \<not> committed then throwE (errorf ''task changed during confirmation'')
            else insertTaskAuditOn t' ''confirm-unknown'' actor actualUsage))))"

definition ConfirmUnknownAs :: "string \<Rightarrow> string \<Rightarrow> string \<Rightarrow> int \<Rightarrow> task taskop" where
  "ConfirmUnknownAs i actor result actualUsage =
     (if actualUsage < 0 then throwE (errorf ''usage cannot be negative'')
      else if TrimSpace actor = [] then throwE (errorf ''actor is required'')
      else bindE (transact (confirm_body i actor result actualUsage)) (\<lambda>_. get i))"

definition ConfirmUnknown :: "string \<Rightarrow> string \<Rightarrow> int \<Rightarrow> task taskop" where
  "ConfirmUnknown i result actualUsage = ConfirmUnknownAs i ''system'' result actualUsage"

definition requeue_commit :: "string \<Rightarrow> string \<Rightarrow> int \<Rightarrow> task \<Rightarrow> unit taskop" where
  "requeue_commit i actor version t =
     bindE now (\<lambda>n.
       (let t' = t\<lparr>tVersion := tVersion t + 1, tUpdatedAt := n\<rparr> in
        bindE (updateWhereOn t' (\<lambda>x. tID x = i \<and> tStatus x = StatusUnknown \<and> tVersion x = version))
        (\<lambda>committed.
          if \<not> committed then throwE (errorf ''task changed during requeue'')
          else insertTaskAuditOn t' ''requeue-unknown'' actor 0)))"

definition requeueUnknownTx :: "store \<Rightarrow> string \<Rightarrow> string \<Rightarrow> unit taskop" where
  "requeueUnknownTx st i actor =
     bindE (getOn i) (\<lambda>task.
       if tStatus task \<noteq> StatusUnknown
       then throwE (errorf (''task is '' @ status_text (tStatus task) @ '', not unknown''))
       else (let t1 = task\<lparr>tBudgetTokens := tBudgetTokens task + tReservedTokens task,
                   tReservedTokens := 0, tExecNonce := [], tResult := [], tErrorText := []\<rparr> in
         if tKind t1 \<noteq> ''write''
         then requeue_commit i actor (tVersion task) (t1\<lparr>tStatus := StatusQueued\<rparr>)
         else bindE (newApproval (PolicyVersion st) t1) (\<lambda>a.
           bindE (attemptE (insertApprovalOn a)) (\<lambda>r. case r of
             Inl e \<Rightarrow> throwE (wrapf ''create approval: '' e)
           | Inr _ \<Rightarrow> requeue_commit i actor (tVersion task)
                        (t1\<lparr>tApprovalID := aID a, tStatus := StatusWaiting\<rparr>)))))"

definition RequeueUnknownAs :: "store \<Rightarrow> string \<Rightarrow> string \<Rightarrow> task taskop" where
  "RequeueUnknownAs st i actor =
     (if TrimSpace actor = [] then throwE (errorf ''actor is required'')
      else bindE (transact (requeueUnknownTx st i actor)) (\<lambda>_. get i))"

definition RequeueUnknown :: "store \<Rightarrow> string \<Rightarrow> task taskop" where
  "RequeueUnknown st i = RequeueUnknownAs st i ''system''"

definition Get :: "string \<Rightarrow> task taskop" where
  "Get i = get i"

section \<open>The worker\<close>

record worker =
  wOwner :: string
  wLease :: int
  WriteAuthorize :: "(task \<Rightarrow> terr option) option"
  WriteReserveTokens :: int

definition checkWriteApproval :: "store \<Rightarrow> task \<Rightarrow> unit taskop" where
  "checkWriteApproval st task =
     (if tApprovalID task = [] then throwE (errorf ''write task has no approval'')
      else bindE (attemptE (stmt (select_row (\<lambda>a. aID a = tApprovalID task) agent_approvals)))
      (\<lambda>r. case r of
        Inl e \<Rightarrow> throwE (if errors_is e ErrNoRows then errorf ''approval gone'' else e)
      | Inr a \<Rightarrow>
          (if \<not> aConsumed a \<or> aTenantID a \<noteq> tTenantID task \<or> aTool a \<noteq> tTool task \<or>
              aArgsHash a \<noteq> tArgsHash task
           then throwE (errorf ''approval does not cover this execution'')
           else if aPolicyVersion a \<noteq> PolicyVersion st
           then throwE (errorf ''policy changed since approval'')
           else bindE now (\<lambda>n.
             if aExpiresAt a < n then throwE (errorf ''approval expired'') else returnE ()))))"

definition failed_outcome :: "terr \<Rightarrow> bool \<Rightarrow> outcome" where
  "failed_outcome e retryable = \<lparr>oResult = [], oUsage = 0, oRetryable = retryable, oErr = Some e\<rparr>"

text \<open>
  \<open>RunOnce\<close> up to the call of the executor: an outcome to settle without running it, or the task
  and its fencing version with which the executor is called.
\<close>

datatype prepared = Settle task outcome | Execute task

definition prepare_write :: "store \<Rightarrow> worker \<Rightarrow> task \<Rightarrow> prepared taskop" where
  "prepare_write st wk task =
     bindE (attemptE (checkWriteApproval st task)) (\<lambda>r. case r of
       Inl e \<Rightarrow> returnE (Settle task (failed_outcome e False))
     | Inr _ \<Rightarrow>
         (case WriteAuthorize wk of
            None \<Rightarrow> returnE (Settle task (failed_outcome
                      (errorf ''live write authorization is not configured'') False))
          | Some auth \<Rightarrow>
              (case auth task of
                 Some e \<Rightarrow> returnE (Settle task (failed_outcome e False))
               | None \<Rightarrow>
                   bindE (attemptE (if 0 < WriteReserveTokens wk
                            then Reserve (tID task) (tVersion task) (WriteReserveTokens wk)
                            else RecordIntent (tID task) (tVersion task)))
                   (\<lambda>r. case r of
                     Inl e \<Rightarrow> returnE (Settle task (failed_outcome e False))
                   | Inr t \<Rightarrow> returnE (Execute t)))))"

definition prepare_run :: "store \<Rightarrow> worker \<Rightarrow> prepared taskop" where
  "prepare_run st wk =
     (let lease = (if wLease wk \<le> 0 then 60000000000 else wLease wk) in
      bindE (Claim st (wOwner wk) lease) (\<lambda>task.
        case (case BeforeExecute st of None \<Rightarrow> None | Some f \<Rightarrow> f task) of
          Some e \<Rightarrow> returnE (Settle task (failed_outcome e True))
        | None \<Rightarrow> (if tKind task = ''write'' then prepare_write st wk task
                   else returnE (Execute task))))"

text \<open>The executor is a parameter: it maps the task it is given to an outcome.\<close>

definition RunOnce :: "store \<Rightarrow> worker \<Rightarrow> (task \<Rightarrow> outcome) \<Rightarrow> task taskop" where
  "RunOnce st wk exec =
     bindE (prepare_run st wk) (\<lambda>p. case p of
       Settle task out \<Rightarrow> Complete st (tID task) (tVersion task) out
     | Execute task \<Rightarrow> Complete st (tID task) (tVersion task) (exec task))"

section \<open>Opening a store, the schema and the placeholders\<close>

definition supported_dialect :: "string \<Rightarrow> bool" where
  "supported_dialect d \<longleftrightarrow> ToLower (TrimSpace d) \<in> {''sqlite'', ''postgres'', ''postgresql''}"

text \<open>\<open>Open\<close> returns the normalized dialect of the store.\<close>

definition Open :: "string \<Rightarrow> terr + string" where
  "Open dialect =
     (if supported_dialect dialect then Inr (ToLower (TrimSpace dialect))
      else Inl (errorf (''unsupported tasks dialect '' @ Quote dialect)))"

text \<open>\<open>rebind\<close>: on PostgreSQL the \<open>?\<close> placeholders become \<open>$1\<close>, \<open>$2\<close> and so on.\<close>

fun rebind_from :: "nat \<Rightarrow> string \<Rightarrow> string" where
  "rebind_from numbered [] = []"
| "rebind_from numbered (c # q) =
     (if c = CHR ''?'' then CHR ''$'' # Itoa (Suc numbered) @ rebind_from (Suc numbered) q
      else c # rebind_from numbered q)"

definition rebind :: "string \<Rightarrow> string \<Rightarrow> string" where
  "rebind dialect query =
     (if dialect \<noteq> ''postgres'' \<and> dialect \<noteq> ''postgresql'' then query else rebind_from 0 query)"

end
