(* ===== verification/TaskInvariant.thy ===== *)
theory TaskInvariant
  imports TaskOps
begin

text \<open>
  What the task store promises: \<open>store_ok\<close>, the invariant of its tables, and \<open>advances\<close>, the relation
  between the tables at two moments that every operation keeps and may assume of other processes.
  The rely/guarantee logic of DbWorld is interpreted on the two, and every single-statement update
  and transaction body of TaskOps is shown to keep them.
\<close>

section \<open>The invariant\<close>

definition is_write :: "task \<Rightarrow> bool" where
  "is_write t \<longleftrightarrow> tKind t = ''write''"

definition settled :: "task_status \<Rightarrow> bool" where
  "settled st \<longleftrightarrow> st \<in> {StatusSucceeded, StatusFailed, StatusCanceled, StatusTimedOut}"

text \<open>The statuses a write can only have after its approval: it may run, runs, or has run.\<close>

definition past_approval :: "task_status \<Rightarrow> bool" where
  "past_approval st \<longleftrightarrow>
     st \<in> {StatusQueued, StatusRunning, StatusUnknown, StatusSucceeded, StatusFailed}"

definition covers :: "approval \<Rightarrow> task \<Rightarrow> bool" where
  "covers a t \<longleftrightarrow> aID a = tApprovalID t \<and> aTenantID a = tTenantID t \<and> aTool a = tTool t \<and>
     aArgsHash a = tArgsHash t"

definition write_ok :: "approval list \<Rightarrow> task \<Rightarrow> bool" where
  "write_ok aps t \<longleftrightarrow> (\<exists>a \<in> set aps. covers a t \<and>
     (past_approval (tStatus t) \<longrightarrow> aConsumed a \<and> aOperator a \<noteq> tOwner t) \<and>
     (tStatus t = StatusWaiting \<longrightarrow> \<not> aConsumed a))"

definition row_ok :: "approval list \<Rightarrow> task \<Rightarrow> bool" where
  "row_ok aps t \<longleftrightarrow> tKind t \<in> {''readonly'', ''write''} \<and> 0 \<le> tReservedTokens t \<and>
     (0 < tReservedTokens t \<longrightarrow>
        is_write t \<and> tExecNonce t \<noteq> [] \<and> tStatus t \<in> {StatusRunning, StatusUnknown}) \<and>
     (is_write t \<and> tStatus t \<in> {StatusQueued, StatusWaiting} \<longrightarrow> tExecNonce t = []) \<and>
     (\<not> is_write t \<longrightarrow> tApprovalID t = [] \<and> tStatus t \<noteq> StatusWaiting) \<and>
     (is_write t \<longrightarrow> write_ok aps t)"

text \<open>No two tasks share an approval, and a consumed approval has left an audit row.\<close>

definition one_task_each :: "task list \<Rightarrow> bool" where
  "one_task_each rows \<longleftrightarrow> (\<forall>t \<in> set rows. \<forall>u \<in> set rows.
     tApprovalID t = tApprovalID u \<and> tApprovalID t \<noteq> [] \<longrightarrow> tID t = tID u)"

definition consumed_audited :: "tables \<Rightarrow> bool" where
  "consumed_audited d \<longleftrightarrow> (\<forall>a \<in> set (agent_approvals d). aConsumed a \<longrightarrow>
     (\<exists>u \<in> set (agent_task_audit d).
        uAction u = ''approve'' \<and> uApprovalID u = aID a \<and> uActor u = aOperator a))"

definition store_ok :: "tables \<Rightarrow> bool" where
  "store_ok d \<longleftrightarrow> tasks_unique (agent_tasks d) \<and>
     distinct (map aID (agent_approvals d)) \<and> [] \<notin> aID ` set (agent_approvals d) \<and>
     (\<forall>t \<in> set (agent_tasks d). row_ok (agent_approvals d) t) \<and>
     one_task_each (agent_tasks d) \<and> consumed_audited d"

section \<open>The relation between two moments\<close>

definition immutable_part where
  "immutable_part t = (tTenantID t, tOwner t, tIdempotencyKey t, tKind t, tTool t, tArgs t,
     tArgsHash t, tPolicyVersion t, tMaxAttempts t, tExpiresAt t, tCreatedAt t)"

definition frozen_part where
  "frozen_part t = (tExecNonce t, tReservedTokens t, tLeaseOwner t, tBudgetTokens t,
     tApprovalID t, tResult t, tErrorText t, tAttempts t)"

definition funds :: "task \<Rightarrow> int" where
  "funds t = tBudgetTokens t + tReservedTokens t"

text \<open>
  How one row may move: what identifies the work never changes, versions and attempts never go down,
  the tokens a task holds (its budget and what is reserved of it) never go up,
  an unchanged version means an unchanged row but for its lease expiry, its update time and the step
  from waiting to queued, and a settled row never changes again.
\<close>

definition row_adv :: "task \<Rightarrow> task \<Rightarrow> bool" where
  "row_adv t r \<longleftrightarrow> immutable_part t = immutable_part r \<and> tVersion t \<le> tVersion r \<and>
     tAttempts t \<le> tAttempts r \<and> funds r \<le> funds t \<and>
     (tVersion t = tVersion r \<longrightarrow> frozen_part t = frozen_part r \<and>
        (tStatus t = tStatus r \<or> tStatus t = StatusWaiting \<and> tStatus r = StatusQueued)) \<and>
     (settled (tStatus t) \<longrightarrow> r = t)"

text \<open>
  The part about approvals: a row only ever gets an approval that did not exist before, and under one
  approval a recorded intent is never forgotten and an unknown result is only ever confirmed.
\<close>

definition appr_adv :: "approval list \<Rightarrow> task \<Rightarrow> task \<Rightarrow> bool" where
  "appr_adv aps t r \<longleftrightarrow>
     (tApprovalID r \<noteq> tApprovalID t \<longrightarrow> tApprovalID r \<notin> aID ` set aps) \<and>
     (is_write t \<and> tApprovalID r = tApprovalID t \<longrightarrow>
        (tExecNonce t \<noteq> [] \<longrightarrow> tExecNonce r \<noteq> []) \<and>
        (tStatus t = StatusUnknown \<longrightarrow> tStatus r \<in> {StatusUnknown, StatusSucceeded}))"

definition approval_adv :: "approval \<Rightarrow> approval \<Rightarrow> bool" where
  "approval_adv a b \<longleftrightarrow> aID b = aID a \<and> aTenantID b = aTenantID a \<and> aTool b = aTool a \<and>
     aArgsHash b = aArgsHash a \<and> aPolicyVersion b = aPolicyVersion a \<and>
     aExpiresAt b = aExpiresAt a \<and> (aConsumed a \<longrightarrow> b = a)"

definition advances :: "tables \<Rightarrow> tables \<Rightarrow> bool" where
  "advances d d' \<longleftrightarrow>
     (\<forall>t \<in> set (agent_tasks d). \<exists>r \<in> set (agent_tasks d').
        tID r = tID t \<and> row_adv t r \<and> appr_adv (agent_approvals d) t r) \<and>
     (\<forall>a \<in> set (agent_approvals d). \<exists>b \<in> set (agent_approvals d'). approval_adv a b) \<and>
     set (agent_task_audit d) \<subseteq> set (agent_task_audit d')"

lemmas part_defs = immutable_part_def frozen_part_def

lemma row_adv_refl [simp, intro]: "row_adv t t"
  by (simp add: row_adv_def)

lemma appr_adv_refl [simp, intro]: "appr_adv aps t t"
  by (simp add: appr_adv_def)

lemma approval_adv_refl [simp, intro]: "approval_adv a a"
  by (simp add: approval_adv_def)

lemma row_adv_trans: "row_adv t r \<Longrightarrow> row_adv r s \<Longrightarrow> row_adv t s"
  by (auto simp: row_adv_def settled_def)

lemma approval_adv_trans: "approval_adv a b \<Longrightarrow> approval_adv b c \<Longrightarrow> approval_adv a c"
  by (auto simp: approval_adv_def)

lemma row_adv_write: "row_adv t r \<Longrightarrow> is_write r = is_write t"
  by (simp add: row_adv_def immutable_part_def is_write_def)

lemma write_ok_approval: "write_ok aps t \<Longrightarrow> tApprovalID t \<in> aID ` set aps"
  by (force simp: write_ok_def covers_def)

lemma store_ok_row: "store_ok d \<Longrightarrow> t \<in> set (agent_tasks d) \<Longrightarrow> row_ok (agent_approvals d) t"
  by (simp add: store_ok_def)

lemma store_ok_ids: "store_ok d \<Longrightarrow> distinct (map tID (agent_tasks d))"
  by (simp add: store_ok_def tasks_unique_def)

lemma store_ok_same:
  "store_ok d \<Longrightarrow> t \<in> set (agent_tasks d) \<Longrightarrow> r \<in> set (agent_tasks d) \<Longrightarrow> tID t = tID r \<Longrightarrow> t = r"
  by (rule key_inj [OF store_ok_ids])

lemma store_ok_approval_unique:
  "store_ok d \<Longrightarrow> t \<in> set (agent_tasks d) \<Longrightarrow> u \<in> set (agent_tasks d) \<Longrightarrow>
   tApprovalID t = tApprovalID u \<Longrightarrow> tApprovalID t \<noteq> [] \<Longrightarrow> tID t = tID u"
  unfolding store_ok_def one_task_each_def by blast

lemma appr_adv_trans:
  assumes "appr_adv aps t r" and "appr_adv aps' r s" and "aID ` set aps \<subseteq> aID ` set aps'"
    and "row_adv t r" and "row_adv r s" and "row_ok aps t"
  shows "appr_adv aps t s"
  unfolding appr_adv_def
proof (intro conjI impI)
  assume "tApprovalID s \<noteq> tApprovalID t"
  then show "tApprovalID s \<notin> aID ` set aps"
  proof (cases "tApprovalID s = tApprovalID r")
    case True
    with \<open>tApprovalID s \<noteq> tApprovalID t\<close> show ?thesis using assms(1) by (simp add: appr_adv_def)
  next
    case False
    then have "tApprovalID s \<notin> aID ` set aps'" using assms(2) by (simp add: appr_adv_def)
    then show ?thesis using assms(3) by blast
  qed
next
  assume w: "is_write t \<and> tApprovalID s = tApprovalID t"
  then have "tApprovalID t \<in> aID ` set aps"
    using assms(6) by (auto simp: row_ok_def dest: write_ok_approval)
  then have r: "tApprovalID r = tApprovalID t"
    using assms(1-3) w unfolding appr_adv_def by (metis subsetD)
  have wr: "is_write r" using w assms(4) by (simp add: row_adv_write)
  show "tExecNonce s \<noteq> []" if "tExecNonce t \<noteq> []"
    using that assms(1,2) w r wr by (simp add: appr_adv_def)
  show "tStatus s \<in> {StatusUnknown, StatusSucceeded}" if "tStatus t = StatusUnknown"
  proof -
    have "tStatus r \<in> {StatusUnknown, StatusSucceeded}"
      using that assms(1) w r by (simp add: appr_adv_def)
    then consider "tStatus r = StatusUnknown" | "tStatus r = StatusSucceeded" by blast
    then show ?thesis
    proof cases
      case 1
      then show ?thesis using assms(2) w r wr by (simp add: appr_adv_def)
    next
      case 2
      then have "s = r" using assms(5) by (simp add: row_adv_def settled_def)
      then show ?thesis using 2 by simp
    qed
  qed
qed

lemma advances_approval_ids:
  assumes "advances d d'"
  shows "aID ` set (agent_approvals d) \<subseteq> aID ` set (agent_approvals d')"
proof
  fix i
  assume "i \<in> aID ` set (agent_approvals d)"
  then obtain a where a: "a \<in> set (agent_approvals d)" "i = aID a" by blast
  then obtain b where "b \<in> set (agent_approvals d')" "approval_adv a b"
    using assms by (auto simp: advances_def)
  then show "i \<in> aID ` set (agent_approvals d')"
    using a by (metis approval_adv_def imageI)
qed

lemma advances_refl: "advances d d"
  by (auto simp: advances_def)

lemma advances_trans:
  assumes ok: "store_ok d" and a: "advances d d'" and b: "advances d' d''"
  shows "advances d d''"
proof -
  have "\<exists>s \<in> set (agent_tasks d''). tID s = tID t \<and> row_adv t s \<and> appr_adv (agent_approvals d) t s"
    if t: "t \<in> set (agent_tasks d)" for t
  proof -
    obtain r where r: "r \<in> set (agent_tasks d')" "tID r = tID t" "row_adv t r"
        "appr_adv (agent_approvals d) t r"
      using a t by (auto simp: advances_def)
    obtain s where s: "s \<in> set (agent_tasks d'')" "tID s = tID r" "row_adv r s"
        "appr_adv (agent_approvals d') r s"
      using b r(1) by (auto simp: advances_def)
    have "appr_adv (agent_approvals d) t s"
      using appr_adv_trans [OF r(4) s(4) advances_approval_ids [OF a] r(3) s(3) store_ok_row [OF ok t]] .
    then show ?thesis using r s by (auto intro: row_adv_trans)
  qed
  moreover have "\<exists>c \<in> set (agent_approvals d''). approval_adv x c"
    if "x \<in> set (agent_approvals d)" for x
    using that a b unfolding advances_def by (meson approval_adv_trans)
  ultimately show ?thesis using a b by (auto simp: advances_def)
qed

interpretation tasks: rely_guarantee store_ok advances
  by unfold_locales (auto intro: advances_refl advances_trans)

lemma store_ok_empty: "store_ok empty_tables"
  by (simp add: store_ok_def empty_tables_def tasks_unique_def one_task_each_def consumed_audited_def)

section \<open>Single updates\<close>

text \<open>A row may move from \<open>r\<close> to \<open>r'\<close> when the approvals stay as they are.\<close>

definition row_move :: "approval list \<Rightarrow> task \<Rightarrow> task \<Rightarrow> bool" where
  "row_move aps r r' \<longleftrightarrow> tID r' = tID r \<and> tApprovalID r' = tApprovalID r \<and> row_ok aps r' \<and>
     row_adv r r' \<and> appr_adv aps r r'"

lemma row_adv_key: "row_adv r r' \<Longrightarrow> task_key r' = task_key r"
  by (simp add: row_adv_def immutable_part_def task_key_def)

lemma tasks_unique_upd:
  assumes "tasks_unique rows" and "\<And>r. r \<in> set rows \<Longrightarrow> P r \<Longrightarrow> tID (f r) = tID r \<and> task_key (f r) = task_key r"
  shows "tasks_unique (upd_where P f rows)"
  using assms by (simp add: tasks_unique_def map_upd_where_key)

lemma update_tasks_ok:
  assumes ok: "store_ok d"
    and move: "\<And>r. r \<in> set (agent_tasks d) \<Longrightarrow> P r \<Longrightarrow> row_move (agent_approvals d) r (f r)"
    and u: "update_tasks P f d = (res, d')"
  shows "store_ok d' \<and> advances d d' \<and> res = Inr (count_where P (agent_tasks d)) \<and>
    d' = d\<lparr>agent_tasks := upd_where P f (agent_tasks d)\<rparr>"
proof -
  let ?rows = "upd_where P f (agent_tasks d)"
  have key: "tID (f r) = tID r \<and> task_key (f r) = task_key r"
    if "r \<in> set (agent_tasks d)" "P r" for r
    using move [OF that] by (auto simp: row_move_def intro: row_adv_key)
  have uniq: "tasks_unique ?rows"
    using ok key by (auto simp: store_ok_def intro: tasks_unique_upd)
  then have d': "d' = d\<lparr>agent_tasks := ?rows\<rparr>" and res: "res = Inr (count_where P (agent_tasks d))"
    using u by (auto simp: update_tasks_def Let_def)
  have rows: "\<exists>r \<in> set (agent_tasks d). tID r = tID x \<and> tApprovalID r = tApprovalID x \<and>
      row_ok (agent_approvals d) x" if "x \<in> set ?rows" for x
    using that move ok by (auto simp: set_upd_where row_move_def store_ok_row split: if_splits)
  have "tID t = tID u" if t: "t \<in> set ?rows" and u: "u \<in> set ?rows"
      and ap: "tApprovalID t = tApprovalID u" "tApprovalID t \<noteq> []" for t u
  proof -
    obtain t0 where t0: "t0 \<in> set (agent_tasks d)" "tID t0 = tID t" "tApprovalID t0 = tApprovalID t"
      using rows [OF t] by blast
    obtain u0 where u0: "u0 \<in> set (agent_tasks d)" "tID u0 = tID u" "tApprovalID u0 = tApprovalID u"
      using rows [OF u] by blast
    have "tID t0 = tID u0"
      using store_ok_approval_unique [OF ok t0(1) u0(1)] t0(3) u0(3) ap by simp
    then show ?thesis using t0 u0 by simp
  qed
  then have "one_task_each ?rows" unfolding one_task_each_def by blast
  moreover have "\<forall>x \<in> set ?rows. row_ok (agent_approvals d) x" using rows by blast
  ultimately have "store_ok d'"
    using ok uniq by (simp add: store_ok_def d' consumed_audited_def)
  have "\<exists>r \<in> set ?rows. tID r = tID t \<and> row_adv t r \<and> appr_adv (agent_approvals d) t r"
    if t: "t \<in> set (agent_tasks d)" for t
  proof (rule bexI [where x = "if P t then f t else t"])
    show "(if P t then f t else t) \<in> set ?rows" using t by (auto simp: set_upd_where)
  next
    show "tID (if P t then f t else t) = tID t \<and> row_adv t (if P t then f t else t) \<and>
        appr_adv (agent_approvals d) t (if P t then f t else t)"
      using move [OF t] by (simp add: row_move_def)
  qed
  then have "advances d d'"
    by (auto simp: advances_def d')
  with \<open>store_ok d'\<close> show ?thesis using d' res by simp
qed

lemma hoare_update_tasks:
  assumes "stable store_ok advances Pre"
    and "\<And>d r. store_ok d \<Longrightarrow> Pre d \<Longrightarrow> r \<in> set (agent_tasks d) \<Longrightarrow> P r \<Longrightarrow>
      row_move (agent_approvals d) r (f r)"
  shows "hoare store_ok advances Pre (stmt (update_tasks P f)) (\<lambda>n d. True)"
proof (rule tasks.hoare_stmt [OF assms(1)])
  fix d r d'
  assume "store_ok d" "Pre d" "update_tasks P f d = (r, d')"
  then show "store_ok d' \<and> advances d d' \<and> (case r of Inl e \<Rightarrow> True | Inr x \<Rightarrow> True)"
    using update_tasks_ok assms(2) by (fastforce split: sum.split)
qed

section \<open>Snapshots\<close>

text \<open>\<open>seen t d\<close>: the row \<open>t\<close> was read at some earlier moment of a database that is now \<open>d\<close>.\<close>

definition seen :: "task \<Rightarrow> tables \<Rightarrow> bool" where
  "seen t d \<longleftrightarrow> (\<exists>r \<in> set (agent_tasks d). tID r = tID t \<and> row_adv t r)"

lemma seenI: "t \<in> set (agent_tasks d) \<Longrightarrow> seen t d"
  unfolding seen_def by (rule bexI [where x = t]) simp_all

lemma stable_seen: "stable store_ok advances (seen t)"
  unfolding stable_def seen_def advances_def by (metis row_adv_trans)

lemma stable_True: "stable ok adv (\<lambda>d. True)"
  by (simp add: stable_def)

lemma hoare_get:
  "hoare store_ok advances (\<lambda>d. True) (get i) (\<lambda>t d. tID t = i \<and> seen t d \<and> t \<in> set (agent_tasks d))"
  unfolding get_def
proof (rule tasks.hoare_stmt [OF stable_True])
  fix d r d'
  assume ok: "store_ok d" and sel: "select_row (\<lambda>t. tID t = i) agent_tasks d = (r, d')"
  show "store_ok d' \<and> advances d d' \<and> (case r of Inl e \<Rightarrow> True
    | Inr t \<Rightarrow> tID t = i \<and> seen t d' \<and> t \<in> set (agent_tasks d'))"
  proof (cases "List.find (\<lambda>t. tID t = i) (agent_tasks d)")
    case None
    then show ?thesis using ok sel by (auto simp: select_row_def advances_refl)
  next
    case (Some t)
    then show ?thesis
      using ok sel find_SomeD [OF Some] by (auto simp: select_row_def advances_refl intro: seenI)
  qed
qed

lemma hoare_get_any: "hoare store_ok advances P (get i) (\<lambda>t d. tID t = i \<and> seen t d)"
  by (rule tasks.hoare_pre [OF tasks.hoare_post [OF hoare_get]]) auto

lemma hoare_getByTenantKey:
  "hoare store_ok advances P (getByTenantKey tenant key) (\<lambda>t d. seen t d)"
proof -
  have "hoare store_ok advances (\<lambda>d. True)
      (stmt (select_row (\<lambda>t. tTenantID t = tenant \<and> tIdempotencyKey t = key) agent_tasks)) (\<lambda>t d. True)"
    by (rule tasks.hoare_stmt [OF stable_True])
      (auto simp: select_row_def advances_refl split: option.splits)
  then have "hoare store_ok advances (\<lambda>d. True) (getByTenantKey tenant key) (\<lambda>t d. seen t d)"
    unfolding getByTenantKey_def
    by (rule tasks.hoare_bind) (rule tasks.hoare_post [OF hoare_get_any], simp)
  then show ?thesis by (rule tasks.hoare_pre) simp
qed

text \<open>A snapshot whose version and status still hold is the row itself but for its lease.\<close>

lemma snapshot_current:
  assumes "seen t d" and "store_ok d" and "r \<in> set (agent_tasks d)" and "tID r = tID t"
    and "tVersion r = tVersion t" and "tStatus r = tStatus t"
  shows "t = r\<lparr>tLeaseExpires := tLeaseExpires t, tUpdatedAt := tUpdatedAt t\<rparr>"
proof -
  have "row_adv t r" using assms(1-4) by (auto simp: seen_def dest: store_ok_same)
  then have "immutable_part t = immutable_part r" "frozen_part t = frozen_part r"
    using assms(5) by (simp_all add: row_adv_def)
  then show ?thesis
    using assms(4-6) by (intro task.equality) (simp_all add: part_defs)
qed

end
