(* ===== verification/TaskMoves.thy ===== *)
theory TaskMoves
  imports TaskInvariant
begin

text \<open>
  The moves behind the operations of TaskOps: every update of a row that the code runs is a
  \<open>row_move\<close>, and the steps that change approvals, tasks and audit rows together (approve, requeue,
  submit) keep \<open>store_ok\<close> and \<open>advances\<close>.
\<close>

section \<open>Row moves\<close>

lemmas move_defs = row_move_def row_adv_def appr_adv_def part_defs row_ok_def is_write_def funds_def
  settled_def past_approval_def write_ok_def covers_def

lemma write_ok_weaken:
  assumes "write_ok aps r" and "tApprovalID r' = tApprovalID r" "tTenantID r' = tTenantID r"
    "tTool r' = tTool r" "tArgsHash r' = tArgsHash r"
    and "past_approval (tStatus r') \<Longrightarrow> past_approval (tStatus r)" and "tStatus r' \<noteq> StatusWaiting"
    and "tOwner r' = tOwner r"
  shows "write_ok aps r'"
proof -
  obtain a where "a \<in> set aps" "covers a r"
      "past_approval (tStatus r) \<longrightarrow> aConsumed a \<and> aOperator a \<noteq> tOwner r"
    using assms(1) unfolding write_ok_def by blast
  then show ?thesis
    using assms(2-) unfolding write_ok_def by (intro bexI [where x = a]) (auto simp: covers_def)
qed

lemma move_claim:
  assumes "row_ok aps r" and "tStatus r = StatusQueued"
  shows "row_move aps r (r\<lparr>tStatus := StatusRunning, tVersion := tVersion r + 1, tLeaseOwner := ow,
    tLeaseExpires := l, tUpdatedAt := n\<rparr>)"
  using assms by (auto simp: move_defs)

lemma move_lease:
  assumes "row_ok aps r" and "tStatus r = StatusRunning"
  shows "row_move aps r (r\<lparr>tLeaseExpires := l, tUpdatedAt := n\<rparr>)"
  using assms by (auto simp: move_defs)

lemma move_requeue_idle:
  assumes "row_ok aps r" and "tStatus r = StatusRunning" and "\<not> (tKind r = ''write'' \<and> tExecNonce r \<noteq> [])"
  shows "row_move aps r (r\<lparr>tStatus := StatusQueued, tLeaseOwner := [], tLeaseExpires := 0,
    tVersion := tVersion r + 1, tUpdatedAt := n\<rparr>)"
  using assms by (auto simp: move_defs)

lemma move_unknown:
  assumes "row_ok aps r" and "tStatus r = StatusRunning"
  shows "row_move aps r (r\<lparr>tStatus := StatusUnknown, tErrorText := e, tLeaseOwner := [],
    tLeaseExpires := 0, tVersion := tVersion r + 1, tUpdatedAt := n\<rparr>)"
  using assms by (auto simp: move_defs)

lemma move_unknown_plain:
  assumes "row_ok aps r" and "tStatus r = StatusRunning"
  shows "row_move aps r (r\<lparr>tStatus := StatusUnknown, tLeaseOwner := [],
    tLeaseExpires := 0, tVersion := tVersion r + 1, tUpdatedAt := n\<rparr>)"
  using assms by (auto simp: move_defs)

lemma move_timed_out:
  assumes "row_ok aps r" and "tStatus r \<in> {StatusQueued, StatusRunning, StatusWaiting}"
    and "\<not> running_intent r"
  shows "row_move aps r (r\<lparr>tStatus := StatusTimedOut, tLeaseOwner := [], tLeaseExpires := 0,
    tVersion := tVersion r + 1, tUpdatedAt := n\<rparr>)" (is "row_move aps r ?r")
proof -
  have "row_ok aps ?r"
    using assms write_ok_weaken [of aps r ?r]
    by (auto simp: row_ok_def running_intent_def is_write_def past_approval_def)
  moreover have "row_adv r ?r" "appr_adv aps r ?r"
    using assms(2) by (auto simp: row_adv_def appr_adv_def immutable_part_def settled_def funds_def)
  ultimately show ?thesis by (simp add: row_move_def)
qed

text \<open>A full-row update writes a snapshot with some changed fields over the row it was read from.\<close>

lemma updateTaskArgs_sel [simp]:
  "tID (updateTaskArgs t r) = tID r" "tTenantID (updateTaskArgs t r) = tTenantID t"
  "tOwner (updateTaskArgs t r) = tOwner t" "tIdempotencyKey (updateTaskArgs t r) = tIdempotencyKey t"
  "tKind (updateTaskArgs t r) = tKind t" "tTool (updateTaskArgs t r) = tTool t"
  "tArgs (updateTaskArgs t r) = tArgs t" "tArgsHash (updateTaskArgs t r) = tArgsHash t"
  "tPolicyVersion (updateTaskArgs t r) = tPolicyVersion t" "tStatus (updateTaskArgs t r) = tStatus t"
  "tVersion (updateTaskArgs t r) = tVersion t" "tExecNonce (updateTaskArgs t r) = tExecNonce t"
  "tReservedTokens (updateTaskArgs t r) = tReservedTokens t"
  "tLeaseOwner (updateTaskArgs t r) = tLeaseOwner t" "tLeaseExpires (updateTaskArgs t r) = tLeaseExpires t"
  "tBudgetTokens (updateTaskArgs t r) = tBudgetTokens t" "tApprovalID (updateTaskArgs t r) = tApprovalID t"
  "tResult (updateTaskArgs t r) = tResult t" "tErrorText (updateTaskArgs t r) = tErrorText t"
  "tAttempts (updateTaskArgs t r) = tAttempts t" "tMaxAttempts (updateTaskArgs t r) = tMaxAttempts t"
  "tExpiresAt (updateTaskArgs t r) = tExpiresAt t" "tCreatedAt (updateTaskArgs t r) = tCreatedAt r"
  "tUpdatedAt (updateTaskArgs t r) = tUpdatedAt t"
  by (simp_all add: updateTaskArgs_def)

text \<open>What a snapshot at the row's version says of the row.\<close>

definition snap :: "task \<Rightarrow> task \<Rightarrow> bool" where
  "snap t r \<longleftrightarrow> tID t = tID r \<and> tVersion t = tVersion r \<and> immutable_part t = immutable_part r \<and>
     frozen_part t = frozen_part r \<and>
     (tStatus t = tStatus r \<or> tStatus t = StatusWaiting \<and> tStatus r = StatusQueued)"

lemma seen_snap:
  assumes "seen t d" "store_ok d" "r \<in> set (agent_tasks d)" "tID r = tID t" "tVersion r = tVersion t"
  shows "snap t r"
proof -
  have "row_adv t r" using assms(1-4) by (auto simp: seen_def dest: store_ok_same)
  then show ?thesis using assms(4,5) by (simp add: row_adv_def snap_def)
qed

lemma snap_refl [simp]: "snap r r"
  by (simp add: snap_def)

lemmas snap_defs = snap_def part_defs

lemma immutable_part_eq:
  "immutable_part a = immutable_part b \<Longrightarrow> tTenantID a = tTenantID b \<and> tOwner a = tOwner b \<and>
   tIdempotencyKey a = tIdempotencyKey b \<and> tKind a = tKind b \<and> tTool a = tTool b \<and> tArgs a = tArgs b \<and>
   tArgsHash a = tArgsHash b \<and> tPolicyVersion a = tPolicyVersion b \<and> tMaxAttempts a = tMaxAttempts b \<and>
   tExpiresAt a = tExpiresAt b \<and> tCreatedAt a = tCreatedAt b"
  by (simp add: immutable_part_def)

lemma snapD:
  "snap t r \<Longrightarrow> tExecNonce t = tExecNonce r \<and> tReservedTokens t = tReservedTokens r \<and>
   tBudgetTokens t = tBudgetTokens r \<and> tApprovalID t = tApprovalID r \<and> tAttempts t = tAttempts r \<and> tVersion t = tVersion r \<and>
   tKind t = tKind r"
  by (simp add: snap_def part_defs)

lemma canceled_row_fields:
  "tVersion (canceled_row n t) = tVersion t + 1" "tBudgetTokens (canceled_row n t) = tBudgetTokens t" "tAttempts (canceled_row n t) = tAttempts t"
  "immutable_part (canceled_row n t) = immutable_part t"
  "tApprovalID (canceled_row n t) = tApprovalID t" "tExecNonce (canceled_row n t) = tExecNonce t"
  "tReservedTokens (canceled_row n t) = tReservedTokens t"
  "tStatus (canceled_row n t) = (if running_intent t then StatusUnknown else StatusCanceled)"
  by (auto simp: canceled_row_def running_intent_def Let_def immutable_part_def)

lemma move_canceled:
  assumes ok: "row_ok aps r" and s: "snap t r"
    and st: "tStatus r \<in> {StatusQueued, StatusWaiting, StatusRunning}"
  shows "row_move aps r (updateTaskArgs (canceled_row n t) r)" (is "row_move aps r ?r")
proof -
  have im: "immutable_part (canceled_row n t) = immutable_part r"
    using s by (simp add: canceled_row_fields snap_def)
  have fr: "tExecNonce t = tExecNonce r" "tReservedTokens t = tReservedTokens r"
      "tBudgetTokens t = tBudgetTokens r" "tApprovalID t = tApprovalID r" "tAttempts t = tAttempts r" "tVersion t = tVersion r" "tKind t = tKind r"
    using snapD [OF s] by simp_all
  have st': "running_intent t \<longleftrightarrow> running_intent r"
    using s fr by (auto simp: running_intent_def snap_def)
  have adv: "row_adv r ?r"
    using im fr st by (auto simp: row_adv_def canceled_row_fields immutable_part_def settled_def funds_def)
  have ap: "appr_adv aps r ?r"
    using fr st by (auto simp: appr_adv_def canceled_row_fields)
  have "write_ok aps ?r" if "write_ok aps r"
    by (rule write_ok_weaken [OF that])
      (use immutable_part_eq [OF im] fr st' in
        \<open>auto simp: canceled_row_fields past_approval_def running_intent_def\<close>)
  then have "row_ok aps ?r"
    using ok fr st st' immutable_part_eq [OF im]
    by (auto simp: row_ok_def is_write_def canceled_row_fields running_intent_def)
  then show ?thesis using adv ap fr by (simp add: row_move_def canceled_row_fields)
qed

lemma move_reserve:
  assumes "row_ok aps r" and "snap t r" and "tStatus r = StatusRunning" and "tKind t = ''write''"
    and "nonce \<noteq> []" and "0 < amount"
  shows "row_move aps r (updateTaskArgs (t\<lparr>tBudgetTokens := tBudgetTokens t - amount,
    tReservedTokens := tReservedTokens t + amount, tExecNonce := nonce,
    tVersion := tVersion t + 1, tUpdatedAt := n\<rparr>) r)"
  using assms by (auto simp: move_defs snap_defs)

lemma move_intent:
  assumes "row_ok aps r" and "snap t r" and "tStatus r = StatusRunning" and "tKind t = ''write''"
    and "nonce \<noteq> []"
  shows "row_move aps r (updateTaskArgs (t\<lparr>tExecNonce := nonce, tVersion := tVersion t + 1, tUpdatedAt := n\<rparr>) r)"
  using assms by (auto simp: move_defs snap_defs)

lemma settle_fields:
  "tVersion (settle out n t) = tVersion t + 1" "tAttempts (settle out n t) = tAttempts t + 1"
  "immutable_part (settle out n t) = immutable_part t" "tApprovalID (settle out n t) = tApprovalID t"
  "tExecNonce (settle out n t) = tExecNonce t"
  "tStatus (settle out n t) = tStatus (settle_status out t)"
  "tReservedTokens (settle out n t) =
     (if tStatus (settle_status out t) \<noteq> StatusUnknown \<and> 0 < tReservedTokens t then 0 else tReservedTokens t)"
  by (auto simp: settle_def settle_budget_def settle_status_def Let_def part_defs split: option.splits)

lemma settle_funds: "0 \<le> oUsage out \<Longrightarrow> funds (settle out n t) \<le> funds t"
  by (auto simp: settle_def settle_budget_def settle_status_def Let_def funds_def split: option.splits)

lemma settle_status_cases:
  "tStatus (settle_status out t) \<in> {StatusUnknown, StatusQueued, StatusFailed, StatusSucceeded}"
  "tStatus (settle_status out t) = StatusQueued \<Longrightarrow> \<not> (tKind t = ''write'' \<and> tExecNonce t \<noteq> [])"
  by (auto simp: settle_status_def Let_def split: option.splits if_splits)

lemma move_settle:
  assumes ok: "row_ok aps r" and s: "snap t r" and run: "tStatus r = StatusRunning" and u: "0 \<le> oUsage out"
  shows "row_move aps r (updateTaskArgs (settle out n t) r)"
proof -
  let ?s = "tStatus (settle_status out t)"
  have im: "immutable_part (settle out n t) = immutable_part r"
    using s by (simp add: settle_fields snap_def)
  have fr: "tExecNonce t = tExecNonce r" "tReservedTokens t = tReservedTokens r"
      "tBudgetTokens t = tBudgetTokens r" "tApprovalID t = tApprovalID r" "tAttempts t = tAttempts r" "tVersion t = tVersion r" "tKind t = tKind r"
    using snapD [OF s] by simp_all
  have adv: "row_adv r (updateTaskArgs (settle out n t) r)"
    using im fr run settle_funds [OF u, of n t]
    by (simp add: row_adv_def settle_fields immutable_part_def settled_def funds_def)
  have ap: "appr_adv aps r (updateTaskArgs (settle out n t) r)"
    using fr run by (simp add: appr_adv_def settle_fields)
  have "row_ok aps (updateTaskArgs (settle out n t) r)"
    using ok run fr immutable_part_eq [OF im] settle_status_cases [of out t]
    by (auto simp: row_ok_def is_write_def write_ok_def covers_def past_approval_def settle_fields)
  then show ?thesis using adv ap fr by (simp add: row_move_def settle_fields)
qed

lemma move_confirm:
  assumes "row_ok aps r" and "tStatus r = StatusUnknown" and "b \<le> funds r"
  shows "row_move aps r (updateTaskArgs (r\<lparr>tStatus := StatusSucceeded, tResult := res,
    tBudgetTokens := b, tReservedTokens := 0, tAttempts := tAttempts r + 1,
    tVersion := tVersion r + 1, tUpdatedAt := n\<rparr>) r)"
  using assms by (auto simp: move_defs)

lemma move_requeue_readonly:
  assumes "row_ok aps r" and "tStatus r = StatusUnknown" and "tKind r \<noteq> ''write''" and "b \<le> funds r"
  shows "row_move aps r (updateTaskArgs (r\<lparr>tBudgetTokens := b, tReservedTokens := 0, tExecNonce := [],
    tResult := [], tErrorText := [], tStatus := StatusQueued, tVersion := tVersion r + 1,
    tUpdatedAt := n\<rparr>) r)"
  using assms by (auto simp: move_defs)

section \<open>Steps on several tables\<close>

lemma write_ok_mono: "write_ok aps t \<Longrightarrow> set aps \<subseteq> set aps' \<Longrightarrow> write_ok aps' t"
  unfolding write_ok_def by blast

lemma row_ok_mono: "row_ok aps t \<Longrightarrow> set aps \<subseteq> set aps' \<Longrightarrow> row_ok aps' t"
  unfolding row_ok_def using write_ok_mono by blast

lemma appr_adv_mono: "appr_adv aps' t r \<Longrightarrow> aID ` set aps \<subseteq> aID ` set aps' \<Longrightarrow> appr_adv aps t r"
  unfolding appr_adv_def by blast

lemma row_approval_known:
  "row_ok aps t \<Longrightarrow> tApprovalID t \<noteq> [] \<Longrightarrow> tApprovalID t \<in> aID ` set aps"
  unfolding row_ok_def using write_ok_approval by blast

text \<open>An audit row more, and an approval more.\<close>

lemma add_audit_ok:
  assumes "store_ok d" and "insert_audit u d = (r, d')"
  shows "store_ok d' \<and> advances d d'"
proof (cases "distinct (map uID (agent_task_audit d @ [u]))")
  case True
  then have d': "d' = d\<lparr>agent_task_audit := agent_task_audit d @ [u]\<rparr>"
    using assms(2) by (simp add: insert_audit_def Let_def)
  have "consumed_audited d'" using assms(1) by (fastforce simp: store_ok_def consumed_audited_def d')
  then show ?thesis using assms(1) by (auto simp: store_ok_def advances_def d')
next
  case False
  then have "d' = d" using assms(2) by (auto simp: insert_audit_def Let_def)
  then show ?thesis using assms(1) by (simp add: advances_refl)
qed

definition add_approval :: "approval \<Rightarrow> tables \<Rightarrow> tables" where
  "add_approval a d = d\<lparr>agent_approvals := agent_approvals d @ [a]\<rparr>"

lemma add_approval_ok:
  assumes ok: "store_ok d" and a: "aID a \<notin> aID ` set (agent_approvals d)" "aID a \<noteq> []" "\<not> aConsumed a"
  shows "store_ok (add_approval a d) \<and> advances d (add_approval a d) \<and>
    (\<forall>t \<in> set (agent_tasks d). tApprovalID t \<noteq> aID a)"
proof -
  let ?d = "add_approval a d"
  have rows: "\<forall>t \<in> set (agent_tasks d). row_ok (agent_approvals d @ [a]) t"
    by (intro ballI row_ok_mono [OF store_ok_row [OF ok]]) auto
  have "consumed_audited ?d"
    using ok a(3) unfolding store_ok_def consumed_audited_def add_approval_def by simp
  then have "store_ok ?d"
    using ok rows a(1,2) unfolding store_ok_def add_approval_def by (simp add: image_iff)
  moreover have "advances d ?d" by (auto simp: advances_def add_approval_def)
  moreover have "tApprovalID t \<noteq> aID a" if "t \<in> set (agent_tasks d)" for t
    using row_approval_known [OF store_ok_row [OF ok that]] a(1,2) by metis
  ultimately show ?thesis by simp
qed

text \<open>A task more, whose approval (if it is a write) no other task has.\<close>

definition add_task :: "task \<Rightarrow> tables \<Rightarrow> tables" where
  "add_task t d = d\<lparr>agent_tasks := agent_tasks d @ [t]\<rparr>"

lemma add_task_ok:
  assumes ok: "store_ok d" and u: "tasks_unique (agent_tasks d @ [t])" and r: "row_ok (agent_approvals d) t"
    and apart: "tApprovalID t \<noteq> [] \<Longrightarrow> \<forall>x \<in> set (agent_tasks d). tApprovalID x \<noteq> tApprovalID t"
  shows "store_ok (add_task t d) \<and> advances d (add_task t d)"
proof -
  have "one_task_each (agent_tasks d @ [t])"
    unfolding one_task_each_def
  proof (intro ballI impI)
    fix x y
    assume x: "x \<in> set (agent_tasks d @ [t])" and y: "y \<in> set (agent_tasks d @ [t])"
      and ap: "tApprovalID x = tApprovalID y \<and> tApprovalID x \<noteq> []"
    consider "x = t" "y = t" | "x = t" "y \<in> set (agent_tasks d)" | "x \<in> set (agent_tasks d)" "y = t"
      | "x \<in> set (agent_tasks d)" "y \<in> set (agent_tasks d)"
      using x y by auto
    then show "tID x = tID y"
      by cases (use ap apart store_ok_approval_unique [OF ok, of x y] in metis)+
  qed
  then have "store_ok (add_task t d)"
    using ok u r by (simp add: store_ok_def add_task_def consumed_audited_def)
  moreover have "advances d (add_task t d)" by (auto simp: advances_def add_task_def)
  ultimately show ?thesis by simp
qed

text \<open>One row replaced by another that has an approval no other task has.\<close>

lemma replace_row_ok:
  assumes ok: "store_ok d" and r: "r \<in> set (agent_tasks d)"
    and P: "\<And>x. x \<in> set (agent_tasks d) \<Longrightarrow> P x \<longleftrightarrow> x = r"
    and f: "tID (f r) = tID r" "row_ok (agent_approvals d) (f r)" "row_adv r (f r)"
    and apart: "\<forall>x \<in> set (agent_tasks d). tApprovalID x \<noteq> tApprovalID (f r)"
  shows "store_ok (d\<lparr>agent_tasks := upd_where P f (agent_tasks d)\<rparr>)"
proof -
  let ?rows = "upd_where P f (agent_tasks d)"
  have uniq: "tasks_unique ?rows"
    using ok P f(1) row_adv_key [OF f(3)] by (auto simp: store_ok_def intro: tasks_unique_upd)
  have rows: "x = f r \<or> x \<in> set (agent_tasks d) \<and> x \<noteq> r" if "x \<in> set ?rows" for x
    using that P by (auto simp: set_upd_where split: if_splits)
  have "one_task_each ?rows"
    unfolding one_task_each_def
  proof (intro ballI impI)
    fix t u
    assume t: "t \<in> set ?rows" and u: "u \<in> set ?rows"
      and ap: "tApprovalID t = tApprovalID u \<and> tApprovalID t \<noteq> []"
    show "tID t = tID u"
      using rows [OF t] rows [OF u] apart ap store_ok_approval_unique [OF ok, of t u] by metis
  qed
  moreover have "\<forall>x \<in> set ?rows. row_ok (agent_approvals d) x"
    using rows ok f(2) by (auto simp: store_ok_def)
  ultimately show ?thesis
    using ok uniq by (simp add: store_ok_def consumed_audited_def)
qed

end
