(* ===== verification/TaskSafety.thy ===== *)
theory TaskSafety
  imports TaskMoves
begin

text \<open>
  Every operation of TaskOps keeps \<open>store_ok\<close> and \<open>advances\<close>, whatever other processes and faults do
  between its statements: the single statements and transaction bodies first, then the operations, by
  the rules of \<open>rely_guarantee\<close>. \<open>peer\<close> closes the circle: what other processes do between two
  statements may be any such operations, themselves interrupted in the same way.
\<close>

section \<open>Statements and transactions\<close>

abbreviation triple where
  "triple P m Q \<equiv> hoare store_ok advances P m Q"

abbreviation in_tx where
  "in_tx P m Q \<equiv> txh store_ok advances P m Q"

definition keeps :: "'a taskop \<Rightarrow> bool" where
  "keeps m \<longleftrightarrow> hoare store_ok advances (\<lambda>d. True) m (\<lambda>x d. True)"

definition since :: "tables \<Rightarrow> tables \<Rightarrow> bool" where
  "since d0 d \<longleftrightarrow> store_ok d \<and> advances d0 d"

lemma keepsI: "triple P m (\<lambda>x d. True) \<Longrightarrow> (\<And>d. P d) \<Longrightarrow> keeps m"
  unfolding keeps_def by (erule tasks.hoare_pre) simp

lemma keepsD: "keeps m \<Longrightarrow> triple P m (\<lambda>x d. True)"
  unfolding keeps_def by (erule tasks.hoare_pre) simp

lemma hoare_newID: "triple P newID (\<lambda>i d. P d \<and> i \<noteq> [])"
  unfolding newID_def
  by (rule tasks.hoare_bind [OF tasks.hoare_draw], rule tasks.hoare_return)
    (simp add: hex_string_not_Nil)

lemma hoare_run_hook: "triple P (run_hook h t) (\<lambda>_. P)"
  unfolding run_hook_def by (intro tasks.hoare_option tasks.hoare_return tasks.hoare_throw)

lemma hoare_updateWhere:
  assumes "\<And>d r. store_ok d \<Longrightarrow> seen t d \<Longrightarrow> r \<in> set (agent_tasks d) \<Longrightarrow> cond r \<Longrightarrow>
    row_move (agent_approvals d) r (updateTaskArgs t' r)"
  shows "triple (seen t) (updateWhere t' cond) (\<lambda>b d. True)"
  unfolding updateWhere_def
  by (rule tasks.hoare_bind [OF hoare_update_tasks [OF stable_seen]])
    (auto intro: assms tasks.hoare_return)

lemma hoare_select: "stable store_ok advances P \<Longrightarrow> triple P (stmt (select_row p tab)) (\<lambda>x. P)"
  by (rule tasks.hoare_stmt) (auto simp: select_row_def advances_refl split: option.splits)

lemma hoare_get_end: "triple P (get i) (\<lambda>t d. True)"
  by (rule tasks.hoare_top [OF hoare_get_any])

lemma hoare_attempt_any: "triple P m (\<lambda>x d. True) \<Longrightarrow> triple P (attemptE m) (\<lambda>x d. True)"
  by (rule tasks.hoare_top [OF tasks.hoare_attempt])

lemma hoare_attempt_frame:
  "triple P m (\<lambda>x d. True) \<Longrightarrow> stable store_ok advances P \<Longrightarrow> triple P (attemptE m) (\<lambda>x. P)"
  by (drule tasks.hoare_frame [OF hoare_attempt_any], assumption)
    (auto elim!: tasks.hoare_post tasks.hoare_pre simp: conj_absorb)

text \<open>The retried transaction: each attempt starts from a state that satisfies \<open>P\<close>.\<close>

lemma hoare_transact_loop:
  assumes P: "stable store_ok advances P"
    and body: "\<And>d0. store_ok d0 \<Longrightarrow> P d0 \<Longrightarrow> in_tx (\<lambda>d. d = d0) body (\<lambda>x d. since d0 d)"
  shows "triple P (transact_loop n body) (\<lambda>x d. True)"
proof -
  have once: "triple P (transactOnce body) (\<lambda>x d. True)"
    unfolding transactOnce_def
    by (rule tasks.hoare_transaction [OF P]) (use body in \<open>simp add: since_def\<close>)
  show ?thesis
  proof (induction n)
    case 0
    show ?case
      unfolding transact_loop.simps [of 0]
      by (rule tasks.hoare_bind [OF hoare_attempt_frame [OF once P]])
        (auto intro!: tasks.hoare_sum tasks.hoare_if tasks.hoare_throw tasks.hoare_return)
  next
    case (Suc n)
    show ?case
      unfolding transact_loop.simps [of "Suc n"] nat.case
      by (rule tasks.hoare_bind [OF hoare_attempt_frame [OF once P]])
        (auto intro!: tasks.hoare_sum tasks.hoare_if tasks.hoare_throw tasks.hoare_return
          tasks.hoare_option tasks.hoare_bind [OF tasks.hoare_ctx_err] Suc)
  qed
qed

lemma hoare_transact:
  "stable store_ok advances P \<Longrightarrow>
   (\<And>d0. store_ok d0 \<Longrightarrow> P d0 \<Longrightarrow> in_tx (\<lambda>d. d = d0) body (\<lambda>x d. since d0 d)) \<Longrightarrow>
   triple P (transact body) (\<lambda>x d. True)"
  unfolding transact_def by (rule hoare_transact_loop)

lemma in_tx_update:
  assumes "store_ok d0"
    and "\<And>d r. since d0 d \<Longrightarrow> r \<in> set (agent_tasks d) \<Longrightarrow> p r \<Longrightarrow> row_move (agent_approvals d) r (f r)"
  shows "in_tx (since d0) (tx_stmt (update_tasks p f)) (\<lambda>n d. since d0 d)"
proof (rule tasks.txh_stmt)
  fix d x d'
  assume d: "since d0 d" and u: "update_tasks p f d = (Inr x, d')"
  have "store_ok d' \<and> advances d d'"
    using update_tasks_ok [OF _ _ u] d assms(2) by (auto simp: since_def)
  then show "since d0 d'"
    using assms(1) d advances_trans by (auto simp: since_def)
qed

lemma in_tx_updateWhereOn:
  assumes "store_ok d0"
    and "\<And>d r. since d0 d \<Longrightarrow> r \<in> set (agent_tasks d) \<Longrightarrow> p r \<Longrightarrow>
      row_move (agent_approvals d) r (updateTaskArgs t r)"
  shows "in_tx (since d0) (updateWhereOn t p) (\<lambda>n d. since d0 d)"
  unfolding updateWhereOn_def
  by (rule tasks.txh_bind [OF in_tx_update [OF assms]]) (auto intro: tasks.txh_return)

lemma in_tx_newID: "in_tx P newID (\<lambda>i d. P d \<and> i \<noteq> [])"
  unfolding newID_def
  by (rule tasks.txh_bind [OF tasks.txh_draw], rule tasks.txh_return)
    (simp add: hex_string_not_Nil)

lemma in_tx_audit_stmt:
  assumes "store_ok d0"
  shows "in_tx (since d0) (tx_stmt (insert_audit u)) (\<lambda>_. since d0)"
proof (rule tasks.txh_stmt)
  fix d x d'
  assume "since d0 d" "insert_audit u d = (Inr x, d')"
  then show "since d0 d'"
    using assms add_audit_ok [of d u "Inr x" d'] advances_trans [of d0 d d'] unfolding since_def by blast
qed

lemma in_tx_audit: "store_ok d0 \<Longrightarrow> in_tx (since d0) (insertTaskAuditOn t act who n) (\<lambda>_. since d0)"
  unfolding insertTaskAuditOn_def
  by (rule tasks.txh_bind [OF in_tx_newID], rule tasks.txh_bind [OF tasks.txh_now],
      rule tasks.txh_pre [OF in_tx_audit_stmt]) auto

lemma in_tx_start: "in_tx (since d0) m Q \<Longrightarrow> store_ok d0 \<Longrightarrow> in_tx (\<lambda>d. d = d0) m Q"
  by (erule tasks.txh_pre) (simp add: since_def advances_refl)

lemma in_tx_getOn:
  "in_tx (\<lambda>d. d = d0) (getOn i) (\<lambda>t d. d = d0 \<and> t \<in> set (agent_tasks d0) \<and> tID t = i)"
  unfolding getOn_def
  by (rule tasks.txh_stmt) (auto simp: select_row_def split: option.splits dest: find_SomeD)

section \<open>Claim, Complete, Cancel, SweepTimeouts, Recover\<close>

lemma claimCAS_triple: "triple P (claimCAS t ow lease) (\<lambda>r d. \<forall>c. r = Some c \<longrightarrow> seen c d)"
proof -
  have move: "row_move (agent_approvals d) r (r\<lparr>tStatus := StatusRunning, tVersion := tVersion r + 1,
      tLeaseOwner := ow, tLeaseExpires := l, tUpdatedAt := n\<rparr>)"
    if "store_ok d" "r \<in> set (agent_tasks d)"
      "tID r = tID t \<and> tVersion r = tVersion t \<and> tStatus r = StatusQueued" for d r l n
    by (rule move_claim [OF store_ok_row [OF that(1,2)]]) (use that(3) in simp)
  have "triple (\<lambda>d. True) (claimCAS t ow lease) (\<lambda>r d. \<forall>c. r = Some c \<longrightarrow> seen c d)"
    unfolding claimCAS_def
    by (intro tasks.hoare_bind [OF tasks.hoare_now_nanos] tasks.hoare_bind [OF tasks.hoare_now]
        tasks.hoare_bind [OF hoare_update_tasks [OF stable_True]] tasks.hoare_if tasks.hoare_return
        tasks.hoare_bind [OF hoare_get_any] move) auto
  then show ?thesis by (rule tasks.hoare_pre) simp
qed

lemma claim_loop_triple: "triple P (claim_loop k ex ow lease) (\<lambda>t d. seen t d)"
proof (induction k arbitrary: P ex)
  case (Suc k)
  have sel: "triple (\<lambda>d. True) (stmt (select_oldest p)) (\<lambda>t d. True)" for p
    by (rule tasks.hoare_stmt [OF stable_True])
      (auto simp: select_oldest_def advances_refl split: option.splits)
  have "triple (\<lambda>d. True) (claim_loop (Suc k) ex ow lease) (\<lambda>t d. seen t d)"
    by (auto intro!: tasks.hoare_bind [OF tasks.hoare_now] tasks.hoare_bind [OF sel] tasks.hoare_if
        tasks.hoare_throw tasks.hoare_bind [OF claimCAS_triple] tasks.hoare_option
        tasks.hoare_return Suc.IH)
  then show ?case by (rule tasks.hoare_pre) simp
qed (simp add: tasks.hoare_throw)

lemma Claim_seen: "triple P (Claim st ow lease) (\<lambda>t d. seen t d)"
  unfolding Claim_def by (rule tasks.hoare_bind [OF hoare_run_hook]) (rule claim_loop_triple)

lemma Claim_keeps: "keeps (Claim st ow lease)"
  unfolding keeps_def by (rule tasks.hoare_top [OF Claim_seen])

lemma complete_body_tx:
  assumes "store_ok d0" and "seen t d0" and u: "0 \<le> oUsage out"
  shows "in_tx (\<lambda>d. d = d0) (complete_body (tID t) (tVersion t) (settle out n t) who u) (\<lambda>x d. since d0 d)"
proof (rule in_tx_start)
  have "row_move (agent_approvals d) r (updateTaskArgs (settle out n t) r)"
    if "since d0 d" "r \<in> set (agent_tasks d)"
      "tID r = tID t \<and> tVersion r = tVersion t \<and> tStatus r = StatusRunning" for d r
  proof -
    have ok: "store_ok d" and "seen t d"
      using that(1) assms stable_seen [of t] unfolding stable_def since_def by blast+
    then have "snap t r" using that(2,3) seen_snap by blast
    then show ?thesis using move_settle [OF store_ok_row [OF ok that(2)]] that(3) u by blast
  qed
  then show "in_tx (since d0) (complete_body (tID t) (tVersion t) (settle out n t) who u) (\<lambda>x d. since d0 d)"
    unfolding complete_body_def
    by (intro tasks.txh_bind [OF in_tx_updateWhereOn [OF assms(1)]] tasks.txh_if tasks.txh_return
        tasks.txh_bind [OF in_tx_audit [OF assms(1)]]) auto
qed (rule assms(1))

lemma stable_conj: "stable ok adv P \<Longrightarrow> stable ok adv Q \<Longrightarrow> stable ok adv (\<lambda>d. P d \<and> Q d)"
  unfolding stable_def by blast

lemma stable_const: "stable ok adv (\<lambda>d. c)"
  unfolding stable_def by blast

lemma Complete_keeps: "keeps (Complete st i v out)"
proof -
  have tx: "triple (\<lambda>d. tID t = i \<and> seen t d)
      (transact (complete_body i v (settle out n t) (tLeaseOwner t) (oUsage out))) (\<lambda>x d. True)"
    if "tVersion t = v" "0 \<le> oUsage out" for t n
    by (rule hoare_transact [OF stable_conj [OF stable_const stable_seen]])
      (use that complete_body_tx in auto)
  show ?thesis
    unfolding Complete_def keeps_def
    by (intro tasks.hoare_if tasks.hoare_throw tasks.hoare_bind [OF hoare_run_hook]
        tasks.hoare_bind [OF hoare_get_any] tasks.hoare_return tasks.hoare_bind [OF tasks.hoare_now]
        tasks.hoare_bind [OF tx] hoare_get_end) auto
qed

lemma cancel_cas:
  "triple (\<lambda>d. tID t = i \<and> seen t d) (updateWhere (canceled_row n t)
      (\<lambda>x. tID x = i \<and> tVersion x = tVersion t \<and>
           tStatus x \<in> {StatusQueued, StatusWaiting, StatusRunning})) (\<lambda>b d. True)"
proof (cases "tID t = i")
  case True
  then show ?thesis
    by (intro tasks.hoare_pre [OF hoare_updateWhere [where t = t]])
      (auto intro!: move_canceled dest: store_ok_row seen_snap)
qed (simp add: hoare_def)

lemma cancel_loop_triple: "triple P (cancel_loop k i) (\<lambda>r d. True)"
proof (induction k arbitrary: P)
  case (Suc k)
  have "keeps (cancel_loop (Suc k) i)"
    unfolding cancel_loop.simps keeps_def
    by (intro tasks.hoare_bind [OF hoare_get_any] tasks.hoare_if tasks.hoare_return
        tasks.hoare_bind [OF tasks.hoare_now] tasks.hoare_bind [OF cancel_cas] hoare_get_end
        tasks.hoare_bind [OF tasks.hoare_ctx_err] tasks.hoare_option tasks.hoare_throw Suc.IH) auto
  then show ?case by (rule keepsD)
qed (simp add: tasks.hoare_throw)

lemma Cancel_keeps: "keeps (Cancel i)"
  unfolding keeps_def hoare_def
proof (intro allI impI)
  fix w :: "(task_err_kind, tables) world"
  assume "env_ok store_ok advances w \<and> store_ok (db w) \<and> True"
  then show "wp (Cancel i) (\<lambda>r w'. env_ok store_ok advances w' \<and> store_ok (db w') \<and>
      advances (db w) (db w') \<and> (case r of Inl e \<Rightarrow> True | Inr x \<Rightarrow> True)) w"
    using cancel_loop_triple [of "\<lambda>d. True" "Suc (length (script w))" i]
    by (simp add: hoare_def wp_def Cancel_def del: cancel_loop.simps)
qed

lemma sweep_body_tx:
  assumes ok: "store_ok d0"
  shows "in_tx (\<lambda>d. d = d0) (sweep_body c) (\<lambda>x d. since d0 d)"
proof (rule in_tx_start [OF _ ok])
  have row: "since d0 d \<Longrightarrow> r \<in> set (agent_tasks d) \<Longrightarrow> row_ok (agent_approvals d) r" for d r
    by (simp add: since_def store_ok_row)
  have u: "in_tx (since d0) (tx_stmt (update_tasks p f)) (\<lambda>n. since d0)"
    if "\<And>aps r. row_ok aps r \<Longrightarrow> p r \<Longrightarrow> row_move aps r (f r)" for p f
    by (rule in_tx_update [OF ok that]) (simp_all add: row)
  have r: "in_tx (since d0) (returnE n) (\<lambda>x. since d0)" for n :: nat
    by (rule tasks.txh_return)
  show "in_tx (since d0) (sweep_body c) (\<lambda>x d. since d0 d)"
    unfolding sweep_body_def
    by (rule tasks.txh_bind [OF u], rule move_unknown, assumption, simp add: running_intent_def,
        rule tasks.txh_bind [OF u], rule move_timed_out, assumption, simp, simp, rule r)
qed

lemma SweepTimeouts_keeps: "keeps SweepTimeouts"
  unfolding SweepTimeouts_def keeps_def
  by (rule tasks.hoare_bind [OF tasks.hoare_now], rule hoare_transact [OF stable_True], rule sweep_body_tx)

lemma Recover_keeps: "keeps Recover"
proof -
  have u: "triple (\<lambda>d. True) (stmt (update_tasks p f)) (\<lambda>n d. True)"
    if "\<And>aps r. row_ok aps r \<Longrightarrow> p r \<Longrightarrow> row_move aps r (f r)" for p f
    by (rule hoare_update_tasks [OF stable_True]) (blast intro: that store_ok_row)
  show ?thesis
    unfolding Recover_def keeps_def
    by (intro tasks.hoare_bind [OF tasks.hoare_now] tasks.hoare_bind [OF u] tasks.hoare_return)
      (auto intro: move_requeue_idle move_unknown_plain)
qed

section \<open>Reserve, RecordIntent, RenewLease\<close>

lemma keeps_throw: "keeps (throwE e)"
  unfolding keeps_def by (rule tasks.hoare_throw)

lemma cas_snap:
  assumes "\<And>aps r. row_ok aps r \<Longrightarrow> snap t r \<Longrightarrow> p r \<Longrightarrow> row_move aps r (updateTaskArgs t' r)"
    and "\<And>r. p r \<Longrightarrow> tID r = tID t \<and> tVersion r = tVersion t"
  shows "triple (seen t) (updateWhere t' p) (\<lambda>b d. True)"
  by (rule hoare_updateWhere) (meson assms seen_snap store_ok_row)

lemma Reserve_seen: "triple P (Reserve i v amount) (\<lambda>t d. tID t = i \<and> seen t d)"
proof -
  have cas: "triple (\<lambda>d. (tID t = i \<and> seen t d) \<and> nonce \<noteq> []) (updateWhere (t\<lparr>tBudgetTokens := tBudgetTokens t - amount,
      tReservedTokens := tReservedTokens t + amount, tExecNonce := nonce,
      tVersion := tVersion t + 1, tUpdatedAt := n\<rparr>) (fenced i v)) (\<lambda>b d. True)"
    if "\<not> tVersion t \<noteq> v" "\<not> tKind t \<noteq> ''write''" "\<not> amount \<le> 0" for t nonce n
  proof (cases "tID t = i \<and> nonce \<noteq> []")
    case True
    then show ?thesis
      using that by (intro tasks.hoare_pre [OF cas_snap [where t = t]])
        (auto simp: fenced_def intro!: move_reserve)
  qed (auto simp: hoare_def)
  show ?thesis
    unfolding Reserve_def
    by (intro tasks.hoare_bind [OF hoare_get_any] tasks.hoare_if tasks.hoare_throw tasks.hoare_return
        tasks.hoare_bind [OF hoare_newID] tasks.hoare_bind [OF tasks.hoare_now]
        tasks.hoare_bind [OF cas] hoare_get_any)
qed

lemma Reserve_triple: "triple P (Reserve i v amount) (\<lambda>t d. True)"
  by (rule tasks.hoare_top [OF Reserve_seen])

lemma RecordIntent_seen: "triple P (RecordIntent i v) (\<lambda>t d. tID t = i \<and> seen t d)"
proof -
  have cas: "triple (\<lambda>d. (tID t = i \<and> seen t d) \<and> nonce \<noteq> [])
      (updateWhere (t\<lparr>tExecNonce := nonce, tVersion := tVersion t + 1, tUpdatedAt := n\<rparr>) (fenced i v))
      (\<lambda>b d. True)"
    if "\<not> tVersion t \<noteq> v" "\<not> tKind t \<noteq> ''write''" for t nonce n
  proof (cases "tID t = i \<and> nonce \<noteq> []")
    case True
    then show ?thesis
      using that by (intro tasks.hoare_pre [OF cas_snap [where t = t]])
        (auto simp: fenced_def intro!: move_intent)
  qed (auto simp: hoare_def)
  show ?thesis
    unfolding RecordIntent_def
    by (intro tasks.hoare_bind [OF hoare_get_any] tasks.hoare_if tasks.hoare_throw
        tasks.hoare_bind [OF hoare_newID] tasks.hoare_bind [OF tasks.hoare_now]
        tasks.hoare_bind [OF cas] hoare_get_any)
qed

lemma RecordIntent_triple: "triple P (RecordIntent i v) (\<lambda>t d. True)"
  by (rule tasks.hoare_top [OF RecordIntent_seen])

lemma RenewLease_keeps: "keeps (RenewLease i ow lease)"
proof -
  have u: "triple (\<lambda>d. True) (stmt (update_tasks
      (\<lambda>t. tID t = i \<and> tLeaseOwner t = ow \<and> tStatus t = StatusRunning)
      (\<lambda>t. t\<lparr>tLeaseExpires := l, tUpdatedAt := n\<rparr>))) (\<lambda>n d. True)" for l n
    by (rule hoare_update_tasks [OF stable_True], rule move_lease, erule (1) store_ok_row) simp
  show ?thesis
    unfolding RenewLease_def keeps_def Let_def
    by (intro tasks.hoare_bind [OF tasks.hoare_now] tasks.hoare_bind [OF u] tasks.hoare_return TrueI)
qed

section \<open>Reconciliation\<close>

lemma in_tx_throw_if:
  "in_tx P n Q \<Longrightarrow> in_tx P (if b then throwE e else n) Q"
  by (intro tasks.txh_if tasks.txh_throw)

lemma store_ok_key: "store_ok d \<Longrightarrow> t \<in> set (agent_tasks d) \<Longrightarrow> r \<in> set (agent_tasks d) \<Longrightarrow>
    tID r = tID t \<Longrightarrow> r = t"
  using store_ok_same by metis

text \<open>An update right after a read of the same transaction: the row is the snapshot.\<close>

lemma in_tx_update_read:
  assumes ok: "store_ok d0"
    and p: "\<And>x. p x \<Longrightarrow> tID x = tID t"
    and move: "\<And>aps. row_ok aps t \<Longrightarrow> p t \<Longrightarrow> row_move aps t (updateTaskArgs t' t)"
  shows "in_tx (\<lambda>d. d = d0 \<and> t \<in> set (agent_tasks d0)) (updateWhereOn t' p) (\<lambda>_. since d0)"
proof (cases "t \<in> set (agent_tasks d0)")
  case True
  have "in_tx (\<lambda>d. d = d0) (tx_stmt (update_tasks p (updateTaskArgs t'))) (\<lambda>_. since d0)"
  proof (rule tasks.txh_stmt)
    fix d n d'
    assume "d = d0" "update_tasks p (updateTaskArgs t') d = (Inr n, d')"
    moreover have "row_move (agent_approvals d0) r (updateTaskArgs t' r)"
      if "r \<in> set (agent_tasks d0)" "p r" for r
      using move [OF store_ok_row [OF ok True]] store_ok_key [OF ok True that(1) p [OF that(2)]] that(2)
      by simp
    ultimately show "since d0 d'"
      using update_tasks_ok [OF ok] unfolding since_def by metis
  qed
  then have "in_tx (\<lambda>d. d = d0) (updateWhereOn t' p) (\<lambda>_. since d0)"
    unfolding updateWhereOn_def by (rule tasks.txh_bind) (simp add: tasks.txh_return)
  then show ?thesis by (rule tasks.txh_pre) simp
qed (simp add: txh_def)

lemma confirm_body_tx:
  assumes ok: "store_ok d0" and u: "0 \<le> u"
  shows "in_tx (\<lambda>d. d = d0) (confirm_body i who res u) (\<lambda>x d. since d0 d)"
proof -
  have upd: "in_tx (\<lambda>d. d = d0 \<and> t \<in> set (agent_tasks d0) \<and> tID t = i)
      (updateWhereOn (t\<lparr>tStatus := StatusSucceeded, tResult := res,
                tBudgetTokens := tBudgetTokens t + (tReservedTokens t - u),
                tReservedTokens := 0, tAttempts := tAttempts t + 1,
                tVersion := tVersion t + 1, tUpdatedAt := n\<rparr>)
        (\<lambda>x. tID x = i \<and> tStatus x = StatusUnknown \<and> tVersion x = tVersion t)) (\<lambda>_. since d0)" for t n
  proof (cases "tID t = i")
    case True
    then show ?thesis
      by (intro tasks.txh_pre [OF in_tx_update_read [OF ok, where t = t]] move_confirm) (use u in \<open>auto simp: funds_def\<close>)
  qed (simp add: txh_def)
  show ?thesis
    unfolding confirm_body_def Let_def
    by (intro tasks.txh_bind [OF in_tx_getOn] tasks.txh_if tasks.txh_throw
        tasks.txh_bind [OF tasks.txh_now] tasks.txh_bind [OF upd] in_tx_audit [OF ok])
qed

lemma ConfirmUnknownAs_keeps: "keeps (ConfirmUnknownAs i who res u)"
  unfolding ConfirmUnknownAs_def keeps_def
  by (intro tasks.hoare_if tasks.hoare_throw tasks.hoare_bind [OF hoare_transact [OF stable_True]]
      confirm_body_tx hoare_get_end) auto

section \<open>Approval of a write\<close>

definition consume :: "string \<Rightarrow> string \<Rightarrow> approval list \<Rightarrow> approval list" where
  "consume ap who aps = upd_where (\<lambda>a. aID a = ap \<and> \<not> aConsumed a)
     (\<lambda>a. a\<lparr>aConsumed := True, aConsumedBy := who, aOperator := who\<rparr>) aps"

lemma consume_keeps: "a \<in> set aps \<Longrightarrow> aID a \<noteq> ap \<or> aConsumed a \<Longrightarrow> a \<in> set (consume ap who aps)"
  by (force simp: consume_def set_upd_where)

lemma consume_hits:
  "a \<in> set aps \<Longrightarrow> aID a = ap \<Longrightarrow> \<not> aConsumed a \<Longrightarrow>
   a\<lparr>aConsumed := True, aConsumedBy := who, aOperator := who\<rparr> \<in> set (consume ap who aps)"
  by (force simp: consume_def set_upd_where)

lemma consume_cases:
  assumes "b \<in> set (consume ap who aps)"
  obtains "b \<in> set aps" | "aID b = ap" "aOperator b = who"
  using assms by (auto simp: consume_def set_upd_where split: if_splits)

lemma consume_ids: "map aID (consume ap who aps) = map aID aps"
  unfolding consume_def by (rule map_upd_where_key) simp

lemma consume_adv: "a \<in> set aps \<Longrightarrow> \<exists>b \<in> set (consume ap who aps). approval_adv a b"
proof (cases "aID a = ap \<and> \<not> aConsumed a")
  case True
  moreover assume "a \<in> set aps"
  ultimately show ?thesis
    by (intro bexI [OF _ consume_hits [of a aps ap who]]) (auto simp: approval_adv_def)
next
  case False
  moreover assume "a \<in> set aps"
  ultimately show ?thesis by (intro bexI [OF _ consume_keeps]) auto
qed

text \<open>The rows of other tasks do not refer to the consumed approval.\<close>

lemma consume_other_row:
  assumes ok: "store_ok d" and t: "t \<in> set (agent_tasks d)" "tApprovalID t = ap" "ap \<noteq> []"
    and r: "r \<in> set (agent_tasks d)" "r \<noteq> t"
  shows "row_ok (consume ap who (agent_approvals d)) r"
proof -
  have "write_ok (consume ap who (agent_approvals d)) r" if w: "write_ok (agent_approvals d) r"
  proof -
    obtain a where a: "a \<in> set (agent_approvals d)" "covers a r"
        "past_approval (tStatus r) \<longrightarrow> aConsumed a \<and> aOperator a \<noteq> tOwner r"
        "tStatus r = StatusWaiting \<longrightarrow> \<not> aConsumed a"
      using w unfolding write_ok_def by blast
    have "aID a \<noteq> ap"
    proof
      assume "aID a = ap"
      then have "tApprovalID r = tApprovalID t" "tApprovalID r \<noteq> []"
        using a(2) t by (auto simp: covers_def)
      then show False
        using store_ok_approval_unique [OF ok r(1) t(1)] store_ok_same [OF ok r(1) t(1)] r(2) by simp
    qed
    then have "a \<in> set (consume ap who (agent_approvals d))"
      using consume_keeps a(1) by metis
    then show ?thesis using a(2-4) unfolding write_ok_def by blast
  qed
  then show ?thesis using store_ok_row [OF ok r(1)] unfolding row_ok_def by blast
qed

lemma approved_row:
  assumes ok: "row_ok aps t" and st: "tStatus t = StatusWaiting" and who: "tOwner t \<noteq> who"
    and fields: "tID t' = tID t" "tStatus t' = StatusQueued" "immutable_part t' = immutable_part t"
      "frozen_part t' = frozen_part t" "tVersion t' = tVersion t"
  shows "row_ok (consume (tApprovalID t) who aps) t' \<and> row_adv t t' \<and> appr_adv aps t t'"
proof -
  have w: "is_write t" "tReservedTokens t = 0" "tExecNonce t = []"
    using ok st by (auto simp: row_ok_def)
  then obtain a where a: "a \<in> set aps" "covers a t" "\<not> aConsumed a"
    using ok st unfolding row_ok_def write_ok_def by blast
  let ?a = "a\<lparr>aConsumed := True, aConsumedBy := who, aOperator := who\<rparr>"
  have "?a \<in> set (consume (tApprovalID t) who aps)"
    using a by (intro consume_hits) (auto simp: covers_def)
  moreover have "covers ?a t'" "aOperator ?a \<noteq> tOwner t'"
    using a(2) who fields immutable_part_eq [OF fields(3)] by (auto simp: covers_def frozen_part_def)
  ultimately have "write_ok (consume (tApprovalID t) who aps) t'"
    unfolding write_ok_def using fields(2) by (intro bexI [where x = ?a]) auto
  moreover have "is_write t'" "tReservedTokens t' = 0" "tExecNonce t' = []" "tKind t' = tKind t"
      "tApprovalID t' = tApprovalID t"
    using w fields immutable_part_eq [OF fields(3)] by (auto simp: is_write_def frozen_part_def)
  moreover have "row_adv t t'"
    using fields st by (auto simp: row_adv_def settled_def frozen_part_def funds_def)
  ultimately show ?thesis
    using st w ok fields(2) by (auto simp: row_ok_def appr_adv_def)
qed

lemma approve_tables:
  assumes ok: "store_ok d0" and t: "t \<in> set (agent_tasks d0)" "tStatus t = StatusWaiting" "tOwner t \<noteq> who"
    and ap: "tApprovalID t = ap" "ap \<noteq> []"
    and d2: "d2 = d0\<lparr>agent_approvals := consume ap who (agent_approvals d0),
      agent_tasks := upd_where (\<lambda>x. tID x = tID t \<and> tStatus x = StatusWaiting)
        (updateTaskArgs (t\<lparr>tStatus := StatusQueued, tUpdatedAt := n\<rparr>)) (agent_tasks d0)\<rparr>"
    and u: "insert_audit u d2 = (Inr (), d3)" "uAction u = ''approve''" "uApprovalID u = ap" "uActor u = who"
  shows "since d0 d3"
proof -
  let ?t = "t\<lparr>tStatus := StatusQueued, tUpdatedAt := n\<rparr>"
  let ?p = "\<lambda>x. tID x = tID t \<and> tStatus x = StatusWaiting"
  let ?f = "updateTaskArgs ?t"
  let ?aps = "consume ap who (agent_approvals d0)"
  have p: "?p x \<longleftrightarrow> x = t" if "x \<in> set (agent_tasks d0)" for x
    using store_ok_key [OF ok t(1) that] t(2) by auto
  have new: "row_ok ?aps (?f t) \<and> row_adv t (?f t) \<and> appr_adv (agent_approvals d0) t (?f t)"
    using approved_row [OF store_ok_row [OF ok t(1)] t(2,3), of "?f t"] ap
    by (simp add: part_defs)
  have rows: "set (agent_tasks d2) = (\<lambda>x. if x = t then ?f t else x) ` set (agent_tasks d0)"
    using p by (auto simp: d2 set_upd_where)
  have uniq: "tasks_unique (upd_where ?p ?f (agent_tasks d0))"
  proof (rule tasks_unique_upd)
    show "tasks_unique (agent_tasks d0)" using ok by (simp add: store_ok_def)
  next
    fix r
    assume "r \<in> set (agent_tasks d0)" "?p r"
    then have "r = t" using p by blast
    then show "tID (?f r) = tID r \<and> task_key (?f r) = task_key r" by (simp add: task_key_def)
  qed
  have d3: "d3 = d2\<lparr>agent_task_audit := agent_task_audit d0 @ [u]\<rparr>"
    using u(1) by (auto simp: insert_audit_def Let_def d2 split: if_splits)
  have "row_ok ?aps x" if "x \<in> set (agent_tasks d2)" for x
    using that new consume_other_row [OF ok t(1) ap] by (auto simp: rows)
  moreover have "one_task_each (agent_tasks d2)"
    unfolding one_task_each_def
  proof (intro ballI impI)
    fix x y
    assume "x \<in> set (agent_tasks d2)" "y \<in> set (agent_tasks d2)"
      and ap: "tApprovalID x = tApprovalID y \<and> tApprovalID x \<noteq> []"
    then obtain x0 y0 where "x0 \<in> set (agent_tasks d0)" "tID x = tID x0" "tApprovalID x = tApprovalID x0"
        "y0 \<in> set (agent_tasks d0)" "tID y = tID y0" "tApprovalID y = tApprovalID y0"
      unfolding rows using t(1) by (auto split: if_splits)
    then show "tID x = tID y" using ap store_ok_approval_unique [OF ok] by metis
  qed
  moreover have "consumed_audited d3"
    unfolding consumed_audited_def
  proof (intro ballI impI)
    fix b
    assume b: "b \<in> set (agent_approvals d3)" "aConsumed b"
    then have "b \<in> set ?aps" by (simp add: d3 d2)
    then show "\<exists>v \<in> set (agent_task_audit d3).
        uAction v = ''approve'' \<and> uApprovalID v = aID b \<and> uActor v = aOperator b"
    proof (cases rule: consume_cases)
      case 1
      then show ?thesis using ok b(2) unfolding store_ok_def consumed_audited_def d3 by auto
    next
      case 2
      then show ?thesis using u(2-4) by (auto simp: d3)
    qed
  qed
  ultimately have "store_ok d3"
    using ok uniq by (simp add: store_ok_def d3 d2 consume_ids flip: set_map)
  moreover have "\<exists>r \<in> set (agent_tasks d3). tID r = tID x \<and> row_adv x r \<and> appr_adv (agent_approvals d0) x r"
    if x: "x \<in> set (agent_tasks d0)" for x
    using new x by (intro bexI [where x = "if x = t then ?f t else x"]) (auto simp: d3 rows)
  moreover have "\<exists>b \<in> set (agent_approvals d3). approval_adv a b" if "a \<in> set (agent_approvals d0)" for a
    using consume_adv [OF that] by (simp add: d3 d2)
  ultimately show ?thesis by (auto simp: since_def advances_def d3 d2)
qed

text \<open>The transaction of \<open>Approve\<close>.\<close>

lemma approve_body_tx:
  assumes ok: "store_ok d0"
  shows "in_tx (\<lambda>d. d = d0) (approve_body st ap who) (\<lambda>x d. since d0 d)"
proof -
  let ?c = "consume ap who (agent_approvals d0)"
  let ?d1 = "d0\<lparr>agent_approvals := ?c\<rparr>"
  define d2 where "d2 t n = d0\<lparr>agent_approvals := ?c,
      agent_tasks := upd_where (\<lambda>x. tID x = tID t \<and> tStatus x = StatusWaiting)
        (updateTaskArgs (t\<lparr>tStatus := StatusQueued, tUpdatedAt := n\<rparr>)) (agent_tasks d0)\<rparr>" for t n
  have consume_stmt: "in_tx (\<lambda>d. d = d0) (tx_stmt (update_approvals (\<lambda>a. aID a = ap \<and> \<not> aConsumed a)
      (\<lambda>a. a\<lparr>aConsumed := True, aConsumedBy := who, aOperator := who\<rparr>)))
      (\<lambda>n d. d = ?d1 \<and> (n = 1 \<longrightarrow> ap \<noteq> []))"
  proof (rule tasks.txh_stmt)
    fix d n d'
    assume d: "d = d0" and u: "update_approvals (\<lambda>a. aID a = ap \<and> \<not> aConsumed a)
        (\<lambda>a. a\<lparr>aConsumed := True, aConsumedBy := who, aOperator := who\<rparr>) d = (Inr n, d')"
    have "ap \<noteq> []" if "n = 1"
    proof -
      have "\<exists>a \<in> set (agent_approvals d0). aID a = ap"
        using u d that count_where_0 [of "\<lambda>a. aID a = ap \<and> \<not> aConsumed a" "agent_approvals d0"]
        by (auto simp: update_approvals_def)
      then show ?thesis using ok by (force simp: store_ok_def)
    qed
    then show "d' = ?d1 \<and> (n = 1 \<longrightarrow> ap \<noteq> [])"
      using u d by (auto simp: update_approvals_def consume_def)
  qed
  have sel: "in_tx (\<lambda>d. d = ?d1 \<and> (n = 1 \<longrightarrow> ap \<noteq> []))
      (attemptE (tx_stmt (select_row (\<lambda>t. tApprovalID t = ap) agent_tasks)))
      (\<lambda>r d. case r of Inl e \<Rightarrow> True
        | Inr t \<Rightarrow> d = ?d1 \<and> t \<in> set (agent_tasks d0) \<and> tApprovalID t = ap \<and> ap \<noteq> [])" if "n = 1" for n :: nat
    by (rule tasks.txh_attempt, rule tasks.txh_stmt)
      (use that in \<open>auto simp: select_row_def split: option.splits dest: find_SomeD\<close>)
  have getOn: "in_tx (\<lambda>d. d = ?d1 \<and> row \<in> set (agent_tasks d0) \<and> tApprovalID row = ap \<and> ap \<noteq> []) (getOn (tID row))
      (\<lambda>t d. d = ?d1 \<and> t = row \<and> t \<in> set (agent_tasks d0) \<and> tApprovalID t = ap \<and> ap \<noteq> [])" for row
    unfolding getOn_def
    by (rule tasks.txh_stmt) (auto simp: select_row_def find_key_unique [OF store_ok_ids [OF ok]])
  have hook: "in_tx P (run_hook h t) (\<lambda>_. P)" for P h t
    unfolding run_hook_def
    by (cases h; auto intro!: tasks.txh_return tasks.txh_throw split: option.split)
  have upd: "in_tx (\<lambda>d. d = ?d1 \<and> t = row \<and> t \<in> set (agent_tasks d0) \<and> tApprovalID t = ap \<and> ap \<noteq> [])
      (updateWhereOn (t\<lparr>tStatus := StatusQueued, tUpdatedAt := n\<rparr>)
        (\<lambda>x. tID x = tID row \<and> tStatus x = StatusWaiting))
      (\<lambda>b d. d = d2 t n \<and> t \<in> set (agent_tasks d0) \<and> tApprovalID t = ap \<and> ap \<noteq> [])" for t row n
    unfolding updateWhereOn_def
  proof (rule tasks.txh_bind)
    show "in_tx (\<lambda>d. d = ?d1 \<and> t = row \<and> t \<in> set (agent_tasks d0) \<and> tApprovalID t = ap \<and> ap \<noteq> [])
        (tx_stmt (update_tasks (\<lambda>x. tID x = tID row \<and> tStatus x = StatusWaiting)
           (updateTaskArgs (t\<lparr>tStatus := StatusQueued, tUpdatedAt := n\<rparr>))))
        (\<lambda>b d. d = d2 t n \<and> t \<in> set (agent_tasks d0) \<and> tApprovalID t = ap \<and> ap \<noteq> [])"
      by (rule tasks.txh_stmt) (auto simp: update_tasks_def Let_def d2_def split: if_splits)
  qed (rule tasks.txh_return)
  have fin: "in_tx (\<lambda>d. d = d2 t n \<and> t \<in> set (agent_tasks d0) \<and> tApprovalID t = ap \<and> ap \<noteq> [])
      (insertTaskAuditOn (t\<lparr>tStatus := StatusQueued, tUpdatedAt := n\<rparr>) ''approve'' who 0) (\<lambda>_. since d0)"
    if "\<not> tStatus t \<noteq> StatusWaiting" "\<not> tOwner t = who" for t n
    unfolding insertTaskAuditOn_def
  proof (rule tasks.txh_bind [OF tasks.txh_pre [OF in_tx_newID]], assumption, rule tasks.txh_bind [OF tasks.txh_now],
      rule tasks.txh_stmt)
    fix i m d x d'
    assume "(d = d2 t n \<and> t \<in> set (agent_tasks d0) \<and> tApprovalID t = ap \<and> ap \<noteq> []) \<and> i \<noteq> []"
      and "insert_audit \<lparr>uID = i, uTaskID = tID (t\<lparr>tStatus := StatusQueued, tUpdatedAt := n\<rparr>),
          uTenantID = tTenantID (t\<lparr>tStatus := StatusQueued, tUpdatedAt := n\<rparr>), uActor = who,
          uAction = ''approve'', uToStatus = tStatus (t\<lparr>tStatus := StatusQueued, tUpdatedAt := n\<rparr>),
          uApprovalID = tApprovalID (t\<lparr>tStatus := StatusQueued, tUpdatedAt := n\<rparr>), uUsage = 0,
          uCreatedAt = m\<rparr> d = (Inr x, d')"
    then show "since d0 d'"
      using that by (intro approve_tables [OF ok _ _ _ _ _ d2_def [of t n]]) auto
  qed
  show ?thesis
    unfolding approve_body_def Let_def
    apply (rule tasks.txh_bind [OF consume_stmt])
    apply (rule tasks.txh_if [OF tasks.txh_throw])
    apply (rule tasks.txh_bind [OF sel], simp)
    apply (rule tasks.txh_sum [OF tasks.txh_throw], simp)
    apply (rule tasks.txh_bind [OF getOn])
    apply (rule tasks.txh_if [OF tasks.txh_throw])
    apply (rule tasks.txh_if [OF tasks.txh_throw])
    apply (rule tasks.txh_bind [OF hook])
    apply (rule tasks.txh_bind [OF tasks.txh_now])
    apply (rule tasks.txh_bind [OF upd])
    apply (rule tasks.txh_if [OF tasks.txh_throw])
    apply (erule (1) fin)
    done
qed

lemma Approve_keeps: "keeps (Approve st ap who args)"
  unfolding Approve_def keeps_def
  by (intro tasks.hoare_if tasks.hoare_throw tasks.hoare_sum tasks.hoare_return
      tasks.hoare_bind [OF hoare_attempt_any [OF tasks.hoare_top [OF hoare_select [OF stable_True]]]]
      tasks.hoare_bind [OF tasks.hoare_now] tasks.hoare_bind [OF hoare_transact [OF stable_True]]
      approve_body_tx tasks.hoare_bind [OF hoare_select [OF stable_True]] hoare_get_end)

end
