(* ===== verification/TaskPeers.thy ===== *)
theory TaskPeers
  imports TaskSafety
begin

text \<open>
  The operations that issue approvals (\<open>Submit\<close>, \<open>RequeueUnknown\<close>) and the worker keep \<open>store_ok\<close> and
  \<open>advances\<close>; then the calls a process can make on the store, \<open>peer\<close> (what other processes can do to
  the tables, their calls being interrupted in the same way) and the reachable tables.
\<close>

section \<open>Submit\<close>

text \<open>A submission must not carry execution state of its own: \<open>Submit\<close> copies the caller's row.\<close>

definition fresh_submission :: "task \<Rightarrow> bool" where
  "fresh_submission t \<longleftrightarrow> tExecNonce t = [] \<and> tReservedTokens t = 0 \<and> tApprovalID t = []"

definition issued :: "task \<Rightarrow> approval \<Rightarrow> bool" where
  "issued t a \<longleftrightarrow> aID a \<noteq> [] \<and> \<not> aConsumed a \<and> aConsumedBy a = [] \<and> aTenantID a = tTenantID t \<and>
     aTool a = tTool t \<and> aArgsHash a = tArgsHash t"

lemma in_tx_newApproval: "in_tx P (newApproval policy t) (\<lambda>a d. P d \<and> issued t a)"
  unfolding newApproval_def
  by (rule tasks.txh_bind [OF in_tx_newID], rule tasks.txh_bind [OF tasks.txh_now],
      rule tasks.txh_bind [OF tasks.txh_now], rule tasks.txh_return) (simp add: issued_def)

text \<open>The tables with a new approval that no task refers to.\<close>

definition with_approval :: "tables \<Rightarrow> task \<Rightarrow> approval \<Rightarrow> tables \<Rightarrow> bool" where
  "with_approval d0 t a d \<longleftrightarrow> issued t a \<and> d = add_approval a d0 \<and> store_ok d \<and> advances d0 d \<and>
     aID a \<notin> aID ` set (agent_approvals d0) \<and> (\<forall>x \<in> set (agent_tasks d0). tApprovalID x \<noteq> aID a)"

lemma in_tx_insertApprovalOn:
  assumes ok: "store_ok d0"
  shows "in_tx (\<lambda>d. d = d0 \<and> issued t a) (insertApprovalOn a) (\<lambda>_. with_approval d0 t a)"
  unfolding insertApprovalOn_def
proof (rule tasks.txh_stmt)
  fix d x d'
  assume d: "d = d0 \<and> issued t a"
    and i: "insert_approval (a\<lparr>aConsumed := False, aConsumedBy := []\<rparr>) d = (Inr x, d')"
  have a: "a\<lparr>aConsumed := False, aConsumedBy := []\<rparr> = a"
    using d by (intro approval.equality) (simp_all add: issued_def)
  have "d' = add_approval a d0" "aID a \<notin> aID ` set (agent_approvals d0)"
    using i d unfolding a by (auto simp: insert_approval_def Let_def add_approval_def split: if_splits)
  then show "with_approval d0 t a d'"
    using add_approval_ok [OF ok, of a] d by (simp add: with_approval_def issued_def)
qed

lemma waiting_row_ok:
  assumes "with_approval d0 t a d" and "is_write t'" and "covers a t'" and "tStatus t' = StatusWaiting"
    and "tExecNonce t' = []" and "tReservedTokens t' = 0"
  shows "row_ok (agent_approvals d) t'"
proof -
  have "a \<in> set (agent_approvals d)" "\<not> aConsumed a"
    using assms(1) by (auto simp: with_approval_def add_approval_def issued_def)
  then have "write_ok (agent_approvals d) t'"
    using assms(3,4) unfolding write_ok_def by (intro bexI [where x = a]) (auto simp: past_approval_def)
  then show ?thesis using assms(2,4-6) by (auto simp: row_ok_def is_write_def)
qed

lemma in_tx_insertTaskOn:
  assumes ok: "store_ok d0" and w: "is_write t'" "covers a t'" "tStatus t' = StatusWaiting"
    "tExecNonce t' = []" "tReservedTokens t' = 0"
  shows "in_tx (with_approval d0 t a) (insertTaskOn t') (\<lambda>_. since d0)"
  unfolding insertTaskOn_def
proof (rule tasks.txh_stmt)
  fix d x d'
  assume d: "with_approval d0 t a d" and i: "insert_task t' d = (Inr x, d')"
  have d': "d' = add_task t' d" "tasks_unique (agent_tasks d @ [t'])"
    using i by (auto simp: insert_task_def Let_def add_task_def split: if_splits)
  have "\<forall>x \<in> set (agent_tasks d). tApprovalID x \<noteq> tApprovalID t'"
    using d w(2) by (simp add: with_approval_def add_approval_def covers_def)
  moreover have "store_ok d" using d unfolding with_approval_def by blast
  ultimately have "store_ok d' \<and> advances d d'"
    using add_task_ok [OF _ d'(2) waiting_row_ok [OF d w]] d'(1) by blast
  then show "since d0 d'"
    using d ok advances_trans unfolding since_def with_approval_def by blast
qed

lemma submit_body_tx:
  assumes ok: "store_ok d0" and t: "is_write t" "fresh_submission t"
  shows "in_tx (\<lambda>d. d = d0) (submit_body st t) (\<lambda>x d. since d0 d)"
proof -
  have ins: "in_tx (\<lambda>d. d = d0 \<and> issued t a) (attemptE (insertApprovalOn a))
      (\<lambda>r d. case r of Inl e \<Rightarrow> True | Inr _ \<Rightarrow> with_approval d0 t a d)" for a
    by (rule tasks.txh_attempt [OF in_tx_insertApprovalOn [OF ok]])
  have task: "in_tx (with_approval d0 t a) (insertTaskOn (t\<lparr>tApprovalID := aID a, tStatus := StatusWaiting\<rparr>))
      (\<lambda>_. since d0)" for a
  proof (cases "issued t a")
    case True
    then show ?thesis
      using t by (intro in_tx_insertTaskOn [OF ok])
        (auto simp: is_write_def covers_def issued_def fresh_submission_def)
  qed (simp add: txh_def with_approval_def)
  show ?thesis
    unfolding submit_body_def Let_def
    apply (rule tasks.txh_bind [OF in_tx_newApproval])
    apply (rule tasks.txh_bind [OF ins])
    apply (rule tasks.txh_sum [OF tasks.txh_throw], simp)
    apply (rule tasks.txh_bind [OF task])
    apply (rule in_tx_audit [OF ok])
    done
qed

lemma insert_row_triple:
  assumes "tKind t = ''readonly''" and "fresh_submission t" and "tStatus t = StatusQueued"
  shows "triple P (insert_row t) (\<lambda>x d. True)"
proof -
  have "triple (\<lambda>d. True) (stmt (insert_task t)) (\<lambda>x d. True)"
  proof (rule tasks.hoare_stmt [OF stable_True])
    fix d r d'
    assume ok: "store_ok d" and i: "insert_task t d = (r, d')"
    have "row_ok (agent_approvals d) t"
      using assms by (simp add: row_ok_def is_write_def fresh_submission_def)
    then have "store_ok d' \<and> advances d d'"
      using i ok add_task_ok [OF ok] assms(2)
      by (auto simp: insert_task_def Let_def add_task_def fresh_submission_def advances_refl split: if_splits)
    then show "store_ok d' \<and> advances d d' \<and> (case r of Inl e \<Rightarrow> True | Inr x \<Rightarrow> True)"
      by (simp split: sum.split)
  qed
  then have "keeps (insert_row t)"
    unfolding insert_row_def keeps_def
    by (intro tasks.hoare_bind [OF hoare_attempt_any] tasks.hoare_sum tasks.hoare_throw tasks.hoare_return) auto
  then show ?thesis by (rule keepsD)
qed

lemma hoare_lookup: "triple P (attemptE (getByTenantKey a b)) (\<lambda>r d. True)"
  by (rule hoare_attempt_any [OF tasks.hoare_top [OF hoare_getByTenantKey]])

lemma Submit_keeps:
  assumes "fresh_submission task"
  shows "keeps (Submit st task)"
proof -
  have tx: "triple P (attemptE (transact (submit_body st t))) (\<lambda>x d. True)"
    if "is_write t" "fresh_submission t" for P t
  proof -
    have "triple (\<lambda>d. True) (transact (submit_body st t)) (\<lambda>x d. True)"
      by (rule hoare_transact [OF stable_True submit_body_tx]) (use that in auto)
    then have "keeps (attemptE (transact (submit_body st t)))"
      unfolding keeps_def by (rule hoare_attempt_any)
    then show ?thesis by (rule keepsD)
  qed
  have ins: "triple P (attemptE (insert_row t)) (\<lambda>x d. True)"
    if "tKind t = ''readonly''" "fresh_submission t" "tStatus t = StatusQueued" for P t
    by (rule hoare_attempt_any [OF insert_row_triple [OF that]])
  show ?thesis
    unfolding Submit_def keeps_def Let_def
    by (intro tasks.hoare_if tasks.hoare_throw tasks.hoare_bind [OF hoare_lookup] tasks.hoare_sum
        tasks.hoare_return TrueI tasks.hoare_bind [OF hoare_newID] tasks.hoare_bind [OF tasks.hoare_now]
        tasks.hoare_bind [OF tx] tasks.hoare_bind [OF ins] hoare_get_end)
      (use assms in \<open>auto simp: is_write_def fresh_submission_def split: if_splits\<close>)
qed

section \<open>RequeueUnknown\<close>

definition requeued :: "task \<Rightarrow> string \<Rightarrow> task_status \<Rightarrow> task" where
  "requeued t ap st = t\<lparr>tBudgetTokens := tBudgetTokens t + tReservedTokens t, tReservedTokens := 0,
     tExecNonce := [], tResult := [], tErrorText := [], tApprovalID := ap, tStatus := st\<rparr>"

lemma requeue_tables:
  assumes ok: "store_ok d0" and wa: "with_approval d0 t a d" and t: "t \<in> set (agent_tasks d0)"
    and w: "is_write t" "tStatus t = StatusUnknown"
    and p: "\<And>x. p x \<longleftrightarrow> tID x = tID t \<and> tStatus x = StatusUnknown \<and> tVersion x = tVersion t"
    and t': "t' = (requeued t (aID a) StatusWaiting)\<lparr>tVersion := tVersion t + 1, tUpdatedAt := n\<rparr>"
    and u: "update_tasks p (updateTaskArgs t') d = (Inr k, d')"
  shows "since d0 d'"
proof -
  let ?f = "updateTaskArgs t'"
  have okd: "store_ok d" and a: "issued t a" "aID a \<notin> aID ` set (agent_approvals d0)"
    and d: "d = add_approval a d0" and unused: "\<forall>x \<in> set (agent_tasks d0). tApprovalID x \<noteq> aID a"
    using wa unfolding with_approval_def by blast+
  have rows: "agent_tasks d = agent_tasks d0" by (simp add: d add_approval_def)
  have px: "p x \<longleftrightarrow> x = t" if "x \<in> set (agent_tasks d)" for x
    using store_ok_key [OF ok t, of x] that w(2) by (auto simp: p rows)
  have row: "row_ok (agent_approvals d) (?f t)"
    by (rule waiting_row_ok [OF wa])
      (use w(1) a(1) in \<open>simp_all add: t' requeued_def is_write_def covers_def issued_def\<close>)
  have adv: "row_adv t (?f t)"
    using w(2) by (simp add: row_adv_def t' requeued_def immutable_part_def settled_def funds_def)
  have ap: "appr_adv (agent_approvals d0) t (?f t)"
    using a(2) unused t by (auto simp: appr_adv_def t' requeued_def)
  have "store_ok (d\<lparr>agent_tasks := upd_where p ?f (agent_tasks d)\<rparr>)"
  proof (rule replace_row_ok [OF okd _ px])
    show "t \<in> set (agent_tasks d)" using t by (simp add: rows)
    show "\<forall>x \<in> set (agent_tasks d). tApprovalID x \<noteq> tApprovalID (?f t)"
      using unused by (simp add: rows t' requeued_def)
  qed (simp_all add: row adv)
  moreover have d': "d' = d\<lparr>agent_tasks := upd_where p ?f (agent_tasks d)\<rparr>"
    using u by (auto simp: update_tasks_def Let_def split: if_splits)
  moreover have "\<exists>r \<in> set (agent_tasks d'). tID r = tID x \<and> row_adv x r \<and> appr_adv (agent_approvals d0) x r"
    if x: "x \<in> set (agent_tasks d0)" for x
    using adv ap x px by (intro bexI [where x = "if x = t then ?f t else x"])
      (auto simp: d' set_upd_where rows)
  moreover have "\<exists>b \<in> set (agent_approvals d'). approval_adv x b" if "x \<in> set (agent_approvals d0)" for x
    using that by (intro bexI [where x = x]) (auto simp: d' d add_approval_def)
  ultimately show ?thesis by (simp add: since_def advances_def d add_approval_def)
qed

lemma requeue_commit_tx:
  assumes "store_ok d0"
    and "\<And>n. in_tx P (updateWhereOn (t\<lparr>tVersion := tVersion t + 1, tUpdatedAt := n\<rparr>)
      (\<lambda>x. tID x = i \<and> tStatus x = StatusUnknown \<and> tVersion x = v)) (\<lambda>_. since d0)"
  shows "in_tx P (requeue_commit i who v t) (\<lambda>_. since d0)"
  unfolding requeue_commit_def Let_def
  by (rule tasks.txh_bind [OF tasks.txh_now], rule tasks.txh_bind [OF assms(2)],
      rule tasks.txh_if [OF tasks.txh_throw], rule in_tx_audit [OF assms(1)])

lemma requeue_plain_tx:
  assumes ok: "store_ok d0" and t: "tStatus t = StatusUnknown" "tKind t \<noteq> ''write''"
  shows "in_tx (\<lambda>d. d = d0 \<and> t \<in> set (agent_tasks d0))
    (requeue_commit (tID t) who (tVersion t) (requeued t (tApprovalID t) StatusQueued)) (\<lambda>_. since d0)"
proof (rule requeue_commit_tx [OF ok], rule in_tx_update_read [OF ok])
  fix n aps
  assume "row_ok aps t"
  from move_requeue_readonly [OF this t, of "funds t"]
  show "row_move aps t (updateTaskArgs ((requeued t (tApprovalID t) StatusQueued)
      \<lparr>tVersion := tVersion (requeued t (tApprovalID t) StatusQueued) + 1, tUpdatedAt := n\<rparr>) t)"
    by (simp add: requeued_def funds_def)
qed simp

lemma requeue_write_tx:
  assumes ok: "store_ok d0" and w: "tStatus t = StatusUnknown" "is_write t" and t: "t \<in> set (agent_tasks d0)"
  shows "in_tx (with_approval d0 t a)
    (requeue_commit (tID t) who (tVersion t) (requeued t (aID a) StatusWaiting)) (\<lambda>_. since d0)"
proof (rule requeue_commit_tx [OF ok])
  fix n
  show "in_tx (with_approval d0 t a) (updateWhereOn ((requeued t (aID a) StatusWaiting)
      \<lparr>tVersion := tVersion (requeued t (aID a) StatusWaiting) + 1, tUpdatedAt := n\<rparr>)
      (\<lambda>x. tID x = tID t \<and> tStatus x = StatusUnknown \<and> tVersion x = tVersion t)) (\<lambda>_. since d0)"
    unfolding updateWhereOn_def
  proof (rule tasks.txh_bind, rule tasks.txh_stmt)
    fix d k d'
    assume "with_approval d0 t a d"
      "update_tasks (\<lambda>x. tID x = tID t \<and> tStatus x = StatusUnknown \<and> tVersion x = tVersion t)
        (updateTaskArgs ((requeued t (aID a) StatusWaiting)
      \<lparr>tVersion := tVersion (requeued t (aID a) StatusWaiting) + 1, tUpdatedAt := n\<rparr>)) d = (Inr k, d')"
    then show "since d0 d'"
      by (intro requeue_tables [OF ok _ t w(2,1)]) (simp_all add: requeued_def)
  qed (rule tasks.txh_return)
qed

lemma requeueUnknownTx_tx:
  assumes ok: "store_ok d0"
  shows "in_tx (\<lambda>d. d = d0) (requeueUnknownTx st i who) (\<lambda>x d. since d0 d)"
proof -
  let ?cleared = "\<lambda>t. t\<lparr>tBudgetTokens := tBudgetTokens t + tReservedTokens t, tReservedTokens := 0,
    tExecNonce := [], tResult := [], tErrorText := []\<rparr>"
  have new: "in_tx P (newApproval policy (?cleared t)) (\<lambda>a d. P d \<and> issued t a)" for P policy t
    using in_tx_newApproval [of P policy "?cleared t"] by (simp add: issued_def)
  have eq: "(?cleared t)\<lparr>tStatus := StatusQueued\<rparr> = requeued t (tApprovalID t) StatusQueued"
    "(?cleared t)\<lparr>tApprovalID := ap, tStatus := StatusWaiting\<rparr> = requeued t ap StatusWaiting" for t ap
    by (simp_all add: requeued_def)
  have ins: "in_tx (\<lambda>d. (d = d0 \<and> t \<in> set (agent_tasks d0) \<and> tID t = i) \<and> issued t a)
      (attemptE (insertApprovalOn a))
      (\<lambda>r d. case r of Inl e \<Rightarrow> True | Inr _ \<Rightarrow> with_approval d0 t a d \<and> t \<in> set (agent_tasks d0) \<and> tID t = i)" for a t
  proof (cases "t \<in> set (agent_tasks d0) \<and> tID t = i")
    case True
    then show ?thesis
      using tasks.txh_attempt [OF in_tx_insertApprovalOn [OF ok, of t a]] by (simp cong: sum.case_cong)
  qed (auto simp: txh_def)
  have plain: "in_tx (\<lambda>d. d = d0 \<and> t \<in> set (agent_tasks d0) \<and> tID t = i)
      (requeue_commit i who (tVersion t) (requeued t (tApprovalID t) StatusQueued)) (\<lambda>_. since d0)"
    if "tStatus t = StatusUnknown" "tKind t \<noteq> ''write''" for t
    using requeue_plain_tx [OF ok that] by (cases "tID t = i") (auto simp: txh_def)
  have requeue: "in_tx (\<lambda>d. with_approval d0 t a d \<and> t \<in> set (agent_tasks d0) \<and> tID t = i)
      (requeue_commit i who (tVersion t) (requeued t (aID a) StatusWaiting)) (\<lambda>_. since d0)"
    if "tStatus t = StatusUnknown" "is_write t" for t a
    using requeue_write_tx [OF ok that] by (cases "t \<in> set (agent_tasks d0) \<and> tID t = i") (auto simp: txh_def)
  show ?thesis
    unfolding requeueUnknownTx_def Let_def eq
    apply (rule tasks.txh_bind [OF in_tx_getOn])
    apply (rule tasks.txh_if [OF tasks.txh_throw])
    apply (rule tasks.txh_if)
     apply (rule plain, simp, simp)
    apply (rule tasks.txh_bind [OF new])
    apply (rule tasks.txh_bind [OF ins])
    apply (rule tasks.txh_sum [OF tasks.txh_throw], simp)
    apply (rule requeue, simp, simp add: is_write_def)
    done
qed

lemma RequeueUnknownAs_keeps: "keeps (RequeueUnknownAs st i who)"
  unfolding RequeueUnknownAs_def keeps_def
  by (intro tasks.hoare_if tasks.hoare_throw tasks.hoare_bind [OF hoare_transact [OF stable_True]]
      requeueUnknownTx_tx hoare_get_end)

section \<open>The worker\<close>

lemma checkWriteApproval_keeps: "triple P (checkWriteApproval st t) (\<lambda>_ d. True)"
proof -
  have "keeps (checkWriteApproval st t)"
    unfolding checkWriteApproval_def keeps_def
    by (intro tasks.hoare_if tasks.hoare_throw tasks.hoare_sum tasks.hoare_return TrueI
        tasks.hoare_bind [OF hoare_attempt_any [OF tasks.hoare_top [OF hoare_select [OF stable_True]]]]
        tasks.hoare_bind [OF tasks.hoare_now])
  then show ?thesis by (rule keepsD)
qed

lemma prepare_run_keeps: "keeps (prepare_run st wk)"
proof -
  have cl: "triple P (Claim st ow l) (\<lambda>t d. True)" for P ow l
    using Claim_keeps by (rule keepsD)
  have w: "triple P (prepare_write st wk t) (\<lambda>p d. True)" for P t
  proof -
    have "keeps (prepare_write st wk t)"
      unfolding prepare_write_def keeps_def
      by (intro tasks.hoare_bind [OF hoare_attempt_any] checkWriteApproval_keeps tasks.hoare_sum
          tasks.hoare_return TrueI tasks.hoare_option tasks.hoare_if Reserve_triple RecordIntent_triple)
    then show ?thesis by (rule keepsD)
  qed
  show ?thesis
    unfolding prepare_run_def keeps_def Let_def
    by (intro tasks.hoare_bind [OF cl] tasks.hoare_option tasks.hoare_return TrueI tasks.hoare_if w)
qed

lemma RunOnce_keeps: "keeps (RunOnce st wk exec)"
proof -
  have "triple P (case p of Settle t out \<Rightarrow> Complete st (tID t) (tVersion t) out
      | Execute t \<Rightarrow> Complete st (tID t) (tVersion t) (exec t)) (\<lambda>t d. True)" for P p
    using Complete_keeps by (cases p) (auto intro: keepsD)
  then show ?thesis
    unfolding RunOnce_def keeps_def
    by (rule tasks.hoare_bind [OF keepsD [OF prepare_run_keeps]])
qed

section \<open>Calls, peers and reachable tables\<close>

datatype task_call =
    CallSubmit task
  | CallApprove string string string
  | CallClaim string int
  | CallComplete string int outcome
  | CallCancel string
  | CallSweepTimeouts
  | CallRecover
  | CallReserve string int int
  | CallRecordIntent string int
  | CallRenewLease string string int
  | CallConfirmUnknown string string string int
  | CallRequeueUnknown string string
  | CallRunOnce worker "task \<Rightarrow> outcome"

definition ignore :: "'a taskop \<Rightarrow> unit taskop" where
  "ignore m = bindE m (\<lambda>_. returnE ())"

fun run_call :: "store \<Rightarrow> task_call \<Rightarrow> unit taskop" where
  "run_call st (CallSubmit t) = ignore (Submit st t)"
| "run_call st (CallApprove ap who args) = ignore (Approve st ap who args)"
| "run_call st (CallClaim ow lease) = ignore (Claim st ow lease)"
| "run_call st (CallComplete i v out) = ignore (Complete st i v out)"
| "run_call st (CallCancel i) = ignore (Cancel i)"
| "run_call st CallSweepTimeouts = ignore SweepTimeouts"
| "run_call st CallRecover = ignore Recover"
| "run_call st (CallReserve i v n) = ignore (Reserve i v n)"
| "run_call st (CallRecordIntent i v) = ignore (RecordIntent i v)"
| "run_call st (CallRenewLease i ow lease) = ignore (RenewLease i ow lease)"
| "run_call st (CallConfirmUnknown i who res u) = ignore (ConfirmUnknownAs i who res u)"
| "run_call st (CallRequeueUnknown i who) = ignore (RequeueUnknownAs st i who)"
| "run_call st (CallRunOnce wk exec) = ignore (RunOnce st wk exec)"

fun fresh_call :: "task_call \<Rightarrow> bool" where
  "fresh_call (CallSubmit t) = fresh_submission t"
| "fresh_call c = True"

lemma keeps_run:
  "keeps m \<Longrightarrow> env_ok store_ok advances w \<Longrightarrow> store_ok (db w) \<Longrightarrow>
   store_ok (db (snd (m w))) \<and> advances (db w) (db (snd (m w))) \<and> env_ok store_ok advances (snd (m w))"
  by (cases "m w") (auto simp: keeps_def hoare_def wp_def)

lemma ignore_keeps: "keeps m \<Longrightarrow> keeps (ignore m)"
  unfolding ignore_def keeps_def
  by (rule tasks.hoare_bind, assumption) (rule tasks.hoare_return, rule TrueI)

lemma run_call_keeps: "fresh_call c \<Longrightarrow> keeps (run_call st c)"
proof (cases c)
  case (CallReserve i v n)
  have "keeps (Reserve i v n)" unfolding keeps_def by (rule Reserve_triple)
  then show ?thesis using CallReserve by (simp add: ignore_keeps)
next
  case (CallRecordIntent i v)
  have "keeps (RecordIntent i v)" unfolding keeps_def by (rule RecordIntent_triple)
  then show ?thesis using CallRecordIntent by (simp add: ignore_keeps)
qed (simp_all add: ignore_keeps Submit_keeps Approve_keeps Claim_keeps Complete_keeps Cancel_keeps
    SweepTimeouts_keeps Recover_keeps RenewLease_keeps ConfirmUnknownAs_keeps RequeueUnknownAs_keeps
    RunOnce_keeps)

text \<open>
  What other processes do to the tables: nothing, one call (whose own statements are interrupted by
  peers, with faults, on any clock, with any store configuration), or one thing after another.
\<close>

inductive peer :: "(tables \<Rightarrow> tables) \<Rightarrow> bool" where
  peer_idle: "peer (\<lambda>d. d)"
| peer_call: "fresh_call c \<Longrightarrow> (\<And>flt env. (flt, env) \<in> set (script w) \<Longrightarrow> peer env) \<Longrightarrow>
    peer (\<lambda>d. db (snd (run_call st c (w\<lparr>db := d\<rparr>))))"
| peer_seq: "peer f \<Longrightarrow> peer g \<Longrightarrow> peer (\<lambda>d. g (f d))"

lemma peer_keeps: "peer env \<Longrightarrow> store_ok d \<Longrightarrow> store_ok (env d) \<and> advances d (env d)"
proof (induction arbitrary: d rule: peer.induct)
  case peer_idle
  then show ?case by (simp add: advances_refl)
next
  case (peer_call c w st)
  then have "env_ok store_ok advances (w\<lparr>db := d\<rparr>)"
    by (auto simp: env_ok_def)
  then show ?case
    using keeps_run [OF run_call_keeps [OF peer_call.hyps(1)]] peer_call.prems by fastforce
next
  case (peer_seq f g)
  then show ?case using advances_trans by metis
qed

definition peers :: "(task_err_kind, tables) world \<Rightarrow> bool" where
  "peers w \<longleftrightarrow> (\<forall>(flt, env) \<in> set (script w). peer env)"

definition reachable :: "tables \<Rightarrow> bool" where
  "reachable d \<longleftrightarrow> (\<exists>env. peer env \<and> d = env empty_tables)"

lemma reachable_ok: "reachable d \<Longrightarrow> store_ok d"
  using peer_keeps store_ok_empty unfolding reachable_def by blast

lemma reachable_peer: "reachable d \<Longrightarrow> peer env \<Longrightarrow> reachable (env d)"
  unfolding reachable_def using peer_seq by blast

lemma peers_env_ok: "peers w \<Longrightarrow> env_ok store_ok advances w"
  using peer_keeps by (auto simp: peers_def env_ok_def)

text \<open>A step of the history of a store: from reachable tables by anything peers can do.\<close>

lemma reachable_advances: "reachable d \<Longrightarrow> peer env \<Longrightarrow> advances d (env d)"
  using peer_keeps reachable_ok by blast

end
