(* ===== verification/TaskDemo.thy ===== *)
theory TaskDemo
  imports TaskPeers
begin

text \<open>
  A short history of one store, on which the properties of TaskProps are applied: alice submits a
  write, bob approves it, worker w1 claims it and reserves tokens, its lease runs out and Recover
  holds the task as unknown. The digest is instantiated by a function that keeps its argument.
\<close>

definition demo_store :: store where
  "demo_store = \<lparr>PolicyVersion = ''v1'', BeforeClaim = None, BeforeExecute = None, BeforeStore = None,
     BeforeApprovalCommit = None, sha256hex = (\<lambda>s. ''h'' @ s)\<rparr>"

definition demo_world :: "int \<Rightarrow> nat \<Rightarrow> tables \<Rightarrow> (task_err_kind, tables) world" where
  "demo_world secs n d = \<lparr>db = d, script = [], clock = secs * 1000000000, ticks = [],
     entropy = [n, n + 1, n + 2, n + 3], ctx_errs = []\<rparr>"

definition demo_step :: "int \<Rightarrow> nat \<Rightarrow> task_call \<Rightarrow> tables \<Rightarrow> tables" where
  "demo_step secs n c d = db (snd (run_call demo_store c (demo_world secs n d)))"

definition demo_task :: task where
  "demo_task = zero_task\<lparr>tTenantID := ''acme'', tOwner := ''alice'', tIdempotencyKey := ''k1'',
     tKind := ''write'', tTool := ''pay'', tArgs := '' {} '', tBudgetTokens := 100\<rparr>"

definition demo_submitted :: tables where
  "demo_submitted = demo_step 1000 1 (CallSubmit demo_task) empty_tables"

definition demo_approved :: tables where
  "demo_approved = demo_step 1001 11 (CallApprove (''apr_'' @ hex_string 32 2) ''bob'' ''{}'') demo_submitted"

definition demo_running :: tables where
  "demo_running = demo_step 1002 21 (CallClaim ''w1'' 60000000000) demo_approved"

definition demo_intent :: tables where
  "demo_intent = demo_step 1003 31 (CallReserve (hex_string 32 1) 1 30) demo_running"

definition demo_unknown :: tables where
  "demo_unknown = demo_step 2000 41 CallRecover demo_intent"

lemma demo_step_peer: "fresh_call c \<Longrightarrow> peer (demo_step secs n c)"
proof -
  assume c: "fresh_call c"
  have "peer (\<lambda>d. db (snd (run_call demo_store c ((demo_world secs n empty_tables)\<lparr>db := d\<rparr>))))"
    using c by (rule peer_call) (simp add: demo_world_def)
  then show ?thesis by (simp add: demo_step_def [abs_def] demo_world_def)
qed

lemma reachable_empty: "reachable empty_tables"
  unfolding reachable_def using peer_idle by blast

lemma reachable_demo_step: "reachable d \<Longrightarrow> fresh_call c \<Longrightarrow> reachable (demo_step secs n c d)"
  by (rule reachable_peer [OF _ demo_step_peer])

lemma demo_reachable:
  "reachable demo_submitted" "reachable demo_approved" "reachable demo_running"
  "reachable demo_intent" "reachable demo_unknown"
  unfolding demo_unknown_def demo_intent_def demo_running_def demo_approved_def demo_submitted_def
  by (intro reachable_demo_step reachable_empty; code_simp)+

lemma demo_world_peers [simp]: "peers (demo_world secs n d)"
  by (simp add: peers_def demo_world_def)

lemma demo_world_db [simp]: "db (demo_world secs n d) = d"
  by (simp add: demo_world_def)

end
