(* ===== verification/TaskProps.thy ===== *)
theory TaskProps
  imports TaskDemo
begin

text \<open>
  The properties of the task store: what holds in every reachable state, what every history keeps,
  and what single operations do. Each property with a hypothesis is applied to the history of
  TaskDemo.
\<close>

section \<open>Every history\<close>



text \<open>C2: In every reachable state, a write that is queued, running or has run carries an approval for
  its tenant, tool and arguments, consumed by an operator who is not the owner of the task, and the
  audit table has the row of that approval.\<close>

theorem write_runs_only_approved:
  assumes "reachable d" and "t \<in> set (agent_tasks d)" and "tKind t = ''write''"
    and "tStatus t \<in> {StatusQueued, StatusRunning, StatusUnknown, StatusSucceeded, StatusFailed}"
  shows "\<exists>a \<in> set (agent_approvals d). aID a = tApprovalID t \<and> aTenantID a = tTenantID t \<and>
    aTool a = tTool t \<and> aArgsHash a = tArgsHash t \<and> aConsumed a \<and> aOperator a \<noteq> tOwner t \<and>
    (\<exists>u \<in> set (agent_task_audit d).
       uAction u = ''approve'' \<and> uApprovalID u = aID a \<and> uActor u = aOperator a)"
proof -
  have ok: "store_ok d" using assms(1) by (rule reachable_ok)
  then obtain a where a: "a \<in> set (agent_approvals d)" "covers a t" "aConsumed a" "aOperator a \<noteq> tOwner t"
    using store_ok_row [OF ok assms(2)] assms(3,4)
    unfolding row_ok_def is_write_def write_ok_def past_approval_def by blast
  moreover have "\<exists>u \<in> set (agent_task_audit d).
      uAction u = ''approve'' \<and> uApprovalID u = aID a \<and> uActor u = aOperator a"
    using ok a(1,3) unfolding store_ok_def consumed_audited_def by blast
  ultimately show ?thesis unfolding covers_def by blast
qed

theorem write_runs_only_approved_witness:
  "\<exists>a \<in> set (agent_approvals demo_running). aID a = tApprovalID (hd (agent_tasks demo_running)) \<and>
     aConsumed a \<and> aOperator a \<noteq> ''alice''"
proof -
  have t: "hd (agent_tasks demo_running) \<in> set (agent_tasks demo_running)"
      "tKind (hd (agent_tasks demo_running)) = ''write''"
      "tStatus (hd (agent_tasks demo_running)) = StatusRunning"
      "tOwner (hd (agent_tasks demo_running)) = ''alice''"
    by code_simp+
  show ?thesis
    using write_runs_only_approved [OF demo_reachable(3) t(1,2)] t(3,4) by auto
qed

text \<open>A task that waits for approval is a write whose approval is still there, covers it and has
  not been consumed: it is never stranded behind an approval that somebody used up.\<close>

theorem waiting_task_can_be_approved:
  assumes "reachable d" and "t \<in> set (agent_tasks d)" and "tStatus t = StatusWaiting"
  shows "tKind t = ''write'' \<and> (\<exists>a \<in> set (agent_approvals d). aID a = tApprovalID t \<and>
    aTenantID a = tTenantID t \<and> aTool a = tTool t \<and> aArgsHash a = tArgsHash t \<and> \<not> aConsumed a)"
proof -
  have "row_ok (agent_approvals d) t"
    using store_ok_row [OF reachable_ok [OF assms(1)] assms(2)] .
  then show ?thesis
    using assms(3) unfolding row_ok_def is_write_def write_ok_def covers_def by blast
qed

theorem waiting_task_can_be_approved_witness:
  "\<exists>a \<in> set (agent_approvals demo_submitted).
     aID a = tApprovalID (hd (agent_tasks demo_submitted)) \<and> \<not> aConsumed a"
proof -
  have "hd (agent_tasks demo_submitted) \<in> set (agent_tasks demo_submitted)"
      "tStatus (hd (agent_tasks demo_submitted)) = StatusWaiting"
    by code_simp+
  from waiting_task_can_be_approved [OF demo_reachable(1) this] show ?thesis by blast
qed

text \<open>C3: A write whose result is unknown is never retried blindly: whatever is called after that, it
  stays unknown or is confirmed as succeeded, or it has been given an approval that did not exist
  when the result became unknown. A recorded execution intent is not forgotten before that either.\<close>

theorem unknown_write_not_retried:
  assumes "reachable d" and "peer env" and "t \<in> set (agent_tasks d)"
    and "tKind t = ''write''" and "tStatus t = StatusUnknown"
  shows "\<exists>r \<in> set (agent_tasks (env d)). tID r = tID t \<and>
    (tApprovalID r \<notin> aID ` set (agent_approvals d) \<or>
     tStatus r \<in> {StatusUnknown, StatusSucceeded} \<and> (tExecNonce t \<noteq> [] \<longrightarrow> tExecNonce r \<noteq> []))"
proof -
  obtain r where r: "r \<in> set (agent_tasks (env d))" "tID r = tID t" "appr_adv (agent_approvals d) t r"
    using reachable_advances [OF assms(1,2)] assms(3) unfolding advances_def by blast
  then show ?thesis
    using assms(4,5) unfolding appr_adv_def is_write_def by metis
qed

theorem unknown_write_not_retried_witness:
  "\<exists>r \<in> set (agent_tasks (demo_step 2001 51 (CallRequeueUnknown (hex_string 32 1) ''carol'') demo_unknown)).
     tID r = hex_string 32 1 \<and>
     (tApprovalID r \<notin> aID ` set (agent_approvals demo_unknown) \<or>
      tStatus r \<in> {StatusUnknown, StatusSucceeded})"
proof -
  let ?t = "hd (agent_tasks demo_unknown)"
  have t: "?t \<in> set (agent_tasks demo_unknown)" "tKind ?t = ''write''" "tStatus ?t = StatusUnknown"
      "tID ?t = hex_string 32 1"
    by code_simp+
  have "fresh_call (CallRequeueUnknown (hex_string 32 1) ''carol'')" by simp
  from unknown_write_not_retried [OF demo_reachable(5) demo_step_peer [OF this] t(1-3)] t(4)
  show ?thesis by metis
qed

text \<open>C4: A task that has succeeded, failed, timed out or been canceled is final: no call, in any
  interleaving, changes its row again.\<close>

theorem settled_task_is_final:
  assumes "reachable d" and "peer env" and "t \<in> set (agent_tasks d)"
    and "tStatus t \<in> {StatusSucceeded, StatusFailed, StatusCanceled, StatusTimedOut}"
  shows "t \<in> set (agent_tasks (env d))"
proof -
  obtain r where "r \<in> set (agent_tasks (env d))" "row_adv t r"
    using reachable_advances [OF assms(1,2)] assms(3) unfolding advances_def by blast
  moreover from this have "r = t" using assms(4) unfolding row_adv_def settled_def by blast
  ultimately show ?thesis by simp
qed

definition demo_succeeded :: tables where
  "demo_succeeded = demo_step 2001 51 (CallConfirmUnknown (hex_string 32 1) ''carol'' ''ok'' 10) demo_unknown"

theorem settled_task_is_final_witness:
  "hd (agent_tasks demo_succeeded) \<in>
     set (agent_tasks (demo_step 2002 61 (CallCancel (hex_string 32 1)) demo_succeeded))"
proof -
  have "fresh_call (CallConfirmUnknown (hex_string 32 1) ''carol'' ''ok'' 10)" by simp
  then have r: "reachable demo_succeeded"
    unfolding demo_succeeded_def by (rule reachable_demo_step [OF demo_reachable(5)])
  have "fresh_call (CallCancel (hex_string 32 1))" by simp
  moreover have "hd (agent_tasks demo_succeeded) \<in> set (agent_tasks demo_succeeded)"
      "tStatus (hd (agent_tasks demo_succeeded)) = StatusSucceeded"
    by code_simp+
  ultimately show ?thesis using settled_task_is_final [OF r demo_step_peer] by simp
qed



section \<open>Fencing and the execution gate\<close>

definition passed :: "string \<Rightarrow> int \<Rightarrow> tables \<Rightarrow> bool" where
  "passed i v d \<longleftrightarrow> (\<exists>t \<in> set (agent_tasks d). tID t = i \<and> v < tVersion t)"

lemma stable_passed: "stable store_ok advances (passed i v)"
  unfolding stable_def passed_def
proof (intro allI impI)
  fix d d'
  assume a: "store_ok d \<and> store_ok d' \<and> advances d d' \<and> (\<exists>t \<in> set (agent_tasks d). tID t = i \<and> v < tVersion t)"
  then obtain t where t: "t \<in> set (agent_tasks d)" "tID t = i" "v < tVersion t" by blast
  then obtain r where "r \<in> set (agent_tasks d')" "tID r = tID t" "row_adv t r"
    using a unfolding advances_def by blast
  then show "\<exists>t \<in> set (agent_tasks d'). tID t = i \<and> v < tVersion t"
    using t by (intro bexI [where x = r]) (auto simp: row_adv_def)
qed

lemma get_passed: "triple (passed i v) (get i) (\<lambda>t d. v < tVersion t)"
proof -
  have "triple (\<lambda>d. True \<and> passed i v d) (get i)
      (\<lambda>t d. (tID t = i \<and> seen t d \<and> t \<in> set (agent_tasks d)) \<and> passed i v d)"
    by (rule tasks.hoare_frame [OF hoare_get stable_passed])
  then have "triple (passed i v) (get i)
      (\<lambda>t d. (tID t = i \<and> seen t d \<and> t \<in> set (agent_tasks d)) \<and> passed i v d)"
    by simp
  then show ?thesis
    by (rule tasks.hoare_post) (use store_ok_same in \<open>fastforce simp: passed_def\<close>)
qed

lemma hoare_False: "triple (\<lambda>d. False) m Q"
  by (simp add: hoare_def)

lemma hoare_known: "(c \<Longrightarrow> triple (\<lambda>d. True) m Q) \<Longrightarrow> triple (\<lambda>d. c) m Q"
  by (cases c) (simp_all add: hoare_False)

lemma Reserve_passed: "triple (passed i v) (Reserve i v n) (\<lambda>t d. False)"
  unfolding Reserve_def
  by (rule tasks.hoare_bind [OF get_passed], rule hoare_known) (simp add: tasks.hoare_throw)

lemma RecordIntent_passed: "triple (passed i v) (RecordIntent i v) (\<lambda>t d. False)"
  unfolding RecordIntent_def
  by (rule tasks.hoare_bind [OF get_passed], rule hoare_known) (simp add: tasks.hoare_throw)

lemma triple_result:
  "triple P m Q \<Longrightarrow> store_ok (db w) \<Longrightarrow> peers w \<Longrightarrow> P (db w) \<Longrightarrow> m w = (Inr x, w') \<Longrightarrow>
   store_ok (db w') \<and> Q x (db w')"
  using peers_env_ok [of w] by (fastforce simp: hoare_def wp_def)

text \<open>C6: A worker that holds an older version than the row has lost it: neither a reservation nor an
  execution intent succeeds for it any more, whatever happens in between, so it cannot start the
  external write.\<close>

theorem stale_worker_cannot_start:
  assumes "store_ok (db w)" and "peers w"
    and "\<exists>t \<in> set (agent_tasks (db w)). tID t = i \<and> v < tVersion t"
  shows "(\<exists>e w'. Reserve i v n w = (Inl e, w')) \<and> (\<exists>e w'. RecordIntent i v w = (Inl e, w'))"
proof -
  have p: "passed i v (db w)" using assms(3) by (simp add: passed_def)
  have "Reserve i v n w \<noteq> (Inr x, w')" "RecordIntent i v w \<noteq> (Inr x, w')" for x w'
    using triple_result [OF Reserve_passed assms(1,2) p] triple_result [OF RecordIntent_passed assms(1,2) p]
    by blast+
  then show ?thesis by (metis old.sum.exhaust surj_pair)
qed

theorem stale_worker_cannot_start_witness:
  "\<exists>e w'. RecordIntent (hex_string 32 1) 1 (demo_world 2001 51 demo_unknown) = (Inl e, w')"
proof -
  have "\<exists>t \<in> set (agent_tasks demo_unknown). tID t = hex_string 32 1 \<and> 1 < tVersion t"
    by code_simp
  with stale_worker_cannot_start [of "demo_world 2001 51 demo_unknown" "hex_string 32 1" 1]
  show ?thesis using reachable_ok [OF demo_reachable(5)] by simp
qed

definition cleared :: "string \<Rightarrow> task \<Rightarrow> tables \<Rightarrow> bool" where
  "cleared policy t d \<longleftrightarrow> (\<exists>a \<in> set (agent_approvals d). aTenantID a = tTenantID t \<and> aTool a = tTool t \<and>
     aArgsHash a = tArgsHash t \<and> aConsumed a \<and> aPolicyVersion a = policy)"

lemma stable_cleared: "stable store_ok advances (cleared policy t)"
  unfolding stable_def cleared_def advances_def approval_adv_def by metis

lemma checkWriteApproval_clears:
  "triple (\<lambda>d. True) (checkWriteApproval st t) (\<lambda>_. cleared (PolicyVersion st) t)"
proof -
  have sel: "triple (\<lambda>d. True) (attemptE (stmt (select_row (\<lambda>a. aID a = tApprovalID t) agent_approvals)))
      (\<lambda>r d. case r of Inl e \<Rightarrow> True | Inr a \<Rightarrow> a \<in> set (agent_approvals d))"
    by (rule tasks.hoare_attempt, rule tasks.hoare_stmt [OF stable_True])
      (auto simp: select_row_def advances_refl split: option.splits dest: find_SomeD)
  have chk: "triple (\<lambda>d. a \<in> set (agent_approvals d))
      (if \<not> aConsumed a \<or> aTenantID a \<noteq> tTenantID t \<or> aTool a \<noteq> tTool t \<or> aArgsHash a \<noteq> tArgsHash t
       then throwE (errorf ''approval does not cover this execution'')
       else if aPolicyVersion a \<noteq> PolicyVersion st
       then throwE (errorf ''policy changed since approval'')
       else bindE now (\<lambda>n. if aExpiresAt a < n then throwE (errorf ''approval expired'') else returnE ()))
      (\<lambda>_. cleared (PolicyVersion st) t)" for a
    by (intro tasks.hoare_if tasks.hoare_throw tasks.hoare_bind [OF tasks.hoare_now] tasks.hoare_return)
      (auto simp: cleared_def)
  show ?thesis
    unfolding checkWriteApproval_def
    apply (rule tasks.hoare_if [OF tasks.hoare_throw])
    apply (rule tasks.hoare_bind [OF sel])
    apply (rule tasks.hoare_sum [OF tasks.hoare_throw])
    apply (simp only: sum.case)
    apply (rule chk)
    done
qed

lemma seen_cleared:
  assumes "seen t d" "seen r d" "store_ok d" "tID r = tID t" "cleared policy t d"
  shows "cleared policy r d"
proof -
  obtain x where x: "x \<in> set (agent_tasks d)" "tID x = tID t" "row_adv t x"
    using assms(1) unfolding seen_def by blast
  obtain y where y: "y \<in> set (agent_tasks d)" "tID y = tID r" "row_adv r y"
    using assms(2) unfolding seen_def by blast
  have "x = y" using store_ok_same [OF assms(3) x(1) y(1)] x(2) y(2) assms(4) by simp
  then have "immutable_part t = immutable_part r" using x(3) y(3) by (simp add: row_adv_def)
  then show ?thesis using assms(5) immutable_part_eq [of t r] by (simp add: cleared_def)
qed

lemma prepare_write_clears:
  "triple (seen t) (prepare_write st wk t) (\<lambda>p d. \<forall>x. p = Execute x \<longrightarrow>
     WriteAuthorize wk \<noteq> None \<and> cleared (PolicyVersion st) x d)"
proof -
  let ?c = "\<lambda>d. cleared (PolicyVersion st) t d \<and> seen t d"
  have chk: "triple (seen t) (attemptE (checkWriteApproval st t)) (\<lambda>r d. case r of Inl e \<Rightarrow> True | Inr _ \<Rightarrow> ?c d)"
    by (rule tasks.hoare_attempt, rule tasks.hoare_pre [OF tasks.hoare_frame [OF checkWriteApproval_clears stable_seen]])
      simp
  have start: "triple ?c (if 0 < WriteReserveTokens wk then Reserve (tID t) (tVersion t) (WriteReserveTokens wk)
      else RecordIntent (tID t) (tVersion t)) (\<lambda>x d. cleared (PolicyVersion st) x d)"
  proof -
    have "triple (\<lambda>d. True \<and> ?c d) (if 0 < WriteReserveTokens wk
        then Reserve (tID t) (tVersion t) (WriteReserveTokens wk) else RecordIntent (tID t) (tVersion t))
      (\<lambda>x d. (tID x = tID t \<and> seen x d) \<and> ?c d)"
      by (intro tasks.hoare_frame stable_conj stable_cleared stable_seen tasks.hoare_if
          Reserve_seen RecordIntent_seen)
    then have "triple ?c (if 0 < WriteReserveTokens wk
        then Reserve (tID t) (tVersion t) (WriteReserveTokens wk) else RecordIntent (tID t) (tVersion t))
      (\<lambda>x d. (tID x = tID t \<and> seen x d) \<and> ?c d)" by simp
    then show ?thesis by (rule tasks.hoare_post) (blast intro: seen_cleared)
  qed
  have startA: "triple ?c (attemptE (if 0 < WriteReserveTokens wk
        then Reserve (tID t) (tVersion t) (WriteReserveTokens wk) else RecordIntent (tID t) (tVersion t)))
      (\<lambda>r d. case r of Inl e \<Rightarrow> True | Inr x \<Rightarrow> cleared (PolicyVersion st) x d)"
    by (rule tasks.hoare_attempt [OF start])
  show ?thesis
    unfolding prepare_write_def
    apply (rule tasks.hoare_bind [OF chk])
    apply (rule tasks.hoare_sum, rule tasks.hoare_return, simp)
    apply (simp only: sum.case)
    apply (rule tasks.hoare_option, rule tasks.hoare_return, simp)
    apply (rule tasks.hoare_option)
     apply (rule tasks.hoare_bind [OF startA])
     apply (rule tasks.hoare_sum)
      apply (rule tasks.hoare_return, simp)
     apply (rule tasks.hoare_return, simp)
    apply (rule tasks.hoare_return, simp)
    done
qed

lemma prepare_run_clears:
  "triple P (prepare_run st wk) (\<lambda>p d. \<forall>x. p = Execute x \<longrightarrow>
     (tKind x = ''write'' \<longrightarrow> WriteAuthorize wk \<noteq> None \<and> cleared (PolicyVersion st) x d))"
  unfolding prepare_run_def Let_def
  by (intro tasks.hoare_bind [OF Claim_seen] tasks.hoare_option tasks.hoare_if tasks.hoare_return
      tasks.hoare_post [OF prepare_write_clears]) auto

text \<open>C7: When \<open>RunOnce\<close> calls its executor for a write, the store has an approval for the task's
  tenant, tool and arguments that has been consumed and was issued under the current policy
  generation, whatever other processes did since the claim, and the live authorizer is configured.\<close>

theorem executor_runs_only_cleared_writes:
  assumes "store_ok (db w)" and "peers w" and "prepare_run st wk w = (Inr (Execute t), w')"
    and "tKind t = ''write''"
  shows "WriteAuthorize wk \<noteq> None \<and>
    (\<exists>a \<in> set (agent_approvals (db w')). aTenantID a = tTenantID t \<and> aTool a = tTool t \<and>
       aArgsHash a = tArgsHash t \<and> aConsumed a \<and> aPolicyVersion a = PolicyVersion st)"
  using triple_result [OF prepare_run_clears [of "\<lambda>d. True"] assms(1,2) TrueI assms(3)] assms(4)
  by (simp add: cleared_def)

definition demo_worker :: worker where
  "demo_worker = \<lparr>wOwner = ''w1'', wLease = 60000000000, WriteAuthorize = Some (\<lambda>t. None),
     WriteReserveTokens = 0\<rparr>"

definition executes :: "(terr + prepared) \<Rightarrow> bool" where
  "executes r = (case r of Inr (Execute t) \<Rightarrow> tKind t = ''write'' | _ \<Rightarrow> False)"

theorem executor_runs_only_cleared_writes_witness:
  "\<exists>t w'. prepare_run demo_store demo_worker (demo_world 1002 21 demo_approved) = (Inr (Execute t), w') \<and>
     (\<exists>a \<in> set (agent_approvals (db w')). aConsumed a \<and> aTool a = tTool t)"
proof -
  have "executes (fst (prepare_run demo_store demo_worker (demo_world 1002 21 demo_approved)))"
    by code_simp
  then obtain t w' where r: "prepare_run demo_store demo_worker (demo_world 1002 21 demo_approved) = (Inr (Execute t), w')"
      and t: "tKind t = ''write''"
    by (cases "prepare_run demo_store demo_worker (demo_world 1002 21 demo_approved)")
      (auto simp: executes_def split: sum.splits prepared.splits)
  show ?thesis
    using executor_runs_only_cleared_writes [OF _ demo_world_peers r t] reachable_ok [OF demo_reachable(2)] r
    by auto
qed

section \<open>Single operations\<close>

text \<open>A world in which nothing else happens: no other process, no fault, a clock that stands still.\<close>

definition calm :: "(task_err_kind, tables) world \<Rightarrow> bool" where
  "calm w \<longleftrightarrow> script w = [] \<and> ticks w = []"

lemma stmt_calm: "calm w \<Longrightarrow> stmt f w = (fst (f (db w)), w\<lparr>db := snd (f (db w))\<rparr>)"
  by (simp add: calm_def stmt_def split: prod.split)

lemma now_calm: "calm w \<Longrightarrow> now w = (Inr (clock w div 1000000000), w)"
  by (simp add: calm_def now_code now_nanos_def)

lemma now_nanos_calm: "calm w \<Longrightarrow> now_nanos w = (Inr (clock w), w)"
  by (simp add: calm_def now_nanos_def)

lemma calm_db [simp]: "calm (w\<lparr>db := d\<rparr>) = calm w"
  by (simp add: calm_def)

lemmas calm_simps = stmt_calm now_calm now_nanos_calm bindE_def returnE_def throwE_def attemptE_def

lemma get_calm:
  "calm w \<Longrightarrow> store_ok (db w) \<Longrightarrow> t \<in> set (agent_tasks (db w)) \<Longrightarrow> get (tID t) w = (Inr t, w)"
  by (simp add: get_def stmt_calm select_row_def find_key_unique [OF store_ok_ids])

text \<open>C8: \<open>Submit\<close> is idempotent: when the tenant's key already names a task, that task is returned and
  nothing is written, whatever the second submission asks for.\<close>

theorem submit_is_idempotent:
  assumes "store_ok (db w)" and "calm w" and "t \<in> set (agent_tasks (db w))"
    and "tTenantID new = tTenantID t" and "tIdempotencyKey new = tIdempotencyKey t"
    and "TrimSpace (tTenantID t) \<noteq> []" and "TrimSpace (tIdempotencyKey t) \<noteq> []"
    and "tKind new = ''readonly'' \<or> tKind new = ''write''"
  shows "Submit st new w = (Inr t, w)"
proof -
  have keys: "distinct (map task_key (agent_tasks (db w)))"
    using assms(1) by (simp add: store_ok_def tasks_unique_def)
  have "List.find (\<lambda>x. task_key x = task_key t) (agent_tasks (db w)) = Some t"
    by (rule find_key_unique [OF keys assms(3)])
  then have "List.find (\<lambda>x. tTenantID x = tTenantID t \<and> tIdempotencyKey x = tIdempotencyKey t)
      (agent_tasks (db w)) = Some t"
    by (simp add: task_key_def)
  then have "getByTenantKey (tTenantID t) (tIdempotencyKey t) w = (Inr t, w)"
    using assms(2) get_calm [OF assms(2,1,3)] by (simp add: getByTenantKey_def calm_simps select_row_def)
  then show ?thesis
    using assms(4-8) by (auto simp: Submit_def Let_def bindE_def attemptE_def returnE_def)
qed

theorem submit_is_idempotent_witness:
  "Submit demo_store (demo_task\<lparr>tTool := ''other''\<rparr>) (demo_world 3000 91 demo_running)
     = (Inr (hd (agent_tasks demo_running)), demo_world 3000 91 demo_running)"
proof -
  let ?t = "hd (agent_tasks demo_running)"
  have "?t \<in> set (agent_tasks demo_running)" "tTenantID ?t = ''acme''" "tIdempotencyKey ?t = ''k1''"
      "TrimSpace ''acme'' \<noteq> []" "TrimSpace ''k1'' \<noteq> []"
    by code_simp+
  then show ?thesis
    using reachable_ok [OF demo_reachable(3)]
    by (intro submit_is_idempotent) (simp_all add: calm_def, simp_all add: demo_world_def demo_task_def)
qed

lemma claim_calm:
  assumes ok: "store_ok (db w)" and c: "calm w" and t: "t \<in> set (agent_tasks (db w))"
    and sel: "select_oldest (claimable n n []) (db w) = (Inr t, db w)"
    and n: "n = clock w div 1000000000" and hook: "BeforeClaim st = None"
  shows "Claim st owner lease w =
    (if tBudgetTokens t < 0 then (Inl (errorf ''task budget exhausted''), w)
     else let r = t\<lparr>tStatus := StatusRunning, tVersion := tVersion t + 1, tLeaseOwner := owner,
            tLeaseExpires := (clock w + lease) div 1000000000, tUpdatedAt := n\<rparr> in
       (Inr r, w\<lparr>db := (db w)\<lparr>agent_tasks := map (\<lambda>x. if x = t then r else x) (agent_tasks (db w))\<rparr>\<rparr>))"
proof -
  define r where "r = t\<lparr>tStatus := StatusRunning, tVersion := tVersion t + 1, tLeaseOwner := owner,
            tLeaseExpires := (clock w + lease) div 1000000000, tUpdatedAt := n\<rparr>"
  define p where "p x \<longleftrightarrow> tID x = tID t \<and> tVersion x = tVersion t \<and> tStatus x = StatusQueued" for x :: task
  define f where "f x = x\<lparr>tStatus := StatusRunning, tVersion := tVersion x + 1, tLeaseOwner := owner,
            tLeaseExpires := (clock w + lease) div 1000000000, tUpdatedAt := n\<rparr>" for x :: task
  define d where "d = (db w)\<lparr>agent_tasks := map (\<lambda>x. if x = t then r else x) (agent_tasks (db w))\<rparr>"
  have "t \<in> set (filter (claimable n n []) (agent_tasks (db w)))"
    using sel least_by_Some [of tCreatedAt "filter (claimable n n []) (agent_tasks (db w))" t]
    by (auto simp: select_oldest_def split: option.splits)
  then have q: "tStatus t = StatusQueued" by (simp add: claimable_def)
  have px: "p x \<longleftrightarrow> x = t" if "x \<in> set (agent_tasks (db w))" for x
    using store_ok_key [OF ok t that] q by (auto simp: p_def)
  have "f t = r" by (simp add: f_def r_def)
  then have rows: "upd_where p f (agent_tasks (db w)) = map (\<lambda>x. if x = t then r else x) (agent_tasks (db w))"
    using px by (auto simp: upd_where_def)
  have move: "row_move (agent_approvals (db w)) x (f x)" if "x \<in> set (agent_tasks (db w))" "p x" for x
    unfolding f_def using that q by (intro move_claim store_ok_row [OF ok]) (auto simp: px)
  obtain res d' where u: "update_tasks p f (db w) = (res, d')" by fastforce
  have "count_where p (agent_tasks (db w)) = 1"
    using count_where_key [OF store_ok_ids [OF ok], of p "tID t"] t px by (auto simp: p_def)
  then have u': "update_tasks p f (db w) = (Inr 1, d)" "store_ok d"
    using update_tasks_ok [OF ok move u] u by (auto simp: rows d_def)
  have "r \<in> set (agent_tasks d)" "tID r = tID t" using t by (auto simp: d_def r_def)
  then have "get (tID t) (w\<lparr>db := d\<rparr>) = (Inr r, w\<lparr>db := d\<rparr>)"
    using get_calm [of "w\<lparr>db := d\<rparr>" r] c u'(2) by simp
  then have cas: "claimCAS t owner lease w = (Inr (Some r), w\<lparr>db := d\<rparr>)"
    using c u'(1) n by (simp add: claimCAS_def calm_simps p_def [abs_def] f_def [abs_def])
  show ?thesis
    unfolding Let_def r_def [symmetric] d_def [symmetric]
    using c sel hook cas by (simp add: Claim_def run_hook_def numeral_eq_Suc calm_simps n [symmetric])
qed

text \<open>C9: \<open>Claim\<close> takes the oldest task that can be claimed, marks it as running under the worker's
  lease with the next version, and changes no other row.\<close>

theorem claim_takes_oldest:
  assumes "store_ok (db w)" and "calm w" and "n = clock w div 1000000000" and "BeforeClaim st = None"
    and "Claim st owner lease w = (Inr r, w')"
  shows "\<exists>t \<in> set (agent_tasks (db w)). claimable n n [] t \<and>
    (\<forall>u \<in> set (agent_tasks (db w)). claimable n n [] u \<longrightarrow> tCreatedAt t \<le> tCreatedAt u) \<and>
    r = t\<lparr>tStatus := StatusRunning, tVersion := tVersion t + 1, tLeaseOwner := owner,
          tLeaseExpires := (clock w + lease) div 1000000000, tUpdatedAt := n\<rparr> \<and>
    agent_tasks (db w') = map (\<lambda>x. if x = t then r else x) (agent_tasks (db w))"
proof (cases "least_by tCreatedAt (filter (claimable n n []) (agent_tasks (db w)))")
  case None
  then have "select_oldest (claimable n n []) (db w) = (Inl no_rows, db w)"
    by (simp add: select_oldest_def)
  then have "fst (Claim st owner lease w) = Inl no_rows"
    using assms(2-4) by (simp add: Claim_def run_hook_def numeral_eq_Suc calm_simps)
  then show ?thesis using assms(5) by simp
next
  case (Some t)
  from least_by_Some [OF Some]
  have t: "t \<in> set (agent_tasks (db w))" "claimable n n [] t"
      "\<forall>u \<in> set (agent_tasks (db w)). claimable n n [] u \<longrightarrow> tCreatedAt t \<le> tCreatedAt u"
    by auto
  have "select_oldest (claimable n n []) (db w) = (Inr t, db w)"
    using Some by (simp add: select_oldest_def)
  from claim_calm [OF assms(1,2) t(1) this assms(3,4), of owner lease] assms(5)
  show ?thesis using t by (intro bexI [where x = t]) (auto simp: Let_def split: if_splits)
qed

theorem claim_takes_oldest_witness:
  "\<exists>t \<in> set (agent_tasks demo_approved). claimable 1002 1002 [] t \<and>
     hd (agent_tasks demo_running) = t\<lparr>tStatus := StatusRunning, tVersion := tVersion t + 1,
       tLeaseOwner := ''w1'', tLeaseExpires := 1062, tUpdatedAt := 1002\<rparr>"
proof -
  let ?w = "demo_world 1002 21 demo_approved"
  have "fst (Claim demo_store ''w1'' 60000000000 ?w) = Inr (hd (agent_tasks demo_running))"
    by code_simp
  then obtain w' where r: "Claim demo_store ''w1'' 60000000000 ?w = (Inr (hd (agent_tasks demo_running)), w')"
    by (metis prod.collapse)
  have "store_ok (db ?w)" "calm ?w" "1002 = clock ?w div 1000000000" "BeforeClaim demo_store = None"
    using reachable_ok [OF demo_reachable(2)] by (simp_all add: calm_def, simp_all add: demo_world_def demo_store_def)
  from claim_takes_oldest [OF this r] show ?thesis by (auto simp: demo_world_def)
qed

text \<open>C10: One task whose budget has gone below zero stops the queue: while it is the oldest that can be
  claimed, \<open>Claim\<close> fails for every worker and changes nothing, so the tasks behind it never run.\<close>

theorem exhausted_task_blocks_queue:
  assumes "store_ok (db w)" and "calm w" and "n = clock w div 1000000000" and "BeforeClaim st = None"
    and "t \<in> set (agent_tasks (db w))" and "claimable n n [] t" and "tBudgetTokens t < 0"
    and "\<forall>u \<in> set (agent_tasks (db w)). claimable n n [] u \<and> u \<noteq> t \<longrightarrow> tCreatedAt t < tCreatedAt u"
  shows "Claim st owner lease w = (Inl (errorf ''task budget exhausted''), w)"
proof -
  have "least_by tCreatedAt (filter (claimable n n []) (agent_tasks (db w))) = Some t"
    by (rule least_by_unique) (use assms(5,6,8) in auto)
  then have "select_oldest (claimable n n []) (db w) = (Inr t, db w)"
    by (simp add: select_oldest_def)
  from claim_calm [OF assms(1,2,5) this assms(3,4)] show ?thesis using assms(7) by simp
qed

definition demo_read :: "string \<Rightarrow> task" where
  "demo_read key = zero_task\<lparr>tTenantID := ''acme'', tOwner := ''alice'', tIdempotencyKey := key,
     tKind := ''readonly'', tTool := ''search'', tBudgetTokens := 5\<rparr>"

definition demo_overdrawn :: tables where
  "demo_overdrawn =
     demo_step 1003 31 (CallSubmit (demo_read ''k2''))
       (demo_step 1002 21 (CallComplete (hex_string 32 1) 1
          \<lparr>oResult = [], oUsage = 9, oRetryable = True, oErr = Some (errorf ''busy'')\<rparr>)
         (demo_step 1001 11 (CallClaim ''w1'' 60000000000)
           (demo_step 1000 1 (CallSubmit (demo_read ''k1'')) empty_tables)))"

lemma demo_overdrawn_reachable: "reachable demo_overdrawn"
  unfolding demo_overdrawn_def by (intro reachable_demo_step reachable_empty; code_simp)

theorem exhausted_task_blocks_queue_witness:
  "Claim demo_store ''w2'' 60000000000 (demo_world 1004 41 demo_overdrawn)
     = (Inl (errorf ''task budget exhausted''), demo_world 1004 41 demo_overdrawn) \<and>
   tStatus (agent_tasks demo_overdrawn ! 1) = StatusQueued \<and> 0 < tBudgetTokens (agent_tasks demo_overdrawn ! 1)"
proof -
  let ?w = "demo_world 1004 41 demo_overdrawn" and ?t = "hd (agent_tasks demo_overdrawn)"
  have t: "?t \<in> set (agent_tasks demo_overdrawn)" "claimable 1004 1004 [] ?t" "tBudgetTokens ?t < 0"
      "\<forall>u \<in> set (agent_tasks demo_overdrawn). claimable 1004 1004 [] u \<and> u \<noteq> ?t \<longrightarrow> tCreatedAt ?t < tCreatedAt u"
      "tStatus (agent_tasks demo_overdrawn ! 1) = StatusQueued \<and> 0 < tBudgetTokens (agent_tasks demo_overdrawn ! 1)"
    by code_simp+
  have "store_ok (db ?w)" "calm ?w" "1004 = clock ?w div 1000000000" "BeforeClaim demo_store = None"
    using reachable_ok [OF demo_overdrawn_reachable] by (simp_all add: calm_def, simp_all add: demo_world_def demo_store_def)
  from exhausted_task_blocks_queue [OF this, of ?t] t show ?thesis by simp
qed

definition takeover :: "tables \<Rightarrow> tables" where
  "takeover d = demo_step 2001 61 (CallClaim ''w2'' 60000000000) (demo_step 2000 51 CallRecover d)"

definition held_up :: "(task_err_kind, tables) world" where
  "held_up = (demo_world 1002 21 demo_approved)\<lparr>script :=
     [(NoFault, \<lambda>d. d), (NoFault, \<lambda>d. d), (NoFault, takeover)]\<rparr>"

lemma takeover_peer: "peer takeover"
  unfolding takeover_def [abs_def] by (rule peer_seq [OF demo_step_peer demo_step_peer]) simp_all

lemma held_up_peers: "peers held_up"
  by (auto simp: peers_def held_up_def takeover_peer peer_idle)

lemma held_up_db: "db held_up = demo_approved"
  by (simp add: held_up_def)

definition foreign_lease :: "(terr + task) \<Rightarrow> tables \<Rightarrow> bool" where
  "foreign_lease r d = (case r of Inl e \<Rightarrow> False
     | Inr t \<Rightarrow> tStatus t = StatusRunning \<and> tLeaseOwner t = ''w2'' \<and> t = hd (agent_tasks d))"

text \<open>A claim hands out the row it reads after its update, not the row it wrote: if the worker is
  held up between the two for longer than its lease, the task is recovered and claimed by another
  worker, and \<open>Claim\<close> then returns success with the other worker's lease and fencing version. Two
  workers hold the same version, which the fencing version is there to exclude.\<close>

theorem claim_can_return_foreign_lease:
  "\<exists>w w' t. reachable (db w) \<and> peers w \<and> Claim demo_store ''w1'' 60000000000 w = (Inr t, w') \<and>
     t \<in> set (agent_tasks (db w')) \<and> tStatus t = StatusRunning \<and> tLeaseOwner t = ''w2''"
proof -
  let ?m = "Claim demo_store ''w1'' 60000000000 held_up"
  have f: "foreign_lease (fst ?m) (db (snd ?m))" "agent_tasks (db (snd ?m)) \<noteq> []" by code_simp+
  obtain t where t: "fst ?m = Inr t" using f(1) by (cases "fst ?m") (auto simp: foreign_lease_def)
  have "tStatus t = StatusRunning" "tLeaseOwner t = ''w2''" "t \<in> set (agent_tasks (db (snd ?m)))"
    using f by (auto simp: foreign_lease_def t)
  then show ?thesis
    using demo_reachable(2) held_up_peers t held_up_db by (metis prod.collapse)
qed

lemma script_stmt: "script (snd (stmt f w)) = tl (script w)"
  by (cases "script w") (auto simp: stmt_def split: prod.splits)

lemma script_now: "script (snd (now w)) = script w"
  by (simp add: now_code now_nanos_def split: list.split)

lemma script_get: "script (snd (get i w)) = tl (script w)"
  by (simp add: get_def script_stmt)

lemma script_updateWhere: "script (snd (updateWhere t p w)) = tl (script w)"
  using script_stmt [of "update_tasks p (updateTaskArgs t)" w]
  by (cases "stmt (update_tasks p (updateTaskArgs t)) w")
    (auto simp: updateWhere_def bindE_def returnE_def split: sum.split)

lemma script_ctx_err: "script (snd (ctx_err w)) = script w"
  by (simp add: ctx_err_def split: list.split)

lemma isTerminal_open:
  "\<not> isTerminal st \<longleftrightarrow> st \<in> {StatusQueued, StatusWaiting, StatusRunning}"
  by (cases st) (simp_all add: isTerminal_def)

text \<open>Without interference the update of an open row takes effect.\<close>

lemma cancel_commits:
  assumes ok: "store_ok (db w)" and s: "script w = []" and g: "get i w = (Inr t, w1)"
    and op: "\<not> isTerminal (tStatus t)" and n: "now w1 = (Inr n, w2)"
  shows "fst (updateWhere (canceled_row n t) (\<lambda>x. tID x = i \<and> tVersion x = tVersion t \<and>
    tStatus x \<in> {StatusQueued, StatusWaiting, StatusRunning}) w2) = Inr True"
proof -
  let ?p = "\<lambda>x. tID x = i \<and> tVersion x = tVersion t \<and> tStatus x \<in> {StatusQueued, StatusWaiting, StatusRunning}"
  have f: "List.find (\<lambda>x. tID x = i) (agent_tasks (db w)) = Some t"
    using g s by (auto simp: get_def stmt_def select_row_def split: option.splits)
  have w1: "w1 = w" using g s f by (simp add: get_def stmt_def select_row_def)
  have w2: "db w2 = db w" "script w2 = []"
    using n w1 s by (auto simp: now_code now_nanos_def split: list.splits)
  have t: "t \<in> set (agent_tasks (db w))" "tID t = i" using find_SomeD [OF f] by simp_all
  have "row_move (agent_approvals (db w)) r (updateTaskArgs (canceled_row n t) r)"
    if "r \<in> set (agent_tasks (db w))" "?p r" for r
  proof -
    have "r = t" using store_ok_key [OF ok t(1) that(1)] that(2) t(2) by simp
    then show ?thesis using move_canceled [OF store_ok_row [OF ok that(1)], of t n] that(2) by simp
  qed
  moreover obtain res d' where u: "update_tasks ?p (updateTaskArgs (canceled_row n t)) (db w) = (res, d')"
    by fastforce
  ultimately have "res = Inr (count_where ?p (agent_tasks (db w)))"
    using update_tasks_ok [OF ok _ u] by blast
  moreover have "\<exists>x \<in> set (agent_tasks (db w)). ?p x"
    using t op isTerminal_open by blast
  then have "count_where ?p (agent_tasks (db w)) = 1"
    using count_where_key [OF store_ok_ids [OF ok], of ?p i] by simp
  ultimately show ?thesis
    using u w2 by (simp add: updateWhere_def bindE_def returnE_def stmt_def)
qed

lemma cancel_loop_enough:
  assumes "store_ok (db w)" and "env_ok store_ok advances w" and "length (script w) < k"
  shows "cancel_loop (k + j) i w = cancel_loop k i w"
  using assms
proof (induction k arbitrary: w)
  case (Suc k)
  let ?p = "\<lambda>t x. tID x = i \<and> tVersion x = tVersion t \<and> tStatus x \<in> {StatusQueued, StatusWaiting, StatusRunning}"
  obtain r1 w1 where g: "get i w = (r1, w1)" by fastforce
  have sg: "script w1 = tl (script w)" using script_get [of i w] g by simp
  show ?case
  proof (cases r1)
    case (Inr t)
    obtain r2 w2 where n: "now w1 = (r2, w2)" by fastforce
    then obtain n where r2: "r2 = Inr n" by (auto simp: now_code now_nanos_def split: list.splits)
    obtain r3 w3 where u: "updateWhere (canceled_row n t) (?p t) w2 = (r3, w3)" by fastforce
    obtain r4 w4 where c: "ctx_err w3 = (Inr r4, w4)" by (cases "ctx_errs w3") (auto simp: ctx_err_def)
    have step: "cancel_loop (Suc m) i w =
        (if isTerminal (tStatus t) then (Inr t, w1)
         else case r3 of Inl e \<Rightarrow> (Inl e, w3)
           | Inr b \<Rightarrow> if b then get i w3 else
               (case r4 of Some e \<Rightarrow> (Inl e, w4) | None \<Rightarrow> cancel_loop m i w4))" for m
      using g Inr n r2 u c
      by (auto simp: bindE_def returnE_def throwE_def split: sum.split option.split)
    show ?thesis
    proof (cases "isTerminal (tStatus t) \<or> r3 \<noteq> Inr False")
      case True
      then show ?thesis unfolding add_Suc step by (auto split: sum.split)
    next
      case False
      have s3: "script w3 = tl (tl (script w))" "script w4 = script w3"
        using sg script_now [of w1] n script_updateWhere [of "canceled_row n t" "?p t" w2] u
          script_ctx_err [of w3] c by simp_all
      have "script w \<noteq> []"
        using cancel_commits [OF Suc.prems(1) _ g [unfolded Inr] _ n [unfolded r2]] False u by auto
      then have "length (script w4) < k" using Suc.prems(3) s3 by (cases "script w") auto
      moreover have "store_ok (db w4) \<and> env_ok store_ok advances w4"
      proof -
        let ?m = "bindE (get i) (\<lambda>t. bindE now (\<lambda>n. bindE (updateWhere (canceled_row n t) (?p t)) (\<lambda>b. ctx_err)))"
        have "keeps ?m"
          unfolding keeps_def
          by (rule tasks.hoare_bind [OF hoare_get_any], rule tasks.hoare_bind [OF tasks.hoare_now],
              rule tasks.hoare_bind [OF cancel_cas], rule tasks.hoare_ctx_err)
        from keeps_run [OF this Suc.prems(2,1)] False g Inr n r2 u c
        show ?thesis by (auto simp: bindE_def)
      qed
      ultimately show ?thesis using Suc.IH [of w4] unfolding add_Suc step by (simp split: option.split sum.split)
    qed
  qed (simp add: g bindE_def)
qed simp

text \<open>C11: \<open>Cancel\<close> always comes to an end: its loop needs at most one iteration more than there are
  interferences of other processes, because without one the update it has just prepared takes
  effect. More iterations than the bound of the model give the same result.\<close>

theorem cancel_terminates:
  assumes "store_ok (db w)" and "peers w"
  shows "cancel_loop (Suc (length (script w)) + j) i w = Cancel i w"
  unfolding Cancel_def by (rule cancel_loop_enough [OF assms(1) peers_env_ok [OF assms(2)]]) simp

theorem cancel_terminates_witness:
  "cancel_loop (4 + 100) (hex_string 32 1) held_up = Cancel (hex_string 32 1) held_up"
proof -
  have "Suc (length (script held_up)) = 4" by (simp add: held_up_def)
  then show ?thesis
    using cancel_terminates [of held_up 100 "hex_string 32 1"] reachable_ok [OF demo_reachable(2)]
    by (simp add: held_up_db held_up_peers)
qed

definition lapsed :: "int \<Rightarrow> task \<Rightarrow> bool" where
  "lapsed n t \<longleftrightarrow> tStatus t = StatusRunning \<and> tLeaseExpires t \<le> n"

definition recovered :: "int \<Rightarrow> task \<Rightarrow> task" where
  "recovered n t =
     (if \<not> lapsed n t then t
      else t\<lparr>tStatus := (if tKind t = ''write'' \<and> tExecNonce t \<noteq> [] then StatusUnknown else StatusQueued),
             tLeaseOwner := [], tLeaseExpires := 0, tVersion := tVersion t + 1, tUpdatedAt := n\<rparr>)"

lemma count_map: "count_where P (map f xs) = count_where (\<lambda>x. P (f x)) xs"
  by (induction xs) (simp_all add: count_where_def)

lemma count_disjoint:
  "(\<And>x. \<not> (P x \<and> Q x)) \<Longrightarrow> count_where P xs + count_where Q xs = count_where (\<lambda>x. P x \<or> Q x) xs"
  by (induction xs) (auto simp: count_where_def)

text \<open>C12: \<open>Recover\<close> puts back in the queue exactly the running tasks whose lease has run out, except
  writes with a recorded execution intent, which it holds as unknown, and it counts both.\<close>

theorem recover_exact:
  assumes "store_ok (db w)" and "calm w" and "n = clock w div 1000000000"
  shows "Recover w = (Inr (count_where (lapsed n) (agent_tasks (db w))),
    w\<lparr>db := (db w)\<lparr>agent_tasks := map (recovered n) (agent_tasks (db w))\<rparr>\<rparr>)"
proof -
  define p1 where "p1 t \<longleftrightarrow> tStatus t = StatusRunning \<and> tLeaseExpires t \<le> n \<and>
    \<not> (tKind t = ''write'' \<and> tExecNonce t \<noteq> [])" for t :: task
  define f1 where "f1 t = t\<lparr>tStatus := StatusQueued, tLeaseOwner := [], tLeaseExpires := 0,
    tVersion := tVersion t + 1, tUpdatedAt := n\<rparr>" for t :: task
  define p2 where "p2 t \<longleftrightarrow> tStatus t = StatusRunning \<and> tLeaseExpires t \<le> n \<and>
    tKind t = ''write'' \<and> tExecNonce t \<noteq> []" for t :: task
  define f2 where "f2 t = t\<lparr>tStatus := StatusUnknown, tLeaseOwner := [], tLeaseExpires := 0,
    tVersion := tVersion t + 1, tUpdatedAt := n\<rparr>" for t :: task
  define d1 where "d1 = (db w)\<lparr>agent_tasks := upd_where p1 f1 (agent_tasks (db w))\<rparr>"
  define d2 where "d2 = d1\<lparr>agent_tasks := upd_where p2 f2 (agent_tasks d1)\<rparr>"
  have m1: "row_move aps r (f1 r)" if "row_ok aps r" "p1 r" for aps r
    using that move_requeue_idle [of aps r n] by (simp add: p1_def f1_def)
  have m2: "row_move aps r (f2 r)" if "row_ok aps r" "p2 r" for aps r
    using that move_unknown_plain [of aps r n] by (simp add: p2_def f2_def)
  obtain r1 e1 where u1: "update_tasks p1 f1 (db w) = (r1, e1)" by fastforce
  have s1: "update_tasks p1 f1 (db w) = (Inr (count_where p1 (agent_tasks (db w))), d1)" "store_ok d1"
    using update_tasks_ok [OF assms(1) m1 [OF store_ok_row [OF assms(1)]] u1] u1 by (auto simp: d1_def)
  obtain r2 e2 where u2: "update_tasks p2 f2 d1 = (r2, e2)" by fastforce
  have s2: "update_tasks p2 f2 d1 = (Inr (count_where p2 (agent_tasks d1)), d2)"
    using update_tasks_ok [OF s1(2) m2 [OF store_ok_row [OF s1(2)]] u2] u2 by (auto simp: d2_def)
  have run: "Recover w = (Inr (count_where p1 (agent_tasks (db w)) + count_where p2 (agent_tasks d1)), w\<lparr>db := d2\<rparr>)"
    using assms(2,3) s1(1) s2
    by (simp add: Recover_def calm_simps p1_def [abs_def] f1_def [abs_def] p2_def [abs_def] f2_def [abs_def])
  have "p2 (if p1 t then f1 t else t) \<longleftrightarrow> p2 t" for t
    by (simp add: p1_def p2_def f1_def)
  then have "count_where p2 (agent_tasks d1) = count_where p2 (agent_tasks (db w))"
    by (simp add: d1_def upd_where_def count_map)
  moreover have "(\<lambda>t. p1 t \<or> p2 t) = lapsed n" by (auto simp: p1_def p2_def lapsed_def)
  ultimately have c: "count_where p1 (agent_tasks (db w)) + count_where p2 (agent_tasks d1)
      = count_where (lapsed n) (agent_tasks (db w))"
    using count_disjoint [of p1 p2 "agent_tasks (db w)"] by (simp add: p1_def p2_def)
  have "(if p2 (if p1 t then f1 t else t) then f2 (if p1 t then f1 t else t) else if p1 t then f1 t else t)
      = recovered n t" for t
    by (auto simp: p1_def p2_def f1_def f2_def recovered_def lapsed_def)
  then have "agent_tasks d2 = map (recovered n) (agent_tasks (db w))"
    by (simp add: d2_def d1_def upd_where_def comp_def)
  then have "d2 = (db w)\<lparr>agent_tasks := map (recovered n) (agent_tasks (db w))\<rparr>"
    by (simp add: d2_def d1_def)
  then show ?thesis by (simp only: run c)
qed

theorem recover_exact_witness:
  "fst (Recover (demo_world 2000 41 demo_intent)) = Inr 1 \<and>
   recovered 2000 (hd (agent_tasks demo_intent)) = hd (agent_tasks demo_unknown)"
proof -
  let ?w = "demo_world 2000 41 demo_intent"
  have n: "count_where (lapsed 2000) (agent_tasks demo_intent) = 1" "agent_tasks demo_intent \<noteq> []" by code_simp+
  have "store_ok (db ?w)" "calm ?w" "2000 = clock ?w div 1000000000"
    using reachable_ok [OF demo_reachable(4)] by (simp_all add: calm_def, simp_all add: demo_world_def)
  from recover_exact [OF this] n show ?thesis
    by (simp add: demo_unknown_def demo_step_def ignore_def bindE_def returnE_def hd_map)
qed

end
