(* ===== verification/HttpResponse.thy ===== *)
theory HttpResponse
  imports GoStrings
begin

text \<open>
  Errors and responses of an HTTP handler (\<open>pkg/bear/error.go\<close>, \<open>http_error.go\<close>, \<open>responder.go\<close>,
  \<open>handler.go\<close>, \<open>response.go\<close>): business errors and their registry, the one JSON response an error or
  a result becomes, and the compiled form of a business handler. \<open>'w\<close> is the world a request runs in
  (the request, the keys of its context, everything handlers can reach), \<open>'v\<close> the type of results.
  The JSON encoder, the localizer and the methods that read the request are parameters (\<open>http_env\<close>).
\<close>

section \<open>Errors\<close>

record bear_error =
  beCode :: int
  beStatus :: int
  beMessage :: string
  beKey :: string
  beArgs :: "string list"

text \<open>An error is the first \<open>*BearError\<close> that \<open>errors.As\<close> finds in its chain, and its text.\<close>

datatype herror = HErr (bear_of: "bear_error option") (herr_text: string)

type_synonym error_registry = "(int \<times> bear_error) list"

definition NewError :: "int \<Rightarrow> string \<Rightarrow> string list \<Rightarrow> bear_error" where
  "NewError code key args = \<lparr>beCode = code, beStatus = 0, beMessage = [], beKey = key, beArgs = args\<rparr>"

definition NewStatusError :: "int \<Rightarrow> int \<Rightarrow> string \<Rightarrow> bear_error" where
  "NewStatusError status code key =
     \<lparr>beCode = code, beStatus = status, beMessage = [], beKey = key, beArgs = []\<rparr>"

definition WithMsg :: "bear_error \<Rightarrow> string \<Rightarrow> bear_error" where
  "WithMsg e msg = e\<lparr>beMessage := msg\<rparr>"

definition RegisterError :: "int \<Rightarrow> int \<Rightarrow> string \<Rightarrow> string \<Rightarrow> error_registry \<Rightarrow> error_registry" where
  "RegisterError code status key defaultMsg r =
     (code, \<lparr>beCode = code, beStatus = status, beMessage = defaultMsg, beKey = key, beArgs = []\<rparr>) # r"

definition GetError :: "error_registry \<Rightarrow> int \<Rightarrow> string list \<Rightarrow> bear_error" where
  "GetError r code args =
     (case map_of r code of
        Some e \<Rightarrow> e\<lparr>beArgs := args\<rparr>
      | None \<Rightarrow> \<lparr>beCode = code, beStatus = 500, beMessage = ''Unknown Error'', beKey = [], beArgs = args\<rparr>)"

definition default_errors :: error_registry where
  "default_errors =
     RegisterError 500 500 ''error_internal'' ''Internal server error''
       (RegisterError 403 403 ''error_forbidden'' ''Forbidden''
         (RegisterError 401 401 ''error_unauthorized'' ''Unauthorized''
           (RegisterError 400 400 ''error_invalid_params'' ''Invalid parameters''
             (RegisterError 404 404 ''error_not_found'' ''Resource not found'' []))))"

definition ErrUnauthorized :: herror where
  "ErrUnauthorized = HErr (Some (GetError default_errors 401 [])) ''Error 401 (key: error_unauthorized)''"

definition ErrForbidden :: herror where
  "ErrForbidden = HErr (Some (GetError default_errors 403 [])) ''Error 403 (key: error_forbidden)''"

definition ErrInternalServer :: herror where
  "ErrInternalServer = HErr (Some (GetError default_errors 500 [])) ''Error 500 (key: error_internal)''"

text \<open>\<open>http.StatusText\<close>.\<close>

definition status_texts :: "(int \<times> string) list" where
  "status_texts =
    [(100, ''Continue''), (101, ''Switching Protocols''), (102, ''Processing''), (103, ''Early Hints''),
     (200, ''OK''), (201, ''Created''), (202, ''Accepted''), (203, ''Non-Authoritative Information''),
     (204, ''No Content''), (205, ''Reset Content''), (206, ''Partial Content''), (207, ''Multi-Status''),
     (208, ''Already Reported''), (226, ''IM Used''), (300, ''Multiple Choices''),
     (301, ''Moved Permanently''), (302, ''Found''), (303, ''See Other''), (304, ''Not Modified''),
     (305, ''Use Proxy''), (307, ''Temporary Redirect''), (308, ''Permanent Redirect''),
     (400, ''Bad Request''), (401, ''Unauthorized''), (402, ''Payment Required''), (403, ''Forbidden''),
     (404, ''Not Found''), (405, ''Method Not Allowed''), (406, ''Not Acceptable''),
     (407, ''Proxy Authentication Required''), (408, ''Request Timeout''), (409, ''Conflict''),
     (410, ''Gone''), (411, ''Length Required''), (412, ''Precondition Failed''),
     (413, ''Request Entity Too Large''), (414, ''Request URI Too Long''),
     (415, ''Unsupported Media Type''), (416, ''Requested Range Not Satisfiable''),
     (417, ''Expectation Failed''), (418, ''I'' @ [CHR 0x27] @ ''m a teapot''), (421, ''Misdirected Request''),
     (422, ''Unprocessable Entity''), (423, ''Locked''), (424, ''Failed Dependency''), (425, ''Too Early''),
     (426, ''Upgrade Required''), (428, ''Precondition Required''), (429, ''Too Many Requests''),
     (431, ''Request Header Fields Too Large''), (451, ''Unavailable For Legal Reasons''),
     (500, ''Internal Server Error''), (501, ''Not Implemented''), (502, ''Bad Gateway''),
     (503, ''Service Unavailable''), (504, ''Gateway Timeout''), (505, ''HTTP Version Not Supported''),
     (506, ''Variant Also Negotiates''), (507, ''Insufficient Storage''), (508, ''Loop Detected''),
     (510, ''Not Extended''), (511, ''Network Authentication Required'')]"

definition StatusText :: "int \<Rightarrow> string" where
  "StatusText code = (case map_of status_texts code of Some s \<Rightarrow> s | None \<Rightarrow> [])"

section \<open>Results and the context of a request\<close>

text \<open>
  A result is a plain value (with nil), a value with a status, a \<open>Response\<close> or a pointer to one. A
  body is the JSON of a \<open>Response\<close> with code and message only, encoded JSON, or bytes a handler wrote.
\<close>

datatype 'v result =
    RNil
  | RStatus int "'v result"
  | RResponse int string "'v result"
  | RResponsePtr "(int \<times> string \<times> 'v result) option"
  | RValue 'v

datatype body = ErrorBody int string | JsonBody string | RawBody string

record 'w gctx =
  gEnv :: 'w
  gAborted :: bool
  gStatus :: int
  gWritten :: bool
  gBody :: "body option"

record ('w, 'v) http_env =
  hEnvelope :: bool
  hMarshal :: "'v result \<Rightarrow> string option"
  hLocalize :: "'w \<Rightarrow> string \<Rightarrow> string list \<Rightarrow> string option"
  hHead :: "'w \<Rightarrow> bool"
  hRequestID :: "'w \<Rightarrow> string option"
  hRegistry :: error_registry

section \<open>Error responses\<close>

definition registeredErrorMessage :: "error_registry \<Rightarrow> int \<Rightarrow> string \<Rightarrow> string" where
  "registeredErrorMessage r code key =
     (case map_of r code of
        None \<Rightarrow> []
      | Some d \<Rightarrow> if key \<noteq> [] \<and> beKey d \<noteq> key then [] else beMessage d)"

definition safeBearErrorMessage :: "('w, 'v, 'z) http_env_scheme \<Rightarrow> 'w \<Rightarrow> bear_error \<Rightarrow> int \<Rightarrow> string" where
  "safeBearErrorMessage h w e status =
     (if 500 \<le> status then ''Internal server error''
      else case (if beKey e \<noteq> [] then hLocalize h w (beKey e) (beArgs e) else None) of
        Some (c # cs) \<Rightarrow> c # cs
      | _ \<Rightarrow>
        (if beMessage e \<noteq> [] then beMessage e
         else let registered = registeredErrorMessage (hRegistry h) (beCode e) (beKey e) in
         if registered \<noteq> [] then registered
         else if beKey e \<noteq> [] \<and> \<not> HasPrefix (beKey e) ''error_'' then beKey e
         else let message = StatusText status in
         if message \<noteq> [] then message else ''Request failed''))"

definition errorResponse :: "('w, 'v, 'z) http_env_scheme \<Rightarrow> 'w \<Rightarrow> herror \<Rightarrow> int \<times> int \<times> string" where
  "errorResponse h w err =
     (case bear_of err of
        None \<Rightarrow>
          (500, 500,
           case hRequestID h w of
             Some rid \<Rightarrow> ''Internal server error (RID: '' @ rid @ '')''
           | None \<Rightarrow> ''Internal server error'')
      | Some e \<Rightarrow>
          let candidate = (if beStatus e = 0 then beCode e else beStatus e) in
          if candidate < 400 \<or> 599 < candidate then (500, 500, ''Internal server error'')
          else (candidate, if beCode e = 0 then candidate else beCode e,
                safeBearErrorMessage h w e candidate))"

definition WriteError :: "('w, 'v, 'z) http_env_scheme \<Rightarrow> herror \<Rightarrow> ('w, 'y) gctx_scheme \<Rightarrow> ('w, 'y) gctx_scheme" where
  "WriteError h err ctx =
     (let c = ctx\<lparr>gAborted := True\<rparr>; (status, code, message) = errorResponse h (gEnv ctx) err in
      if gWritten c then c
      else if hHead h (gEnv c) then c\<lparr>gStatus := status, gWritten := True\<rparr>
      else c\<lparr>gStatus := status, gWritten := True, gBody := Some (ErrorBody code message)\<rparr>)"

text \<open>The answer to a panic that the recovery middleware of \<open>runtime.go\<close> caught (\<open>middleware.go\<close>).\<close>

definition abortRecoveredResponse :: "('w, 'v, 'z) http_env_scheme \<Rightarrow> ('w, 'y) gctx_scheme \<Rightarrow> ('w, 'y) gctx_scheme" where
  "abortRecoveredResponse h ctx =
     (let c = ctx\<lparr>gAborted := True\<rparr>;
          rid = (case hRequestID h (gEnv ctx) of Some r \<Rightarrow> r | None \<Rightarrow> ''<nil>'') in
      if gWritten c then c
      else if hHead h (gEnv c) then c\<lparr>gStatus := 500, gWritten := True\<rparr>
      else c\<lparr>gStatus := 500, gWritten := True,
             gBody := Some (ErrorBody 500 (''Internal Server Error (RID: '' @ rid @ '')''))\<rparr>)"

section \<open>Successful responses\<close>

definition localizeSuccessResponse :: "('w, 'v, 'z) http_env_scheme \<Rightarrow> 'w \<Rightarrow> int \<times> string \<times> 'v result \<Rightarrow> 'v result" where
  "localizeSuccessResponse h w r =
     (case r of (code, message, dat) \<Rightarrow>
        RResponse code
          (if message = [] then message
           else case hLocalize h w message [] of Some translated \<Rightarrow> translated | None \<Rightarrow> message) dat)"

definition success_payload :: "('w, 'v, 'z) http_env_scheme \<Rightarrow> 'w \<Rightarrow> int \<Rightarrow> 'v result \<Rightarrow> 'v result" where
  "success_payload h w status result =
     (let (result, hasEnvelope) =
        (case result of
           RResponse code message dat \<Rightarrow> (localizeSuccessResponse h w (code, message, dat), True)
         | RResponsePtr (Some r) \<Rightarrow> (localizeSuccessResponse h w r, True)
         | RResponsePtr None \<Rightarrow> (if hEnvelope h then RNil else result, False)
         | _ \<Rightarrow> (result, False)) in
      if hEnvelope h \<and> \<not> hasEnvelope then RResponse status (StatusText status) result
      else if result = RNil then RResponse status ''success'' RNil
      else result)"

definition int_text :: "int \<Rightarrow> string" where
  "int_text i = (if i < 0 then CHR ''-'' # Itoa (nat (- i)) else Itoa (nat i))"

definition writeSuccessWithConfig :: "('w, 'v, 'z) http_env_scheme \<Rightarrow> 'v result \<Rightarrow> ('w, 'y) gctx_scheme \<Rightarrow> ('w, 'y) gctx_scheme" where
  "writeSuccessWithConfig h result ctx =
     (if gWritten ctx then ctx
      else let (status, result) = (case result of RStatus s v \<Rightarrow> (s, v) | _ \<Rightarrow> (200, result)) in
      if status < 200 \<or> 400 \<le> status
      then WriteError h (HErr None (''invalid successful response status '' @ int_text status)) ctx
      else case hMarshal h (success_payload h (gEnv ctx) status result) of
        None \<Rightarrow> WriteError h (HErr None ''marshal successful response'') ctx
      | Some text \<Rightarrow>
          if status = 204 \<or> status = 304 \<or> hHead h (gEnv ctx) then ctx\<lparr>gStatus := status\<rparr>
          else ctx\<lparr>gStatus := status, gWritten := True, gBody := Some (JsonBody text)\<rparr>)"

section \<open>Compiled handlers\<close>

text \<open>
  A handler function has a signature (for every result whether its type implements \<open>error\<close>), an
  argument plan that may be refused, a binding of its arguments from the request, and its body: the
  world it leaves, what it did to the response, and its result values, or a panic and whether its value
  is that of a broken connection (\<open>isHTTPConnectionAbort\<close>).
  A result value is an error that may be nil, or a plain value with its nil test.
\<close>

datatype 'v rvalue = ErrorValue "herror option" | PlainValue "'v result" bool

datatype reply = NoReply | SetStatus int | Writes int string

record effect =
  efAbort :: bool
  efReply :: reply

datatype bind_error = PathBinding string | OtherBinding string

record ('w, 'v) handler_fun =
  hfOut :: "bool list"
  hfPlan :: "herror option"
  hfBind :: "'w \<Rightarrow> bind_error option"
  hfCall :: "'w \<Rightarrow> 'w \<times> effect \<times> (bool + 'v rvalue list)"

text \<open>What a caller passes as \<open>handler any\<close>; the last two are handlers in Gin's own form.\<close>

datatype ('w, 'v) handler =
    NoFunction
  | NilFunction
  | BusinessFunction "('w, 'v) handler_fun"
  | GinHandler "'w \<Rightarrow> 'w \<times> effect \<times> bool option"

definition apply_effect :: "effect \<Rightarrow> ('w, 'y) gctx_scheme \<Rightarrow> ('w, 'y) gctx_scheme" where
  "apply_effect e ctx =
     (let c = ctx\<lparr>gAborted := gAborted ctx \<or> efAbort e\<rparr> in
      case efReply e of
        NoReply \<Rightarrow> c
      | SetStatus s \<Rightarrow> c\<lparr>gStatus := s\<rparr>
      | Writes s text \<Rightarrow> c\<lparr>gStatus := s, gWritten := True, gBody := Some (RawBody text)\<rparr>)"

definition validateHandlerResults :: "bool list \<Rightarrow> string option" where
  "validateHandlerResults outs =
     (case outs of
        [] \<Rightarrow> None
      | [_] \<Rightarrow> None
      | [a, b] \<Rightarrow>
          if \<not> b then Some ''second result must implement error''
          else if a then Some ''first result must be a response value, not an error''
          else None
      | _ \<Rightarrow> Some ''must return at most a response value and an error'')"

text \<open>
  \<open>None\<close> is a panic: of the type assertion to \<open>error\<close>, or of the last branch. Two results of which the
  first is an error are refused by \<open>validateHandlerResults\<close>; the code would return that error as the
  result, which a \<open>result\<close> cannot hold, so \<open>None\<close> stands for it too.
\<close>

definition isNilReflectValue :: "'v rvalue \<Rightarrow> bool" where
  "isNilReflectValue v = (case v of ErrorValue e \<Rightarrow> e = None | PlainValue _ b \<Rightarrow> b)"

definition decodeHandlerResults :: "'v rvalue list \<Rightarrow> (herror + 'v result) option" where
  "decodeHandlerResults results =
     (case results of
        [] \<Rightarrow> Some (Inr RNil)
      | [v] \<Rightarrow>
          (case v of
             ErrorValue None \<Rightarrow> Some (Inr RNil)
           | ErrorValue (Some e) \<Rightarrow> Some (Inl e)
           | PlainValue r _ \<Rightarrow> Some (Inr r))
      | [v, e] \<Rightarrow>
          if \<not> isNilReflectValue e
          then (case e of ErrorValue (Some x) \<Rightarrow> Some (Inl x) | _ \<Rightarrow> None)
          else (case v of
                  PlainValue r _ \<Rightarrow> Some (Inr r)
                | ErrorValue _ \<Rightarrow> None)
      | _ \<Rightarrow> None)"

definition bind_failure :: "bind_error \<Rightarrow> herror" where
  "bind_failure e =
     (let (message, cause) = (case e of PathBinding t \<Rightarrow> (''Invalid path parameter'', t)
                                      | OtherBinding t \<Rightarrow> (''Invalid request'', t)) in
      HErr (Some (WithMsg (NewStatusError 400 400 ''error_invalid_params'') message)) cause)"

text \<open>How a compiled handler ends: it returns a result or an error, or it panics.\<close>

datatype 'v ending = Answers "'v result" | Errs herror | Panics bool

type_synonym ('w, 'v) compiled = "'w \<Rightarrow> 'w \<times> effect \<times> 'v ending"

definition no_effect :: effect where
  "no_effect = \<lparr>efAbort = False, efReply = NoReply\<rparr>"

definition call_compiled :: "('w, 'v) handler_fun \<Rightarrow> ('w, 'v) compiled" where
  "call_compiled f w =
     (case hfBind f w of
        Some e \<Rightarrow> (w, no_effect, Errs (bind_failure e))
      | None \<Rightarrow>
          (case hfCall f w of
             (w', eff, Inl b) \<Rightarrow> (w', eff, Panics b)
           | (w', eff, Inr results) \<Rightarrow>
               (w', eff, case decodeHandlerResults results of
                           None \<Rightarrow> Panics False
                         | Some (Inl e) \<Rightarrow> Errs e
                         | Some (Inr r) \<Rightarrow> Answers r)))"

definition compileHandler :: "('w, 'v) handler \<Rightarrow> herror + ('w, 'v) compiled" where
  "compileHandler h =
     (case h of
        BusinessFunction f \<Rightarrow>
          (case hfPlan f of
             Some e \<Rightarrow> Inl e
           | None \<Rightarrow>
               (case validateHandlerResults (hfOut f) of
                  Some msg \<Rightarrow> Inl (HErr None msg)
                | None \<Rightarrow> Inr (call_compiled f)))
      | NilFunction \<Rightarrow> Inl (HErr None ''handler must not be nil'')
      | _ \<Rightarrow> Inl (HErr None ''handler must be a function''))"

definition opaqueGinHandler :: "('w, 'v) handler \<Rightarrow> ('w \<Rightarrow> 'w \<times> effect \<times> bool option) option" where
  "opaqueGinHandler h = (case h of GinHandler g \<Rightarrow> Some g | _ \<Rightarrow> None)"

section \<open>Facts\<close>

text \<open>The values of a call fit the signature of the function.\<close>

definition fits :: "bool list \<Rightarrow> 'v rvalue list \<Rightarrow> bool" where
  "fits outs vs \<longleftrightarrow> list_all2 (\<lambda>b v. (case v of ErrorValue _ \<Rightarrow> b | PlainValue _ _ \<Rightarrow> \<not> b)) outs vs"

lemma accepted_results_decode:
  assumes "validateHandlerResults outs = None" and "fits outs vs"
  shows "\<exists>r. decodeHandlerResults vs = Some r"
  using assms
  by (auto simp: validateHandlerResults_def fits_def decodeHandlerResults_def isNilReflectValue_def
           list_all2_Cons1 split: list.splits rvalue.splits option.splits if_splits)

text \<open>A response to an error has a status from 400 to 599; from 500 on its message says nothing of the error.\<close>

lemma errorResponse_status:
  "errorResponse h w err = (status, code, message) \<Longrightarrow> 400 \<le> status \<and> status \<le> 599"
  by (auto simp: errorResponse_def Let_def split: option.splits if_splits)

lemma errorResponse_safe:
  assumes "errorResponse h w err = (status, code, message)" and "500 \<le> status"
  shows "message \<in> {''Internal server error'',
           ''Internal server error (RID: '' @ the (hRequestID h w) @ '')''}"
  using assms
  by (auto simp: errorResponse_def Let_def safeBearErrorMessage_def split: option.splits if_splits)

lemma WriteError_simps [simp]:
  "gEnv (WriteError h err c) = gEnv c" "gAborted (WriteError h err c)" "gWritten (WriteError h err c)"
  "gctx.more (WriteError h err c) = gctx.more c"
  by (simp_all add: WriteError_def Let_def split: prod.split)

lemma WriteError_aborted [simp]: "WriteError h err (c\<lparr>gAborted := b\<rparr>) = WriteError h err c"
  by (simp add: WriteError_def Let_def split: prod.split)

lemma WriteError_written: "gWritten c \<Longrightarrow> WriteError h err c = c\<lparr>gAborted := True\<rparr>"
  by (simp add: WriteError_def Let_def split: prod.split)

lemma WriteError_status:
  "\<not> gWritten c \<Longrightarrow> 400 \<le> gStatus (WriteError h err c) \<and> gStatus (WriteError h err c) \<le> 599"
  using errorResponse_status [of h "gEnv c" err]
  by (auto simp: WriteError_def Let_def split: prod.split)

end
