(* ===== verification/RequestPipeline.thy ===== *)
theory RequestPipeline
  imports HttpResponse
begin

text \<open>
  The way of a request through an application (\<open>pkg/bear/fairing.go\<close> and the pipeline of
  \<open>pkg/bear/bear.go\<close>): the fairings of the application, of the controllers around a route and of the
  route, the handler, and the response fairings of what was entered. A Gin middleware is a function of
  the continuation that \<open>ctx.Next()\<close> runs; a deferred call runs when its function returns or panics.
  \<open>rTrace\<close> is a ghost: it records which fairing was passed or stopped the request, in which world, and
  when the handler and the response fairings ran.
\<close>

section \<open>Fairings and the state of a request\<close>

datatype verdict = Proceeds | Refuses herror | Crashes bool

datatype 'v rverdict = Transforms "'v result" | Rejects herror | Crashes_response

record ('w, 'v) fairing =
  fId :: nat
  fAuth :: bool
  onRequest :: "'w \<Rightarrow> 'w \<times> effect \<times> verdict"
  onResponse :: "'w \<Rightarrow> 'v result \<Rightarrow> 'w \<times> 'v rverdict"

datatype 'w event = Passed nat 'w | Stopped nat 'w | Ran 'w | Responded nat

record ('w, 'v) rctx = "'w gctx" +
  rEntered :: "('w, 'v) fairing list"
  rResponseRun :: bool
  rGlobalStarted :: bool
  rCompleted :: bool
  rTrace :: "'w event list"

text \<open>An application: the mode, the fairings of its \<open>FairingHandler\<close>, and the response environment.\<close>

record ('w, 'v) app = "('w, 'v) http_env" +
  aStrict :: bool
  aFairings :: "('w, 'v) fairing list"

datatype outcome = Fine | Fails herror | Panicked bool

definition new_rctx :: "'w \<Rightarrow> ('w, 'v) rctx" where
  "new_rctx w = \<lparr>gEnv = w, gAborted = False, gStatus = 200, gWritten = False, gBody = None,
     rEntered = [], rResponseRun = False, rGlobalStarted = False, rCompleted = False, rTrace = []\<rparr>"

definition requestFairingTerminal :: "('w, 'y) gctx_scheme \<Rightarrow> bool" where
  "requestFairingTerminal ctx \<longleftrightarrow> gAborted ctx \<or> gWritten ctx"

section \<open>The request fairings\<close>

definition ask :: "('w, 'v) fairing \<Rightarrow> ('w, 'v) rctx \<Rightarrow> ('w, 'v) rctx \<times> verdict" where
  "ask f ctx =
     (case onRequest f (gEnv ctx) of
        (w, eff, v) \<Rightarrow> (apply_effect eff (ctx\<lparr>gEnv := w,
           rTrace := rTrace ctx @ [(if v = Proceeds then Passed else Stopped) (fId f) (gEnv ctx)]\<rparr>), v))"

fun runEnteredRequestFairings :: "('w, 'v) fairing list \<Rightarrow> ('w, 'v) rctx \<Rightarrow> ('w, 'v) rctx \<times> outcome" where
  "runEnteredRequestFairings [] ctx = (ctx, Fine)"
| "runEnteredRequestFairings (f # fs) ctx =
     (if requestFairingTerminal ctx then (ctx, Fine)
      else case ask f ctx of
        (c, Refuses e) \<Rightarrow> (c, Fails e)
      | (c, Crashes b) \<Rightarrow> (c, Panicked b)
      | (c, Proceeds) \<Rightarrow>
          (let d = c\<lparr>rEntered := rEntered c @ [f]\<rparr> in
           if requestFairingTerminal d then (d, Fine) else runEnteredRequestFairings fs d))"

text \<open>An \<open>AuthFairing\<close> of the application runs as a middleware and not here.\<close>

definition globalRequestFairings :: "('w, 'v) app \<Rightarrow> ('w, 'v) fairing list" where
  "globalRequestFairings a = filter (\<lambda>f. \<not> fAuth f) (aFairings a)"

definition runStrictGlobalFairings :: "('w, 'v) app \<Rightarrow> ('w, 'v) rctx \<Rightarrow> ('w, 'v) rctx \<times> outcome" where
  "runStrictGlobalFairings a ctx =
     (if requestFairingTerminal ctx \<or> rGlobalStarted ctx then (ctx, Fine)
      else runEnteredRequestFairings (globalRequestFairings a) (ctx\<lparr>rGlobalStarted := True\<rparr>))"

definition runRequestFairings :: "('w, 'v) app \<Rightarrow> ('w, 'v) fairing list \<Rightarrow> ('w, 'v) rctx \<Rightarrow> ('w, 'v) rctx \<times> outcome" where
  "runRequestFairings a routeFairings ctx =
     (case runEnteredRequestFairings routeFairings ctx of
        (c, Fine) \<Rightarrow>
          if requestFairingTerminal c then (c, Fine)
          else runEnteredRequestFairings (globalRequestFairings a) c
      | r \<Rightarrow> r)"

definition runPipelineRequestFairings :: "('w, 'v) app \<Rightarrow> ('w, 'v) fairing list \<Rightarrow> ('w, 'v) rctx \<Rightarrow> ('w, 'v) rctx \<times> outcome" where
  "runPipelineRequestFairings a routeFairings ctx =
     (if \<not> aStrict a then runRequestFairings a routeFairings ctx
      else if requestFairingTerminal ctx then (ctx, Fine)
      else case runStrictGlobalFairings a ctx of
        (c, Fine) \<Rightarrow>
          if requestFairingTerminal c then (c, Fine) else runEnteredRequestFairings routeFairings c
      | r \<Rightarrow> r)"

section \<open>The response fairings\<close>

definition callResponseFairing :: "('w, 'v) fairing \<Rightarrow> 'w \<Rightarrow> 'v result \<Rightarrow> 'w \<times> (herror + 'v result)" where
  "callResponseFairing f w r =
     (case onResponse f w r of
        (w', Transforms v) \<Rightarrow> (w', Inr v)
      | (w', Rejects e) \<Rightarrow> (w', Inl e)
      | (w', Crashes_response) \<Rightarrow> (w', Inl (HErr None ''fairing response panic'')))"

fun respond_all :: "('w, 'v) fairing list \<Rightarrow> 'w \<Rightarrow> 'v result \<Rightarrow> herror option \<Rightarrow> 'w \<times> 'v result \<times> herror option" where
  "respond_all [] w r firstErr = (w, r, firstErr)"
| "respond_all (f # fs) w r firstErr =
     (case callResponseFairing f w r of
        (w', Inr v) \<Rightarrow> respond_all fs w' v firstErr
      | (w', Inl e) \<Rightarrow> respond_all fs w' r (case firstErr of None \<Rightarrow> Some e | Some x \<Rightarrow> Some x))"

definition runEnteredResponseFairings :: "'v result \<Rightarrow> ('w, 'v) rctx \<Rightarrow> ('w, 'v) rctx \<times> 'v result \<times> herror option" where
  "runEnteredResponseFairings result ctx =
     (if rResponseRun ctx then (ctx, result, None)
      else case respond_all (rev (rEntered ctx)) (gEnv ctx) result None of
        (w, r, err) \<Rightarrow>
          (ctx\<lparr>gEnv := w, rResponseRun := True,
             rTrace := rTrace ctx @ map (\<lambda>f. Responded (fId f)) (rev (rEntered ctx))\<rparr>, r, err))"

definition runPipelineResponseFairings :: "'v result \<Rightarrow> ('w, 'v) rctx \<Rightarrow> ('w, 'v) rctx \<times> 'v result \<times> herror option" where
  "runPipelineResponseFairings result ctx =
     (if rCompleted ctx then (ctx, result, None)
      else runEnteredResponseFairings result (ctx\<lparr>rCompleted := True\<rparr>))"

definition finishNativeGinResponseFairings :: "('w, 'v) app \<Rightarrow> ('w, 'v) rctx \<Rightarrow> ('w, 'v) rctx" where
  "finishNativeGinResponseFairings a ctx =
     (case runPipelineResponseFairings RNil ctx of
        (c, _, None) \<Rightarrow> c
      | (c, _, Some e) \<Rightarrow> WriteError a e c)"

section \<open>Middlewares and the handler of a route\<close>

text \<open>A step of the Gin chain leaves a context and a panic, if any (true for a broken connection).\<close>

type_synonym ('w, 'v) step = "('w, 'v) rctx \<Rightarrow> ('w, 'v) rctx \<times> bool option"

definition deferred_finish :: "('w, 'v) app \<Rightarrow> ('w, 'v) step \<Rightarrow> ('w, 'v) step" where
  "deferred_finish a body ctx = (case body ctx of (c, p) \<Rightarrow> (finishNativeGinResponseFairings a c, p))"

definition trace_ran :: "('w, 'v) rctx \<Rightarrow> ('w, 'v) rctx" where
  "trace_ran ctx = ctx\<lparr>rTrace := rTrace ctx @ [Ran (gEnv ctx)]\<rparr>"

text \<open>What follows the request fairings: the error they ended with, or the handler.\<close>

definition opaque_body :: "('w \<Rightarrow> 'w \<times> effect \<times> bool option) \<Rightarrow> ('w, 'v) step" where
  "opaque_body g ctx =
     (case g (gEnv ctx) of (w, eff, p) \<Rightarrow> (apply_effect eff ((trace_ran ctx)\<lparr>gEnv := w\<rparr>), p))"

definition compiled_body :: "('w, 'v) app \<Rightarrow> ('w, 'v) compiled \<Rightarrow> ('w, 'v) step" where
  "compiled_body a f ctx =
     (case f (gEnv ctx) of
        (w, eff, ending) \<Rightarrow>
          (let c = apply_effect eff ((trace_ran ctx)\<lparr>gEnv := w\<rparr>) in
           case ending of
             Panics b \<Rightarrow> (c, Some b)
           | Errs e \<Rightarrow> (WriteError a e c, None)
           | Answers r \<Rightarrow>
               if requestFairingTerminal c then (c, None)
               else (case runPipelineResponseFairings r c of
                       (d, _, Some e) \<Rightarrow> (WriteError a e d, None)
                     | (d, r', None) \<Rightarrow> (writeSuccessWithConfig a r' d, None))))"

definition handler_body :: "('w, 'v) app \<Rightarrow> ('w, 'v) handler \<Rightarrow> herror + ('w, 'v) step" where
  "handler_body a h =
     (case opaqueGinHandler h of
        Some g \<Rightarrow> Inr (opaque_body g)
      | None \<Rightarrow> (case compileHandler h of Inl e \<Rightarrow> Inl e | Inr f \<Rightarrow> Inr (compiled_body a f)))"

definition after_fairings :: "('w, 'v) app \<Rightarrow> ('w, 'v) step \<Rightarrow> ('w, 'v) rctx \<times> outcome \<Rightarrow> ('w, 'v) rctx \<times> bool option" where
  "after_fairings a body r =
     (case r of
        (c, Fails e) \<Rightarrow> (WriteError a e c, None)
      | (c, Panicked b) \<Rightarrow> (c, Some b)
      | (c, Fine) \<Rightarrow> if requestFairingTerminal c then (c, None) else body c)"

definition pipeline_step :: "('w, 'v) app \<Rightarrow> ('w, 'v) fairing list \<Rightarrow> ('w, 'v) step \<Rightarrow> ('w, 'v) step" where
  "pipeline_step a routeFairings body =
     deferred_finish a (\<lambda>ctx. after_fairings a body (runPipelineRequestFairings a routeFairings ctx))"

definition compilePipeline :: "('w, 'v) app \<Rightarrow> ('w, 'v) handler \<Rightarrow> ('w, 'v) fairing list \<Rightarrow> herror + ('w, 'v) step" where
  "compilePipeline a h routeFairings =
     (case handler_body a h of
        Inl e \<Rightarrow> Inl e
      | Inr body \<Rightarrow> Inr (pipeline_step a routeFairings body))"

text \<open>
  A guard enters its fairings and then runs the rest of the chain. When they left the request
  terminal, it aborts the chain.
\<close>

definition guard_with :: "('w, 'v) app \<Rightarrow> (('w, 'v) rctx \<Rightarrow> ('w, 'v) rctx \<times> outcome) \<Rightarrow> ('w, 'v) step \<Rightarrow> ('w, 'v) step" where
  "guard_with a enter nxt =
     deferred_finish a (\<lambda>ctx.
       case enter ctx of
         (c, Fails e) \<Rightarrow> (WriteError a e c, None)
       | (c, Panicked b) \<Rightarrow> (c, Some b)
       | (c, Fine) \<Rightarrow> if requestFairingTerminal c then (c\<lparr>gAborted := True\<rparr>, None) else nxt c)"

text \<open>The guard in front of routes registered with \<open>GET\<close>, \<open>POST\<close> and the like.\<close>

definition nativeGinFairingGuard :: "('w, 'v) app \<Rightarrow> ('w, 'v) step \<Rightarrow> ('w, 'v) step" where
  "nativeGinFairingGuard a = guard_with a (runPipelineRequestFairings a [])"

text \<open>
  The guards \<open>buildControllerE\<close> puts in front of the routes of a controller: one for all its fairings
  after those of the application in strict mode, else one per fairing.
\<close>

definition enter_controller :: "('w, 'v) app \<Rightarrow> ('w, 'v) fairing list \<Rightarrow> ('w, 'v) rctx \<Rightarrow> ('w, 'v) rctx \<times> outcome" where
  "enter_controller a ownFairings ctx =
     (case runStrictGlobalFairings a ctx of
        (c, Fine) \<Rightarrow>
          if requestFairingTerminal c then (c, Fine) else runEnteredRequestFairings ownFairings c
      | r \<Rightarrow> r)"

definition enter_one :: "('w, 'v) fairing \<Rightarrow> ('w, 'v) rctx \<Rightarrow> ('w, 'v) rctx \<times> outcome" where
  "enter_one f ctx =
     (if requestFairingTerminal ctx then (ctx, Fine) else runEnteredRequestFairings [f] ctx)"

definition controller_guards :: "('w, 'v) app \<Rightarrow> ('w, 'v) fairing list \<Rightarrow> ('w, 'v) step \<Rightarrow> ('w, 'v) step" where
  "controller_guards a ownFairings nxt =
     (if aStrict a then guard_with a (enter_controller a ownFairings) nxt
      else foldr (\<lambda>f k. guard_with a (enter_one f) k) ownFairings nxt)"

text \<open>The chain of a route: the controllers from the outside in, then its own pipeline.\<close>

definition serve_route :: "('w, 'v) app \<Rightarrow> ('w, 'v) fairing list list \<Rightarrow> ('w, 'v) fairing list \<Rightarrow> ('w, 'v) step \<Rightarrow> ('w, 'v) step" where
  "serve_route a controllers routeFairings body =
     foldr (controller_guards a) controllers (pipeline_step a routeFairings body)"

text \<open>The recovery middleware around the chain.\<close>

definition runtimeRecoveryMiddleware :: "('w, 'v) app \<Rightarrow> ('w, 'v) step \<Rightarrow> ('w, 'v) rctx \<Rightarrow> ('w, 'v) rctx" where
  "runtimeRecoveryMiddleware a nxt ctx =
     (case nxt ctx of
        (c, None) \<Rightarrow> c
      | (c, Some True) \<Rightarrow> c\<lparr>gAborted := True\<rparr>
      | (c, Some False) \<Rightarrow> abortRecoveredResponse a c)"

end
