(* ===== verification/PipelineProps.thy ===== *)
theory PipelineProps
  imports RequestPipeline
begin

text \<open>
  The theorems on the way of a request: the nested guards of controllers and route are one flat run of
  the fairings (\<open>nested_guards_are_flat\<close>), and the trace of that run is known exactly
  (\<open>trace_of_a_request\<close>).
\<close>

section \<open>Simplification of the steps\<close>

lemma apply_effect_simps [simp]:
  "gEnv (apply_effect e c) = gEnv c" "gctx.more (apply_effect e c) = gctx.more c"
  by (simp_all add: apply_effect_def Let_def split: reply.split)

lemma apply_effect_rctx [simp]:
  fixes c :: "('w, 'v) rctx"
  shows "rEntered (apply_effect e c) = rEntered c" "rResponseRun (apply_effect e c) = rResponseRun c"
    "rGlobalStarted (apply_effect e c) = rGlobalStarted c" "rCompleted (apply_effect e c) = rCompleted c"
    "rTrace (apply_effect e c) = rTrace c"
  by (simp_all add: apply_effect_def Let_def split: reply.split)

lemma WriteError_rctx [simp]:
  fixes c :: "('w, 'v) rctx"
  shows "rEntered (WriteError h e c) = rEntered c" "rResponseRun (WriteError h e c) = rResponseRun c"
    "rGlobalStarted (WriteError h e c) = rGlobalStarted c" "rCompleted (WriteError h e c) = rCompleted c"
    "rTrace (WriteError h e c) = rTrace c"
  by (simp_all add: WriteError_def Let_def split: prod.split)

lemma writeSuccess_rctx [simp]:
  fixes c :: "('w, 'v) rctx"
  shows "rEntered (writeSuccessWithConfig h r c) = rEntered c"
    "rResponseRun (writeSuccessWithConfig h r c) = rResponseRun c"
    "rCompleted (writeSuccessWithConfig h r c) = rCompleted c"
    "rTrace (writeSuccessWithConfig h r c) = rTrace c"
  by (auto simp: writeSuccessWithConfig_def Let_def split: prod.split option.split result.split)

lemma ask_rctx [simp]:
  assumes "ask f c = (d, v)"
  shows "rEntered d = rEntered c" "rResponseRun d = rResponseRun c"
    "rGlobalStarted d = rGlobalStarted c" "rCompleted d = rCompleted c"
    "rTrace d = rTrace c @ [(if v = Proceeds then Passed else Stopped) (fId f) (gEnv c)]"
    "snd (snd (onRequest f (gEnv c))) = v"
  using assms by (auto simp: ask_def split: prod.splits)

section \<open>A flat run of the fairings\<close>

lemma entered_append:
  "runEnteredRequestFairings (xs @ ys) c =
     (case runEnteredRequestFairings xs c of
        (d, Fine) \<Rightarrow> if requestFairingTerminal d then (d, Fine) else runEnteredRequestFairings ys d
      | r \<Rightarrow> r)"
proof (induction xs arbitrary: c)
  case Nil
  then show ?case by (cases ys) auto
next
  case (Cons f xs)
  obtain e v where a: "ask f c = (e, v)" by (cases "ask f c")
  show ?case
  proof (cases "requestFairingTerminal c \<or> v \<noteq> Proceeds")
    case True
    then show ?thesis using a by (cases v) auto
  next
    case False
    then show ?thesis using a Cons.IH [of "e\<lparr>rEntered := rEntered e @ [f]\<rparr>"] by (simp add: Let_def)
  qed
qed

lemma entered_started [simp]:
  "runEnteredRequestFairings fs c = (d, r) \<Longrightarrow> rGlobalStarted d = rGlobalStarted c"
proof (induction fs arbitrary: c)
  case (Cons f fs)
  obtain e v where a: "ask f c = (e, v)" by (cases "ask f c")
  show ?case
    using Cons.prems Cons.IH [of "e\<lparr>rEntered := rEntered e @ [f]\<rparr>"] a ask_rctx(3) [OF a]
    by (auto simp: Let_def split: if_splits verdict.splits)
qed simp

text \<open>
  \<open>passed\<close> are the fairings that let the request through, in the worlds \<open>pw\<close>; \<open>rest\<close> are those that
  were not passed. The run ends because there are none left, because one stopped it, or because the
  last one left the request terminal.
\<close>

definition passes :: "('w, 'v) fairing list \<Rightarrow> 'w list \<Rightarrow> 'w event list" where
  "passes fs ws = map (\<lambda>(f, w). Passed (fId f) w) (zip fs ws)"

definition entered_as :: "('w, 'v) fairing list \<Rightarrow> 'w list \<Rightarrow> bool" where
  "entered_as fs ws \<longleftrightarrow> list_all2 (\<lambda>f w. snd (snd (onRequest f w)) = Proceeds) fs ws"

lemma passes_Cons [simp]: "passes (f # fs) (w # ws) = Passed (fId f) w # passes fs ws"
  by (simp add: passes_def)

lemma passes_Nil [simp]: "passes [] ws = []"
  by (simp add: passes_def)

lemma entered_as_simps [simp]:
  "entered_as [] []"
  "entered_as (f # fs) (w # ws) \<longleftrightarrow> snd (snd (onRequest f w)) = Proceeds \<and> entered_as fs ws"
  by (simp_all add: entered_as_def)

lemma entered_run:
  assumes "runEnteredRequestFairings fs c = (d, r)"
  shows "\<exists>passed rest pw mid. fs = passed @ rest \<and> entered_as passed pw
    \<and> rEntered d = rEntered c @ passed \<and> rTrace d = rTrace c @ passes passed pw @ mid
    \<and> rResponseRun d = rResponseRun c \<and> rCompleted d = rCompleted c
    \<and> (if r = Fine then mid = [] \<and> (requestFairingTerminal d \<or> rest = [])
       else \<exists>f w. mid = [Stopped (fId f) w] \<and> snd (snd (onRequest f w)) \<noteq> Proceeds \<and> [f] = take 1 rest)"
  using assms
proof (induction fs arbitrary: c)
  case Nil
  then show ?case by (intro exI [of _ "[]"]) auto
next
  case (Cons f fs)
  obtain e v where a: "ask f c = (e, v)" by (cases "ask f c")
  note k = ask_rctx [OF a]
  let ?e = "e\<lparr>rEntered := rEntered e @ [f]\<rparr>"
  consider (halted) "requestFairingTerminal c" | (stop) "\<not> requestFairingTerminal c" "v \<noteq> Proceeds"
    | (last) "\<not> requestFairingTerminal c" "v = Proceeds" "requestFairingTerminal ?e"
    | (go) "\<not> requestFairingTerminal c" "v = Proceeds" "\<not> requestFairingTerminal ?e" by blast
  then show ?case
  proof cases
    case halted
    then show ?thesis using Cons.prems by (intro exI [of _ "[]"] exI [of _ "f # fs"] exI [of _ "[]"]) auto
  next
    case stop
    then have "d = e \<and> r \<noteq> Fine" using Cons.prems a by (auto split: verdict.splits)
    then show ?thesis
      using stop k
      by (intro exI [of _ "[]"] exI [of _ "f # fs"] exI [of _ "[]"] exI [of _ "[Stopped (fId f) (gEnv c)]"]) auto
  next
    case last
    then have "d = ?e \<and> r = Fine" using Cons.prems a by (auto simp: Let_def)
    then show ?thesis
      using last k by (intro exI [of _ "[f]"] exI [of _ fs] exI [of _ "[gEnv c]"] exI [of _ "[]"]) auto
  next
    case go
    then have "runEnteredRequestFairings fs ?e = (d, r)" using Cons.prems a by (auto simp: Let_def)
    from Cons.IH [OF this] obtain passed rest pw mid where
      i: "fs = passed @ rest" "entered_as passed pw" "rEntered d = rEntered ?e @ passed"
        "rTrace d = rTrace ?e @ passes passed pw @ mid" "rResponseRun d = rResponseRun ?e"
        "rCompleted d = rCompleted ?e"
        "if r = Fine then mid = [] \<and> (requestFairingTerminal d \<or> rest = [])
         else \<exists>f w. mid = [Stopped (fId f) w] \<and> snd (snd (onRequest f w)) \<noteq> Proceeds \<and> [f] = take 1 rest"
      by blast
    show ?thesis
      using i go k
      by (intro exI [of _ "f # passed"] exI [of _ rest] exI [of _ "gEnv c # pw"] exI [of _ mid]) simp
  qed
qed

section \<open>The response fairings run once\<close>

lemma finish_simps:
  "rTrace (finishNativeGinResponseFairings a c) =
     rTrace c @ (if rCompleted c \<or> rResponseRun c then [] else map (\<lambda>f. Responded (fId f)) (rev (rEntered c)))"
  "rCompleted (finishNativeGinResponseFairings a c)"
  "rEntered (finishNativeGinResponseFairings a c) = rEntered c"
  "rGlobalStarted (finishNativeGinResponseFairings a c) = rGlobalStarted c"
  by (auto simp: finishNativeGinResponseFairings_def runPipelineResponseFairings_def
      runEnteredResponseFairings_def split: prod.split option.split)

lemma finish_completed: "rCompleted c \<Longrightarrow> finishNativeGinResponseFairings a c = c"
  by (simp add: finishNativeGinResponseFairings_def runPipelineResponseFairings_def)

text \<open>Whether the chain was aborted is not compared: nothing after the chain reads it.\<close>

definition forget :: "('w, 'v) rctx \<times> bool option \<Rightarrow> ('w, 'v) rctx \<times> bool option" where
  "forget r = (case r of (c, p) \<Rightarrow> (c\<lparr>gAborted := True\<rparr>, p))"

lemma WriteError_forget: "(WriteError h e c)\<lparr>gAborted := True\<rparr> = WriteError h e c"
  by (simp add: WriteError_def Let_def split: prod.split)

lemma finish_forget:
  "(finishNativeGinResponseFairings a (c\<lparr>gAborted := b\<rparr>))\<lparr>gAborted := True\<rparr> =
   (finishNativeGinResponseFairings a c)\<lparr>gAborted := True\<rparr>"
  by (auto simp: finishNativeGinResponseFairings_def runPipelineResponseFairings_def
      runEnteredResponseFairings_def WriteError_def Let_def split: prod.split option.split)

section \<open>Nested guards are a flat run\<close>

definition flat_step :: "('w, 'v) app \<Rightarrow> ('w, 'v) fairing list \<Rightarrow> ('w, 'v) step \<Rightarrow> ('w, 'v) step" where
  "flat_step a fs body = deferred_finish a (\<lambda>c. after_fairings a body (runEnteredRequestFairings fs c))"

lemma flat_completed: "rCompleted (fst (flat_step a fs body c))"
  by (simp add: flat_step_def deferred_finish_def finish_simps split: prod.split)

lemma guard_flat:
  assumes enter: "enter c = runEnteredRequestFairings own c0"
    and nxt: "\<And>d. runEnteredRequestFairings own c0 = (d, Fine) \<Longrightarrow> \<not> requestFairingTerminal d \<Longrightarrow>
      forget (nxt d) = forget (flat_step a rest body d)"
  shows "forget (guard_with a enter nxt c) = forget (flat_step a (own @ rest) body c0)"
proof -
  obtain d r where e: "runEnteredRequestFairings own c0 = (d, r)"
    by (cases "runEnteredRequestFairings own c0")
  consider (ended) "r \<noteq> Fine" | (halted) "r = Fine" "requestFairingTerminal d"
    | (go) "r = Fine" "\<not> requestFairingTerminal d" by blast
  then show ?thesis
  proof cases
    case ended
    then show ?thesis
      by (simp add: guard_with_def flat_step_def deferred_finish_def after_fairings_def enter e
          entered_append split: outcome.split)
  next
    case halted
    then show ?thesis
      by (simp add: guard_with_def flat_step_def deferred_finish_def after_fairings_def enter e
          entered_append forget_def finish_forget)
  next
    case go
    have n: "forget (nxt d) = forget (flat_step a rest body d)" using nxt e go by blast
    obtain x p where x: "nxt d = (x, p)" by (cases "nxt d")
    obtain y q where y: "flat_step a rest body d = (y, q)" by (cases "flat_step a rest body d")
    have cy: "rCompleted y" using flat_completed [of a rest body d] y by simp
    have xy: "x\<lparr>gAborted := True\<rparr> = y\<lparr>gAborted := True\<rparr>" "p = q"
      using n x y by (simp_all add: forget_def)
    have "rCompleted (x\<lparr>gAborted := True\<rparr>)" unfolding xy(1) using cy by simp
    then have "guard_with a enter nxt c = (x, p)"
      by (simp add: guard_with_def deferred_finish_def enter e go x finish_completed)
    moreover have "flat_step a (own @ rest) body c0 = (y, q)"
      using y go by (simp add: flat_step_def deferred_finish_def after_fairings_def entered_append e)
    ultimately show ?thesis using xy by (simp add: forget_def)
  qed
qed

text \<open>In strict mode a later guard finds the fairings of the application already entered.\<close>

lemma strict_chain_flat:
  assumes "aStrict a" "rGlobalStarted c" "\<not> requestFairingTerminal c"
  shows "forget (serve_route a controllers routeFs body c)
       = forget (flat_step a (concat controllers @ routeFs) body c)"
  using assms(2,3)
proof (induction controllers arbitrary: c)
  case Nil
  then show ?case using assms(1)
    by (simp add: serve_route_def pipeline_step_def flat_step_def deferred_finish_def
        runPipelineRequestFairings_def runStrictGlobalFairings_def)
next
  case (Cons own controllers)
  have "forget (guard_with a (enter_controller a own) (serve_route a controllers routeFs body) c)
      = forget (flat_step a (own @ (concat controllers @ routeFs)) body c)"
  proof (rule guard_flat)
    show "enter_controller a own c = runEnteredRequestFairings own c"
      using Cons.prems by (simp add: enter_controller_def runStrictGlobalFairings_def)
  next
    fix d assume "runEnteredRequestFairings own c = (d, Fine)" "\<not> requestFairingTerminal d"
    then show "forget (serve_route a controllers routeFs body d)
             = forget (flat_step a (concat controllers @ routeFs) body d)"
      using Cons.IH Cons.prems by simp
  qed
  then show ?case using assms(1) by (simp add: serve_route_def controller_guards_def)
qed

lemma legacy_guards_flat:
  fixes c :: "('w, 'v) rctx"
  assumes nxt: "\<And>d. \<not> requestFairingTerminal d \<Longrightarrow> forget (nxt d) = forget (flat_step a rest body d)"
    and "\<not> requestFairingTerminal c"
  shows "forget (foldr (\<lambda>f k. guard_with a (enter_one f) k) fs nxt c) = forget (flat_step a (fs @ rest) body c)"
  using assms(2)
proof (induction fs arbitrary: c)
  case Nil
  then show ?case using nxt by simp
next
  case (Cons f fs)
  have "forget (guard_with a (enter_one f) (foldr (\<lambda>f k. guard_with a (enter_one f) k) fs nxt) c)
      = forget (flat_step a ([f] @ (fs @ rest)) body c)"
  proof (rule guard_flat)
    show "enter_one f c = runEnteredRequestFairings [f] c" using Cons.prems by (simp only: enter_one_def) simp
  next
    fix d :: "('w, 'v) rctx" assume "\<not> requestFairingTerminal d"
    then show "forget (foldr (\<lambda>f k. guard_with a (enter_one f) k) fs nxt d) = forget (flat_step a (fs @ rest) body d)"
      by (rule Cons.IH)
  qed
  then show ?case by simp
qed

lemma legacy_chain_flat:
  assumes "\<not> aStrict a" "\<not> requestFairingTerminal c"
  shows "forget (serve_route a controllers routeFs body c)
       = forget (flat_step a (concat controllers @ (routeFs @ globalRequestFairings a)) body c)"
  using assms(2)
proof (induction controllers arbitrary: c)
  case Nil
  have "runRequestFairings a routeFs d = runEnteredRequestFairings (routeFs @ globalRequestFairings a) d" for d
    by (simp add: runRequestFairings_def entered_append)
  then show ?case using assms(1)
    by (simp add: serve_route_def pipeline_step_def flat_step_def deferred_finish_def
        runPipelineRequestFairings_def)
next
  case (Cons own controllers)
  have "forget (foldr (\<lambda>f k. guard_with a (enter_one f) k) own (serve_route a controllers routeFs body) c)
      = forget (flat_step a (own @ (concat controllers @ (routeFs @ globalRequestFairings a))) body c)"
    using Cons by (intro legacy_guards_flat)
  then show ?case using assms(1) by (simp add: serve_route_def controller_guards_def)
qed

text \<open>
  The fairings around a route in the order they are asked: those of the application come first in
  strict mode and last otherwise.
\<close>

definition route_fairings :: "('w, 'v) app \<Rightarrow> ('w, 'v) fairing list list \<Rightarrow> ('w, 'v) fairing list \<Rightarrow> ('w, 'v) fairing list" where
  "route_fairings a controllers routeFs =
     (if aStrict a then globalRequestFairings a @ (concat controllers @ routeFs)
      else concat controllers @ (routeFs @ globalRequestFairings a))"

lemma new_rctx_simps [simp]:
  "\<not> requestFairingTerminal (new_rctx w)" "\<not> rGlobalStarted (new_rctx w)" "\<not> rCompleted (new_rctx w)"
  "\<not> rResponseRun (new_rctx w)" "rTrace (new_rctx w) = []" "rEntered (new_rctx w) = []" "gEnv (new_rctx w) = w"
  by (simp_all add: new_rctx_def requestFairingTerminal_def)

lemma new_rctx_started: "(new_rctx w)\<lparr>rGlobalStarted := False\<rparr> = new_rctx w"
  by (simp add: new_rctx_def)

lemma terminal_started [simp]:
  "requestFairingTerminal (c\<lparr>rGlobalStarted := b\<rparr>) = requestFairingTerminal (c :: ('w, 'v) rctx)"
  by (simp add: requestFairingTerminal_def)

lemma serve_route_flat:
  "forget (serve_route a controllers routeFs body (new_rctx w)) =
   forget (flat_step a (route_fairings a controllers routeFs) body ((new_rctx w)\<lparr>rGlobalStarted := aStrict a\<rparr>))"
proof (cases "aStrict a")
  case False
  then show ?thesis using legacy_chain_flat [of a "new_rctx w" controllers routeFs body]
    by (simp add: route_fairings_def new_rctx_started)
next
  case True
  let ?c = "new_rctx w" and ?d = "(new_rctx w)\<lparr>rGlobalStarted := True\<rparr>"
  have start: "runStrictGlobalFairings a ?c = runEnteredRequestFairings (globalRequestFairings a) ?d"
    by (simp add: runStrictGlobalFairings_def)
  show ?thesis
  proof (cases controllers)
    case Nil
    then show ?thesis using True
      by (simp add: serve_route_def pipeline_step_def flat_step_def deferred_finish_def
          runPipelineRequestFairings_def start route_fairings_def entered_append)
  next
    case (Cons own cs)
    have "forget (guard_with a (enter_controller a own) (serve_route a cs routeFs body) ?c)
        = forget (flat_step a ((globalRequestFairings a @ own) @ (concat cs @ routeFs)) body ?d)"
    proof (rule guard_flat)
      show "enter_controller a own ?c = runEnteredRequestFairings (globalRequestFairings a @ own) ?d"
        by (simp add: enter_controller_def start entered_append)
    next
      fix x assume e: "runEnteredRequestFairings (globalRequestFairings a @ own) ?d = (x, Fine)"
        and t: "\<not> requestFairingTerminal x"
      have "rGlobalStarted x" using entered_started [OF e] by simp
      then show "forget (serve_route a cs routeFs body x) = forget (flat_step a (concat cs @ routeFs) body x)"
        using strict_chain_flat True t by blast
    qed
    then show ?thesis using True Cons by (simp add: serve_route_def controller_guards_def route_fairings_def)
  qed
qed

section \<open>The trace of a request\<close>

lemma body_trace:
  assumes "handler_body a h = Inr body" and "\<not> rCompleted c" and "\<not> rResponseRun c"
  shows "rTrace (finishNativeGinResponseFairings a (fst (body c)))
       = rTrace c @ Ran (gEnv c) # map (\<lambda>f. Responded (fId f)) (rev (rEntered c))"
proof -
  have "body \<in> range opaque_body \<or> body \<in> range (compiled_body a)"
    using assms(1) by (auto simp: handler_body_def split: option.splits sum.splits)
  then show ?thesis
    using assms(2,3)
    by (auto simp: finish_simps opaque_body_def compiled_body_def trace_ran_def Let_def
        runPipelineResponseFairings_def runEnteredResponseFairings_def
        split: prod.split ending.split option.split)
qed

text \<open>The fairings passed, what happened then, and the responses of the passed ones in reverse.\<close>

definition request_trace :: "('w, 'v) fairing list \<Rightarrow> 'w event list \<Rightarrow> bool" where
  "request_trace fs tr \<longleftrightarrow>
     (\<exists>passed rest pw mid. fs = passed @ rest \<and> entered_as passed pw
        \<and> tr = passes passed pw @ mid @ map (\<lambda>f. Responded (fId f)) (rev passed)
        \<and> (mid = []
           \<or> (\<exists>f w. mid = [Stopped (fId f) w] \<and> [f] = take 1 rest \<and> snd (snd (onRequest f w)) \<noteq> Proceeds)
           \<or> (rest = [] \<and> (\<exists>w. mid = [Ran w]))))"

lemma flat_trace:
  assumes "handler_body a h = Inr body" and "\<not> rCompleted c" "\<not> rResponseRun c" "rTrace c = []" "rEntered c = []"
  shows "request_trace fs (rTrace (fst (flat_step a fs body c)))"
proof -
  obtain d r where e: "runEnteredRequestFairings fs c = (d, r)" by (cases "runEnteredRequestFairings fs c")
  from entered_run [OF this] obtain passed rest pw mid where
    i: "fs = passed @ rest" "entered_as passed pw" "rEntered d = passed"
      "rTrace d = passes passed pw @ mid" "\<not> rResponseRun d" "\<not> rCompleted d"
      "if r = Fine then mid = [] \<and> (requestFairingTerminal d \<or> rest = [])
       else \<exists>f w. mid = [Stopped (fId f) w] \<and> snd (snd (onRequest f w)) \<noteq> Proceeds \<and> [f] = take 1 rest"
    using assms by auto
  show ?thesis
  proof (cases "r = Fine \<and> \<not> requestFairingTerminal d")
    case True
    then have "fst (flat_step a fs body c) = finishNativeGinResponseFairings a (fst (body d))"
      by (simp add: flat_step_def deferred_finish_def after_fairings_def e split: prod.split)
    moreover have "rest = []" "mid = []" using True i by auto
    ultimately show ?thesis
      using i body_trace [OF assms(1), of d] unfolding request_trace_def
      by (intro exI [of _ passed] exI [of _ "[]"] exI [of _ pw] exI [of _ "[Ran (gEnv d)]"]) simp
  next
    case False
    then have "rTrace (fst (flat_step a fs body c)) = rTrace d @ map (\<lambda>f. Responded (fId f)) (rev passed)"
      using i(3,5,6)
      by (auto simp: flat_step_def deferred_finish_def after_fairings_def e finish_simps split: outcome.split)
    moreover have "mid = [] \<or> (\<exists>f w. mid = [Stopped (fId f) w] \<and> [f] = take 1 rest \<and>
        snd (snd (onRequest f w)) \<noteq> Proceeds)" using i(7) by (auto split: if_splits)
    ultimately show ?thesis
      using i unfolding request_trace_def
      by (intro exI [of _ passed] exI [of _ rest] exI [of _ pw] exI [of _ mid]) auto
  qed
qed

lemma serve_route_trace:
  assumes "handler_body a h = Inr body"
  shows "request_trace (route_fairings a controllers routeFs)
           (rTrace (fst (serve_route a controllers routeFs body (new_rctx w))))"
proof -
  have "rTrace (fst (serve_route a controllers routeFs body (new_rctx w)))
      = rTrace (fst (forget (serve_route a controllers routeFs body (new_rctx w))))"
    by (simp add: forget_def split: prod.split)
  also have "\<dots> = rTrace (fst (flat_step a (route_fairings a controllers routeFs) body
      ((new_rctx w)\<lparr>rGlobalStarted := aStrict a\<rparr>)))"
    unfolding serve_route_flat by (simp add: forget_def split: prod.split)
  finally show ?thesis using flat_trace [OF assms] by simp
qed

end
