(* ===== verification/Authorization.thy ===== *)
theory Authorization
  imports PipelineProps
begin

text \<open>
  Resource authorization as a fairing (\<open>pkg/bear/authorization.go\<close>). What a \<open>PermissionFairing\<close> reads
  of a request is a \<open>request_view\<close>: the value under \<open>current_user_id\<close> and the runtime in the context.
  An authorizer and the two resolvers are the code behind the interfaces; they may change the world,
  fail or panic.
\<close>

section \<open>Definitions\<close>

record auth_request =
  arSubject :: string
  arResource :: string
  arAction :: string
  arScope :: "(string \<times> string) list option"

datatype decision = Decides bool | DecisionError herror | DecisionPanic bool

type_synonym 'w authorizer = "'w \<Rightarrow> auth_request \<Rightarrow> 'w \<times> decision"

type_synonym 'w scope_resolver = "'w \<Rightarrow> 'w \<times> (herror + (string \<times> string) list option)"

type_synonym 'w subject_resolver = "'w \<Rightarrow> 'w \<times> (herror + string)"

datatype subject =
    SubjString string
  | SubjBytes string
  | SubjInt int
  | SubjUint nat
  | SubjStringer string
  | SubjOther string

datatype runtime_kind = NoRuntime | StrictRuntime | LegacyRuntime

record 'w request_view =
  vUser :: "'w \<Rightarrow> subject option"
  vRuntime :: "'w \<Rightarrow> runtime_kind"

record 'w permission =
  pAuthorizer :: "'w authorizer option"
  pResource :: string
  pAction :: string
  pScopeResolver :: "'w scope_resolver option"
  pSubjectResolver :: "'w subject_resolver option"
  pDefaultSubject :: bool

definition defaultSubjectResolver :: "'w request_view \<Rightarrow> 'w subject_resolver" where
  "defaultSubjectResolver v w =
     (w, case vUser v w of
        None \<Rightarrow> Inr []
      | Some (SubjString s) \<Rightarrow> Inr s
      | Some (SubjBytes s) \<Rightarrow> Inr s
      | Some (SubjInt i) \<Rightarrow> Inr (int_text i)
      | Some (SubjUint n) \<Rightarrow> Inr (Itoa n)
      | Some (SubjStringer s) \<Rightarrow> Inr s
      | Some (SubjOther t) \<Rightarrow> Inl (HErr None (''unsupported current_user_id type '' @ t)))"

definition NewPermissionFairing :: "'w request_view \<Rightarrow> string \<Rightarrow> string \<Rightarrow> 'w scope_resolver option \<Rightarrow> 'w permission" where
  "NewPermissionFairing v resource action scope =
     \<lparr>pAuthorizer = None, pResource = TrimSpace resource, pAction = TrimSpace action,
      pScopeResolver = scope, pSubjectResolver = Some (defaultSubjectResolver v), pDefaultSubject = True\<rparr>"

definition SetSubjectResolver :: "'w request_view \<Rightarrow> 'w subject_resolver option \<Rightarrow> 'w permission \<Rightarrow> 'w permission" where
  "SetSubjectResolver v resolver p =
     (case resolver of
        None \<Rightarrow> p\<lparr>pSubjectResolver := Some (defaultSubjectResolver v), pDefaultSubject := True\<rparr>
      | Some r \<Rightarrow> p\<lparr>pSubjectResolver := Some r, pDefaultSubject := False\<rparr>)"

definition permissionStrictRuntime :: "'w request_view \<Rightarrow> 'w \<Rightarrow> bool" where
  "permissionStrictRuntime v w \<longleftrightarrow> vRuntime v w \<noteq> LegacyRuntime"

text \<open>A Go map built key by key; the copy has the entries of the original.\<close>

definition cloneAuthorizationScope :: "(string \<times> string) list option \<Rightarrow> (string \<times> string) list option" where
  "cloneAuthorizationScope scope = map_option (map (\<lambda>(k, x). (k, x))) scope"

definition resolve_scope :: "'w permission \<Rightarrow> 'w scope_resolver" where
  "resolve_scope p w =
     (case pScopeResolver p of
        None \<Rightarrow> (w, Inr None)
      | Some resolve \<Rightarrow>
          (case resolve w of
             (w', Inl e) \<Rightarrow> (w', Inl e)
           | (w', Inr scope) \<Rightarrow> (w', Inr (cloneAuthorizationScope scope))))"

definition permission_OnRequest :: "'w request_view \<Rightarrow> 'w permission \<Rightarrow> 'w \<Rightarrow> 'w \<times> verdict" where
  "permission_OnRequest v p w =
     (case pAuthorizer p of
        None \<Rightarrow> (w, Refuses ErrInternalServer)
      | Some authorize \<Rightarrow>
          if pResource p = [] \<or> pAction p = [] then (w, Refuses ErrInternalServer)
          else if pDefaultSubject p \<and> \<not> permissionStrictRuntime v w then (w, Refuses ErrInternalServer)
          else case (case pSubjectResolver p of None \<Rightarrow> defaultSubjectResolver v | Some r \<Rightarrow> r) w of
            (w1, Inl e) \<Rightarrow> (w1, Refuses ErrInternalServer)
          | (w1, Inr subject) \<Rightarrow>
              if TrimSpace subject = [] then (w1, Refuses ErrUnauthorized)
              else case resolve_scope p w1 of
                (w2, Inl e) \<Rightarrow> (w2, Refuses ErrInternalServer)
              | (w2, Inr scope) \<Rightarrow>
                  (case authorize w2 \<lparr>arSubject = TrimSpace subject, arResource = pResource p,
                                      arAction = pAction p, arScope = scope\<rparr> of
                     (w3, DecisionPanic b) \<Rightarrow> (w3, Crashes b)
                   | (w3, DecisionError e) \<Rightarrow> (w3, Refuses ErrInternalServer)
                   | (w3, Decides allowed) \<Rightarrow> (w3, if allowed then Proceeds else Refuses ErrForbidden)))"

text \<open>The fairing of a permission; its \<open>OnResponse\<close> is that of \<open>BaseFairing\<close>.\<close>

definition BaseFairing_OnResponse :: "'w \<Rightarrow> 'v result \<Rightarrow> 'w \<times> 'v rverdict" where
  "BaseFairing_OnResponse w r = (w, Transforms r)"

definition permission_fairing :: "nat \<Rightarrow> 'w request_view \<Rightarrow> 'w permission \<Rightarrow> ('w, 'v) fairing" where
  "permission_fairing i v p =
     \<lparr>fId = i, fAuth = False,
      onRequest = (\<lambda>w. case permission_OnRequest v p w of (w', verdict) \<Rightarrow> (w', no_effect, verdict)),
      onResponse = BaseFairing_OnResponse\<rparr>"

section \<open>Facts\<close>

text \<open>
  In world \<open>w\<close> the subject resolver names somebody, and the authorizer allows that subject, trimmed,
  the action on the resource within the resolved scope.
\<close>

definition authorized :: "'w request_view \<Rightarrow> 'w permission \<Rightarrow> 'w \<Rightarrow> bool" where
  "authorized v p w \<longleftrightarrow>
     (\<exists>authorize subject scope w1 w2 w3.
        pAuthorizer p = Some authorize \<and> pResource p \<noteq> [] \<and> pAction p \<noteq> []
        \<and> (case pSubjectResolver p of None \<Rightarrow> defaultSubjectResolver v | Some r \<Rightarrow> r) w = (w1, Inr subject)
        \<and> TrimSpace subject \<noteq> [] \<and> resolve_scope p w1 = (w2, Inr scope)
        \<and> authorize w2 \<lparr>arSubject = TrimSpace subject, arResource = pResource p, arAction = pAction p,
                        arScope = scope\<rparr> = (w3, Decides True))"

lemma permission_proceeds:
  "snd (permission_OnRequest v p w) = Proceeds \<Longrightarrow> authorized v p w"
  by (auto simp: permission_OnRequest_def authorized_def
      split: option.splits if_splits prod.splits sum.splits decision.splits)

lemma clone_scope [simp]: "cloneAuthorizationScope scope = scope"
  by (cases scope) (simp_all add: cloneAuthorizationScope_def)

lemma fairing_of_permission:
  "snd (snd (onRequest (permission_fairing i v p) w)) = snd (permission_OnRequest v p w)"
  "fId (permission_fairing i v p) = i"
  by (simp_all add: permission_fairing_def split: prod.split)

lemma entered_member:
  assumes "entered_as fs ws" and "f \<in> set fs"
  shows "\<exists>w. snd (snd (onRequest f w)) = Proceeds \<and> Passed (fId f) w \<in> set (passes fs ws)"
  using assms
proof (induction fs arbitrary: ws)
  case (Cons g fs)
  then obtain w ws' where "ws = w # ws'" by (cases ws) (auto simp: entered_as_def)
  then show ?case using Cons by auto
qed simp

lemma ran_passed_all:
  assumes "request_trace fs tr" and "Ran w \<in> set tr" and "f \<in> set fs"
  shows "\<exists>w'. snd (snd (onRequest f w')) = Proceeds \<and> Passed (fId f) w' \<in> set tr"
proof -
  from assms(1) obtain passed rest pw mid where t: "fs = passed @ rest" "entered_as passed pw"
    "tr = passes passed pw @ mid @ map (\<lambda>f. Responded (fId f)) (rev passed)"
    "mid = [] \<or> (\<exists>f w. mid = [Stopped (fId f) w] \<and> [f] = take 1 rest \<and> snd (snd (onRequest f w)) \<noteq> Proceeds)
     \<or> (rest = [] \<and> (\<exists>w. mid = [Ran w]))"
    unfolding request_trace_def by blast
  have "Ran w \<in> set mid" using assms(2) t(3) by (auto simp: passes_def)
  then have "rest = []" using t(4) by auto
  then show ?thesis using entered_member [OF t(2), of f] t assms(3) by auto
qed

end
