(* ===== verification/RequestProps.thy ===== *)
theory RequestProps
  imports Authorization
begin

text \<open>
  The properties of the way of a request through \<open>pkg/bear/bear.go\<close> and \<open>fairing.go\<close>: nested guards
  are one flat run, every fairing that let the request through answers once and in reverse, and
  nothing runs behind a \<open>PermissionFairing\<close> (\<open>authorization.go\<close>) that the authorizer did not allow.
\<close>

section \<open>Nested guards\<close>

text \<open>
  C13: Controllers nested to any depth, each with its guards and its deferred response run, treat a
  request as one flat list of fairings does that ends in the handler: the same response, world, trace
  and panic. The list has the application's fairings first in strict mode and last otherwise. Only
  whether the chain counts as aborted is not compared.
\<close>

theorem nested_guards_are_flat:
  "forget (serve_route a controllers routeFs body (new_rctx w)) =
   forget (flat_step a (route_fairings a controllers routeFs) body
     ((new_rctx w)\<lparr>rGlobalStarted := aStrict a\<rparr>))"
  by (rule serve_route_flat)

section \<open>The trace of a request\<close>


text \<open>An application with one fairing, a controller with a permission and a route with a fairing that panics for one user.\<close>

definition demo_view :: "string request_view" where
  "demo_view = \<lparr>vUser = (\<lambda>w. Some (SubjString w)), vRuntime = (\<lambda>w. StrictRuntime)\<rparr>"

definition demo_permission :: "string permission" where
  "demo_permission = (NewPermissionFairing demo_view '' task '' ''read'' None)
     \<lparr>pAuthorizer := Some (\<lambda>w r. (w, Decides (arSubject r \<noteq> ''eve'' \<and> arResource r = ''task'')))\<rparr>"

definition demo_fairing :: "nat \<Rightarrow> (string, string) fairing" where
  "demo_fairing i = \<lparr>fId = i, fAuth = False,
     onRequest = (\<lambda>w. (w, no_effect, if i = 3 \<and> w = ''mallory'' then Crashes False else Proceeds)),
     onResponse = (\<lambda>w r. (w, if i = 1 then Transforms r else Rejects (HErr None ''no''))) \<rparr>"

definition demo_app :: "bool \<Rightarrow> (string, string) app" where
  "demo_app strict = \<lparr>hEnvelope = False, hMarshal = (\<lambda>r. Some ''{}''), hLocalize = (\<lambda>w k args. None),
     hHead = (\<lambda>w. False), hRequestID = (\<lambda>w. None), hRegistry = default_errors,
     aStrict = strict, aFairings = [demo_fairing 1]\<rparr>"

definition demo_function :: "(string, string) handler" where
  "demo_function = BusinessFunction \<lparr>hfOut = [False, True], hfPlan = None, hfBind = (\<lambda>w. None),
     hfCall = (\<lambda>w. (w, no_effect, Inr [PlainValue (RValue w) False, ErrorValue None]))\<rparr>"

definition demo_body :: "bool \<Rightarrow> (string, string) step" where
  "demo_body strict = compiled_body (demo_app strict) (call_compiled
     \<lparr>hfOut = [False, True], hfPlan = None, hfBind = (\<lambda>w. None),
      hfCall = (\<lambda>w. (w, no_effect, Inr [PlainValue (RValue w) False, ErrorValue None]))\<rparr>)"

definition demo_serve :: "bool \<Rightarrow> string \<Rightarrow> (string, string) rctx \<times> bool option" where
  "demo_serve strict w = serve_route (demo_app strict)
     [[permission_fairing 2 demo_view demo_permission]] [demo_fairing 3] (demo_body strict) (new_rctx w)"

lemma demo_handler_body: "handler_body (demo_app strict) demo_function = Inr (demo_body strict)"
  by (simp add: handler_body_def opaqueGinHandler_def demo_function_def demo_body_def compileHandler_def
      validateHandlerResults_def)

lemma demo_traces:
  "rTrace (fst (demo_serve True ''bob'')) =
     [Passed 1 ''bob'', Passed 2 ''bob'', Passed 3 ''bob'', Ran ''bob'', Responded 3, Responded 2, Responded 1]"
  "rTrace (fst (demo_serve False ''mallory'')) =
     [Passed 2 ''mallory'', Stopped 3 ''mallory'', Responded 2]"
  "rTrace (fst (demo_serve True ''eve'')) = [Passed 1 ''eve'', Stopped 2 ''eve'', Responded 1]"
  "gStatus (fst (demo_serve True ''eve'')) = 403"
  by code_simp+


section \<open>Authorization\<close>

text \<open>
  C15: The handler of a route with a \<open>PermissionFairing\<close> on the application, a controller or the route
  runs only if the fairing was asked and the authorizer allowed a resolved subject that is not blank.
\<close>

theorem handler_needs_authorization:
  assumes "handler_body a h = Inr body"
    and "permission_fairing i v p \<in> set (route_fairings a controllers routeFs)"
    and "Ran w' \<in> set (rTrace (fst (serve_route a controllers routeFs body (new_rctx w))))"
  shows "\<exists>w0. authorized v p w0
     \<and> Passed i w0 \<in> set (rTrace (fst (serve_route a controllers routeFs body (new_rctx w))))"
  using ran_passed_all [OF serve_route_trace [OF assms(1)] assms(3,2)]
  by (auto simp: fairing_of_permission dest: permission_proceeds)

theorem handler_needs_authorization_witness:
  "Ran ''bob'' \<in> set (rTrace (fst (demo_serve True ''bob'')))
   \<and> (\<exists>w0. authorized demo_view demo_permission w0
        \<and> Passed 2 w0 \<in> set (rTrace (fst (demo_serve True ''bob''))))"
proof -
  let ?p = "permission_fairing 2 demo_view demo_permission"
  have ran: "Ran ''bob'' \<in> set (rTrace (fst (demo_serve True ''bob'')))" by (simp add: demo_traces(1))
  moreover have "?p \<in> set (route_fairings (demo_app True) [[?p]] [demo_fairing 3])"
    by (simp add: route_fairings_def demo_app_def)
  ultimately show ?thesis
    using handler_needs_authorization [OF demo_handler_body, of 2 demo_view demo_permission True "[[?p]]"
        "[demo_fairing 3]" "''bob''" "''bob''"]
    by (simp only: demo_serve_def)
qed

end
