(* ===== verification/Authentication.thy ===== *)
theory Authentication
  imports RequestPipeline
begin

text \<open>
  Bearer tokens (\<open>pkg/bear/jwt.go\<close>, \<open>auth_token.go\<close>, \<open>jwt_fairing.go\<close>): parsing and issuing of a token,
  its revocation through keys with a lifetime in Redis, and the fairing that authenticates a request.
  The JWT library, the Redis client and the digest of a key are parameters. Times and durations are
  nanoseconds; a token's expiry is one point in time for its whole life.
\<close>

section \<open>Tokens\<close>

record jwt_config =
  jcSecret :: string
  jcExpires :: int
  jcIssuer :: string
  jcAudience :: string
  jcClockSkew :: int

record claims =
  clUserID :: nat
  clEmail :: string
  clExpiresAt :: "int option"
  clIssuedAt :: "int option"
  clNotBefore :: "int option"
  clIssuer :: string
  clAudience :: "string list"

text \<open>What \<open>ParseToken\<close> asks the library for, beside HS256, a required expiry and strict decoding.\<close>

record jwt_options =
  joSecret :: string
  joLeeway :: int
  joIssuer :: "string option"
  joAudience :: "string option"

text \<open>
  The library: verification at a time, which fails or gives the claims and whether the token is valid;
  and signing. The clients of Redis: \<open>SET key value PX ttl\<close> and \<open>EXISTS\<close> at a time.
\<close>

record jwt_lib =
  jlParse :: "jwt_options \<Rightarrow> int \<Rightarrow> string \<Rightarrow> herror + claims \<times> bool"
  jlSign :: "string \<Rightarrow> claims \<Rightarrow> herror + string"

record 'r redis =
  rdSet :: "int \<Rightarrow> string \<Rightarrow> int \<Rightarrow> 'r \<Rightarrow> (herror option) \<times> 'r"
  rdExists :: "int \<Rightarrow> string \<Rightarrow> 'r \<Rightarrow> herror + int"

definition maxJWTTokenBytes :: nat where
  "maxJWTTokenBytes = 16384"

definition validateTokenExpirationHours :: "int \<Rightarrow> herror option" where
  "validateTokenExpirationHours expires =
     (if 0 < expires then None
      else Some (HErr None (''token expiration hours must be positive: got '' @ int_text expires)))"

definition hour :: int where
  "hour = 3600 * 1000000000"

definition GenerateToken :: "jwt_lib \<Rightarrow> jwt_config option \<Rightarrow> int \<Rightarrow> nat \<Rightarrow> string \<Rightarrow> herror + string" where
  "GenerateToken lib config now userID email =
     (case config of
        None \<Rightarrow> Inl (HErr None ''jwt configuration is unavailable'')
      | Some c \<Rightarrow>
          (case validateTokenExpirationHours (jcExpires c) of
             Some e \<Rightarrow> Inl e
           | None \<Rightarrow>
               jlSign lib (jcSecret c)
                 \<lparr>clUserID = userID, clEmail = email, clExpiresAt = Some (now + jcExpires c * hour),
                  clIssuedAt = Some now, clNotBefore = Some now, clIssuer = jcIssuer c,
                  clAudience = (if jcAudience c \<noteq> [] then [jcAudience c] else [])\<rparr>))"

definition parser_options :: "jwt_config \<Rightarrow> jwt_options" where
  "parser_options c =
     \<lparr>joSecret = jcSecret c, joLeeway = jcClockSkew c,
      joIssuer = (if jcIssuer c \<noteq> [] then Some (jcIssuer c) else None),
      joAudience = (if jcAudience c \<noteq> [] then Some (jcAudience c) else None)\<rparr>"

definition JWTUtil_ParseToken :: "jwt_lib \<Rightarrow> jwt_config option \<Rightarrow> int \<Rightarrow> string \<Rightarrow> herror + claims" where
  "JWTUtil_ParseToken lib config now token =
     (case config of
        None \<Rightarrow> Inl (HErr None ''jwt configuration is unavailable'')
      | Some c \<Rightarrow>
          if maxJWTTokenBytes < length token then Inl (HErr None ''jwt token exceeds maximum size of 16384 bytes'')
          else if CHR 0x0D \<in> set token \<or> CHR 0x0A \<in> set token then Inl (HErr None ''invalid token encoding'')
          else case validateTokenExpirationHours (jcExpires c) of
            Some e \<Rightarrow> Inl e
          | None \<Rightarrow>
              if jcClockSkew c < 0 \<or> 5 * 60 * 1000000000 < jcClockSkew c
              then Inl (HErr None ''jwt clock skew must be between 0 and 5m'')
              else case jlParse lib (parser_options c) now token of
                Inl e \<Rightarrow> Inl e
              | Inr (claims, valid) \<Rightarrow>
                  if valid then Inr claims else Inl (HErr None ''invalid token''))"

section \<open>Revocation\<close>

text \<open>
  An \<open>AuthTokenManager\<close> has a usable Redis client or none, and the configuration of its \<open>JWTUtil\<close>.
\<close>

record 'r token_manager =
  tmRedis :: "'r redis option"
  tmConfig :: "jwt_config option"

definition blacklistKey :: "(string \<Rightarrow> string) \<Rightarrow> string \<Rightarrow> string" where
  "blacklistKey sha token = ''bear:auth:blacklist:'' @ sha token"

definition ErrTokenRevocationUnavailable :: herror where
  "ErrTokenRevocationUnavailable = HErr None ''token revocation is unavailable''"

definition IsTokenBlacklisted :: "(string \<Rightarrow> string) \<Rightarrow> 'r token_manager \<Rightarrow> int \<Rightarrow> string \<Rightarrow> 'r \<Rightarrow> herror + bool" where
  "IsTokenBlacklisted sha m now token store =
     (case tmRedis m of
        None \<Rightarrow> Inl ErrTokenRevocationUnavailable
      | Some rd \<Rightarrow>
          (case rdExists rd now (blacklistKey sha token) store of
             Inl e \<Rightarrow> Inl e
           | Inr n \<Rightarrow> Inr (0 < n)))"

definition ParseTokenContext :: "jwt_lib \<Rightarrow> (string \<Rightarrow> string) \<Rightarrow> 'r token_manager \<Rightarrow> int \<Rightarrow> int \<Rightarrow> string \<Rightarrow> 'r \<Rightarrow> herror + claims" where
  "ParseTokenContext lib sha m now now2 token store =
     (case JWTUtil_ParseToken lib (tmConfig m) now token of
        Inl e \<Rightarrow> Inl e
      | Inr claims \<Rightarrow>
          if tmRedis m = None then Inr claims
          else case IsTokenBlacklisted sha m now2 token store of
            Inl e \<Rightarrow> Inl (HErr (bear_of e) (''failed to check token blacklist: '' @ herr_text e))
          | Inr True \<Rightarrow> Inl (HErr (Some (NewError 401 ''token is revoked'' [])) ''Error 401 (key: token is revoked)'')
          | Inr False \<Rightarrow> Inr claims)"

text \<open>
  \<open>RevokeToken\<close> reads the clock when it parses the token (\<open>now\<close>), when it computes the lifetime of the
  key (\<open>now2\<close>), and Redis runs the command at \<open>now3\<close>.
\<close>

definition RevokeToken :: "jwt_lib \<Rightarrow> (string \<Rightarrow> string) \<Rightarrow> 'r token_manager \<Rightarrow> int \<Rightarrow> int \<Rightarrow> int \<Rightarrow> string \<Rightarrow> 'r \<Rightarrow> herror option \<times> 'r" where
  "RevokeToken lib sha m now now2 now3 token store =
     (case tmRedis m of
        None \<Rightarrow> (Some ErrTokenRevocationUnavailable, store)
      | Some rd \<Rightarrow>
          (case JWTUtil_ParseToken lib (tmConfig m) now token of
             Inl e \<Rightarrow> (Some e, store)
           | Inr claims \<Rightarrow>
               (case (clExpiresAt claims, tmConfig m) of
                  (Some expires, Some c) \<Rightarrow>
                    (let ttl = expires + jcClockSkew c - now2 in
                     if ttl \<le> 0 then (None, store)
                     else rdSet rd now3 (blacklistKey sha token) ttl store)
                | _ \<Rightarrow> (Some (HErr None ''token is missing required claim''), store))))"

section \<open>The authentication of a request\<close>

definition publicPathMatch :: "string \<Rightarrow> string \<Rightarrow> bool" where
  "publicPathMatch path pattern \<longleftrightarrow>
     pattern \<noteq> [] \<and>
     (pattern = path \<or>
      (HasSuffix pattern ''/*'' \<and>
       (path = TrimSuffix pattern ''/*'' \<or> HasPrefix path (TrimSuffix pattern ''/*'' @ ''/''))))"

record auth_config =
  acPublicPaths :: "string list"
  acStorageType :: string

definition isPublicAuthPathForConfig :: "string \<Rightarrow> auth_config option \<Rightarrow> bool" where
  "isPublicAuthPathForConfig path config =
     (case config of None \<Rightarrow> False | Some c \<Rightarrow> list_ex (publicPathMatch path) (acPublicPaths c))"

text \<open>
  What the fairing reads of a request and writes to it: the path, the header, the mark that the
  middleware leaves, the authentication part of the configuration of the runtime in the context (or,
  with no runtime there, that of the process), the clock at its two readings, and the store.
\<close>

datatype runtime_config = InContext "auth_config option" | OfProcess "auth_config option"

record ('w, 'r) auth_view =
  avPath :: "'w \<Rightarrow> string"
  avHeader :: "'w \<Rightarrow> string"
  avAutomatic :: "'w \<Rightarrow> nat option"
  avConfig :: "'w \<Rightarrow> runtime_config"
  avNow :: "'w \<Rightarrow> int"
  avNow2 :: "'w \<Rightarrow> int"
  avStore :: "'w \<Rightarrow> 'r"
  avSetUser :: "claims \<Rightarrow> string \<Rightarrow> 'w \<Rightarrow> 'w"
  avMark :: "nat \<Rightarrow> 'w \<Rightarrow> 'w"

record 'r auth_fairing =
  afId :: nat
  afJWTUtil :: "jwt_config option option"
  afTokenManager :: "'r token_manager option"

definition isPublicAuthPathForContext :: "('w, 'r) auth_view \<Rightarrow> 'w \<Rightarrow> bool" where
  "isPublicAuthPathForContext v w =
     (case avConfig v w of
        InContext c \<Rightarrow> isPublicAuthPathForConfig (avPath v w) c
      | OfProcess c \<Rightarrow> isPublicAuthPathForConfig (avPath v w) c)"

definition revocationRequiredForContext :: "('w, 'r) auth_view \<Rightarrow> 'w \<Rightarrow> bool" where
  "revocationRequiredForContext v w =
     (case avConfig v w of
        InContext (Some c) \<Rightarrow> ToLower (TrimSpace (acStorageType c)) = ''redis''
      | _ \<Rightarrow> False)"

definition revocationAvailable :: "'r token_manager option \<Rightarrow> bool" where
  "revocationAvailable m = (case m of None \<Rightarrow> False | Some tm \<Rightarrow> tmRedis tm \<noteq> None)"

definition unauthorized :: "string \<Rightarrow> verdict" where
  "unauthorized key = Refuses (HErr (Some (NewError 401 key [])) (''Error 401 (key: '' @ key @ '')''))"

definition auth_claims :: "jwt_lib \<Rightarrow> (string \<Rightarrow> string) \<Rightarrow> ('w, 'r) auth_view \<Rightarrow> 'r auth_fairing \<Rightarrow> string \<Rightarrow> 'w \<Rightarrow> herror + claims" where
  "auth_claims lib sha v f token w =
     (case afTokenManager f of
        Some m \<Rightarrow> ParseTokenContext lib sha m (avNow v w) (avNow2 v w) token (avStore v w)
      | None \<Rightarrow>
          (case afJWTUtil f of
             Some config \<Rightarrow> JWTUtil_ParseToken lib config (avNow v w) token
           | None \<Rightarrow> Inl (HErr None ''invalid or expired token'')))"

definition auth_OnRequest :: "jwt_lib \<Rightarrow> (string \<Rightarrow> string) \<Rightarrow> ('w, 'r) auth_view \<Rightarrow> 'r auth_fairing \<Rightarrow> 'w \<Rightarrow> 'w \<times> verdict" where
  "auth_OnRequest lib sha v f w =
     (if avAutomatic v w = Some (afId f) \<or> isPublicAuthPathForContext v w then (w, Proceeds)
      else if avHeader v w = [] then (w, unauthorized ''authorization header is required'')
      else case Cut (CHR '' '') (avHeader v w) of
        (scheme, token, found) \<Rightarrow>
          if \<not> (found \<and> scheme = ''Bearer'')
          then (w, unauthorized ''authorization header format must be Bearer {token}'')
          else if revocationRequiredForContext v w \<and> \<not> revocationAvailable (afTokenManager f)
          then (w, Refuses (HErr (Some (NewStatusError 503 503 ''token revocation is unavailable''))
                              ''token revocation is unavailable''))
          else case auth_claims lib sha v f token w of
            Inl e \<Rightarrow> (w, unauthorized ''invalid or expired token'')
          | Inr claims \<Rightarrow> (avSetUser v claims token w, Proceeds))"

text \<open>The middleware in front of all routes; \<open>current\<close> is the active fairing, if any.\<close>

definition authFairingMiddleware :: "jwt_lib \<Rightarrow> (string \<Rightarrow> string) \<Rightarrow> ('w, 'r) auth_view \<Rightarrow> ('w, 'v) app \<Rightarrow> 'r auth_fairing option \<Rightarrow> ('w, 'v) step \<Rightarrow> ('w, 'v) step" where
  "authFairingMiddleware lib sha v a current nxt ctx =
     (case current of
        None \<Rightarrow> nxt ctx
      | Some f \<Rightarrow>
          (case auth_OnRequest lib sha v f (gEnv ctx) of
             (w, Proceeds) \<Rightarrow> nxt (ctx\<lparr>gEnv := avMark v (afId f) w\<rparr>)
           | (w, Refuses e) \<Rightarrow> (WriteError a e (ctx\<lparr>gEnv := w\<rparr>), None)
           | (w, Crashes b) \<Rightarrow> (ctx\<lparr>gEnv := w\<rparr>, Some b)))"

end
