(* ===== verification/AuthenticationProps.thy ===== *)
theory AuthenticationProps
  imports Authentication
begin

text \<open>
  What revocation promises: after a successful \<open>RevokeToken\<close> the middleware turns the token away. The
  hypotheses are what the JWT library and Redis document.
\<close>

section \<open>What the library and Redis document\<close>

text \<open>A valid token is within its expiry and the leeway, and the expiry of a token never changes.\<close>

definition respects_expiry :: "jwt_lib \<Rightarrow> bool" where
  "respects_expiry lib \<longleftrightarrow>
     (\<forall>opts now token c. jlParse lib opts now token = Inr (c, True) \<longrightarrow>
        (\<exists>x. clExpiresAt c = Some x \<and> now < x + joLeeway opts))
   \<and> (\<forall>opts now now' token c c' b b'.
        jlParse lib opts now token = Inr (c, b) \<longrightarrow> jlParse lib opts now' token = Inr (c', b') \<longrightarrow>
        clExpiresAt c = clExpiresAt c')"

text \<open>
  A key that was set exists for its lifetime, which the client sends in whole milliseconds.
  \<open>later t r t' r'\<close> says that a store \<open>r\<close> at \<open>t\<close> can be \<open>r'\<close> at \<open>t'\<close>; \<open>EXISTS\<close> may fail.
\<close>

definition millisecond :: int where
  "millisecond = 1000000"

definition keeps_keys :: "'r redis \<Rightarrow> (int \<Rightarrow> 'r \<Rightarrow> int \<Rightarrow> 'r \<Rightarrow> bool) \<Rightarrow> bool" where
  "keeps_keys rd later \<longleftrightarrow>
     (\<forall>t key ttl r r' t' r''. rdSet rd t key ttl r = (None, r') \<longrightarrow> later t r' t' r'' \<longrightarrow> t \<le> t' \<longrightarrow>
        t' < t + (ttl div millisecond) * millisecond \<longrightarrow>
        (case rdExists rd t' key r'' of Inl e \<Rightarrow> True | Inr n \<Rightarrow> 0 < n))"

section \<open>Facts\<close>

lemma parse_valid:
  assumes "JWTUtil_ParseToken lib (Some c) now token = Inr cl"
  shows "jlParse lib (parser_options c) now token = Inr (cl, True)"
  using assms by (auto simp: JWTUtil_ParseToken_def split: if_splits option.splits sum.splits)

lemma parse_within:
  assumes "respects_expiry lib" "JWTUtil_ParseToken lib (Some c) now token = Inr cl"
    "clExpiresAt cl = Some x"
  shows "now < x + jcClockSkew c"
  using parse_valid [OF assms(2)] assms(1,3)
  by (fastforce simp: respects_expiry_def parser_options_def)

lemma parse_same_expiry:
  assumes "respects_expiry lib" "JWTUtil_ParseToken lib (Some c) now token = Inr cl"
    "JWTUtil_ParseToken lib (Some c) now' token = Inr cl'"
  shows "clExpiresAt cl' = clExpiresAt cl"
  using parse_valid [OF assms(2)] parse_valid [OF assms(3)] assms(1) unfolding respects_expiry_def by metis

lemma key_outlives_token:
  "t3 + ((ends - t2) div millisecond) * millisecond > ends - millisecond" if "t2 \<le> (t3 :: int)"
proof -
  have "(ends - t2) div millisecond * millisecond + (ends - t2) mod millisecond = ends - t2" by simp
  moreover have "(ends - t2) mod millisecond < millisecond" by (simp add: millisecond_def)
  ultimately show ?thesis using that by linarith
qed

lemma revoked_not_parsed:
  assumes lib: "respects_expiry lib" and red: "keeps_keys rd later"
    and m: "tmRedis m = Some rd" "tmConfig m = Some c"
    and parsed: "JWTUtil_ParseToken lib (Some c) t1 token = Inr cl" "clExpiresAt cl = Some x"
    and revoke: "RevokeToken lib sha m t1 t2 t3 token r = (None, r')"
    and clock: "t2 \<le> t3" "t3 \<le> s1" "s1 \<le> s2" "later t3 r' s2 r''"
    and time: "s2 \<le> x + jcClockSkew c - millisecond \<or> x + jcClockSkew c \<le> s1"
  shows "\<exists>e. ParseTokenContext lib sha m s1 s2 token r'' = Inl e"
proof (cases "JWTUtil_ParseToken lib (Some c) s1 token")
  case (Inl e)
  then show ?thesis by (simp add: ParseTokenContext_def m)
next
  case (Inr cl')
  have "clExpiresAt cl' = Some x" using parse_same_expiry [OF lib parsed(1) Inr] parsed(2) by simp
  then have valid: "s1 < x + jcClockSkew c" using parse_within [OF lib Inr] by simp
  then have live: "0 < x + jcClockSkew c - t2" and s2: "s2 \<le> x + jcClockSkew c - millisecond"
    using clock time by auto
  let ?ttl = "x + jcClockSkew c - t2"
  have set: "rdSet rd t3 (blacklistKey sha token) ?ttl r = (None, r')"
    using revoke live by (simp add: RevokeToken_def m parsed Let_def)
  have "s2 < t3 + (?ttl div millisecond) * millisecond"
    using key_outlives_token [OF clock(1), where ends = "x + jcClockSkew c"] s2 by linarith
  moreover have "t3 \<le> s2" using clock by linarith
  ultimately have "case rdExists rd s2 (blacklistKey sha token) r'' of Inl e \<Rightarrow> True | Inr n \<Rightarrow> 0 < n"
    using red set clock(4) unfolding keeps_keys_def by blast
  then show ?thesis
    by (auto simp: ParseTokenContext_def IsTokenBlacklisted_def m Inr split: sum.splits)
qed

lemma Cut_bearer: "Cut (CHR '' '') (''Bearer '' @ token) = (''Bearer'', token, True)"
  by (simp add: Cut_def)

section \<open>Properties\<close>

text \<open>
  C16: Once a token was revoked with success, a request that carries it does not get past the
  authentication middleware, unless its path is public: the chain ends there with an error 401 (or 503),
  at every time after the revocation except within the last millisecond of the token's life, which
  Redis rounds away.
\<close>

theorem revoked_token_is_turned_away:
  assumes lib: "respects_expiry lib" and red: "keeps_keys rd later"
    and m: "tmRedis m = Some rd" "tmConfig m = Some c" "afTokenManager f = Some m"
    and parsed: "JWTUtil_ParseToken lib (Some c) t1 token = Inr cl" "clExpiresAt cl = Some x"
    and revoke: "RevokeToken lib sha m t1 t2 t3 token r = (None, r')"
    and clock: "t2 \<le> t3" "t3 \<le> avNow v w" "avNow v w \<le> avNow2 v w" "later t3 r' (avNow2 v w) (avStore v w)"
    and time: "avNow2 v w \<le> x + jcClockSkew c - millisecond \<or> x + jcClockSkew c \<le> avNow v w"
    and request: "avHeader v w = ''Bearer '' @ token" "\<not> isPublicAuthPathForContext v w"
      "avAutomatic v w \<noteq> Some (afId f)" "gEnv ctx = w"
  shows "\<exists>e b. authFairingMiddleware lib sha v a (Some f) nxt ctx = (WriteError a e ctx, None)
     \<and> bear_of e = Some b \<and> beCode b \<in> {401, 503}"
proof -
  obtain e where "ParseTokenContext lib sha m (avNow v w) (avNow2 v w) token (avStore v w) = Inl e"
    using revoked_not_parsed [OF lib red m(1,2) parsed revoke clock time] by blast
  then have "auth_claims lib sha v f token w = Inl e" by (simp add: auth_claims_def m)
  then have "\<exists>b t. auth_OnRequest lib sha v f w = (w, Refuses (HErr (Some b) t)) \<and> beCode b \<in> {401, 503}"
    using request by (simp add: auth_OnRequest_def Cut_bearer [simplified] unauthorized_def NewError_def NewStatusError_def)
  moreover have "ctx\<lparr>gEnv := w\<rparr> = ctx" using request(4) by simp
  ultimately show ?thesis
    using request(4) by (auto simp: authFairingMiddleware_def)
qed

text \<open>A token that lives until nine seconds, revoked at two seconds and used at four.\<close>

definition demo_lib :: jwt_lib where
  "demo_lib = \<lparr>jlParse = (\<lambda>opts now token.
      if now < 9000000000 + joLeeway opts
      then Inr (\<lparr>clUserID = 7, clEmail = [], clExpiresAt = Some 9000000000, clIssuedAt = None,
                 clNotBefore = None, clIssuer = [], clAudience = []\<rparr>, True)
      else Inl (HErr None ''expired'')),
    jlSign = (\<lambda>secret c. Inr ''t'')\<rparr>"

definition demo_redis :: "(string \<times> int) list redis" where
  "demo_redis = \<lparr>rdSet = (\<lambda>t key ttl r. (None, (key, t + ttl) # r)),
    rdExists = (\<lambda>t key r. Inr (case map_of r key of None \<Rightarrow> 0 | Some e \<Rightarrow> if t < e then 1 else 0))\<rparr>"

definition demo_config :: jwt_config where
  "demo_config = \<lparr>jcSecret = ''s'', jcExpires = 1, jcIssuer = [], jcAudience = [], jcClockSkew = 1000000000\<rparr>"

definition demo_manager :: "(string \<times> int) list token_manager" where
  "demo_manager = \<lparr>tmRedis = Some demo_redis, tmConfig = Some demo_config\<rparr>"

definition demo_auth :: "(string \<times> int) list auth_fairing" where
  "demo_auth = \<lparr>afId = 1, afJWTUtil = None, afTokenManager = Some demo_manager\<rparr>"

definition demo_store :: "(string \<times> int) list" where
  "demo_store = snd (RevokeToken demo_lib (\<lambda>t. t) demo_manager 2000000000 2000000001 2000000002 ''t'' [])"

text \<open>The world of the demonstration is the user that is logged in, if any.\<close>

definition demo_auth_view :: "int \<Rightarrow> (nat option, (string \<times> int) list) auth_view" where
  "demo_auth_view now = \<lparr>avPath = (\<lambda>w. ''/tasks''), avHeader = (\<lambda>w. ''Bearer t''), avAutomatic = (\<lambda>w. None),
     avConfig = (\<lambda>w. InContext (Some \<lparr>acPublicPaths = [''/public/*''], acStorageType = ''Redis''\<rparr>)),
     avNow = (\<lambda>w. now), avNow2 = (\<lambda>w. now), avStore = (\<lambda>w. demo_store),
     avSetUser = (\<lambda>c t w. Some (clUserID c)), avMark = (\<lambda>i w. w)\<rparr>"

definition demo_http :: "(nat option, unit) app" where
  "demo_http = \<lparr>hEnvelope = False, hMarshal = (\<lambda>r. None), hLocalize = (\<lambda>w k args. None), hHead = (\<lambda>w. False),
     hRequestID = (\<lambda>w. None), hRegistry = default_errors, aStrict = True, aFairings = []\<rparr>"

lemma demo_laws: "respects_expiry demo_lib" "keeps_keys demo_redis (\<lambda>t r t' r'. r' = r)"
proof -
  show "respects_expiry demo_lib" by (auto simp: respects_expiry_def demo_lib_def)
  have le: "ttl div millisecond * millisecond \<le> ttl" for ttl
    by (simp add: millisecond_def)
  show "keeps_keys demo_redis (\<lambda>t r t' r'. r' = r)"
    unfolding keeps_keys_def
  proof (intro allI impI)
    fix t key ttl r r' t' r''
    assume a: "rdSet demo_redis t key ttl r = (None, r')" "r'' = r'"
      "t' < t + ttl div millisecond * millisecond"
    have "t' < t + ttl" using a(3) le [of ttl] by linarith
    then show "case rdExists demo_redis t' key r'' of Inl e \<Rightarrow> True | Inr n \<Rightarrow> 0 < n"
      using a(1,2) by (auto simp: demo_redis_def)
  qed
qed

lemma demo_revoked:
  "RevokeToken demo_lib (\<lambda>t. t) demo_manager 2000000000 2000000001 2000000002 ''t'' [] = (None, demo_store)"
  by code_simp

theorem revoked_token_is_turned_away_witness:
  "(\<exists>e b. authFairingMiddleware demo_lib (\<lambda>t. t) (demo_auth_view 4000000000) demo_http (Some demo_auth)
        (\<lambda>c. (c, None)) (new_rctx None) = (WriteError demo_http e (new_rctx None), None)
      \<and> bear_of e = Some b \<and> beCode b \<in> {401, 503})"
  by (rule revoked_token_is_turned_away [OF demo_laws, where m = demo_manager and c = demo_config
        and cl = "\<lparr>clUserID = 7, clEmail = [], clExpiresAt = Some 9000000000, clIssuedAt = None,
                 clNotBefore = None, clIssuer = [], clAudience = []\<rparr>" and w = None and x = 9000000000,
        OF _ _ _ _ _ demo_revoked])
    (simp_all add: demo_manager_def demo_auth_def demo_auth_view_def demo_config_def millisecond_def
      isPublicAuthPathForContext_def isPublicAuthPathForConfig_def publicPathMatch_def new_rctx_def
      JWTUtil_ParseToken_def validateTokenExpirationHours_def demo_lib_def parser_options_def maxJWTTokenBytes_def
      HasSuffix_def HasPrefix_def TrimSuffix_def)

end
