(* ===== verification/Redaction.thy ===== *)
theory Redaction
  imports GoStrings "HOL-Library.AList" "HOL-Library.List_Lexorder" "HOL-Library.Char_ord"
begin

text \<open>
  What may leave the process in logs (\<open>pkg/bear/security_redaction.go\<close>): attributes and the values under
  them are rewritten so that values under sensitive keys, the parts of a URL that carry secrets and the
  texts of errors do not appear, and so that nothing is deep or wide. Values are those Go's reflection
  sees; pointers, maps and slices are addresses into the heap of the environment, which may be cyclic.
  The five patterns that rewrite strings are the parameter \<open>rvPatterns\<close>. A Go map is the list of its
  entries in the order of one iteration. Sorting by names that are equal keeps that order.
\<close>

section \<open>Limits and keys\<close>

definition redactedObservableValue :: string where
  "redactedObservableValue = ''[REDACTED]''"

definition truncatedObservableValue :: string where
  "truncatedObservableValue = ''[TRUNCATED]''"

definition cyclicObservableValue :: string where
  "cyclicObservableValue = ''[CYCLE]''"

definition maxObservableDepth :: nat where
  "maxObservableDepth = 6"

definition maxObservableCollection :: nat where
  "maxObservableCollection = 16"

definition maxObservableStringBytes :: nat where
  "maxObservableStringBytes = 4096"

definition maxObservableErrorDepth :: nat where
  "maxObservableErrorDepth = 32"

definition maxObservableErrorNodes :: nat where
  "maxObservableErrorNodes = 64"

definition sensitive_markers :: "string list" where
  "sensitive_markers =
    [''token'', ''password'', ''passwd'', ''secret'', ''authorization'', ''cookie'', ''credential'', ''apikey'',
     ''accesskey'', ''dsn'', ''query'', ''rawquery'', ''userinfo'', ''connectionstring'', ''stacktrace'']"

definition without :: "string \<Rightarrow> string \<Rightarrow> string" where
  "without cs s = filter (\<lambda>c. c \<notin> set cs) s"

definition isSensitiveObservableKey :: "string \<Rightarrow> bool" where
  "isSensitiveObservableKey key =
     (let normalized = ToLower (without ''-_.'' key) in
      list_ex (\<lambda>m. normalized = m \<or> HasPrefix normalized m \<or> HasSuffix normalized m) sensitive_markers)"

definition isSensitiveObservableMapKey :: "string \<Rightarrow> bool" where
  "isSensitiveObservableMapKey key \<longleftrightarrow>
     isSensitiveObservableKey key \<or>
     list_ex (Contains (ToLower (without ''-_. '' key))) sensitive_markers"

definition isErrorObservableKey :: "string \<Rightarrow> bool" where
  "isErrorObservableKey key \<longleftrightarrow>
     ToLower (TrimSpace key) \<in> set [''error'', ''err'', ''cause'', ''panic'', ''recovered'']"

section \<open>Strings\<close>

text \<open>\<open>utf8.ValidString\<close>: the encodings of RFC 3629.\<close>

definition byte_in :: "nat \<Rightarrow> nat \<Rightarrow> char \<Rightarrow> bool" where
  "byte_in a b c \<longleftrightarrow> a \<le> of_char c \<and> of_char c \<le> b"

fun ValidString :: "string \<Rightarrow> bool" where
  "ValidString [] = True"
| "ValidString (c # s) =
     (if byte_in 0 127 c then ValidString s
      else case s of
        [] \<Rightarrow> False
      | d # s2 \<Rightarrow>
          if byte_in 194 223 c then byte_in 128 191 d \<and> ValidString s2
          else (case s2 of
            [] \<Rightarrow> False
          | e # s3 \<Rightarrow>
              if byte_in 224 239 c
              then byte_in (if byte_in 224 224 c then 160 else 128) (if byte_in 237 237 c then 159 else 191) d
                \<and> byte_in 128 191 e \<and> ValidString s3
              else (case s3 of
                [] \<Rightarrow> False
              | f # s4 \<Rightarrow>
                  byte_in 240 244 c
                  \<and> byte_in (if byte_in 240 240 c then 144 else 128) (if byte_in 244 244 c then 143 else 191) d
                  \<and> byte_in 128 191 e \<and> byte_in 128 191 f \<and> ValidString s4)))"

fun valid_end :: "string \<Rightarrow> nat \<Rightarrow> nat" where
  "valid_end s 0 = 0"
| "valid_end s (Suc n) = (if ValidString (take (Suc n) s) then Suc n else valid_end s n)"

definition truncateObservableString :: "string \<Rightarrow> string" where
  "truncateObservableString s =
     (if length s \<le> maxObservableStringBytes then s
      else take (valid_end s maxObservableStringBytes) s @ truncatedObservableValue)"

section \<open>Values\<close>

record url =
  uScheme :: string
  uUser :: string
  uHost :: string
  uPath :: string
  uRawPath :: string
  uRawQuery :: string
  uFragment :: string

record field =
  fdName :: string
  fdExported :: bool
  fdSlogTag :: string
  fdJsonTag :: string

text \<open>
  A value of type \<open>any\<close> is one the code recognises by its type, a map or list the code itself has built
  (\<open>ALit\<close>, \<open>AItems\<close>), or one it looks at by reflection. A field, entry or element that reflection must not
  hand out is \<open>None\<close>. A pointer, map or slice has its type and address, or is nil.
\<close>

datatype any =
    ANil
  | AError nat
  | ASlog sval
  | AURL url
  | AURLPtr "url option"
  | AHeader "(string \<times> string list) list"
  | AHeaderPtr "(string \<times> string list) list option"
  | AStr string
  | ABytes string
  | ATime nat
  | AOther nat
  | ALit "(string \<times> any) list"
  | AItems "any list"
  | ARefl rval
and sval = SStr string | SGroup "attr list" | SAny any | SOther nat | SValuer sval
and attr = Attr (attr_key: string) (attr_value: sval)
and rval =
    RInvalid
  | RIface "rval option"
  | RPtr nat "nat option"
  | RMap nat "nat option"
  | RStruct "(field \<times> any option) list"
  | RSlice nat "(nat \<times> nat) option"
  | RArray "any option list"
  | RString string
  | RBool bool
  | RInt int
  | RUint nat
  | RFloat string
  | ROther

text \<open>An error: what \<open>walkObservableErrors\<close> may ask it without calling its methods beyond \<open>Unwrap\<close>.\<close>

datatype known_error =
    NotKnown | BearErr int int | CtxCanceled | CtxDeadline | TokenExpired | TokenMissingClaim | TokenBad

datatype unwrapping = UnwrapMany "nat option list" | UnwrapOne "nat option" | NoUnwrap | UnwrapPanics

record enode =
  enKnown :: known_error
  enIdentity :: "(nat \<times> nat) option"
  enUnwrap :: unwrapping

record renv =
  rvPatterns :: "string \<Rightarrow> string"
  rvURL :: "url \<Rightarrow> string"
  rvType :: "rval \<Rightarrow> string"
  rvElem :: "nat \<Rightarrow> rval"
  rvMap :: "nat \<Rightarrow> (rval \<times> any option) list"
  rvSlice :: "nat \<Rightarrow> nat \<Rightarrow> any option list"
  rvError :: "nat \<Rightarrow> enode"

definition sanitizeObservableString :: "renv \<Rightarrow> string \<Rightarrow> string" where
  "sanitizeObservableString E s = rvPatterns E (truncateObservableString s)"

definition safeURLString :: "renv \<Rightarrow> url \<Rightarrow> string" where
  "safeURLString E u =
     rvURL E \<lparr>uScheme = uScheme u, uUser = [], uHost = uHost u, uPath = uPath u, uRawPath = uRawPath u,
              uRawQuery = [], uFragment = []\<rparr>"

section \<open>Errors\<close>

definition observableErrorChildren :: "enode \<Rightarrow> nat option list" where
  "observableErrorChildren n =
     (case enUnwrap n of
        UnwrapMany cs \<Rightarrow> take maxObservableCollection cs
      | UnwrapOne None \<Rightarrow> []
      | UnwrapOne (Some c) \<Rightarrow> [Some c]
      | NoUnwrap \<Rightarrow> []
      | UnwrapPanics \<Rightarrow> [])"

text \<open>Children are queued while the queue is below the bound on nodes.\<close>

fun enqueue :: "nat \<Rightarrow> nat option list \<Rightarrow> (nat \<times> nat) list \<Rightarrow> (nat \<times> nat) list" where
  "enqueue d [] queue = queue"
| "enqueue d (None # cs) queue = enqueue d cs queue"
| "enqueue d (Some c # cs) queue =
     enqueue d cs (if length queue < maxObservableErrorNodes then queue @ [(c, d)] else queue)"

text \<open>
  The breadth-first walk with a bound on the visited nodes (\<open>budget\<close> is what is left of it); \<open>stop\<close> tells
  for a node that its children are not of interest. It returns the visited nodes.
\<close>

function walkObservableErrors :: "(nat \<Rightarrow> enode) \<Rightarrow> (nat \<Rightarrow> bool) \<Rightarrow> nat \<Rightarrow> (nat \<times> nat) list \<Rightarrow> (nat \<times> nat) list \<Rightarrow> nat list" where
  "walkObservableErrors g stop budget [] seen = []"
| "walkObservableErrors g stop 0 (q # queue) seen = []"
| "walkObservableErrors g stop (Suc budget) ((n, d) # queue) seen =
     (let i = enIdentity (g n) in
      if (case i of None \<Rightarrow> False | Some x \<Rightarrow> x \<in> set seen)
      then walkObservableErrors g stop (Suc budget) queue seen
      else let seen = (case i of None \<Rightarrow> seen | Some x \<Rightarrow> x # seen) in
        n # walkObservableErrors g stop budget
              (if stop n \<or> maxObservableErrorDepth \<le> d then queue
               else enqueue (d + 1) (observableErrorChildren (g n)) queue) seen)"
  by pat_completeness auto

termination
  by (relation "measures [\<lambda>(g, stop, budget, queue, seen). budget, \<lambda>(g, stop, budget, queue, seen). length queue]") auto

definition is_bear :: "enode \<Rightarrow> bool" where
  "is_bear n = (case enKnown n of BearErr _ _ \<Rightarrow> True | _ \<Rightarrow> False)"

definition observableErrorMetadata :: "(nat \<Rightarrow> enode) \<Rightarrow> nat \<Rightarrow> int \<Rightarrow> string \<times> int" where
  "observableErrorMetadata g root fallbackStatus =
     (let known = map (\<lambda>n. enKnown (g n))
        (walkObservableErrors g (\<lambda>n. is_bear (g n)) maxObservableErrorNodes [(root, 0)] []);
          bears = filter (\<lambda>k. case k of BearErr _ _ \<Rightarrow> True | _ \<Rightarrow> False) known in
      if bears \<noteq> [] then
        (''bear_error'',
         case last bears of
           BearErr code status \<Rightarrow>
             if code \<noteq> 0 then code else if fallbackStatus = 0 \<and> status \<noteq> 0 then status else fallbackStatus
         | _ \<Rightarrow> fallbackStatus)
      else
        (if CtxCanceled \<in> set known then ''context_canceled''
         else if CtxDeadline \<in> set known then ''deadline_exceeded''
         else if TokenExpired \<in> set known then ''token_expired''
         else if TokenMissingClaim \<in> set known then ''token_missing_claim''
         else if TokenBad \<in> set known then ''token_invalid''
         else if 400 \<le> fallbackStatus \<and> fallbackStatus < 500 then ''request_error''
         else ''internal_error'', fallbackStatus))"

definition SanitizeForObservability :: "renv \<Rightarrow> any \<Rightarrow> string" where
  "SanitizeForObservability E v =
     (case v of
        ANil \<Rightarrow> ''none''
      | AError n \<Rightarrow> fst (observableErrorMetadata (rvError E) n 0)
      | _ \<Rightarrow> redactedObservableValue)"

section \<open>Keys of attributes, maps and structs\<close>

definition sanitizeLogKey :: "renv \<Rightarrow> string \<Rightarrow> string" where
  "sanitizeLogKey E key =
     (if sanitizeObservableString E key \<noteq> key then ''_redacted''
      else if Contains (ToLower key) ''authorization'' \<and> Contains (ToLower key) ''bearer'' then ''_redacted''
      else if isSensitiveObservableKey key \<and> list_ex (\<lambda>c. c \<in> set [CHR ''='', CHR '':'', CHR '' '', CHR 0x09, CHR 0x0D, CHR 0x0A]) key
      then ''_redacted''
      else key)"

definition signed_text :: "int \<Rightarrow> string" where
  "signed_text i = (if i < 0 then CHR ''-'' # Itoa (nat (- i)) else Itoa (nat i))"

definition observableMapKeyPlaceholder :: "renv \<Rightarrow> rval \<Rightarrow> nat \<Rightarrow> string" where
  "observableMapKeyPlaceholder E k index =
     ''[KEY '' @ (if k = RInvalid then ''invalid'' else rvType E k) @ '' #'' @ Itoa index @ '']''"

definition key_name :: "renv \<Rightarrow> rval \<Rightarrow> nat \<Rightarrow> string \<times> bool" where
  "key_name E k index =
     (let name = truncateObservableString
        (case k of
           RString s \<Rightarrow> s
         | RBool b \<Rightarrow> if b then ''true'' else ''false''
         | RInt i \<Rightarrow> signed_text i
         | RUint n \<Rightarrow> Itoa n
         | RFloat s \<Rightarrow> s
         | _ \<Rightarrow> observableMapKeyPlaceholder E k index) in
      if isSensitiveObservableMapKey name then (redactedObservableValue, True)
      else (sanitizeObservableString E name, False))"

fun sanitizeObservableMapKey :: "renv \<Rightarrow> rval \<Rightarrow> nat \<Rightarrow> string \<times> bool" where
  "sanitizeObservableMapKey E (RIface None) index = (observableMapKeyPlaceholder E (RIface None) index, False)"
| "sanitizeObservableMapKey E (RIface (Some k)) index = sanitizeObservableMapKey E k index"
| "sanitizeObservableMapKey E RInvalid index = (''[KEY invalid #'' @ Itoa index @ '']'', False)"
| "sanitizeObservableMapKey E k index = key_name E k index"

definition observableFieldName :: "field \<Rightarrow> string option" where
  "observableFieldName fd =
     (if fdSlogTag fd = ''-'' then None
      else if fdSlogTag fd \<noteq> [] then Some (fdSlogTag fd)
      else if fdJsonTag fd = ''-'' then None
      else if fdJsonTag fd \<noteq> [] then Some (fdJsonTag fd)
      else Some (fdName fd))"

section \<open>One level of the recursion\<close>

text \<open>
  The functions at one depth call those of the next depth, which are the record \<open>L\<close>. \<open>seen\<close> are the
  addresses entered on the way down; \<open>enter\<close> and the deferred \<open>leave\<close> pair up, so a call leaves the set
  as it was.
\<close>

type_synonym visits = "(nat \<times> nat) set"

record level =
  lvStructured :: "string \<Rightarrow> any \<Rightarrow> visits \<Rightarrow> any"
  lvReflected :: "string \<Rightarrow> rval \<Rightarrow> visits \<Rightarrow> any"
  lvAttr :: "attr \<Rightarrow> visits \<Rightarrow> attr"
  lvSlogAny :: "sval \<Rightarrow> visits \<Rightarrow> any"

text \<open>A Go map built by assignments: the last one to a key counts.\<close>

definition build_map :: "(string \<times> any) list \<Rightarrow> any" where
  "build_map es = ALit (fold (\<lambda>(k, v). AList.update k v) es [])"

definition truncation_entry :: "bool \<Rightarrow> (string \<times> any) list" where
  "truncation_entry b = (if b then [(''_truncated'', AStr truncatedObservableValue)] else [])"

definition item :: "level \<Rightarrow> string \<Rightarrow> visits \<Rightarrow> any option \<Rightarrow> any" where
  "item L key seen v = (case v of None \<Rightarrow> AStr ''[UNSUPPORTED]'' | Some x \<Rightarrow> lvStructured L key x seen)"

definition name_entries :: "renv \<Rightarrow> (rval \<times> any option) list \<Rightarrow> ((string \<times> bool) \<times> any option) list" where
  "name_entries E es = map (\<lambda>(i, k, v). (sanitizeObservableMapKey E k i, v)) (enumerate 0 es)"

definition sanitizeReflectedMap :: "renv \<Rightarrow> level \<Rightarrow> (rval \<times> any option) list \<Rightarrow> visits \<Rightarrow> any" where
  "sanitizeReflectedMap E L es seen =
     (let entries = sort_key (\<lambda>e. fst (fst e)) (name_entries E (take (maxObservableCollection + 1) es)) in
      build_map
        (map (\<lambda>((name, sensitive), v).
            (name, if sensitive then AStr redactedObservableValue else
               (case v of None \<Rightarrow> lvStructured L name (AStr ''[UNSUPPORTED]'') seen
                        | Some x \<Rightarrow> lvStructured L name x seen)))
          (take maxObservableCollection entries)
         @ truncation_entry (maxObservableCollection < length es)))"

definition sanitizeHTTPHeader :: "level \<Rightarrow> (string \<times> string list) list \<Rightarrow> visits \<Rightarrow> any" where
  "sanitizeHTTPHeader L header seen =
     (let entries = sort_key fst (take (maxObservableCollection + 1) header) in
      build_map
        (map (\<lambda>(key, vs). (key, lvStructured L key (AItems (map AStr vs)) seen)) (take maxObservableCollection entries)
         @ truncation_entry (maxObservableCollection < length header)))"

definition visible_fields :: "(field \<times> any option) list \<Rightarrow> (string \<times> any option) list" where
  "visible_fields fs =
     concat (map (\<lambda>(fd, v). if fdExported fd then (case observableFieldName fd of None \<Rightarrow> [] | Some n \<Rightarrow> [(n, v)]) else []) fs)"

definition sanitizeReflectedStruct :: "level \<Rightarrow> (field \<times> any option) list \<Rightarrow> visits \<Rightarrow> any" where
  "sanitizeReflectedStruct L fs seen =
     build_map
       (map (\<lambda>(name, v). (name, item L name seen v)) (take maxObservableCollection (visible_fields fs))
        @ truncation_entry (maxObservableCollection < length (visible_fields fs)))"

definition sanitizeReflectedCollection :: "level \<Rightarrow> any option list \<Rightarrow> visits \<Rightarrow> any" where
  "sanitizeReflectedCollection L xs seen =
     AItems (map (item L [] seen) (take maxObservableCollection xs)
       @ (if maxObservableCollection < length xs then [AStr truncatedObservableValue] else []))"

fun strip_iface :: "rval \<Rightarrow> rval option" where
  "strip_iface (RIface None) = None"
| "strip_iface (RIface (Some r)) = strip_iface r"
| "strip_iface r = Some r"

definition sanitizeReflectedValue :: "renv \<Rightarrow> level \<Rightarrow> string \<Rightarrow> rval \<Rightarrow> visits \<Rightarrow> any" where
  "sanitizeReflectedValue E L key r seen =
     (case strip_iface r of
        None \<Rightarrow> ANil
      | Some r \<Rightarrow>
          (case r of
             RInvalid \<Rightarrow> ANil
           | RPtr t None \<Rightarrow> ANil
           | RPtr t (Some p) \<Rightarrow>
               if (t, p) \<in> seen then AStr cyclicObservableValue
               else lvReflected L key (rvElem E p) (insert (t, p) seen)
           | RMap t None \<Rightarrow> ANil
           | RMap t (Some p) \<Rightarrow>
               if (t, p) \<in> seen then AStr cyclicObservableValue
               else sanitizeReflectedMap E L (rvMap E p) (insert (t, p) seen)
           | RStruct fs \<Rightarrow> sanitizeReflectedStruct L fs seen
           | RSlice t None \<Rightarrow> ANil
           | RSlice t (Some (p, n)) \<Rightarrow>
               if (t, p) \<in> seen then AStr cyclicObservableValue
               else sanitizeReflectedCollection L (rvSlice E p n) (insert (t, p) seen)
           | RArray xs \<Rightarrow> sanitizeReflectedCollection L xs seen
           | RString s \<Rightarrow> AStr (sanitizeObservableString E s)
           | ROther \<Rightarrow> AStr ''[UNSUPPORTED]''
           | r \<Rightarrow> ARefl r))"

fun resolve_value :: "sval \<Rightarrow> sval" where
  "resolve_value (SValuer v) = resolve_value v"
| "resolve_value v = v"

text \<open>\<open>Value.Any\<close>; a group gives a list of attributes, of which nothing here looks at the elements.\<close>

definition any_of :: "sval \<Rightarrow> any" where
  "any_of v = (case v of SStr s \<Rightarrow> AStr s | SAny a \<Rightarrow> a | SOther n \<Rightarrow> AOther n | SGroup as \<Rightarrow> AItems [] | SValuer w \<Rightarrow> AOther 0)"

definition any_value :: "any \<Rightarrow> sval" where
  "any_value a = (case a of AStr s \<Rightarrow> SStr s | AOther n \<Rightarrow> SOther n | _ \<Rightarrow> SAny a)"

definition sanitizeLogAttrsAt :: "(attr \<Rightarrow> visits \<Rightarrow> attr) \<Rightarrow> attr list \<Rightarrow> visits \<Rightarrow> attr list" where
  "sanitizeLogAttrsAt san attrs seen =
     map (\<lambda>a. san a seen) (take maxObservableCollection attrs)
     @ (if maxObservableCollection < length attrs then [Attr ''_truncated'' (SStr truncatedObservableValue)] else [])"

definition sanitizedSlogValueAny :: "level \<Rightarrow> sval \<Rightarrow> visits \<Rightarrow> any" where
  "sanitizedSlogValueAny L v seen =
     (case resolve_value v of
        SGroup attrs \<Rightarrow>
          build_map (map (\<lambda>a. (attr_key a, lvSlogAny L (attr_value a) seen)) (sanitizeLogAttrsAt (lvAttr L) attrs seen))
      | w \<Rightarrow> any_of w)"

definition sanitizeNestedSlogValue :: "renv \<Rightarrow> level \<Rightarrow> sval \<Rightarrow> visits \<Rightarrow> any" where
  "sanitizeNestedSlogValue E L v seen =
     (case resolve_value v of
        SStr s \<Rightarrow> AStr (sanitizeObservableString E s)
      | SGroup attrs \<Rightarrow>
          build_map (map (\<lambda>a. (attr_key a, lvSlogAny L (attr_value a) seen)) (sanitizeLogAttrsAt (lvAttr L) attrs seen))
      | SAny a \<Rightarrow> lvStructured L [] a seen
      | w \<Rightarrow> any_of w)"

definition sanitizeStructuredValue :: "renv \<Rightarrow> level \<Rightarrow> string \<Rightarrow> any \<Rightarrow> visits \<Rightarrow> any" where
  "sanitizeStructuredValue E L key v seen =
     (if isSensitiveObservableKey key then AStr redactedObservableValue
      else case v of
        ANil \<Rightarrow> ANil
      | AError n \<Rightarrow> AStr (SanitizeForObservability E v)
      | ASlog s \<Rightarrow> sanitizeNestedSlogValue E L s seen
      | AURL u \<Rightarrow> AStr (safeURLString E u)
      | AURLPtr None \<Rightarrow> ANil
      | AURLPtr (Some u) \<Rightarrow> AStr (safeURLString E u)
      | AHeader h \<Rightarrow> sanitizeHTTPHeader L h seen
      | AHeaderPtr None \<Rightarrow> ANil
      | AHeaderPtr (Some h) \<Rightarrow> sanitizeHTTPHeader L h seen
      | AStr s \<Rightarrow> AStr (sanitizeObservableString E s)
      | ABytes s \<Rightarrow> AStr (sanitizeObservableString E s)
      | ATime t \<Rightarrow> ATime t
      | AOther n \<Rightarrow> AOther n
      | ALit es \<Rightarrow> sanitizeReflectedMap E L (map (\<lambda>(k, x). (RString k, Some x)) es) seen
      | AItems xs \<Rightarrow> sanitizeReflectedCollection L (map Some xs) seen
      | ARefl r \<Rightarrow> sanitizeReflectedValue E L key r seen)"

definition sanitizeLogAttrAt :: "renv \<Rightarrow> level \<Rightarrow> attr \<Rightarrow> visits \<Rightarrow> attr" where
  "sanitizeLogAttrAt E L a seen =
     (let key = sanitizeLogKey E (attr_key a); v = resolve_value (attr_value a) in
      if isSensitiveObservableKey (attr_key a) then Attr key (SStr redactedObservableValue)
      else if isErrorObservableKey key then Attr key (SStr (SanitizeForObservability E (any_of v)))
      else Attr key
        (case v of
           SStr s \<Rightarrow> SStr (sanitizeObservableString E s)
         | SGroup attrs \<Rightarrow> SGroup (sanitizeLogAttrsAt (lvAttr L) attrs seen)
         | SAny x \<Rightarrow> any_value (lvStructured L key x seen)
         | w \<Rightarrow> w))"

section \<open>All levels\<close>

text \<open>Below the deepest level everything is cut off.\<close>

definition cut_attr :: "renv \<Rightarrow> attr \<Rightarrow> visits \<Rightarrow> attr" where
  "cut_attr E a seen =
     Attr (sanitizeLogKey E (attr_key a))
       (SStr (if isSensitiveObservableKey (attr_key a) then redactedObservableValue else truncatedObservableValue))"

definition cut_level :: "renv \<Rightarrow> level" where
  "cut_level E =
     \<lparr>lvStructured = (\<lambda>key v seen. AStr (if isSensitiveObservableKey key then redactedObservableValue
                                            else truncatedObservableValue)),
      lvReflected = (\<lambda>key r seen. if r = RInvalid then ANil else AStr truncatedObservableValue),
      lvAttr = cut_attr E,
      lvSlogAny = (\<lambda>v seen. case resolve_value v of
          SGroup attrs \<Rightarrow>
            build_map (map (\<lambda>a. (attr_key a, any_of (attr_value a))) (sanitizeLogAttrsAt (cut_attr E) attrs seen))
        | w \<Rightarrow> any_of w)\<rparr>"

definition level_above :: "renv \<Rightarrow> level \<Rightarrow> level" where
  "level_above E L =
     \<lparr>lvStructured = sanitizeStructuredValue E L, lvReflected = sanitizeReflectedValue E L,
      lvAttr = sanitizeLogAttrAt E L, lvSlogAny = sanitizedSlogValueAny L\<rparr>"

text \<open>\<open>levels E n\<close> are the functions \<open>n\<close> levels above the cut; depth \<open>0\<close> is \<open>maxObservableDepth + 1\<close> above it.\<close>

primrec levels :: "renv \<Rightarrow> nat \<Rightarrow> level" where
  "levels E 0 = cut_level E"
| "levels E (Suc n) = level_above E (levels E n)"

definition sanitizeLogAttr :: "renv \<Rightarrow> attr \<Rightarrow> attr" where
  "sanitizeLogAttr E a = lvAttr (levels E (maxObservableDepth + 1)) a {}"

definition sanitizeLogAttrs :: "renv \<Rightarrow> attr list \<Rightarrow> attr list" where
  "sanitizeLogAttrs E attrs = sanitizeLogAttrsAt (lvAttr (levels E (maxObservableDepth + 1))) attrs {}"

definition sanitizeLogRecord :: "renv \<Rightarrow> string \<times> attr list \<Rightarrow> string \<times> attr list" where
  "sanitizeLogRecord E rec = (case rec of (message, attrs) \<Rightarrow> (sanitizeObservableString E message, map (sanitizeLogAttr E) attrs))"

end
