(* ===== verification/RedactionProps.thy ===== *)
theory RedactionProps
  imports Redaction
begin

text \<open>
  What redaction promises: the output does not depend on the secrets (\<open>alike\<close> relates inputs that
  differ in nothing else), and it is neither deep nor wide.
\<close>

section \<open>Inputs that differ in secrets only\<close>

text \<open>
  Two environments with the same functions, and two values in them. They may differ below sensitive
  keys, in the user, the query and the fragment of a URL, in the text and structure of errors of one
  category, and under keys of errors in every value that is neither nil nor an error.
\<close>

definition sensitive_map_key :: "renv \<Rightarrow> rval \<Rightarrow> bool" where
  "sensitive_map_key E k \<longleftrightarrow> (\<forall>i. snd (sanitizeObservableMapKey E k i))"

definition hidden_field :: "field \<Rightarrow> bool" where
  "hidden_field fd \<longleftrightarrow> \<not> fdExported fd \<or> observableFieldName fd = None"

definition sensitive_field :: "field \<Rightarrow> bool" where
  "sensitive_field fd \<longleftrightarrow> (case observableFieldName fd of None \<Rightarrow> False | Some n \<Rightarrow> isSensitiveObservableKey n)"

definition alike_fields :: "(any \<Rightarrow> any \<Rightarrow> bool) \<Rightarrow> field \<times> any option \<Rightarrow> field \<times> any option \<Rightarrow> bool" where
  "alike_fields R x y \<longleftrightarrow> fst x = fst y \<and>
     (hidden_field (fst x) \<or> rel_option (\<lambda>a b. sensitive_field (fst x) \<or> R a b) (snd x) (snd y))"

lemma alike_fields_mono [mono]: "R \<le> S \<Longrightarrow> alike_fields R x y \<longrightarrow> alike_fields S x y"
  unfolding alike_fields_def by (cases "snd x"; cases "snd y") (auto simp: le_fun_def)

definition alike_url :: "url \<Rightarrow> url \<Rightarrow> bool" where
  "alike_url u v \<longleftrightarrow> uScheme u = uScheme v \<and> uHost u = uHost v \<and> uPath u = uPath v \<and> uRawPath u = uRawPath v"

definition alike_header :: "(string \<times> string list) list \<Rightarrow> (string \<times> string list) list \<Rightarrow> bool" where
  "alike_header h k \<longleftrightarrow> list_all2 (\<lambda>x y. fst x = fst y \<and> (isSensitiveObservableKey (fst x) \<or> snd x = snd y)) h k"

inductive alike :: "renv \<Rightarrow> renv \<Rightarrow> any \<Rightarrow> any \<Rightarrow> bool"
  and alike_slog :: "renv \<Rightarrow> renv \<Rightarrow> sval \<Rightarrow> sval \<Rightarrow> bool"
  and alike_attr :: "renv \<Rightarrow> renv \<Rightarrow> attr \<Rightarrow> attr \<Rightarrow> bool"
  and alike_r :: "renv \<Rightarrow> renv \<Rightarrow> rval \<Rightarrow> rval \<Rightarrow> bool"
  for E F
where
  nil: "alike E F ANil ANil"
| err: "SanitizeForObservability E (AError m) = SanitizeForObservability F (AError n) \<Longrightarrow> alike E F (AError m) (AError n)"
| slog: "alike_slog E F v w \<Longrightarrow> alike E F (ASlog v) (ASlog w)"
| url: "alike_url u v \<Longrightarrow> alike E F (AURL u) (AURL v)"
| url_nil: "alike E F (AURLPtr None) (AURLPtr None)"
| url_ptr: "alike_url u v \<Longrightarrow> alike E F (AURLPtr (Some u)) (AURLPtr (Some v))"
| header: "alike_header h k \<Longrightarrow> alike E F (AHeader h) (AHeader k)"
| header_nil: "alike E F (AHeaderPtr None) (AHeaderPtr None)"
| header_ptr: "alike_header h k \<Longrightarrow> alike E F (AHeaderPtr (Some h)) (AHeaderPtr (Some k))"
| str: "alike E F (AStr s) (AStr s)"
| bytes: "alike E F (ABytes s) (ABytes s)"
| time: "alike E F (ATime t) (ATime t)"
| other: "alike E F (AOther n) (AOther n)"
| lit: "list_all2 (\<lambda>x y. fst x = fst y \<and> (sensitive_map_key E (RString (fst x)) \<or> alike E F (snd x) (snd y))) es ds \<Longrightarrow>
    alike E F (ALit es) (ALit ds)"
| items: "list_all2 (alike E F) xs ys \<Longrightarrow> alike E F (AItems xs) (AItems ys)"
| refl: "alike_r E F r q \<Longrightarrow> alike E F (ARefl r) (ARefl q)"
| s_str: "alike_slog E F (SStr s) (SStr s)"
| s_group: "list_all2 (alike_attr E F) as bs \<Longrightarrow> alike_slog E F (SGroup as) (SGroup bs)"
| s_any: "alike E F x y \<Longrightarrow> alike_slog E F (SAny x) (SAny y)"
| s_other: "alike_slog E F (SOther n) (SOther n)"
| s_valuer: "alike_slog E F v w \<Longrightarrow> alike_slog E F (SValuer v) (SValuer w)"
| a_secret: "isSensitiveObservableKey k \<Longrightarrow> alike_attr E F (Attr k v) (Attr k w)"
| a_error: "isErrorObservableKey (sanitizeLogKey E k) \<Longrightarrow>
    SanitizeForObservability E (any_of (resolve_value v)) = SanitizeForObservability F (any_of (resolve_value w)) \<Longrightarrow>
    alike_attr E F (Attr k v) (Attr k w)"
| a_plain: "alike_slog E F v w \<Longrightarrow> alike_attr E F (Attr k v) (Attr k w)"
| r_invalid: "alike_r E F RInvalid RInvalid"
| r_iface_nil: "alike_r E F (RIface None) (RIface None)"
| r_iface: "alike_r E F r q \<Longrightarrow> alike_r E F (RIface (Some r)) (RIface (Some q))"
| r_ptr: "alike_r E F (RPtr t p) (RPtr t p)"
| r_map: "alike_r E F (RMap t p) (RMap t p)"
| r_slice: "alike_r E F (RSlice t p) (RSlice t p)"
| r_struct: "list_all2 (alike_fields (alike E F)) fs gs \<Longrightarrow>
    alike_r E F (RStruct fs) (RStruct gs)"
| r_array: "list_all2 (rel_option (alike E F)) xs ys \<Longrightarrow> alike_r E F (RArray xs) (RArray ys)"
| r_string: "alike_r E F (RString s) (RString s)"
| r_bool: "alike_r E F (RBool b) (RBool b)"
| r_int: "alike_r E F (RInt i) (RInt i)"
| r_uint: "alike_r E F (RUint n) (RUint n)"
| r_float: "alike_r E F (RFloat s) (RFloat s)"
| r_other: "alike_r E F ROther ROther"
monos list_all2_mono option.rel_mono

inductive_simps alike_simps:
  "alike E F ANil y" "alike E F (AError m) y" "alike E F (ASlog v) y" "alike E F (AURL u) y" "alike E F (AURLPtr p) y"
  "alike E F (AHeader h) y" "alike E F (AHeaderPtr q) y" "alike E F (AStr s) y" "alike E F (ABytes s) y"
  "alike E F (ATime t) y" "alike E F (AOther n) y" "alike E F (ALit es) y" "alike E F (AItems xs) y" "alike E F (ARefl r) y"

lemmas secret_attr_alike = alike_alike_slog_alike_attr_alike_r.a_secret
lemmas plain_attr_alike = alike_alike_slog_alike_attr_alike_r.a_plain

inductive_cases alike_attr_cases: "alike_attr E F (Attr k v) b"

inductive_simps alike_slog_simps [simp]:
  "alike_slog E F (SStr s) w" "alike_slog E F (SGroup as) w" "alike_slog E F (SAny x) w"
  "alike_slog E F (SOther n) w" "alike_slog E F (SValuer v) w"

inductive_simps alike_r_simps [simp]:
  "alike_r E F RInvalid q" "alike_r E F (RIface x) q" "alike_r E F (RPtr t p) q" "alike_r E F (RMap t p) q"
  "alike_r E F (RStruct fs) q" "alike_r E F (RSlice t n) q" "alike_r E F (RArray xs) q" "alike_r E F (RString s) q"
  "alike_r E F (RBool b) q" "alike_r E F (RInt i) q" "alike_r E F (RUint n) q" "alike_r E F (RFloat s) q"
  "alike_r E F ROther q"

text \<open>
  The environments agree on their functions, and their heaps hold alike values at every address and
  errors of one category at every node.
\<close>

definition alike_env :: "renv \<Rightarrow> renv \<Rightarrow> bool" where
  "alike_env E F \<longleftrightarrow>
     rvPatterns E = rvPatterns F \<and> rvURL E = rvURL F \<and> rvType E = rvType F
   \<and> (\<forall>p. alike_r E F (rvElem E p) (rvElem F p))
   \<and> (\<forall>p. list_all2 (\<lambda>x y. fst x = fst y \<and> (sensitive_map_key E (fst x) \<or> rel_option (alike E F) (snd x) (snd y)))
        (rvMap E p) (rvMap F p))
   \<and> (\<forall>p n. list_all2 (rel_option (alike E F)) (rvSlice E p n) (rvSlice F p n))
   \<and> (\<forall>n. SanitizeForObservability E (AError n) = SanitizeForObservability F (AError n))"

section \<open>Facts\<close>

lemma env_functions:
  assumes "rvPatterns E = rvPatterns F" "rvURL E = rvURL F" "rvType E = rvType F"
  shows "sanitizeObservableString E = sanitizeObservableString F" "safeURLString E = safeURLString F"
    "sanitizeLogKey E = sanitizeLogKey F" "sanitizeObservableMapKey E = sanitizeObservableMapKey F"
proof -
  show s: "sanitizeObservableString E = sanitizeObservableString F"
    using assms(1) by (intro ext) (simp add: sanitizeObservableString_def)
  show "safeURLString E = safeURLString F" using assms(2) by (intro ext) (simp add: safeURLString_def)
  show "sanitizeLogKey E = sanitizeLogKey F" by (intro ext) (simp add: sanitizeLogKey_def s)
  have p: "observableMapKeyPlaceholder E = observableMapKeyPlaceholder F"
    using assms(3) by (intro ext) (simp add: observableMapKeyPlaceholder_def)
  have k: "key_name E = key_name F" by (intro ext) (simp only: key_name_def s p)
  have "sanitizeObservableMapKey E k i = sanitizeObservableMapKey F k i" for k i
    by (induction k rule: strip_iface.induct) (simp_all add: k p)
  then show "sanitizeObservableMapKey E = sanitizeObservableMapKey F" by blast
qed

lemma insort_alike:
  assumes "list_all2 R xs ys" "R x y" "\<And>x y. R x y \<Longrightarrow> f x = (g y :: string)"
  shows "list_all2 R (insort_key f x xs) (insort_key g y ys)"
  using assms(1)
proof (induction rule: list_all2_induct)
  case Nil
  then show ?case using assms(2) by simp
next
  case (Cons a as b bs)
  then show ?case using assms(2,3) by (auto simp: assms(3))
qed

lemma sort_alike:
  assumes "list_all2 R xs ys" "\<And>x y. R x y \<Longrightarrow> f x = (g y :: string)"
  shows "list_all2 R (sort_key f xs) (sort_key g ys)"
  using assms(1)
proof (induction rule: list_all2_induct)
  case Nil
  then show ?case by simp
next
  case (Cons a as b bs)
  then show ?case by (simp add: insort_alike assms(2))
qed

lemma map_alike:
  "list_all2 R xs ys \<Longrightarrow> (\<And>x y. R x y \<Longrightarrow> f x = g y) \<Longrightarrow> map f xs = map g ys"
  by (induction rule: list_all2_induct) simp_all

lemma resolve_alike:
  "alike_slog E F v w \<Longrightarrow> alike_slog E F (resolve_value v) (resolve_value w)"
  by (induction v arbitrary: w rule: resolve_value.induct) auto

lemma strip_alike:
  "alike_r E F r q \<Longrightarrow> rel_option (alike_r E F) (strip_iface r) (strip_iface q)"
  by (induction r arbitrary: q rule: strip_iface.induct) auto

lemma strip_iface_not_iface [simp]: "strip_iface r \<noteq> Some (RIface x)"
  by (induction r rule: strip_iface.induct) auto

lemma resolve_not_valuer [simp]: "resolve_value v \<noteq> SValuer w"
  by (induction v rule: resolve_value.induct) auto

text \<open>Levels that give equal results on alike inputs.\<close>

definition blind :: "renv \<Rightarrow> renv \<Rightarrow> level \<Rightarrow> level \<Rightarrow> bool" where
  "blind E F L M \<longleftrightarrow>
     (\<forall>key x y seen. isSensitiveObservableKey key \<or> alike E F x y \<longrightarrow> lvStructured L key x seen = lvStructured M key y seen)
   \<and> (\<forall>key r q seen. alike_r E F r q \<longrightarrow> lvReflected L key r seen = lvReflected M key q seen)
   \<and> (\<forall>a b seen. alike_attr E F a b \<longrightarrow> lvAttr L a seen = lvAttr M b seen)
   \<and> (\<forall>v seen. lvSlogAny L v seen = lvSlogAny M v seen)"

lemma attrs_alike:
  assumes "list_all2 (alike_attr E F) as bs" "\<And>a b seen. alike_attr E F a b \<Longrightarrow> f a seen = g b seen"
  shows "sanitizeLogAttrsAt f as seen = sanitizeLogAttrsAt g bs seen"
proof -
  have "list_all2 (alike_attr E F) (take maxObservableCollection as) (take maxObservableCollection bs)"
    using assms(1) by (rule list_all2_takeI)
  then have "map (\<lambda>a. f a seen) (take maxObservableCollection as) = map (\<lambda>b. g b seen) (take maxObservableCollection bs)"
    by (rule map_alike) (rule assms(2))
  then show ?thesis using list_all2_lengthD [OF assms(1)] by (simp add: sanitizeLogAttrsAt_def)
qed

lemma map_step_alike:
  assumes L: "blind E F L M" and f: "sanitizeObservableMapKey E = sanitizeObservableMapKey F"
    and es: "list_all2 (\<lambda>x y. fst x = fst y \<and> (sensitive_map_key E (fst x) \<or> rel_option (alike E F) (snd x) (snd y))) es ds"
  shows "sanitizeReflectedMap E L es seen = sanitizeReflectedMap F M ds seen"
proof -
  let ?R = "\<lambda>x y. fst x = fst y \<and> (snd (fst x) \<or> rel_option (alike E F) (snd x) (snd y))"
  let ?es = "take (maxObservableCollection + 1) es" and ?ds = "take (maxObservableCollection + 1) ds"
  have "list_all2 ?R (name_entries E ?es) (name_entries F ?ds)"
    using list_all2_takeI [OF es, of "maxObservableCollection + 1"] list_all2_lengthD [OF es]
    by (auto simp: name_entries_def list_all2_conv_all_nth nth_enumerate_eq f sensitive_map_key_def case_prod_beta)
  then have "list_all2 ?R (sort_key (\<lambda>e. fst (fst e)) (name_entries E ?es)) (sort_key (\<lambda>e. fst (fst e)) (name_entries F ?ds))"
    by (rule sort_alike) simp
  then have sorted: "list_all2 ?R (take maxObservableCollection (sort_key (\<lambda>e. fst (fst e)) (name_entries E ?es)))
      (take maxObservableCollection (sort_key (\<lambda>e. fst (fst e)) (name_entries F ?ds)))"
    by (rule list_all2_takeI)
  have val: "lvStructured L n (AStr s) seen = lvStructured M n (AStr s) seen" for n s
    using L str unfolding blind_def by blast
  have step: "lvStructured L n x seen = lvStructured M n y seen" if "alike E F x y" for n x y
    using L that unfolding blind_def by blast
  show ?thesis
    unfolding sanitizeReflectedMap_def Let_def list_all2_lengthD [OF es]
    by (rule arg_cong [where f = build_map], rule arg_cong2 [where f = "(@)"], rule map_alike [OF sorted])
       (auto simp: val step split: option.split elim: option.rel_cases)
qed

lemma struct_step_alike:
  assumes L: "blind E F L M"
    and fs: "list_all2 (alike_fields (alike E F)) fs gs"
  shows "sanitizeReflectedStruct L fs seen = sanitizeReflectedStruct M gs seen"
proof -
  let ?R = "\<lambda>x y. fst x = fst y \<and> rel_option (\<lambda>a b. isSensitiveObservableKey (fst x) \<or> alike E F a b) (snd x) (snd y)"
  have v: "list_all2 ?R (visible_fields fs) (visible_fields gs)"
    using fs
  proof (induction rule: list_all2_induct)
    case (Cons x xs y ys)
    then show ?case
      by (cases x; cases y) (auto simp: visible_fields_def alike_fields_def hidden_field_def sensitive_field_def
          split: option.splits intro!: list_all2_appendI)
  qed (simp add: visible_fields_def)
  have step: "item L n seen x = item M n seen y" if "rel_option (\<lambda>a b. isSensitiveObservableKey n \<or> alike E F a b) x y" for n x y
    using that L by (cases x; cases y) (auto simp: item_def blind_def)
  show ?thesis
    unfolding sanitizeReflectedStruct_def list_all2_lengthD [OF v]
    by (rule arg_cong [where f = build_map], rule arg_cong2 [where f = "(@)"], rule map_alike [OF list_all2_takeI [OF v]])
       (auto simp: step split: prod.split)
qed


lemma alike_refl_all:
  assumes "alike_env E F"
  shows "alike E F x x" and "alike_slog E F v v" and "alike_attr E F a a" and "alike_r E F r r"
proof (induction x and v and a and r)
  case (AError n)
  then show ?case using assms by (simp add: alike_env_def err)
next
  case (ALit es)
  then show ?case by (intro lit) (auto intro!: list.rel_refl_strong)
next
  case (AItems xs)
  then show ?case by (intro items) (auto intro!: list.rel_refl_strong)
next
  case (SGroup as)
  then show ?case by (auto intro!: list.rel_refl_strong)
next
  case (RIface r)
  then show ?case by (cases r) auto
next
  case (RStruct fs)
  then show ?case
    by (auto simp: alike_fields_def intro!: list.rel_refl_strong option.rel_refl_strong)
next
  case (RArray xs)
  then show ?case by (auto intro!: list.rel_refl_strong option.rel_refl_strong)
next
  case (AURLPtr u)
  then show ?case by (cases u) (auto simp: alike_url_def intro: url_nil url_ptr)
next
  case (AHeaderPtr h)
  then show ?case by (cases h) (auto simp: alike_header_def list.rel_refl intro: header_nil header_ptr)
next
  case (AHeader h)
  then show ?case by (simp add: alike_header_def list.rel_refl header)
qed (auto simp: alike_url_def intro: alike_alike_slog_alike_attr_alike_r.intros)

lemma alike_env_functions:
  assumes "alike_env E F"
  shows "sanitizeObservableString E = sanitizeObservableString F" "safeURLString E = safeURLString F"
    "sanitizeLogKey E = sanitizeLogKey F" "sanitizeObservableMapKey E = sanitizeObservableMapKey F"
  using assms env_functions [of E F] by (simp_all add: alike_env_def)

lemma collection_step_alike:
  assumes L: "blind E F L M" and xs: "list_all2 (rel_option (alike E F)) xs ys"
  shows "sanitizeReflectedCollection L xs seen = sanitizeReflectedCollection M ys seen"
proof -
  have "item L [] seen x = item M [] seen y" if "rel_option (alike E F) x y" for x y
    using that L by (cases x; cases y) (auto simp: item_def blind_def)
  then have "map (item L [] seen) (take maxObservableCollection xs) = map (item M [] seen) (take maxObservableCollection ys)"
    by (rule map_alike [OF list_all2_takeI [OF xs]])
  then show ?thesis by (simp add: sanitizeReflectedCollection_def list_all2_lengthD [OF xs])
qed

lemma header_step_alike:
  assumes L: "blind E F L M" and e: "alike_env E F" and h: "alike_header h k"
  shows "sanitizeHTTPHeader L h seen = sanitizeHTTPHeader M k seen"
proof -
  let ?R = "\<lambda>x y. fst x = fst y \<and> (isSensitiveObservableKey (fst x) \<or> snd x = snd y)"
  have h: "list_all2 ?R h k" using h by (simp add: alike_header_def)
  then have "list_all2 ?R (take (maxObservableCollection + 1) h) (take (maxObservableCollection + 1) k)"
    by (rule list_all2_takeI)
  then have "list_all2 ?R (sort_key fst (take (maxObservableCollection + 1) h)) (sort_key fst (take (maxObservableCollection + 1) k))"
    by (rule sort_alike) simp
  then have s: "list_all2 ?R (take maxObservableCollection (sort_key fst (take (maxObservableCollection + 1) h)))
      (take maxObservableCollection (sort_key fst (take (maxObservableCollection + 1) k)))"
    by (rule list_all2_takeI)
  have step: "lvStructured L n x seen = lvStructured M n y seen" if "isSensitiveObservableKey n \<or> x = y" for n x y
    using that L alike_refl_all(1) [OF e] unfolding blind_def by blast
  show ?thesis
    unfolding sanitizeHTTPHeader_def Let_def list_all2_lengthD [OF h]
    by (rule arg_cong [where f = build_map], rule arg_cong2 [where f = "(@)"], rule map_alike [OF s])
       (auto intro!: step)
qed

lemma reflected_step_alike:
  assumes L: "blind E F L M" and e: "alike_env E F" and r: "alike_r E F r q"
  shows "sanitizeReflectedValue E L key r seen = sanitizeReflectedValue F M key q seen"
proof -
  have heap: "alike_r E F (rvElem E p) (rvElem F p)"
    "list_all2 (\<lambda>x y. fst x = fst y \<and> (sensitive_map_key E (fst x) \<or> rel_option (alike E F) (snd x) (snd y))) (rvMap E p) (rvMap F p)"
    "list_all2 (rel_option (alike E F)) (rvSlice E p n) (rvSlice F p n)" for p n
    using e by (simp_all add: alike_env_def)
  have ptr: "lvReflected L key (rvElem E p) vs = lvReflected M key (rvElem F p) vs" for p vs
    using L heap(1) unfolding blind_def by blast
  note steps = ptr map_step_alike [OF L alike_env_functions(4) [OF e] heap(2)] collection_step_alike [OF L heap(3)]
    struct_step_alike [OF L] collection_step_alike [OF L] alike_env_functions(1) [OF e]
  from strip_alike [OF r] show ?thesis
  proof (cases rule: option.rel_cases)
    case (Some r' q')
    then show ?thesis
      by (cases r') (auto simp: sanitizeReflectedValue_def steps split: option.split)
  qed (simp add: sanitizeReflectedValue_def)
qed

lemma slog_any_step_alike:
  assumes L: "blind E F L M" and e: "alike_env E F"
  shows "sanitizedSlogValueAny L v seen = sanitizedSlogValueAny M v seen"
proof -
  have a: "sanitizeLogAttrsAt (lvAttr L) as seen = sanitizeLogAttrsAt (lvAttr M) as seen" for as
    by (rule attrs_alike [of E F]) (use L alike_refl_all(3) [OF e] in \<open>auto simp: blind_def intro: list.rel_refl\<close>)
  have s: "lvSlogAny L = lvSlogAny M" using L unfolding blind_def by blast
  show ?thesis by (simp add: sanitizedSlogValueAny_def a s split: sval.split)
qed

lemma nested_slog_step_alike:
  assumes L: "blind E F L M" and e: "alike_env E F" and v: "alike_slog E F v w"
  shows "sanitizeNestedSlogValue E L v seen = sanitizeNestedSlogValue F M w seen"
proof -
  have s: "lvSlogAny L = lvSlogAny M" using L unfolding blind_def by blast
  have a: "sanitizeLogAttrsAt (lvAttr L) as seen = sanitizeLogAttrsAt (lvAttr M) bs seen"
    if "list_all2 (alike_attr E F) as bs" for as bs
    using that by (rule attrs_alike) (use L in \<open>auto simp: blind_def\<close>)
  have x: "lvStructured L key x seen = lvStructured M key y seen" if "alike E F x y" for key x y
    using L that unfolding blind_def by blast
  show ?thesis
    using resolve_alike [OF v]
    by (cases "resolve_value v") (auto simp: sanitizeNestedSlogValue_def s alike_env_functions [OF e] any_of_def dest: a x)
qed

lemma structured_step_alike:
  assumes L: "blind E F L M" and e: "alike_env E F" and x: "isSensitiveObservableKey key \<or> alike E F x y"
  shows "sanitizeStructuredValue E L key x seen = sanitizeStructuredValue F M key y seen"
proof (cases "isSensitiveObservableKey key")
  case True
  then show ?thesis by (simp add: sanitizeStructuredValue_def)
next
  case False
  have u: "safeURLString F u = safeURLString F v" if "alike_url u v" for u v
    using that by (simp add: alike_url_def safeURLString_def)
  have lits: "sanitizeReflectedMap E L (map (\<lambda>(k, x). (RString k, Some x)) es) seen
      = sanitizeReflectedMap F M (map (\<lambda>(k, x). (RString k, Some x)) ds) seen"
    if "list_all2 (\<lambda>x y. fst x = fst y \<and> (sensitive_map_key E (RString (fst x)) \<or> alike E F (snd x) (snd y))) es ds" for es ds
    by (rule map_step_alike [OF L alike_env_functions(4) [OF e]])
       (use that in \<open>auto simp: list.rel_map case_prod_beta intro: list.rel_mono_strong\<close>)
  have its: "sanitizeReflectedCollection L (map Some xs) seen = sanitizeReflectedCollection M (map Some ys) seen"
    if "list_all2 (alike E F) xs ys" for xs ys
    by (rule collection_step_alike [OF L]) (use that in \<open>simp add: list.rel_map\<close>)
  from x False have "alike E F x y" by blast
  then show ?thesis
    using False
    by (cases x)
       (auto simp: alike_simps sanitizeStructuredValue_def alike_env_functions [OF e] SanitizeForObservability_def
         dest: u lits its nested_slog_step_alike [OF L e] header_step_alike [OF L e] reflected_step_alike [OF L e])
qed

lemma alike_category:
  assumes "alike E F x y"
  shows "SanitizeForObservability E x = SanitizeForObservability F y"
  using assms by (cases x) (auto simp: alike_simps SanitizeForObservability_def)

lemma attr_step_alike:
  assumes L: "blind E F L M" and e: "alike_env E F" and a: "alike_attr E F a b"
  shows "sanitizeLogAttrAt E L a seen = sanitizeLogAttrAt F M b seen"
proof -
  obtain k v where k: "a = Attr k v" by (cases a)
  have at: "sanitizeLogAttrsAt (lvAttr L) as seen = sanitizeLogAttrsAt (lvAttr M) bs seen"
    if "list_all2 (alike_attr E F) as bs" for as bs
    using that by (rule attrs_alike) (use L in \<open>auto simp: blind_def\<close>)
  have st: "lvStructured L key x seen = lvStructured M key y seen" if "alike E F x y" for key x y
    using L that unfolding blind_def by blast
  have any: "SanitizeForObservability E (any_of v) = SanitizeForObservability F (any_of w)" if "alike_slog E F v w" for v w
    using that alike_category by (cases v) (auto simp: any_of_def SanitizeForObservability_def)
  obtain w where b: "b = Attr k w" and w: "isSensitiveObservableKey k
      \<or> isErrorObservableKey (sanitizeLogKey E k)
        \<and> SanitizeForObservability E (any_of (resolve_value v)) = SanitizeForObservability F (any_of (resolve_value w))
      \<or> alike_slog E F v w"
    using a unfolding k by (auto elim: alike_attr_cases)
  from w show ?thesis
  proof (elim disjE)
    assume plain: "alike_slog E F v w"
    note r = resolve_alike [OF plain]
    show ?thesis
      using r any [OF r]
      by (cases "resolve_value v")
         (auto simp: sanitizeLogAttrAt_def Let_def k b alike_env_functions [OF e] dest: at intro!: arg_cong [where f = any_value] st)
  qed (auto simp: sanitizeLogAttrAt_def Let_def k b alike_env_functions [OF e])
qed

lemma alike_attr_key: "alike_attr E F a b \<Longrightarrow> attr_key a = attr_key b"
  by (cases a) (auto elim: alike_attr_cases)

lemma alike_invalid: "alike_r E F r q \<Longrightarrow> r = RInvalid \<longleftrightarrow> q = RInvalid"
  by (cases r; cases q) auto

lemma cut_level_blind:
  assumes e: "alike_env E F"
  shows "blind E F (cut_level E) (cut_level F)"
proof -
  have c: "cut_attr E = cut_attr F"
    by (intro ext) (simp add: cut_attr_def alike_env_functions [OF e])
  have a: "cut_attr F a seen = cut_attr F b seen" if "alike_attr E F a b" for a b seen
    using alike_attr_key [OF that] by (simp add: cut_attr_def)
  show ?thesis
    unfolding blind_def using a alike_invalid by (auto simp: cut_level_def c split: sval.split)
qed

lemma levels_blind:
  assumes e: "alike_env E F"
  shows "blind E F (levels E n) (levels F n)"
proof (induction n)
  case (Suc n)
  show ?case
    unfolding blind_def
    by (auto simp: level_above_def structured_step_alike [OF Suc e] reflected_step_alike [OF Suc e]
        attr_step_alike [OF Suc e] slog_any_step_alike [OF Suc e])
qed (simp add: cut_level_blind [OF e])

text \<open>
  C20: what is logged does not depend on secrets: two lists of attributes that differ only below sensitive
  keys, in the user, query or fragment of URLs, in the text of errors of one category and in what error
  keys hold of one category (at any depth, through pointers, maps and cycles of two heaps alike in the same
  way) are rewritten to the same attributes, and so is a record with them.
\<close>

theorem redaction_hides_secrets:
  assumes "alike_env E F" "list_all2 (alike_attr E F) as bs"
  shows "sanitizeLogAttrs E as = sanitizeLogAttrs F bs
    \<and> sanitizeLogRecord E (message, as) = sanitizeLogRecord F (message, bs)"
proof -
  have b: "lvAttr (levels E n) a seen = lvAttr (levels F n) b seen" if "alike_attr E F a b" for n a b seen
    using levels_blind [OF assms(1), of n] that by (auto simp: blind_def)
  have r: "map (sanitizeLogAttr E) as = map (sanitizeLogAttr F) bs"
    by (rule map_alike [OF assms(2)]) (simp only: sanitizeLogAttr_def b)
  show ?thesis
    unfolding sanitizeLogAttrs_def sanitizeLogRecord_def
    using attrs_alike [OF assms(2), of "lvAttr (levels E (maxObservableDepth + 1))" "lvAttr (levels F (maxObservableDepth + 1))" "{}"]
    by (simp only: b r alike_env_functions [OF assms(1)] prod.case)
qed

text \<open>
  Two processes that log the same cyclic structure with different passwords, and requests with different
  bearer tokens and queries.
\<close>

definition exported :: "string \<Rightarrow> field" where
  "exported n = \<lparr>fdName = n, fdExported = True, fdSlogTag = [], fdJsonTag = []\<rparr>"

definition sample_env :: "string \<Rightarrow> renv" where
  "sample_env pw =
     \<lparr>rvPatterns = (\<lambda>s. s), rvURL = (\<lambda>u. uScheme u @ ''://'' @ uHost u @ uPath u), rvType = (\<lambda>_. ''T''),
      rvElem = (\<lambda>p. RStruct [(exported ''Password'', Some (AStr pw)), (exported ''Self'', Some (ARefl (RPtr 0 (Some p))))]),
      rvMap = (\<lambda>_. []), rvSlice = (\<lambda>_ _. []),
      rvError = (\<lambda>_. \<lparr>enKnown = NotKnown, enIdentity = None, enUnwrap = NoUnwrap\<rparr>)\<rparr>"

definition sample_url :: "string \<Rightarrow> url" where
  "sample_url q = \<lparr>uScheme = ''https'', uUser = [], uHost = ''h'', uPath = ''/p'', uRawPath = [], uRawQuery = q, uFragment = []\<rparr>"

definition sample_attrs :: "string \<Rightarrow> attr list" where
  "sample_attrs secret =
     [Attr ''account'' (SAny (ARefl (RPtr 0 (Some 1)))), Attr ''Authorization'' (SStr secret),
      Attr ''target'' (SAny (AURL (sample_url secret)))]"

lemma redaction_hides_secrets_witness:
  "sanitizeLogAttrs (sample_env ''hunter2'') (sample_attrs ''k=1'') = sanitizeLogAttrs (sample_env ''letmein'') (sample_attrs ''k=2'')
   \<and> sample_env ''hunter2'' \<noteq> sample_env ''letmein'' \<and> sample_attrs ''k=1'' \<noteq> sample_attrs ''k=2''"
proof -
  have sens: "observableFieldName (exported ''Password'') = Some ''Password''" "observableFieldName (exported ''Self'') = Some ''Self''"
    "isSensitiveObservableKey ''Password''" "isSensitiveObservableKey ''Authorization''"
    by code_simp+
  have c: "SanitizeForObservability (sample_env a) (AError n) = SanitizeForObservability (sample_env b) (AError n)" for a b n
    by (simp add: SanitizeForObservability_def sample_env_def)
  have e: "alike_env (sample_env ''hunter2'') (sample_env ''letmein'')"
    unfolding alike_env_def using c
    by (simp add: sample_env_def alike_fields_def sensitive_field_def sens alike_simps)
  have a: "list_all2 (alike_attr (sample_env ''hunter2'') (sample_env ''letmein'')) (sample_attrs ''k=1'') (sample_attrs ''k=2'')"
    unfolding sample_attrs_def
    by (simp add: secret_attr_alike [OF sens(4)] plain_attr_alike alike_simps alike_url_def sample_url_def)
  have d: "sample_env ''hunter2'' \<noteq> sample_env ''letmein''"
  proof
    assume "sample_env ''hunter2'' = sample_env ''letmein''"
    then have "rvElem (sample_env ''hunter2'') 0 = rvElem (sample_env ''letmein'') 0" by simp
    then show False by (simp add: sample_env_def)
  qed
  show ?thesis using redaction_hides_secrets [OF e a, of "[]"] d by (simp add: sample_attrs_def sample_url_def)
qed

section \<open>What leaves is plain and bounded\<close>

text \<open>
  \<open>plain n v\<close>: \<open>v\<close> is nil, a string, a time, a number or a truth value, or a map or list of at most
  \<open>maxObservableCollection + 1\<close> such values with \<open>n\<close> levels of nesting. In particular no error, URL, header,
  pointer or struct is left in it.
\<close>

definition leaf :: "any \<Rightarrow> bool" where
  "leaf v = (case v of ANil \<Rightarrow> True | AStr s \<Rightarrow> True | ATime t \<Rightarrow> True | AOther n \<Rightarrow> True
     | ARefl r \<Rightarrow> (case r of RBool b \<Rightarrow> True | RInt i \<Rightarrow> True | RUint n \<Rightarrow> True | RFloat s \<Rightarrow> True | _ \<Rightarrow> False)
     | _ \<Rightarrow> False)"

lemma leaf_simps [simp]:
  "leaf ANil" "leaf (AStr s)" "leaf (ATime t)" "leaf (AOther n)" "leaf (ARefl (RBool b))" "leaf (ARefl (RInt i))"
  "leaf (ARefl (RUint n))" "leaf (ARefl (RFloat s))" "\<not> leaf (ALit es)" "\<not> leaf (AItems xs)"
  by (simp_all add: leaf_def)

inductive plain :: "nat \<Rightarrow> any \<Rightarrow> bool"
  and plain_slog :: "nat \<Rightarrow> sval \<Rightarrow> bool"
where
  leaf: "leaf v \<Longrightarrow> plain n v"
| map: "length es \<le> maxObservableCollection + 1 \<Longrightarrow> (\<And>e. e \<in> set es \<Longrightarrow> plain n (snd e)) \<Longrightarrow> plain (Suc n) (ALit es)"
| list: "length xs \<le> maxObservableCollection + 1 \<Longrightarrow> (\<And>x. x \<in> set xs \<Longrightarrow> plain n x) \<Longrightarrow> plain (Suc n) (AItems xs)"
| str: "plain_slog n (SStr s)"
| other: "plain_slog n (SOther k)"
| val: "plain n v \<Longrightarrow> plain_slog n (SAny v)"
| group: "length as \<le> maxObservableCollection + 1 \<Longrightarrow> (\<And>a. a \<in> set as \<Longrightarrow> plain_slog n (attr_value a)) \<Longrightarrow>
    plain_slog (Suc n) (SGroup as)"

inductive_simps plain_slog_simps [simp]:
  "plain_slog n (SStr s)" "plain_slog n (SOther k)" "plain_slog n (SAny v)" "plain_slog n (SValuer v)"

lemma plain_mono:
  "plain n v \<Longrightarrow> plain (Suc n) v"
  "plain_slog n w \<Longrightarrow> plain_slog (Suc n) w"
proof (induction rule: plain_plain_slog.inducts)
  case (map es n)
  then show ?case by (auto intro: plain_plain_slog.map)
next
  case (list xs n)
  then show ?case by (auto intro: plain_plain_slog.list)
next
  case (group as n)
  then show ?case by (auto intro: plain_plain_slog.group)
qed (auto intro: plain_plain_slog.leaf)

lemma update_length: "length (AList.update k v al) \<le> Suc (length al)"
  by (induction al) auto

lemma build_map_plain:
  assumes "length es \<le> maxObservableCollection + 1" "\<And>e. e \<in> set es \<Longrightarrow> plain n (snd e)"
  shows "plain (Suc n) (build_map es)"
proof -
  have len: "length (fold (\<lambda>(k, v). AList.update k v) es al) \<le> length es + length al" for al :: "(string \<times> any) list"
  proof (induction es arbitrary: al)
    case (Cons e es)
    show ?case using Cons [of "AList.update (fst e) (snd e) al"] update_length [of "fst e" "snd e" al]
      by (simp add: case_prod_beta)
  qed simp
  have upd: "e \<in> set (AList.update k v al) \<Longrightarrow> e = (k, v) \<or> e \<in> set al" for e k v and al :: "(string \<times> any) list"
    by (induction al) (auto split: if_splits)
  have mem: "e \<in> set (fold (\<lambda>(k, v). AList.update k v) es al) \<Longrightarrow> e \<in> set es \<or> e \<in> set al" for e al
  proof (induction es arbitrary: al)
    case (Cons d es)
    then show ?case using upd [of e "fst d" "snd d" al] by (auto simp: case_prod_beta)
  qed simp
  show ?thesis
    unfolding build_map_def using len [of "[]"] mem [of _ "[]"] assms by (intro map) auto
qed

text \<open>Levels whose results are plain; the fields of one level feed the next.\<close>

definition bounded :: "nat \<Rightarrow> level \<Rightarrow> bool" where
  "bounded n L \<longleftrightarrow>
     (\<forall>key v seen. plain n (lvStructured L key v seen))
   \<and> (\<forall>key r seen. plain n (lvReflected L key r seen))
   \<and> (\<forall>a seen. plain_slog n (attr_value (lvAttr L a seen)))
   \<and> (\<forall>v seen. plain_slog n v \<longrightarrow> plain n (lvSlogAny L v seen))"

lemma attrs_plain:
  assumes "\<And>a seen. plain_slog n (attr_value (f a seen))"
  shows "length (sanitizeLogAttrsAt f as seen) \<le> maxObservableCollection + 1"
    and "a \<in> set (sanitizeLogAttrsAt f as seen) \<Longrightarrow> plain_slog n (attr_value a)"
  using assms by (auto simp: sanitizeLogAttrsAt_def split: if_splits)

lemma boundedD:
  assumes "bounded n L"
  shows "plain n (lvStructured L key v seen)" "plain n (lvReflected L key r seen)"
    "plain_slog n (attr_value (lvAttr L a seen))" "plain_slog n w \<Longrightarrow> plain n (lvSlogAny L w seen)"
  using assms unfolding bounded_def by blast+

lemma item_plain: "bounded n L \<Longrightarrow> plain n (item L key seen v)"
  by (auto simp: item_def boundedD leaf split: option.split)

lemma map_plain: "bounded n L \<Longrightarrow> plain (Suc n) (sanitizeReflectedMap E L es seen)"
  unfolding sanitizeReflectedMap_def Let_def
  by (rule build_map_plain) (auto simp: truncation_entry_def boundedD leaf split: option.split if_splits)

lemma header_plain: "bounded n L \<Longrightarrow> plain (Suc n) (sanitizeHTTPHeader L h seen)"
  unfolding sanitizeHTTPHeader_def Let_def
  by (rule build_map_plain) (auto simp: truncation_entry_def boundedD leaf split: if_splits)

lemma struct_plain: "bounded n L \<Longrightarrow> plain (Suc n) (sanitizeReflectedStruct L fs seen)"
  unfolding sanitizeReflectedStruct_def
  by (rule build_map_plain) (auto simp: truncation_entry_def item_plain leaf split: if_splits)

lemma collection_plain: "bounded n L \<Longrightarrow> plain (Suc n) (sanitizeReflectedCollection L xs seen)"
  unfolding sanitizeReflectedCollection_def
  by (rule list) (auto simp: item_plain leaf split: if_splits)

lemma reflected_value_plain:
  assumes L: "bounded n L"
  shows "plain (Suc n) (sanitizeReflectedValue E L key r seen)"
proof (cases "strip_iface r")
  case (Some q)
  then show ?thesis
    by (cases q) (auto simp: sanitizeReflectedValue_def map_plain [OF L] struct_plain [OF L] collection_plain [OF L] leaf
        plain_mono(1) [OF boundedD(2) [OF L]] split: option.split)
qed (simp add: sanitizeReflectedValue_def leaf)

lemma group_plain:
  assumes L: "bounded n L"
  shows "plain (Suc n) (build_map (List.map (\<lambda>a. (attr_key a, lvSlogAny L (attr_value a) seen)) (sanitizeLogAttrsAt (lvAttr L) as seen)))"
  using attrs_plain(1) [where f = "lvAttr L", OF boundedD(3) [OF L]]
    attrs_plain(2) [where f = "lvAttr L", OF boundedD(3) [OF L], THEN boundedD(4) [OF L]]
  by (intro build_map_plain) auto

lemma scalar_plain: "resolve_value v = SOther k \<Longrightarrow> plain n (any_of (resolve_value v))"
  by (simp add: any_of_def leaf)

lemma structured_plain:
  assumes L: "bounded n L"
  shows "plain (Suc n) (sanitizeStructuredValue E L key v seen)"
proof -
  have "plain (Suc n) (sanitizeNestedSlogValue E L w seen)" for w
    by (cases "resolve_value w") (auto simp: sanitizeNestedSlogValue_def group_plain [OF L] leaf any_of_def
        plain_mono(1) [OF boundedD(1) [OF L]])
  then show ?thesis
    by (auto simp: sanitizeStructuredValue_def leaf header_plain [OF L] map_plain [OF L] collection_plain [OF L]
        reflected_value_plain [OF L] split: any.split option.split)
qed

lemma any_value_plain: "plain n x \<Longrightarrow> plain_slog n (any_value x)"
  by (auto simp: any_value_def split: any.split)

lemma attr_step_plain:
  assumes L: "bounded n L"
  shows "plain_slog (Suc n) (attr_value (sanitizeLogAttrAt E L a seen))"
proof -
  have g: "plain_slog (Suc n) (SGroup (sanitizeLogAttrsAt (lvAttr L) as seen))" for as
    using attrs_plain [where f = "lvAttr L", OF boundedD(3) [OF L]] by (intro group) auto
  have x: "plain_slog (Suc n) (any_value (lvStructured L key x seen))" for key x
    by (rule any_value_plain) (simp add: plain_mono(1) [OF boundedD(1) [OF L]])
  show ?thesis
    by (cases "resolve_value (attr_value a)") (auto simp: sanitizeLogAttrAt_def Let_def g x)
qed

lemma resolve_plain: "plain_slog n v \<Longrightarrow> resolve_value v = v"
  by (cases v) auto

lemma slog_any_step_plain:
  assumes L: "bounded n L" and v: "plain_slog (Suc n) v"
  shows "plain (Suc n) (sanitizedSlogValueAny L v seen)"
  using v by (cases v) (auto simp: sanitizedSlogValueAny_def group_plain [OF L] any_of_def leaf)

lemma cut_level_bounded: "bounded 1 (cut_level E)"
proof -
  have c: "plain_slog 0 (attr_value (cut_attr E a seen))" for a seen by (simp add: cut_attr_def)
  have s: "plain 0 (any_of (attr_value a))" if "a \<in> set (sanitizeLogAttrsAt (cut_attr E) as seen)" for a as seen
    using that by (auto simp: sanitizeLogAttrsAt_def cut_attr_def any_of_def leaf split: if_splits)
  have m: "plain (Suc 0) (build_map (List.map (\<lambda>a. (attr_key a, any_of (attr_value a))) (sanitizeLogAttrsAt (cut_attr E) as seen)))"
    for as seen
    using attrs_plain(1) [where f = "cut_attr E" and n = 0, OF c] s by (intro build_map_plain) auto
  have "plain 1 (lvSlogAny (cut_level E) v seen)" if "plain_slog 1 v" for v seen
    using that m by (cases v) (auto simp: cut_level_def any_of_def leaf)
  then show ?thesis
    unfolding bounded_def by (auto simp: cut_level_def leaf cut_attr_def)
qed

lemma levels_bounded: "bounded (Suc n) (levels E n)"
proof (induction n)
  case (Suc n)
  show ?case
    unfolding bounded_def
    by (auto simp: level_above_def structured_plain [OF Suc] reflected_value_plain [OF Suc] attr_step_plain [OF Suc]
        slog_any_step_plain [OF Suc])
qed (use cut_level_bounded in simp)

text \<open>
  C21: what is logged is small and plain: the value of every rewritten attribute nests at most eight deep, each
  map, list and group in it has at most seventeen entries, and every leaf is nil, a string, a time, a
  number or a truth value (no error, URL, header, byte slice, pointer or struct is left in it); a list of
  attributes comes out with at most seventeen. Cycles of the heap make no difference.
\<close>

theorem redaction_bounded:
  "plain_slog 8 (attr_value (sanitizeLogAttr E a))
   \<and> length (sanitizeLogAttrs E as) \<le> 17
   \<and> list_all (\<lambda>b. plain_slog 8 (attr_value b)) (sanitizeLogAttrs E as)"
proof -
  have l: "plain_slog 8 (attr_value (lvAttr (levels E (maxObservableDepth + 1)) b {}))" for b
    using boundedD(3) [OF levels_bounded [of "maxObservableDepth + 1" E]] by (simp add: maxObservableDepth_def)
  show ?thesis
    using attrs_plain [where f = "lvAttr (levels E (maxObservableDepth + 1))" and n = 8 and as = as and seen = "{}"]
      boundedD(3) [OF levels_bounded [of "maxObservableDepth + 1" E]]
    by (auto simp: sanitizeLogAttr_def sanitizeLogAttrs_def l list_all_iff maxObservableDepth_def maxObservableCollection_def)
qed

end
