(* ===== verification/OpenApi.thy ===== *)
theory OpenApi
  imports Authentication "HOL-Library.AList"
begin

text \<open>
  The OpenAPI document of an application (\<open>pkg/bear/openapi.go\<close>): the schemas of Go types with components
  for the recursive ones, the operation of each route with its parameters, bodies and security, and the
  checks that make paths and operation ids unique. A struct type is a number; its fields and name are
  what the parameter \<open>oenv\<close> tells, and so is what the OpenAPI library says of the finished document.
  Types whose recursion passes through no struct (\<open>type T []T\<close>) are left out. A Go map is an association
  list; a JSON document is a value of type \<open>json\<close>.
\<close>

section \<open>Types and documents\<close>

datatype gotype =
    TBool | TInt | TFloat | TString | TIface | TOther
  | TPtr gotype | TSlice gotype | TArray gotype | TMap gotype | TStruct nat

record sfield =
  sfName :: string
  sfType :: gotype
  sfExported :: bool
  sfAnonymous :: bool
  sfJson :: string
  sfUri :: string
  sfQuery :: string
  sfForm :: string
  sfBinding :: string

datatype json = OStr string | OBool bool | OStrs "string list" | OList "json list" | OObj "(string \<times> json) list"

record handler_type =
  htIsFunc :: bool
  htString :: string
  htIn :: "gotype list"
  htOut :: "(gotype \<times> bool) list"

record oenv =
  oaFields :: "nat \<Rightarrow> sfield list"
  oaName :: "nat \<Rightarrow> string"
  oaTime :: nat
  oaGinContext :: nat
  oaResponse :: nat
  oaValidate :: "json \<Rightarrow> string option"

definition maxOpenAPISchemaDepth :: nat where
  "maxOpenAPISchemaDepth = 64"

fun derefType :: "gotype \<Rightarrow> gotype" where
  "derefType (TPtr t) = derefType t"
| "derefType t = t"

fun fieldElementType :: "gotype \<Rightarrow> gotype" where
  "fieldElementType (TPtr t) = fieldElementType t"
| "fieldElementType (TSlice t) = fieldElementType t"
| "fieldElementType (TArray t) = fieldElementType t"
| "fieldElementType (TMap t) = fieldElementType t"
| "fieldElementType t = t"

definition tagFieldName :: "string \<Rightarrow> string" where
  "tagFieldName tag = (if tag = [] \<or> tag = ''-'' then [] else fst (Cut CHR '','' tag))"

definition hasRequiredBinding :: "sfield \<Rightarrow> bool" where
  "hasRequiredBinding f \<longleftrightarrow>
     sfBinding f = ''required'' \<or> Contains (sfBinding f) ''required,'' \<or> Contains (sfBinding f) '',required''"

text \<open>\<open>visited\<close> holds the structs entered on the way down.\<close>

function openAPITypeReaches :: "oenv \<Rightarrow> gotype \<Rightarrow> nat \<Rightarrow> nat list \<Rightarrow> nat \<Rightarrow> bool" where
  "openAPITypeReaches E current target visited depth =
     (if maxOpenAPISchemaDepth \<le> depth then False
      else case fieldElementType current of
        TStruct i \<Rightarrow>
          i = target \<or>
          i \<notin> set visited \<and>
          list_ex (\<lambda>f. openAPITypeReaches E (sfType f) target (i # visited) (depth + 1)) (oaFields E i)
      | _ \<Rightarrow> False)"
  by pat_completeness auto

termination
  by (relation "measure (\<lambda>(E, current, target, visited, depth). maxOpenAPISchemaDepth - depth)") auto

declare openAPITypeReaches.simps [simp del]

definition isRecursive :: "oenv \<Rightarrow> nat \<Rightarrow> bool" where
  "isRecursive E i = list_ex (\<lambda>f. openAPITypeReaches E (fieldElementType (sfType f)) i [] 0) (oaFields E i)"

section \<open>Schemas\<close>

text \<open>
  \<open>obUsed\<close> maps a name to the type that uses it, or to nothing for the components that were there from
  the start.
\<close>

record builder =
  obComponents :: "(string \<times> json) list"
  obNames :: "(nat \<times> string) list"
  obUsed :: "(string \<times> nat option) list"

definition newOpenAPISchemaBuilder :: "(string \<times> json) list \<Rightarrow> builder" where
  "newOpenAPISchemaBuilder components =
     \<lparr>obComponents = components, obNames = [], obUsed = map (\<lambda>(n, s). (n, None)) components\<rparr>"

definition name_taken :: "builder \<Rightarrow> nat \<Rightarrow> string \<Rightarrow> bool" where
  "name_taken b i name = (case map_of (obUsed b) name of None \<Rightarrow> False | Some user \<Rightarrow> user \<noteq> Some i)"

text \<open>The search for a free name; one more round than there are names in use is enough.\<close>

fun free_name :: "builder \<Rightarrow> nat \<Rightarrow> string \<Rightarrow> nat \<Rightarrow> string \<Rightarrow> nat \<Rightarrow> string" where
  "free_name b i base k name 0 = name"
| "free_name b i base k name (Suc rounds) =
     (if name_taken b i name then free_name b i base (k + 1) (base @ ''_'' @ Itoa k) rounds else name)"

definition componentName :: "oenv \<Rightarrow> builder \<Rightarrow> nat \<Rightarrow> string \<times> builder" where
  "componentName E b i =
     (case map_of (obNames b) i of
        Some name \<Rightarrow> (name, b)
      | None \<Rightarrow>
          (let base = (if oaName E i = [] then ''AnonymousObject'' else oaName E i);
               name = free_name b i base 2 base (length (obUsed b) + 1) in
           (name, b\<lparr>obNames := AList.update i name (obNames b), obUsed := AList.update name (Some i) (obUsed b)\<rparr>)))"

definition object_schema :: json where
  "object_schema = OObj [(''type'', OStr ''object'')]"

definition required_entry :: "string list \<Rightarrow> (string \<times> json) list" where
  "required_entry required = (if required = [] then [] else [(''required'', OStrs required)])"

definition component_ref :: "string \<Rightarrow> json" where
  "component_ref name = OObj [(''$ref'', OStr (''#/components/schemas/'' @ name))]"

definition put_component :: "string \<Rightarrow> json \<Rightarrow> builder \<Rightarrow> builder" where
  "put_component name s b = b\<lparr>obComponents := AList.update name s (obComponents b)\<rparr>"

text \<open>A field that the encoder of JSON leaves out, and its name in JSON.\<close>

definition json_hidden :: "sfield \<Rightarrow> bool" where
  "json_hidden f \<longleftrightarrow> \<not> sfExported f \<or> sfJson f = ''-''"

definition json_name :: "sfield \<Rightarrow> string" where
  "json_name f = (if tagFieldName (sfJson f) = [] then sfName f else tagFieldName (sfJson f))"

function schemaForType :: "oenv \<Rightarrow> gotype \<Rightarrow> nat \<Rightarrow> builder \<Rightarrow> json \<times> builder"
  and structSchema :: "oenv \<Rightarrow> nat \<Rightarrow> nat \<Rightarrow> builder \<Rightarrow> json \<times> builder"
  and componentRef :: "oenv \<Rightarrow> nat \<Rightarrow> nat \<Rightarrow> builder \<Rightarrow> json \<times> builder"
  and struct_fields :: "oenv \<Rightarrow> sfield list \<Rightarrow> nat \<Rightarrow> (string \<times> json) list \<Rightarrow> string list \<Rightarrow> builder \<Rightarrow> json \<times> builder"
where
  "schemaForType E fieldType depth b =
     (if maxOpenAPISchemaDepth \<le> depth then (object_schema, b)
      else case derefType fieldType of
        TBool \<Rightarrow> (OObj [(''type'', OStr ''boolean'')], b)
      | TInt \<Rightarrow> (OObj [(''type'', OStr ''integer'')], b)
      | TFloat \<Rightarrow> (OObj [(''type'', OStr ''number'')], b)
      | TString \<Rightarrow> (OObj [(''type'', OStr ''string'')], b)
      | TSlice t \<Rightarrow> (case schemaForType E t (depth + 1) b of (s, b) \<Rightarrow> (OObj [(''type'', OStr ''array''), (''items'', s)], b))
      | TArray t \<Rightarrow> (case schemaForType E t (depth + 1) b of (s, b) \<Rightarrow> (OObj [(''type'', OStr ''array''), (''items'', s)], b))
      | TMap t \<Rightarrow>
          (if t = TIface then (OObj [(''type'', OStr ''object''), (''additionalProperties'', OBool True)], b)
           else case schemaForType E t (depth + 1) b of
             (s, b) \<Rightarrow> (OObj [(''type'', OStr ''object''), (''additionalProperties'', s)], b))
      | TStruct i \<Rightarrow>
          (if i = oaTime E then (OObj [(''type'', OStr ''string''), (''format'', OStr ''date-time'')], b)
           else if isRecursive E i then componentRef E i depth b
           else structSchema E i depth b)
      | TIface \<Rightarrow> (object_schema, b)
      | _ \<Rightarrow> (OObj [(''type'', OStr ''string'')], b))"
| "structSchema E i depth b = struct_fields E (oaFields E i) depth [] [] b"
| "struct_fields E [] depth properties required b =
     (OObj ([(''type'', OStr ''object''), (''properties'', OObj properties)] @ required_entry required), b)"
| "struct_fields E (f # fs) depth properties required b =
     (if json_hidden f then struct_fields E fs depth properties required b
      else case schemaForType E (sfType f) (depth + 1) b of
        (s, b) \<Rightarrow>
          struct_fields E fs depth (AList.update (json_name f) s properties)
            (required @ (if hasRequiredBinding f then [json_name f] else [])) b)"
| "componentRef E i depth b =
     (case componentName E b i of
        (name, b) \<Rightarrow>
          if name \<in> fst ` set (obComponents b) then (component_ref name, b)
          else case structSchema E i (depth + 1) (put_component name object_schema b) of
            (s, b) \<Rightarrow> (component_ref name, put_component name s b))"
  by pat_completeness auto

termination
  by (relation "inv_image (less_than <*lex*> less_than) (\<lambda>x. case x of
        Inl (Inl (E, t, depth, b)) \<Rightarrow> (if 64 \<le> depth then 0 else 4 * (66 - depth) + 3, 0)
      | Inl (Inr (E, i, depth, b)) \<Rightarrow> (4 * (66 - depth) + 1, 0)
      | Inr (Inl (E, i, depth, b)) \<Rightarrow> (4 * (66 - depth) + 2, 0)
      | Inr (Inr (E, fs, depth, p, r, b)) \<Rightarrow> (4 * (66 - depth), Suc (length fs)))")
     (auto simp: maxOpenAPISchemaDepth_def)

declare schemaForType.simps [simp del] structSchema.simps [simp del] componentRef.simps [simp del]


section \<open>Parameters, bodies and responses of a handler\<close>

definition openAPIParameterWithBuilder :: "oenv \<Rightarrow> string \<Rightarrow> string \<Rightarrow> bool \<Rightarrow> gotype \<Rightarrow> builder \<Rightarrow> json \<times> builder" where
  "openAPIParameterWithBuilder E name place required fieldType b =
     (case schemaForType E fieldType 0 b of
        (s, b) \<Rightarrow> (OObj [(''name'', OStr name), (''in'', OStr place), (''required'', OBool required), (''schema'', s)], b))"

definition openAPIParameter :: "oenv \<Rightarrow> string \<Rightarrow> string \<Rightarrow> bool \<Rightarrow> gotype \<Rightarrow> json" where
  "openAPIParameter E name place required fieldType =
     fst (openAPIParameterWithBuilder E name place required fieldType (newOpenAPISchemaBuilder []))"

text \<open>The place and name of the parameter a field stands for.\<close>

definition parameter_of :: "sfield \<Rightarrow> (string \<times> string \<times> bool) option" where
  "parameter_of f =
     (if tagFieldName (sfUri f) \<noteq> [] then Some (tagFieldName (sfUri f), ''path'', True)
      else if tagFieldName (sfQuery f) \<noteq> [] then Some (tagFieldName (sfQuery f), ''query'', hasRequiredBinding f)
      else if tagFieldName (sfForm f) \<noteq> [] then Some (tagFieldName (sfForm f), ''query'', hasRequiredBinding f)
      else None)"

text \<open>The struct that is embedded through a field.\<close>

definition embedded_struct :: "sfield \<Rightarrow> nat option" where
  "embedded_struct f = (if sfAnonymous f then (case derefType (sfType f) of TStruct j \<Rightarrow> Some j | _ \<Rightarrow> None) else None)"

function openAPIParametersFromStruct :: "oenv \<Rightarrow> nat \<Rightarrow> nat list \<Rightarrow> nat \<Rightarrow> builder \<Rightarrow> json list \<times> builder"
  and parameters_of_fields :: "oenv \<Rightarrow> sfield list \<Rightarrow> nat list \<Rightarrow> nat \<Rightarrow> builder \<Rightarrow> json list \<times> builder"
where
  "openAPIParametersFromStruct E i visited depth b =
     (if maxOpenAPISchemaDepth \<le> depth \<or> i \<in> set visited then ([], b)
      else parameters_of_fields E (oaFields E i) (i # visited) depth b)"
| "parameters_of_fields E [] visited depth b = ([], b)"
| "parameters_of_fields E (f # fs) visited depth b =
     (case (if \<not> sfExported f then ([], b)
            else case embedded_struct f of
              Some j \<Rightarrow> openAPIParametersFromStruct E j visited (depth + 1) b
            | None \<Rightarrow>
                (case parameter_of f of
                   None \<Rightarrow> ([], b)
                 | Some (name, place, required) \<Rightarrow>
                     (case openAPIParameterWithBuilder E name place required (sfType f) b of (p, b) \<Rightarrow> ([p], b)))) of
        (ps, b) \<Rightarrow> (case parameters_of_fields E fs visited depth b of (qs, b) \<Rightarrow> (ps @ qs, b)))"
  by pat_completeness auto

termination
  by (relation "inv_image (less_than <*lex*> less_than) (\<lambda>x. case x of
        Inl (E, i, visited, depth, b) \<Rightarrow> (if 64 \<le> depth then 0 else 2 * (66 - depth) + 1, 0)
      | Inr (E, fs, visited, depth, b) \<Rightarrow> (2 * (66 - depth), Suc (length fs)))")
     (auto simp: maxOpenAPISchemaDepth_def)

declare openAPIParametersFromStruct.simps [simp del]

definition obj_get :: "string \<Rightarrow> json \<Rightarrow> json option" where
  "obj_get k j = (case j of OObj es \<Rightarrow> map_of es k | _ \<Rightarrow> None)"

text \<open>The properties and the required names of an embedded struct.\<close>

definition nested_properties :: "json option \<Rightarrow> (string \<times> json) list" where
  "nested_properties nested =
     (case nested of None \<Rightarrow> [] | Some j \<Rightarrow> (case obj_get ''properties'' j of Some (OObj ps) \<Rightarrow> ps | _ \<Rightarrow> []))"

definition nested_required :: "json option \<Rightarrow> string list" where
  "nested_required nested =
     (case nested of None \<Rightarrow> [] | Some j \<Rightarrow> (case obj_get ''required'' j of Some (OStrs rs) \<Rightarrow> rs | _ \<Rightarrow> []))"

function openAPIRequestBodySchema :: "oenv \<Rightarrow> nat \<Rightarrow> nat list \<Rightarrow> nat \<Rightarrow> builder \<Rightarrow> json option \<times> builder"
  and body_fields :: "oenv \<Rightarrow> sfield list \<Rightarrow> nat list \<Rightarrow> nat \<Rightarrow> (string \<times> json) list \<Rightarrow> string list \<Rightarrow> builder \<Rightarrow> json option \<times> builder"
where
  "openAPIRequestBodySchema E i visited depth b =
     (if maxOpenAPISchemaDepth \<le> depth \<or> i \<in> set visited then (Some object_schema, b)
      else if isRecursive E i then (case schemaForType E (TStruct i) depth b of (s, b) \<Rightarrow> (Some s, b))
      else body_fields E (oaFields E i) (i # visited) depth [] [] b)"
| "body_fields E [] visited depth properties required b =
     (if properties = [] then None
      else Some (OObj ([(''type'', OStr ''object''), (''properties'', OObj properties)] @ required_entry required)), b)"
| "body_fields E (f # fs) visited depth properties required b =
     (if json_hidden f then body_fields E fs visited depth properties required b
      else case embedded_struct f of
        Some j \<Rightarrow>
          (case openAPIRequestBodySchema E j visited (depth + 1) b of
             (nested, b) \<Rightarrow>
               body_fields E fs visited depth (fold (\<lambda>(k, v). AList.update k v) (nested_properties nested) properties)
                 (required @ nested_required nested) b)
      | None \<Rightarrow>
          (case schemaForType E (sfType f) (depth + 1) b of
             (s, b) \<Rightarrow>
               body_fields E fs visited depth (AList.update (json_name f) s properties)
                 (required @ (if hasRequiredBinding f then [json_name f] else [])) b))"
  by pat_completeness auto

termination
  by (relation "inv_image (less_than <*lex*> less_than) (\<lambda>x. case x of
        Inl (E, i, visited, depth, b) \<Rightarrow> (if 64 \<le> depth then 0 else 2 * (66 - depth) + 1, 0)
      | Inr (E, fs, visited, depth, p, r, b) \<Rightarrow> (2 * (66 - depth), Suc (length fs)))")
     (auto simp: maxOpenAPISchemaDepth_def)

declare openAPIRequestBodySchema.simps [simp del]

definition openAPIRequestBodyRequired :: "json \<Rightarrow> bool" where
  "openAPIRequestBodyRequired s = (case obj_get ''required'' s of Some (OStrs rs) \<Rightarrow> rs \<noteq> [] | _ \<Rightarrow> False)"

definition openAPIAllowsJSONRequestBody :: "string \<Rightarrow> bool" where
  "openAPIAllowsJSONRequestBody method = (ToUpper (TrimSpace method) \<in> set [''POST'', ''PUT'', ''PATCH''])"

definition openAPIEnvelopeResponseSchema :: "json \<Rightarrow> json" where
  "openAPIEnvelopeResponseSchema data =
     OObj [(''type'', OStr ''object''),
       (''properties'', OObj [(''code'', OObj [(''type'', OStr ''integer'')]), (''message'', OObj [(''type'', OStr ''string'')]),
          (''data'', data)]),
       (''required'', OStrs [''code'', ''message''])]"

text \<open>The field \<open>Data\<close> of \<open>Response\<close> is an \<open>interface{}\<close>.\<close>

definition response_data :: gotype where
  "response_data = TIface"

fun openAPIResponseSchema :: "oenv \<Rightarrow> (gotype \<times> bool) list \<Rightarrow> bool \<Rightarrow> builder \<Rightarrow> json option \<times> builder" where
  "openAPIResponseSchema E [] envelopeMode b = (None, b)"
| "openAPIResponseSchema E ((t, is_error) # outs) envelopeMode b =
     (if is_error then openAPIResponseSchema E outs envelopeMode b
      else if envelopeMode \<and> derefType t = TStruct (oaResponse E)
      then (case schemaForType E response_data 0 b of (s, b) \<Rightarrow> (Some (openAPIEnvelopeResponseSchema s), b))
      else case schemaForType E t 0 b of
        (s, b) \<Rightarrow> (Some (if envelopeMode then openAPIEnvelopeResponseSchema s else s), b))"

section \<open>Operations\<close>

type_synonym operation = "(string \<times> json) list"

definition json_content :: "json \<Rightarrow> json" where
  "json_content s = OObj [(''application/json'', OObj [(''schema'', s)])]"

fun enrich_inputs :: "oenv \<Rightarrow> string \<Rightarrow> gotype list \<Rightarrow> json list \<Rightarrow> operation \<Rightarrow> builder \<Rightarrow> json list \<times> operation \<times> builder" where
  "enrich_inputs E method [] parameters op b = (parameters, op, b)"
| "enrich_inputs E method (t # ts) parameters op b =
     (case derefType t of
        TStruct i \<Rightarrow>
          if i = oaGinContext E then enrich_inputs E method ts parameters op b
          else (case openAPIParametersFromStruct E i [] 0 b of
            (ps, b) \<Rightarrow>
              if openAPIAllowsJSONRequestBody method then
                (case openAPIRequestBodySchema E i [] 0 b of
                   (None, b) \<Rightarrow> enrich_inputs E method ts (parameters @ ps) op b
                 | (Some s, b) \<Rightarrow>
                     enrich_inputs E method ts (parameters @ ps)
                       (AList.update ''requestBody''
                         (OObj [(''required'', OBool (openAPIRequestBodyRequired s)), (''content'', json_content s)]) op) b)
              else enrich_inputs E method ts (parameters @ ps) op b)
      | _ \<Rightarrow> enrich_inputs E method ts parameters op b)"

definition enrichOpenAPIOperation :: "oenv \<Rightarrow> operation \<Rightarrow> string \<Rightarrow> handler_type option \<Rightarrow> bool \<Rightarrow> builder \<Rightarrow> operation \<times> builder" where
  "enrichOpenAPIOperation E op method h envelopeMode b =
     (case h of
        None \<Rightarrow> (op, b)
      | Some ht \<Rightarrow>
          if \<not> htIsFunc ht then (op, b)
          else (case enrich_inputs E method (htIn ht) [] op b of
            (parameters, op, b) \<Rightarrow>
              let op = (if parameters = [] then op else AList.update ''parameters'' (OList parameters) op) in
              (case openAPIResponseSchema E (htOut ht) envelopeMode b of
                 (None, b) \<Rightarrow> (op, b)
               | (Some s, b) \<Rightarrow>
                   (AList.update ''responses''
                     (OObj [(''200'', OObj [(''description'', OStr ''OK''), (''content'', json_content s)])]) op, b))))"

definition path_parameter_names :: "json list \<Rightarrow> string list" where
  "path_parameter_names ps =
     concat (map (\<lambda>p. if obj_get ''in'' p = Some (OStr ''path'')
        then (case obj_get ''name'' p of Some (OStr n) \<Rightarrow> [n] | _ \<Rightarrow> []) else []) ps)"

text \<open>The name in a segment \<open>{name}\<close>.\<close>

definition placeholder :: "string \<Rightarrow> string option" where
  "placeholder segment =
     (if length segment < 3 \<or> hd segment \<noteq> CHR 0x7B \<or> last segment \<noteq> CHR 0x7D then None
      else Some (butlast (tl segment)))"

fun add_path_parameters :: "oenv \<Rightarrow> string list \<Rightarrow> json list \<Rightarrow> json list" where
  "add_path_parameters E [] ps = ps"
| "add_path_parameters E (seg # segs) ps =
     add_path_parameters E segs
       (case placeholder seg of
          None \<Rightarrow> ps
        | Some name \<Rightarrow>
            if name \<in> set (path_parameter_names ps) then ps
            else ps @ [openAPIParameter E name ''path'' True TString])"

definition op_parameters :: "operation \<Rightarrow> json list" where
  "op_parameters op = (case map_of op ''parameters'' of Some (OList ps) \<Rightarrow> ps | _ \<Rightarrow> [])"

definition ensureOpenAPIPathParameters :: "oenv \<Rightarrow> operation \<Rightarrow> string \<Rightarrow> operation" where
  "ensureOpenAPIPathParameters E op path =
     (let ps = add_path_parameters E (Split CHR ''/'' path) (op_parameters op) in
      if ps = [] then op else AList.update ''parameters'' (OList ps) op)"

definition openAPIErrorResponse :: "string \<Rightarrow> json" where
  "openAPIErrorResponse description =
     OObj [(''description'', OStr description), (''content'', json_content (component_ref ''ErrorResponse''))]"

definition addStandardOpenAPIErrorResponses :: "operation \<Rightarrow> bool \<Rightarrow> operation" where
  "addStandardOpenAPIErrorResponses op includeUnauthorized =
     (let responses = (case map_of op ''responses'' of Some (OObj rs) \<Rightarrow> rs | _ \<Rightarrow> []);
          responses = AList.update ''400'' (openAPIErrorResponse ''Bad Request'') responses;
          responses = (if includeUnauthorized then AList.update ''401'' (openAPIErrorResponse ''Unauthorized'') responses else responses);
          responses = AList.update ''403'' (openAPIErrorResponse ''Forbidden'') responses;
          responses = AList.update ''404'' (openAPIErrorResponse ''Not Found'') responses;
          responses = AList.update ''500'' (openAPIErrorResponse ''Internal Server Error'') responses in
      AList.update ''responses'' (OObj responses) op)"

section \<open>The document\<close>

text \<open>
  A fairing is told apart from the others only if it is an \<open>*AuthFairing\<close>. \<open>omController\<close> is what
  the method \<open>OpenAPI\<close> of the controller returns, if there is one that is not nil.
\<close>

datatype fairing_type = IsAuthFairing | IsOtherFairing

record openapi_info =
  oiSummary :: string
  oiDescription :: string
  oiTags :: "string list"

record route_metadata =
  roMethod :: string
  roPath :: string
  roGroupName :: string
  roHandlerType :: "handler_type option"
  roHandlerName :: string

record openapi_metadata =
  omFullPath :: string
  omController :: "(string \<times> openapi_info) list option"
  omFairings :: "fairing_type list"

record doc_config =
  dcName :: string
  dcEnvelope :: bool
  dcPublicPaths :: "string list option"

text \<open>The store of metadata is keyed by the whole record of a route, so a later registration replaces it.\<close>

type_synonym metadata_store = "(route_metadata \<times> openapi_metadata) list"

definition setOpenAPIRouteMetadata ::
  "route_metadata \<Rightarrow> string \<Rightarrow> (string \<times> openapi_info) list option \<Rightarrow> fairing_type list \<Rightarrow> metadata_store \<Rightarrow> metadata_store" where
  "setOpenAPIRouteMetadata route fullPath controller fairings store =
     AList.update route \<lparr>omFullPath = fullPath, omController = controller, omFairings = fairings\<rparr> store"

definition openAPIRouteMetadata :: "metadata_store \<Rightarrow> route_metadata \<Rightarrow> openapi_metadata" where
  "openAPIRouteMetadata store route =
     (case map_of store route of Some m \<Rightarrow> m | None \<Rightarrow> \<lparr>omFullPath = [], omController = None, omFairings = []\<rparr>)"

definition openAPIHasAuthFairing :: "fairing_type list \<Rightarrow> bool" where
  "openAPIHasAuthFairing fs = (IsAuthFairing \<in> set fs)"

fun single_slashes :: "string \<Rightarrow> string" where
  "single_slashes (a # b # s) =
     (if a = CHR ''/'' \<and> b = CHR ''/'' then CHR ''/'' # single_slashes s else a # single_slashes (b # s))"
| "single_slashes s = s"

definition toOpenAPIPath :: "string \<Rightarrow> string" where
  "toOpenAPIPath path =
     Join CHR ''/'' (map (\<lambda>part.
       if (HasPrefix part '':'' \<or> HasPrefix part ''*'') \<and> 1 < length part
       then CHR 0x7B # tl part @ [CHR 0x7D] else part) (Split CHR ''/'' path))"

definition openAPIMethodAllowed :: "string \<Rightarrow> bool" where
  "openAPIMethodAllowed method =
     (method \<in> set [''get'', ''put'', ''post'', ''delete'', ''options'', ''head'', ''patch'', ''trace''])"

definition openAPIGeneratedOperationID :: "route_metadata \<Rightarrow> bool" where
  "openAPIGeneratedOperationID route =
     (case roHandlerType route of None \<Rightarrow> False | Some ht \<Rightarrow> htIsFunc ht \<and> TrimSpace (roHandlerName route) = htString ht)"

definition openAPIRouteOperationSuffix :: "string \<Rightarrow> string \<Rightarrow> string" where
  "openAPIRouteOperationSuffix method path =
     (let replaced = concat (map (\<lambda>c. if c = CHR ''/'' \<or> c = CHR ''-'' then ''_''
             else if c \<in> set [CHR 0x7B, CHR 0x7D, CHR '':'', CHR ''*''] then [] else [c]) (ToLower method @ ''_'' @ path));
          trimmed = TrimChar CHR ''_'' replaced in
      if trimmed = [] then ''root'' else trimmed)"

definition openAPIOperationID :: "route_metadata \<Rightarrow> string \<Rightarrow> string \<Rightarrow> string list \<Rightarrow> string + string" where
  "openAPIOperationID route method path seen =
     (let operationID = TrimSpace (roHandlerName route) in
      if operationID \<notin> set seen then Inr operationID
      else if \<not> openAPIGeneratedOperationID route then Inl (''duplicate operationId '' @ Quote operationID)
      else let operationID = operationID @ ''_'' @ openAPIRouteOperationSuffix method path in
        if operationID \<in> set seen then Inl (''duplicate operationId '' @ Quote operationID) else Inr operationID)"

definition openAPIRouteIsPublic :: "string \<Rightarrow> doc_config option \<Rightarrow> bool" where
  "openAPIRouteIsPublic path config =
     (case config of None \<Rightarrow> False
      | Some c \<Rightarrow> (case dcPublicPaths c of None \<Rightarrow> False | Some ps \<Rightarrow> list_ex (publicPathMatch path) ps))"

definition openAPIControllerInfo :: "openapi_metadata \<Rightarrow> route_metadata \<Rightarrow> string \<Rightarrow> openapi_info option" where
  "openAPIControllerInfo m route openAPIPath =
     (case omController m of
        None \<Rightarrow> None
      | Some infoByPath \<Rightarrow>
          (case filter (\<lambda>c. c \<noteq> [] \<and> map_of infoByPath c \<noteq> None) [omFullPath m, openAPIPath, roPath route] of
             [] \<Rightarrow> None
           | c # cs \<Rightarrow> map_of infoByPath c))"

text \<open>The path a route is served under, with single slashes, before its parameters are rewritten.\<close>

definition route_path :: "openapi_metadata \<Rightarrow> route_metadata \<Rightarrow> string" where
  "route_path m route =
     (let path = TrimSpace (omFullPath m);
          path = (if path \<noteq> [] then path
                  else if roGroupName route \<noteq> [] \<and> \<not> HasPrefix (roPath route) (CHR ''/'' # roGroupName route)
                  then CHR ''/'' # roGroupName route @ roPath route
                  else roPath route) in
      single_slashes path)"

record doc_state =
  dsBuilder :: builder
  dsPaths :: "(string \<times> (string \<times> operation) list) list"
  dsRoutes :: "(string \<times> string) list"
  dsOperationIDs :: "string list"

definition bearer :: json where
  "bearer = OList [OObj [(''BearerAuth'', OStrs [])]]"

definition new_operation :: "string \<Rightarrow> operation" where
  "new_operation operationID =
     [(''operationId'', OStr operationID), (''responses'', OObj [(''200'', OObj [(''description'', OStr ''OK'')])])]"

definition put_security :: "bool \<Rightarrow> bool \<Rightarrow> bool \<Rightarrow> operation \<Rightarrow> operation" where
  "put_security publicRoute routeAuth globalAuth op =
     (if publicRoute then AList.update ''security'' (OList []) op
      else if routeAuth \<and> \<not> globalAuth then AList.update ''security'' bearer op
      else op)"

definition put_info :: "openapi_info option \<Rightarrow> operation \<Rightarrow> operation" where
  "put_info info op =
     (case info of None \<Rightarrow> op
      | Some i \<Rightarrow> AList.update ''tags'' (OStrs (oiTags i))
          (AList.update ''description'' (OStr (oiDescription i)) (AList.update ''summary'' (OStr (oiSummary i)) op)))"

text \<open>One round of the loop over the routes.\<close>

definition document_route ::
  "oenv \<Rightarrow> doc_config option \<Rightarrow> bool \<Rightarrow> metadata_store \<Rightarrow> route_metadata \<Rightarrow> doc_state \<Rightarrow> string + doc_state" where
  "document_route E config globalAuth store route ds =
     (let method = ToLower (TrimSpace (roMethod route));
          envelopeMode = (case config of None \<Rightarrow> False | Some c \<Rightarrow> dcEnvelope c) in
      if method = [] then Inl (''openapi route '' @ Quote (roPath route) @ '' missing method'')
      else if \<not> openAPIMethodAllowed method then
        Inl (''openapi route '' @ Quote (roPath route) @ '' has unsupported method '' @ Quote (roMethod route))
      else if TrimSpace (roPath route) = [] then Inl (''openapi route '' @ Quote (roHandlerName route) @ '' missing path'')
      else if TrimSpace (roHandlerName route) = [] then
        Inl (''openapi route '' @ roMethod route @ '' '' @ roPath route @ '' missing operationId'')
      else
        let m = openAPIRouteMetadata store route;
            rawPath = route_path m route;
            routeAuth = (globalAuth \<or> openAPIHasAuthFairing (omFairings m));
            publicRoute = (routeAuth \<and> openAPIRouteIsPublic rawPath config);
            path = toOpenAPIPath rawPath;
            routeKey = method @ '' '' @ path in
        case map_of (dsRoutes ds) routeKey of
          Some previous \<Rightarrow>
            Inl (''duplicate route '' @ ToUpper method @ '' '' @ path @ '' for '' @ Quote previous @ '' and '' @ Quote (roHandlerName route))
        | None \<Rightarrow>
            (case openAPIOperationID route method path (dsOperationIDs ds) of
               Inl e \<Rightarrow> Inl e
             | Inr operationID \<Rightarrow>
                 (case enrichOpenAPIOperation E (new_operation operationID) method (roHandlerType route) envelopeMode (dsBuilder ds) of
                   (op, b) \<Rightarrow>
                     let op = ensureOpenAPIPathParameters E op path;
                         op = put_security publicRoute routeAuth globalAuth op;
                         op = addStandardOpenAPIErrorResponses op (routeAuth \<and> \<not> publicRoute);
                         op = put_info (openAPIControllerInfo m route path) op;
                         item = (case map_of (dsPaths ds) path of None \<Rightarrow> [] | Some i \<Rightarrow> i) in
                     Inr \<lparr>dsBuilder = b, dsPaths = AList.update path (AList.update method op item) (dsPaths ds),
                          dsRoutes = (routeKey, roHandlerName route) # dsRoutes ds,
                          dsOperationIDs = operationID # dsOperationIDs ds\<rparr>)))"

fun document_routes ::
  "oenv \<Rightarrow> doc_config option \<Rightarrow> bool \<Rightarrow> metadata_store \<Rightarrow> route_metadata list \<Rightarrow> doc_state \<Rightarrow> string + doc_state" where
  "document_routes E config globalAuth store [] ds = Inr ds"
| "document_routes E config globalAuth store (r # rs) ds =
     (case document_route E config globalAuth store r ds of
        Inl e \<Rightarrow> Inl e
      | Inr ds \<Rightarrow> document_routes E config globalAuth store rs ds)"

definition error_response_schema :: json where
  "error_response_schema =
     OObj [(''type'', OStr ''object''),
       (''properties'', OObj [(''code'', OObj [(''type'', OStr ''integer'')]), (''message'', OObj [(''type'', OStr ''string'')]),
          (''data'', OObj [(''type'', OStr ''object'')])]),
       (''required'', OStrs [''code'', ''message''])]"

definition start_state :: doc_state where
  "start_state =
     \<lparr>dsBuilder = newOpenAPISchemaBuilder [(''ErrorResponse'', error_response_schema)], dsPaths = [], dsRoutes = [],
      dsOperationIDs = []\<rparr>"

definition security_schemes :: json where
  "security_schemes =
     OObj [(''BearerAuth'', OObj [(''type'', OStr ''http''), (''scheme'', OStr ''bearer''), (''bearerFormat'', OStr ''JWT'')])]"

definition render_document :: "doc_config option \<Rightarrow> bool \<Rightarrow> bool \<Rightarrow> doc_state \<Rightarrow> json" where
  "render_document config anyAuth globalAuth ds =
     OObj ([(''openapi'', OStr ''3.0.0''),
       (''info'', OObj [(''title'', OStr (case config of None \<Rightarrow> ''gin-bear'' | Some c \<Rightarrow> if dcName c = [] then ''gin-bear'' else dcName c)),
          (''version'', OStr ''1.0.0'')]),
       (''paths'', OObj (map (\<lambda>(p, ops). (p, OObj (map (\<lambda>(m, op). (m, OObj op)) ops))) (dsPaths ds))),
       (''components'', OObj ((''schemas'', OObj (obComponents (dsBuilder ds)))
          # (if anyAuth then [(''securitySchemes'', security_schemes)] else [])))]
       @ (if globalAuth then [(''security'', bearer)] else []))"

definition GenerateOpenAPI ::
  "oenv \<Rightarrow> doc_config option \<Rightarrow> fairing_type list \<Rightarrow> metadata_store \<Rightarrow> route_metadata list \<Rightarrow> string + json" where
  "GenerateOpenAPI E config globals store routes =
     (let globalAuth = openAPIHasAuthFairing globals;
          anyAuth = (globalAuth \<or> list_ex (\<lambda>r. openAPIHasAuthFairing (omFairings (openAPIRouteMetadata store r))) routes) in
      case document_routes E config globalAuth store routes start_state of
        Inl e \<Rightarrow> Inl e
      | Inr ds \<Rightarrow>
          let document = render_document config anyAuth globalAuth ds in
          (case oaValidate E document of Some e \<Rightarrow> Inl e | None \<Rightarrow> Inr document))"

end
