(* ===== verification/OpenApiProps.thy ===== *)
theory OpenApiProps
  imports OpenApi
begin

text \<open>
  What a generated document promises: every reference in it resolves, to the schema of the struct it was
  made for; every route has its operation, with a parameter for every part of the path that stands for
  one, an id of its own and the security of the route.
\<close>

section \<open>Names of components\<close>

lemma Itoa_digit: "n < 10 \<Longrightarrow> m < 10 \<Longrightarrow> ''0123456789'' ! n = ''0123456789'' ! m \<Longrightarrow> n = m"
  using nth_eq_iff_index_eq [of "''0123456789''" n m] by simp

lemma Itoa_inject: "Itoa n = Itoa m \<Longrightarrow> n = m"
proof (induction n arbitrary: m rule: less_induct)
  case (less n)
  show ?case
  proof (cases "n < 10 \<or> m < 10")
    case True
    then show ?thesis
      using less.prems Itoa_digit [of n m]
      by (cases "n < 10"; cases "m < 10") (auto simp: Itoa.simps [of n] Itoa.simps [of m] Itoa_not_Nil [symmetric])
  next
    case False
    then have "Itoa (n div 10) = Itoa (m div 10) \<and> ''0123456789'' ! (n mod 10) = ''0123456789'' ! (m mod 10)"
      using less.prems by (simp add: Itoa.simps [of n] Itoa.simps [of m])
    then have "n div 10 = m div 10" "n mod 10 = m mod 10"
      using less.IH [of "n div 10" "m div 10"] Itoa_digit [of "n mod 10" "m mod 10"] False by auto
    then show ?thesis by (metis div_mult_mod_eq)
  qed
qed

definition candidates :: "string \<Rightarrow> nat \<Rightarrow> nat \<Rightarrow> string list" where
  "candidates base k n = map (\<lambda>j. base @ ''_'' @ Itoa j) [k..<k + n]"

lemma candidates_Suc: "candidates base k (Suc n) = (base @ ''_'' @ Itoa k) # candidates base (Suc k) n"
  by (simp add: candidates_def upt_rec)

lemma taken_in_use: "name_taken b i name \<Longrightarrow> name \<in> fst ` set (obUsed b)"
  by (force simp: name_taken_def split: option.splits dest: map_of_SomeD)

lemma all_candidates_taken:
  "name_taken b i (free_name b i base k name n) \<Longrightarrow> set (name # candidates base k n) \<subseteq> fst ` set (obUsed b)"
proof (induction n arbitrary: k name)
  case 0
  then show ?case using taken_in_use by (simp add: candidates_def)
next
  case (Suc n)
  then have taken: "name_taken b i name" by (auto split: if_splits)
  then have "set ((base @ ''_'' @ Itoa k) # candidates base (k + 1) n) \<subseteq> fst ` set (obUsed b)"
    using Suc by simp
  then show ?case using taken_in_use [OF taken] by (simp add: candidates_Suc)
qed

lemma free_name_is_free: "\<not> name_taken b i (free_name b i base 2 base (length (obUsed b) + 1))"
proof
  let ?ns = "base # candidates base 2 (length (obUsed b) + 1)"
  assume "name_taken b i (free_name b i base 2 base (length (obUsed b) + 1))"
  then have sub: "set ?ns \<subseteq> fst ` set (obUsed b)" by (rule all_candidates_taken)
  have "distinct ?ns" by (auto simp: candidates_def distinct_map inj_on_def dest: Itoa_inject)
  then have "length ?ns = card (set ?ns)" by (rule distinct_card [symmetric])
  also have "\<dots> \<le> card (fst ` set (obUsed b))" by (rule card_mono [OF _ sub]) simp
  also have "\<dots> \<le> length (obUsed b)" using card_length [of "map fst (obUsed b)"] by simp
  finally show False by (simp add: candidates_def del: upt_Suc)
qed

section \<open>References\<close>

fun refs :: "json \<Rightarrow> string set" where
  "refs (OObj es) = (\<Union>(k, v)\<in>set es. (case v of OStr s \<Rightarrow> if k = ''$ref'' then {s} else {} | _ \<Rightarrow> {}) \<union> refs v)"
| "refs (OList js) = (\<Union>j\<in>set js. refs j)"
| "refs _ = {}"

definition ref_to :: "string \<Rightarrow> string" where
  "ref_to name = ''#/components/schemas/'' @ name"

definition component_names :: "builder \<Rightarrow> string set" where
  "component_names b = fst ` set (obComponents b)"

definition closed :: "builder \<Rightarrow> json \<Rightarrow> bool" where
  "closed b j \<longleftrightarrow> refs j \<subseteq> ref_to ` component_names b"

lemma refs_component_ref: "refs (component_ref n) = {ref_to n}"
  by (simp add: component_ref_def ref_to_def)

lemma closed_simps [simp]:
  "closed b (OStr s)" "closed b (OBool c)" "closed b (OStrs ss)" "closed b (OObj [])"
  "closed b (OList js) \<longleftrightarrow> (\<forall>j \<in> set js. closed b j)"
  "closed b object_schema" "closed b (component_ref n) \<longleftrightarrow> ref_to n \<in> ref_to ` component_names b"
  by (auto simp: closed_def object_schema_def refs_component_ref)

definition entry_closed :: "builder \<Rightarrow> string \<Rightarrow> json \<Rightarrow> bool" where
  "entry_closed b k v \<longleftrightarrow>
     closed b v \<and> (case v of OStr s \<Rightarrow> k = ''$ref'' \<longrightarrow> s \<in> ref_to ` component_names b | _ \<Rightarrow> True)"

lemma closed_Obj: "closed b (OObj es) \<longleftrightarrow> (\<forall>(k, v) \<in> set es. entry_closed b k v)"
proof -
  have "(case v of OStr s \<Rightarrow> if k = ''$ref'' then {s} else {} | _ \<Rightarrow> {}) \<union> refs v \<subseteq> ref_to ` component_names b
      \<longleftrightarrow> entry_closed b k v" for k v
    by (cases v) (simp_all add: entry_closed_def closed_def)
  then show ?thesis by (simp add: closed_def UN_subset_iff case_prod_beta)
qed

lemma closed_Cons [simp]: "closed b (OObj ((k, v) # es)) \<longleftrightarrow> entry_closed b k v \<and> closed b (OObj es)"
  by (simp add: closed_Obj)

lemma closed_append [simp]: "closed b (OObj (es @ ds)) \<longleftrightarrow> closed b (OObj es) \<and> closed b (OObj ds)"
  by (auto simp: closed_Obj)

lemma entry_closed_plain [simp]:
  "k \<noteq> ''$ref'' \<Longrightarrow> entry_closed b k v \<longleftrightarrow> closed b v"
  "entry_closed b k (OObj es) \<longleftrightarrow> closed b (OObj es)"
  by (simp_all add: entry_closed_def split: json.split)

lemma set_update: "e \<in> set (AList.update k v al) \<Longrightarrow> e = (k, v) \<or> e \<in> set al"
  by (induction al) (auto split: if_splits)

lemma closed_update: "closed b (OObj es) \<Longrightarrow> entry_closed b k v \<Longrightarrow> closed b (OObj (AList.update k v es))"
  by (auto simp: closed_Obj dest: set_update)

definition property_keys :: "json \<Rightarrow> string set" where
  "property_keys s = (case obj_get ''properties'' s of Some (OObj ps) \<Rightarrow> fst ` set ps | _ \<Rightarrow> {})"

definition field_names :: "sfield list \<Rightarrow> string set" where
  "field_names fs = json_name ` {f \<in> set fs. \<not> json_hidden f}"

text \<open>
  The invariant of the builder: names and their users are each other's inverse, every component
  has a user, every name a component, and the references of all components resolve.
\<close>

definition good :: "builder \<Rightarrow> bool" where
  "good b \<longleftrightarrow>
     (\<forall>i n. map_of (obNames b) i = Some n \<longleftrightarrow> map_of (obUsed b) n = Some (Some i))
   \<and> (\<forall>n. map_of (obUsed b) n = Some None \<longleftrightarrow> n = ''ErrorResponse'')
   \<and> (\<forall>n. n \<in> component_names b \<longleftrightarrow> map_of (obUsed b) n \<noteq> None)
   \<and> closed b (OObj (obComponents b))
   \<and> distinct (map fst (obComponents b)) \<and> distinct (map fst (obNames b))"

lemma goodD:
  assumes "good b"
  shows "map_of (obNames b) i = Some n \<longleftrightarrow> map_of (obUsed b) n = Some (Some i)"
    "map_of (obUsed b) n = Some None \<longleftrightarrow> n = ''ErrorResponse''"
    "n \<in> component_names b \<longleftrightarrow> map_of (obUsed b) n \<noteq> None"
    "closed b (OObj (obComponents b))"
    "distinct (map fst (obComponents b))" "distinct (map fst (obNames b))"
  using assms unfolding good_def by simp_all

definition complete :: "oenv \<Rightarrow> builder \<Rightarrow> nat \<Rightarrow> bool" where
  "complete E b i \<longleftrightarrow>
     (\<exists>n s. map_of (obNames b) i = Some n \<and> map_of (obComponents b) n = Some s \<and> property_keys s = field_names (oaFields E i))"

definition grows :: "oenv \<Rightarrow> builder \<Rightarrow> builder \<Rightarrow> bool" where
  "grows E b c \<longleftrightarrow>
     good c
   \<and> (\<forall>n \<in> component_names b. map_of (obComponents c) n = map_of (obComponents b) n)
   \<and> map_of (obNames b) \<subseteq>\<^sub>m map_of (obNames c)
   \<and> (\<forall>i n. map_of (obNames c) i = Some n \<longrightarrow> map_of (obNames b) i = Some n \<or> complete E c i)"

lemma grows_refl: "good b \<Longrightarrow> grows E b b"
  by (simp add: grows_def)

lemma growsD:
  assumes "grows E b c"
  shows "good c" "n \<in> component_names b \<Longrightarrow> map_of (obComponents c) n = map_of (obComponents b) n"
    "map_of (obNames b) i = Some m \<Longrightarrow> map_of (obNames c) i = Some m"
    "map_of (obNames c) i = Some m \<Longrightarrow> map_of (obNames b) i = Some m \<or> complete E c i"
proof -
  note g = assms [unfolded grows_def]
  show "good c" using g by (rule conjunct1)
  show "n \<in> component_names b \<Longrightarrow> map_of (obComponents c) n = map_of (obComponents b) n"
    using g by (elim conjE) (erule bspec)
  have "map_of (obNames b) \<subseteq>\<^sub>m map_of (obNames c)" using g by (elim conjE)
  then show "map_of (obNames b) i = Some m \<Longrightarrow> map_of (obNames c) i = Some m" by (force simp: map_le_def)
  have "\<forall>i n. map_of (obNames c) i = Some n \<longrightarrow> map_of (obNames b) i = Some n \<or> complete E c i"
    using g by (elim conjE)
  then show "map_of (obNames c) i = Some m \<Longrightarrow> map_of (obNames b) i = Some m \<or> complete E c i" by simp
qed

lemma component_names_map_of: "n \<in> component_names b \<longleftrightarrow> map_of (obComponents b) n \<noteq> None"
  by (simp add: component_names_def map_of_eq_None_iff)

lemma grows_names: "grows E b c \<Longrightarrow> component_names b \<subseteq> component_names c"
proof
  fix n
  assume "grows E b c" "n \<in> component_names b"
  then have "map_of (obComponents c) n = map_of (obComponents b) n" "map_of (obComponents b) n \<noteq> None"
    by (rule growsD(2), simp add: component_names_map_of)
  then show "n \<in> component_names c" by (simp add: component_names_map_of)
qed

lemma grows_closed: "grows E b c \<Longrightarrow> closed b j \<Longrightarrow> closed c j"
  using grows_names unfolding closed_def by (meson image_mono subset_trans)

lemma complete_grows:
  assumes "grows E b c" "complete E b i"
  shows "complete E c i"
proof -
  obtain n s where n: "map_of (obNames b) i = Some n" "map_of (obComponents b) n = Some s" "property_keys s = field_names (oaFields E i)"
    using assms(2) by (auto simp: complete_def)
  have "n \<in> component_names b" using n(2) by (simp add: component_names_map_of)
  then show ?thesis
    using n growsD(2) [OF assms(1)] growsD(3) [OF assms(1) n(1)] by (auto simp: complete_def)
qed

lemma grows_trans: "grows E b c \<Longrightarrow> grows E c d \<Longrightarrow> grows E b d"
proof -
  assume bc: "grows E b c" and cd: "grows E c d"
  have "map_of (obComponents d) n = map_of (obComponents b) n" if "n \<in> component_names b" for n
    using that growsD(2) [OF bc that] growsD(2) [OF cd, of n] grows_names [OF bc] by auto
  moreover have "map_of (obNames b) \<subseteq>\<^sub>m map_of (obNames d)"
    using bc cd unfolding grows_def by (meson map_le_trans)
  moreover have "map_of (obNames b) i = Some n \<or> complete E d i" if "map_of (obNames d) i = Some n" for i n
    using growsD(4) [OF cd that] growsD(4) [OF bc] complete_grows [OF cd] by blast
  ultimately show ?thesis using growsD(1) [OF cd] unfolding grows_def by blast
qed

text \<open>A step of the builder that returns a schema: an object whose references resolve.\<close>

definition schema_step :: "oenv \<Rightarrow> builder \<Rightarrow> json \<times> builder \<Rightarrow> bool" where
  "schema_step E b r \<longleftrightarrow> grows E b (snd r) \<and> closed (snd r) (fst r) \<and> (\<exists>es. fst r = OObj es)"

lemma schema_stepI: "grows E b c \<Longrightarrow> closed c (OObj es) \<Longrightarrow> schema_step E b (OObj es, c)"
  by (simp add: schema_step_def)

lemma property_keys_simps [simp]:
  "property_keys (OObj ((''type'', OStr t) # (''properties'', OObj ps) # es)) = fst ` set ps"
  by (simp add: property_keys_def obj_get_def)

lemma keys_update: "fst ` set (AList.update k v al) = insert k (fst ` set al)"
  by (induction al) auto

lemma new_name_steps:
  assumes g: "good b" and n: "map_of (obNames b) i = None" and c: "componentName E b i = (name, c)"
  shows "name \<notin> component_names b" "name \<noteq> ''ErrorResponse''" "map_of (obUsed b) name = None"
    "obComponents c = obComponents b" "obNames c = AList.update i name (obNames b)"
    "obUsed c = AList.update name (Some i) (obUsed b)"
proof -
  let ?base = "if oaName E i = [] then ''AnonymousObject'' else oaName E i"
  note c' = c [unfolded componentName_def n option.case Let_def prod.inject]
  have name: "name = free_name b i ?base 2 ?base (length (obUsed b) + 1)"
    using c' by (rule conjunct1 [THEN sym])
  have rest: "c = b\<lparr>obNames := AList.update i name (obNames b), obUsed := AList.update name (Some i) (obUsed b)\<rparr>"
    using conjunct2 [OF c'] unfolding conjunct1 [OF c'] by (rule sym)
  have "\<not> name_taken b i name" unfolding name by (rule free_name_is_free)
  then have "map_of (obUsed b) name = None \<or> map_of (obUsed b) name = Some (Some i)"
    by (auto simp: name_taken_def split: option.splits)
  then show free: "map_of (obUsed b) name = None" using goodD(1) [OF g, of i name] n by simp
  show "name \<notin> component_names b" using free by (simp add: goodD(3) [OF g])
  show "name \<noteq> ''ErrorResponse''" using free goodD(2) [OF g, of name] by simp
  show "obComponents c = obComponents b" "obNames c = AList.update i name (obNames b)"
    "obUsed c = AList.update name (Some i) (obUsed b)" by (simp_all add: rest)
qed

lemma put_component_simps [simp]:
  "map_of (obComponents (put_component n s b)) = (map_of (obComponents b))(n \<mapsto> s)"
  "component_names (put_component n s b) = insert n (component_names b)"
  "obNames (put_component n s b) = obNames b" "obUsed (put_component n s b) = obUsed b"
  by (simp_all add: put_component_def component_names_def keys_update update_conv')

lemma closed_mono: "closed b j \<Longrightarrow> component_names b \<subseteq> component_names c \<Longrightarrow> closed c j"
  unfolding closed_def by (meson image_mono subset_trans)

lemma good_put:
  assumes "closed b (OObj (obComponents b))" "closed (put_component n s b) s" "s = OObj es"
  shows "closed (put_component n s b) (OObj (obComponents (put_component n s b)))"
proof -
  have "closed (put_component n s b) (OObj (obComponents b))" by (rule closed_mono [OF assms(1)]) auto
  then have "closed (put_component n s b) (OObj (AList.update n s (obComponents b)))"
    using assms(2,3) by (intro closed_update) simp_all
  then show ?thesis by (simp add: put_component_def)
qed

lemma good_named:
  assumes g: "good b" and n: "map_of (obNames b) i = None" and c: "componentName E b i = (name, c)"
  shows "good (put_component name object_schema c)"
proof -
  note new = new_name_steps [OF g n c]
  let ?d = "put_component name object_schema c"
  have cc: "component_names c = component_names b" by (simp add: component_names_def new)
  have closed: "closed c (OObj (obComponents c))"
    using goodD(4) [OF g] cc by (simp add: new(4) closed_def)
  have inv: "map_of (obNames ?d) j = Some m \<longleftrightarrow> map_of (obUsed ?d) m = Some (Some j)" for j m
  proof (cases "j = i")
    case True
    then show ?thesis using goodD(1) [OF g, of i m] n by (auto simp: new update_conv')
  next
    case False
    then show ?thesis using goodD(1) [OF g, of j m] new(3) by (auto simp: new update_conv')
  qed
  have none: "map_of (obUsed ?d) m = Some None \<longleftrightarrow> m = ''ErrorResponse''" for m
    using goodD(2) [OF g, of m] new(2) by (auto simp: new(6) update_conv')
  have dom: "m \<in> component_names ?d \<longleftrightarrow> map_of (obUsed ?d) m \<noteq> None" for m
    using goodD(3) [OF g, of m] by (auto simp: new(6) update_conv' cc)
  have cl: "closed ?d (OObj (obComponents ?d))" by (rule good_put [OF closed]) (simp_all add: object_schema_def)
  have "distinct (map fst (obComponents ?d))" "distinct (map fst (obNames ?d))"
    using goodD(5,6) [OF g] by (simp_all add: put_component_def new distinct_update)
  then show ?thesis unfolding good_def using inv none dom cl by (intro conjI allI) auto
qed

lemma componentRef_grows:
  assumes g: "good b" and n: "map_of (obNames b) i = None" and c: "componentName E b i = (name, c)"
    and e: "grows E (put_component name object_schema c) e" and s: "closed e s" "s = OObj es"
    and k: "property_keys s = field_names (oaFields E i)"
  shows "grows E b (put_component name s e)"
proof -
  note new = new_name_steps [OF g n c]
  let ?d = "put_component name object_schema c" and ?f = "put_component name s e"
  have cc: "component_names c = component_names b" by (simp add: component_names_def new)
  have ge: "good e" by (rule growsD(1) [OF e])
  have named: "map_of (obNames e) i = Some name"
    by (rule growsD(3) [OF e]) (simp add: new update_conv')
  have name_e: "name \<in> component_names e" using grows_names [OF e] by auto
  have cf: "component_names ?f = component_names e" using name_e by auto
  have sf: "closed ?f t \<longleftrightarrow> closed e t" for t by (simp only: closed_def cf)
  have good_f: "good ?f"
    unfolding good_def
  proof (intro conjI allI)
    show "closed ?f (OObj (obComponents ?f))" by (rule good_put [OF goodD(4) [OF ge] iffD2 [OF sf s(1)] s(2)])
    show "distinct (map fst (obComponents ?f))"
      using goodD(5) [OF ge] by (simp add: put_component_def distinct_update)
  qed (use goodD(1-3,6) [OF ge] in \<open>simp_all only: put_component_simps(3,4) cf\<close>)
  have keep: "map_of (obComponents ?f) m = map_of (obComponents b) m" if "m \<in> component_names b" for m
    using growsD(2) [OF e, of m] that new(1) cc by (auto simp: new(4))
  have names: "map_of (obNames b) \<subseteq>\<^sub>m map_of (obNames ?f)"
  proof (clarsimp simp: map_le_def)
    fix j m
    assume j: "map_of (obNames b) j = Some m"
    then have "map_of (obNames ?d) j = Some m" using n by (auto simp: new update_conv')
    then show "Some m = map_of (obNames e) j" using growsD(3) [OF e] by simp
  qed
  have done_i: "complete E ?f i" using named k by (simp add: complete_def)
  have "map_of (obNames b) j = Some m \<or> complete E ?f j" if j: "map_of (obNames ?f) j = Some m" for j m
  proof (cases "j = i")
    case False
    consider "map_of (obNames ?d) j = Some m" | "complete E e j" using growsD(4) [OF e] j by auto
    then show ?thesis
    proof cases
      case 1
      then show ?thesis using False by (simp add: new update_conv')
    next
      case 2
      have "m \<noteq> name" using goodD(1) [OF ge, of i name] goodD(1) [OF ge, of j m] named j False by auto
      then show ?thesis using 2 j by (auto simp: complete_def)
    qed
  qed (use done_i in simp)
  then show ?thesis unfolding grows_def using good_f keep names by blast
qed

text \<open>The functions that build schemas, by their common induction.\<close>

lemma schema_stepD:
  assumes "schema_step E b (s, c)"
  shows "grows E b c" "closed c s" "good c" "\<exists>es. s = OObj es"
  using assms growsD(1) by (auto simp: schema_step_def)

lemma schema_step_wrap:
  assumes "schema_step E b (s, c)"
  shows "schema_step E b (OObj [(''type'', OStr x), (''items'', s)], c)"
    "schema_step E b (OObj [(''type'', OStr x), (''additionalProperties'', s)], c)"
  using schema_stepD [OF assms] by (simp_all add: schema_step_def)

lemma plain_schema_step: "good b \<Longrightarrow> closed b (OObj es) \<Longrightarrow> schema_step E b (OObj es, b)"
  by (simp add: schema_step_def grows_refl)

lemma schema_steps:
  "good b \<Longrightarrow> schema_step E b (schemaForType E t d b)"
  "good b \<Longrightarrow> schema_step E b (structSchema E i d b) \<and> property_keys (fst (structSchema E i d b)) = field_names (oaFields E i)"
  "good b \<Longrightarrow> schema_step E b (componentRef E i d b)"
  "good b \<Longrightarrow> closed b (OObj ps) \<Longrightarrow> schema_step E b (struct_fields E fs d ps rs b)
     \<and> property_keys (fst (struct_fields E fs d ps rs b)) = fst ` set ps \<union> field_names fs"
proof (induction E t d b and E i d b and E i d b and E fs d ps rs b
    rule: schemaForType_structSchema_componentRef_struct_fields.induct)
  case (1 E t d b)
  show ?case
  proof (cases "maxOpenAPISchemaDepth \<le> d")
    case True
    then show ?thesis using 1(6) by (simp add: schemaForType.simps [of E t] object_schema_def plain_schema_step)
  next
    case False
    show ?thesis
    proof (cases "derefType t")
      case (TSlice u)
      then show ?thesis using 1(1) [OF False TSlice 1(6)] False
        by (auto simp: schemaForType.simps [of E t] schema_step_wrap split: prod.split)
    next
      case (TArray u)
      then show ?thesis using 1(2) [OF False TArray 1(6)] False
        by (auto simp: schemaForType.simps [of E t] schema_step_wrap split: prod.split)
    next
      case (TMap u)
      then show ?thesis using 1(3) [OF False TMap _ 1(6)] 1(6) False
        by (auto simp: schemaForType.simps [of E t] schema_step_wrap plain_schema_step split: prod.split)
    next
      case (TStruct j)
      then show ?thesis using 1(4) [OF False TStruct _ _ 1(6)] 1(5) [OF False TStruct _ _ 1(6)] 1(6) False
        by (auto simp: schemaForType.simps [of E t] plain_schema_step)
    qed (use 1(6) False in \<open>auto simp: schemaForType.simps [of E t] object_schema_def plain_schema_step\<close>)
  qed
next
  case (2 E i d b)
  then show ?case by (simp add: structSchema.simps)
next
  case (3 E d ps rs b)
  then show ?case by (auto simp: plain_schema_step required_entry_def field_names_def)
next
  case (4 E f fs d ps rs b)
  show ?case
  proof (cases "json_hidden f")
    case True
    then show ?thesis using 4(1) [OF True 4(4,5)] by (auto simp: field_names_def)
  next
    case False
    obtain t c where r: "schemaForType E (sfType f) (d + 1) b = (t, c)" by (cases "schemaForType E (sfType f) (d + 1) b")
    have step: "schema_step E b (t, c)" using 4(2) [OF False 4(4)] by (simp only: r)
    note t = schema_stepD [OF step]
    have ps: "closed c (OObj (AList.update (json_name f) t ps))"
      using t(2,4) grows_closed [OF t(1) 4(5)] by (auto intro: closed_update)
    note rest = 4(3) [OF False r [symmetric] t(3) ps]
    have names: "field_names (f # fs) = insert (json_name f) (field_names fs)"
      using False by (auto simp: field_names_def)
    show ?thesis
      using rest grows_trans [OF t(1)] False
      by (simp add: r [simplified] schema_step_def names keys_update)
  qed
next
  case (5 E i d b)
  show ?case
  proof (cases "map_of (obNames b) i")
    case (Some n)
    have "n \<in> component_names b" using Some goodD(1,3) [OF 5(2)] by auto
    then show ?thesis
      using Some 5(2) by (auto simp: componentRef.simps componentName_def component_names_def schema_step_def grows_refl
          component_ref_def entry_closed_def ref_to_def)
  next
    case None
    obtain n c where c: "componentName E b i = (n, c)" by (cases "componentName E b i")
    note new = new_name_steps [OF 5(2) None c]
    have n: "n \<notin> fst ` set (obComponents c)" using new(1,4) by (simp add: component_names_def)
    obtain t e where r: "structSchema E i (d + 1) (put_component n object_schema c) = (t, e)"
      by (cases "structSchema E i (d + 1) (put_component n object_schema c)")
    have step: "schema_step E (put_component n object_schema c) (t, e)" and t: "property_keys t = field_names (oaFields E i)"
      using 5(1) [OF c [symmetric] n good_named [OF 5(2) None c]] by (simp_all only: r fst_conv)
    obtain es where "t = OObj es" using schema_stepD(4) [OF step] by blast
    then have "grows E b (put_component n t e)"
      by (rule componentRef_grows [OF 5(2) None c schema_stepD(1,2) [OF step] _ t])
    then show ?thesis
      using n by (simp add: componentRef.simps c r [simplified] schema_step_def component_ref_def entry_closed_def ref_to_def)
  qed
qed

section \<open>Handlers and operations\<close>

text \<open>A step that returns a list of objects, or one that returns an object or nothing.\<close>

definition list_step :: "oenv \<Rightarrow> builder \<Rightarrow> json list \<times> builder \<Rightarrow> bool" where
  "list_step E b r \<longleftrightarrow> grows E b (snd r) \<and> (\<forall>j \<in> set (fst r). closed (snd r) j)"

definition option_step :: "oenv \<Rightarrow> builder \<Rightarrow> json option \<times> builder \<Rightarrow> bool" where
  "option_step E b r \<longleftrightarrow> grows E b (snd r) \<and> (case fst r of None \<Rightarrow> True | Some j \<Rightarrow> closed (snd r) j \<and> (\<exists>es. j = OObj es))"

lemma parameter_step:
  assumes "good b"
  shows "list_step E b (case openAPIParameterWithBuilder E name place required t b of (p, c) \<Rightarrow> ([p], c))"
  using schema_steps(1) [OF assms, of E t 0]
  by (auto simp: openAPIParameterWithBuilder_def list_step_def schema_step_def split: prod.split)

lemma list_step_append:
  assumes "list_step E b (ps, c)" "good c \<Longrightarrow> list_step E c (qs, d)"
  shows "list_step E b (ps @ qs, d)"
proof -
  have b: "grows E b c" "\<forall>j \<in> set ps. closed c j" using assms(1) by (auto simp: list_step_def)
  then have "list_step E c (qs, d)" using assms(2) growsD(1) by blast
  then have d: "grows E c d" "\<forall>j \<in> set qs. closed d j" by (auto simp: list_step_def)
  show ?thesis using b d grows_trans [OF b(1) d(1)] grows_closed [OF d(1)] by (auto simp: list_step_def)
qed

lemma parameters_steps:
  "good b \<Longrightarrow> list_step E b (openAPIParametersFromStruct E i vs d b)"
  "good b \<Longrightarrow> list_step E b (parameters_of_fields E fs vs d b)"
proof (induction E i vs d b and E fs vs d b rule: openAPIParametersFromStruct_parameters_of_fields.induct)
  case (1 E i vs d b)
  then show ?case by (simp add: openAPIParametersFromStruct.simps list_step_def grows_refl)
next
  case (2 E vs d b)
  then show ?case by (simp add: list_step_def grows_refl)
next
  case (3 E f fs vs d b)
  let ?first = "if \<not> sfExported f then ([], b)
            else case embedded_struct f of
              Some j \<Rightarrow> openAPIParametersFromStruct E j vs (d + 1) b
            | None \<Rightarrow>
                (case parameter_of f of
                   None \<Rightarrow> ([], b)
                 | Some (name, place, required) \<Rightarrow>
                     (case openAPIParameterWithBuilder E name place required (sfType f) b of (p, b) \<Rightarrow> ([p], b)))"
  have none: "list_step E b ([], b)" using 3(3) by (simp add: list_step_def grows_refl)
  have tagged: "list_step E b (case parameter_of f of
                   None \<Rightarrow> ([], b)
                 | Some (name, place, required) \<Rightarrow>
                     (case openAPIParameterWithBuilder E name place required (sfType f) b of (p, b) \<Rightarrow> ([p], b)))"
    using none parameter_step [OF 3(3)] by (simp split: option.split)
  have first: "list_step E b ?first"
    using none tagged 3(1) 3(3) by (auto split: option.split)
  obtain ps c where r: "?first = (ps, c)" by (cases ?first)
  obtain qs e where q: "parameters_of_fields E fs vs d c = (qs, e)" by (cases "parameters_of_fields E fs vs d c")
  have "list_step E b (ps @ qs, e)"
    using first 3(2) [OF r [symmetric]] unfolding r q by (rule list_step_append)
  then show ?case using r q by (simp only: parameters_of_fields.simps prod.case)
qed

lemma nested_properties_closed: "closed b (OObj es) \<Longrightarrow> closed b (OObj (nested_properties (Some (OObj es))))"
proof (cases "map_of es ''properties''")
  case (Some v)
  assume "closed b (OObj es)"
  moreover have "(''properties'', v) \<in> set es" using Some by (rule map_of_SomeD)
  ultimately have "entry_closed b ''properties'' v" unfolding closed_Obj by blast
  then show ?thesis using Some by (cases v) (simp_all add: nested_properties_def obj_get_def entry_closed_def)
qed (simp add: nested_properties_def obj_get_def)

lemma closed_fold_update:
  "closed b (OObj ps) \<Longrightarrow> closed b (OObj es) \<Longrightarrow> closed b (OObj (fold (\<lambda>(k, v). AList.update k v) es ps))"
  by (induction es arbitrary: ps) (auto simp: closed_update)

lemma body_steps:
  "good b \<Longrightarrow> option_step E b (openAPIRequestBodySchema E i vs d b)"
  "good b \<Longrightarrow> closed b (OObj ps) \<Longrightarrow> option_step E b (body_fields E fs vs d ps rs b)"
proof (induction E i vs d b and E fs vs d ps rs b rule: openAPIRequestBodySchema_body_fields.induct)
  case (1 E i vs d b)
  obtain s c where r: "schemaForType E (TStruct i) d b = (s, c)" by (cases "schemaForType E (TStruct i) d b")
  have s: "schema_step E b (s, c)" using schema_steps(1) [OF 1(2), of E "TStruct i" d] by (simp only: r)
  have o: "option_step E b (Some object_schema, b)" using 1(2) by (simp add: option_step_def grows_refl) (simp add: object_schema_def)
  have "option_step E b (Some s, c)" using s by (simp add: option_step_def schema_step_def)
  then show ?case
    using o 1(1) [OF _ _ 1(2)] by (auto simp: openAPIRequestBodySchema.simps r)
next
  case (2 E vs d ps rs b)
  then show ?case by (auto simp: option_step_def grows_refl required_entry_def)
next
  case (3 E f fs vs d ps rs b)
  show ?case
  proof (cases "json_hidden f")
    case True
    then show ?thesis using 3(1) [OF True 3(5,6)] by simp
  next
    case False
    show ?thesis
    proof (cases "embedded_struct f")
      case (Some j)
      obtain nested c where r: "openAPIRequestBodySchema E j vs (d + 1) b = (nested, c)"
        by (cases "openAPIRequestBodySchema E j vs (d + 1) b")
      have n: "grows E b c" "case nested of None \<Rightarrow> True | Some j \<Rightarrow> closed c j \<and> (\<exists>es. j = OObj es)"
        using 3(3) [OF False Some 3(5)] unfolding r option_step_def fst_conv snd_conv by blast+
      have "closed c (OObj (nested_properties nested))"
        using n(2) nested_properties_closed by (cases nested) (auto simp: nested_properties_def)
      then have "closed c (OObj (fold (\<lambda>(k, v). AList.update k v) (nested_properties nested) ps))"
        by (rule closed_fold_update [OF grows_closed [OF n(1) 3(6)]])
      then have "option_step E c (body_fields E fs vs d (fold (\<lambda>(k, v). AList.update k v) (nested_properties nested) ps)
          (rs @ nested_required nested) c)"
        by (rule 3(4) [OF False Some r [symmetric] growsD(1) [OF n(1)]])
      then show ?thesis using False Some grows_trans [OF n(1)] by (simp add: option_step_def r [simplified])
    next
      case None
      obtain s c where r: "schemaForType E (sfType f) (d + 1) b = (s, c)" by (cases "schemaForType E (sfType f) (d + 1) b")
      have "schema_step E b (s, c)" using schema_steps(1) [OF 3(5), of E "sfType f" "d + 1"] by (simp only: r)
      note s = schema_stepD [OF this]
      have "closed c (OObj (AList.update (json_name f) s ps))"
        using s(2,4) grows_closed [OF s(1) 3(6)] by (auto intro: closed_update)
      then show ?thesis
        using 3(2) [OF False None r [symmetric] s(3)] False None grows_trans [OF s(1)]
        by (simp add: option_step_def r [simplified])
    qed
  qed
qed

lemma response_step: "good b \<Longrightarrow> option_step E b (openAPIResponseSchema E outs envelope b)"
proof (induction E outs envelope b rule: openAPIResponseSchema.induct)
  case (2 E t is_error outs envelope b)
  then show ?case
    using schema_steps(1) [OF 2(2), of E t 0] schema_steps(1) [OF 2(2), of E response_data 0]
    by (auto simp: option_step_def schema_step_def openAPIEnvelopeResponseSchema_def entry_closed_def split: prod.split)
qed (simp add: option_step_def grows_refl)

lemma inputs_step:
  "good b \<Longrightarrow> \<forall>p \<in> set ps. closed b p \<Longrightarrow> closed b (OObj op) \<Longrightarrow> enrich_inputs E method ts ps op b = (qs, op', c) \<Longrightarrow>
   grows E b c \<and> (\<forall>p \<in> set qs. closed c p) \<and> closed c (OObj op') \<and> (\<forall>k. k \<noteq> ''requestBody'' \<longrightarrow> map_of op' k = map_of op k)"
proof (induction ts arbitrary: ps op b)
  case Nil
  then show ?case by (simp add: grows_refl)
next
  case (Cons t ts)
  note g = Cons.prems(1) and ps = Cons.prems(2) and op = Cons.prems(3) and r = Cons.prems(4)
  show ?case
  proof (cases "\<exists>i. derefType t = TStruct i \<and> i \<noteq> oaGinContext E")
    case False
    then have "enrich_inputs E method ts ps op b = (qs, op', c)" using r by (simp split: gotype.splits)
    then show ?thesis using Cons.IH [OF g ps op] by blast
  next
    case True
    then obtain i where i: "derefType t = TStruct i" "i \<noteq> oaGinContext E" by blast
    obtain rs b1 where r1: "openAPIParametersFromStruct E i [] 0 b = (rs, b1)" by (cases "openAPIParametersFromStruct E i [] 0 b")
    have "list_step E b (rs, b1)" using parameters_steps(1) [OF g] by (simp only: r1 [symmetric])
    then have b1: "grows E b b1" "\<forall>p \<in> set rs. closed b1 p" by (auto simp: list_step_def)
    have ps1: "\<forall>p \<in> set (ps @ rs). closed b1 p" using ps b1 grows_closed [OF b1(1)] by auto
    have op1: "closed b1 (OObj op)" by (rule grows_closed [OF b1(1) op])
    show ?thesis
    proof (cases "openAPIAllowsJSONRequestBody method")
      case False
      then have "enrich_inputs E method ts (ps @ rs) op b1 = (qs, op', c)" using r i by (simp add: r1)
      then show ?thesis using Cons.IH [OF growsD(1) [OF b1(1)] ps1 op1] grows_trans [OF b1(1)] by blast
    next
      case True
      obtain body b2 where r2: "openAPIRequestBodySchema E i [] 0 b1 = (body, b2)" by (cases "openAPIRequestBodySchema E i [] 0 b1")
      have "option_step E b1 (body, b2)" using body_steps(1) [OF growsD(1) [OF b1(1)]] by (simp only: r2 [symmetric])
      then have b2: "grows E b1 b2" "body = Some s \<Longrightarrow> closed b2 s \<and> (\<exists>es. s = OObj es)" for s by (auto simp: option_step_def)
      let ?op = "case body of None \<Rightarrow> op
        | Some s \<Rightarrow> AList.update ''requestBody'' (OObj [(''required'', OBool (openAPIRequestBodyRequired s)), (''content'', json_content s)]) op"
      have ps2: "\<forall>p \<in> set (ps @ rs). closed b2 p" using ps1 grows_closed [OF b2(1)] by blast
      have op2: "closed b2 (OObj ?op)"
        using grows_closed [OF b2(1) op1] b2(2)
        by (auto simp: json_content_def entry_closed_def split: option.split intro!: closed_update)
      have keep: "k \<noteq> ''requestBody'' \<Longrightarrow> map_of ?op k = map_of op k" for k by (simp add: update_conv' split: option.split)
      have "enrich_inputs E method ts (ps @ rs) ?op b2 = (qs, op', c)"
        using r i True by (cases body) (simp_all add: r1 r2)
      then show ?thesis
        using Cons.IH [OF growsD(1) [OF b2(1)] ps2 op2] grows_trans [OF b1(1) grows_trans [OF b2(1)]] keep by simp
    qed
  qed
qed

lemma enrich_step:
  assumes g: "good b" and op: "closed b (OObj op)" and r: "enrichOpenAPIOperation E op method h envelope b = (op', c)"
  shows "grows E b c \<and> closed c (OObj op')
    \<and> (\<forall>k. k \<notin> {''requestBody'', ''parameters'', ''responses''} \<longrightarrow> map_of op' k = map_of op k)"
proof (cases "\<exists>ht. h = Some ht \<and> htIsFunc ht")
  case False
  then show ?thesis using assms by (auto simp: enrichOpenAPIOperation_def grows_refl split: option.splits)
next
  case True
  then obtain ht where h: "h = Some ht" "htIsFunc ht" by blast
  obtain ps op1 b1 where r1: "enrich_inputs E method (htIn ht) [] op b = (ps, op1, b1)" by (cases "enrich_inputs E method (htIn ht) [] op b")
  have i: "grows E b b1" "\<forall>p \<in> set ps. closed b1 p" "closed b1 (OObj op1)"
    "k \<noteq> ''requestBody'' \<Longrightarrow> map_of op1 k = map_of op k" for k
    using inputs_step [OF g _ op r1] by simp_all
  obtain s b2 where r2: "openAPIResponseSchema E (htOut ht) envelope b1 = (s, b2)" by (cases "openAPIResponseSchema E (htOut ht) envelope b1")
  have b1: "grows E b b1" using i(1) by simp
  have "option_step E b1 (s, b2)" using response_step [OF growsD(1) [OF b1]] by (simp only: r2 [symmetric])
  then have b2: "grows E b1 b2" "s = Some t \<Longrightarrow> closed b2 t \<and> (\<exists>es. t = OObj es)" for t by (auto simp: option_step_def)
  define op2 where "op2 = (if ps = [] then op1 else AList.update ''parameters'' (OList ps) op1)"
  have "closed b1 (OObj op2)" using i(2,3) by (auto intro!: closed_update simp: entry_closed_def op2_def)
  then have op2: "closed b2 (OObj op2)" by (rule grows_closed [OF b2(1)])
  have keep: "k \<notin> {''requestBody'', ''parameters''} \<Longrightarrow> map_of op2 k = map_of op k" for k
    using i(4) by (simp add: op2_def update_conv')
  have res: "c = b2" "op' = (case s of None \<Rightarrow> op2 | Some s \<Rightarrow> AList.update ''responses''
      (OObj [(''200'', OObj [(''description'', OStr ''OK''), (''content'', json_content s)])]) op2)"
    using r h by (cases s; simp add: enrichOpenAPIOperation_def r1 r2 op2_def)+
  have "closed b2 (OObj op')"
    using op2 b2(2) by (cases s) (auto simp: res json_content_def entry_closed_def intro!: closed_update)
  moreover have "k \<notin> {''requestBody'', ''parameters'', ''responses''} \<Longrightarrow> map_of op' k = map_of op k" for k
    using keep [of k] by (cases s) (simp_all add: res update_conv')
  ultimately show ?thesis using grows_trans [OF b1 b2(1)] res(1) by simp
qed

lemma path_parameter_names_append [simp]:
  "path_parameter_names (ps @ qs) = path_parameter_names ps @ path_parameter_names qs"
  by (simp add: path_parameter_names_def)

lemma added_parameter:
  "path_parameter_names [openAPIParameter E name ''path'' True TString] = [name]"
  "closed b (openAPIParameter E name ''path'' True TString)"
  by (simp_all add: openAPIParameter_def openAPIParameterWithBuilder_def schemaForType.simps maxOpenAPISchemaDepth_def
      path_parameter_names_def obj_get_def)

lemma add_path_parameters_covers:
  "set (path_parameter_names ps) \<subseteq> set (path_parameter_names (add_path_parameters E segs ps))"
  "seg \<in> set segs \<Longrightarrow> placeholder seg = Some n \<Longrightarrow> n \<in> set (path_parameter_names (add_path_parameters E segs ps))"
proof (induction segs arbitrary: ps)
  case (Cons s segs)
  {
    case 1
    show ?case using Cons(1) by (simp split: option.split) fastforce
  next
    case 2
    show ?case
    proof (cases "s = seg")
      case True
      then have "\<exists>qs. add_path_parameters E (s # segs) ps = add_path_parameters E segs qs \<and> n \<in> set (path_parameter_names qs)"
        using 2(2) by (auto simp: added_parameter)
      then show ?thesis using Cons(1) by fastforce
    next
      case False
      then show ?thesis using 2 Cons(2) by simp
    qed
  }
qed simp_all

lemma add_path_parameters_appends:
  "\<exists>ns. add_path_parameters E segs ps = ps @ map (\<lambda>n. openAPIParameter E n ''path'' True TString) ns"
proof (induction segs arbitrary: ps)
  case (Cons s segs)
  obtain n where "add_path_parameters E (s # segs) ps = add_path_parameters E segs ps
      \<or> add_path_parameters E (s # segs) ps = add_path_parameters E segs (ps @ [openAPIParameter E n ''path'' True TString])"
    by (cases "placeholder s"; cases "the (placeholder s) \<in> set (path_parameter_names ps)") auto
  moreover obtain ns where "add_path_parameters E segs (ps @ [openAPIParameter E n ''path'' True TString])
      = ps @ map (\<lambda>n. openAPIParameter E n ''path'' True TString) (n # ns)"
    using Cons [of "ps @ [openAPIParameter E n ''path'' True TString]"] by auto
  ultimately show ?case using Cons [of ps] by metis
qed (auto intro: exI [of _ "[]"])

lemma add_path_parameters_closed:
  "\<forall>p \<in> set ps. closed b p \<Longrightarrow> \<forall>p \<in> set (add_path_parameters E segs ps). closed b p"
  using add_path_parameters_appends [of E segs ps] by (auto simp: added_parameter)

text \<open>What the operation of a route looks like.\<close>

definition unauthorized_documented :: "operation \<Rightarrow> bool" where
  "unauthorized_documented op \<longleftrightarrow> (case map_of op ''responses'' of Some (OObj rs) \<Rightarrow> ''401'' \<in> fst ` set rs | _ \<Rightarrow> False)"

definition described :: "string \<Rightarrow> bool \<Rightarrow> bool \<Rightarrow> bool \<Rightarrow> operation \<Rightarrow> bool" where
  "described path publicRoute routeAuth globalAuth op \<longleftrightarrow>
     (\<forall>seg \<in> set (Split CHR ''/'' path). \<forall>n. placeholder seg = Some n \<longrightarrow> n \<in> set (path_parameter_names (op_parameters op)))
   \<and> map_of op ''security'' =
       (if publicRoute then Some (OList []) else if routeAuth \<and> \<not> globalAuth then Some bearer else None)
   \<and> (routeAuth \<and> \<not> publicRoute \<longrightarrow> unauthorized_documented op)"

lemma ensure_parameters:
  "op_parameters (ensureOpenAPIPathParameters E op path) = add_path_parameters E (Split CHR ''/'' path) (op_parameters op)"
  "k \<noteq> ''parameters'' \<Longrightarrow> map_of (ensureOpenAPIPathParameters E op path) k = map_of op k"
proof -
  let ?ps = "add_path_parameters E (Split CHR ''/'' path) (op_parameters op)"
  have "op_parameters op = []" if "?ps = []"
    using that add_path_parameters_appends [of E "Split CHR ''/'' path" "op_parameters op"] by auto
  then show "op_parameters (ensureOpenAPIPathParameters E op path) = ?ps"
    by (auto simp: ensureOpenAPIPathParameters_def Let_def op_parameters_def update_conv')
  show "k \<noteq> ''parameters'' \<Longrightarrow> map_of (ensureOpenAPIPathParameters E op path) k = map_of op k"
    by (simp add: ensureOpenAPIPathParameters_def Let_def update_conv')
qed

lemma op_parameters_keep: "map_of op' ''parameters'' = map_of op ''parameters'' \<Longrightarrow> op_parameters op' = op_parameters op"
  by (simp add: op_parameters_def)

lemma put_security_map: "k \<noteq> ''security'' \<Longrightarrow> map_of (put_security p r g op) k = map_of op k"
  by (simp add: put_security_def update_conv')

lemma put_security_lookup:
  "map_of op ''security'' = None \<Longrightarrow>
   map_of (put_security p r g op) ''security'' = (if p then Some (OList []) else if r \<and> \<not> g then Some bearer else None)"
  by (simp add: put_security_def update_conv')

lemma put_info_map: "k \<notin> {''summary'', ''description'', ''tags''} \<Longrightarrow> map_of (put_info i op) k = map_of op k"
  by (simp add: put_info_def update_conv' split: option.split)

lemma errors_map: "k \<noteq> ''responses'' \<Longrightarrow> map_of (addStandardOpenAPIErrorResponses op u) k = map_of op k"
  by (simp add: addStandardOpenAPIErrorResponses_def Let_def update_conv')

lemma errors_unauthorized: "unauthorized_documented (put_info i (addStandardOpenAPIErrorResponses op True))"
  by (simp add: unauthorized_documented_def put_info_map addStandardOpenAPIErrorResponses_def Let_def update_conv' keys_update)

section \<open>The document\<close>

definition operation_at :: "(string \<times> (string \<times> operation) list) list \<Rightarrow> string \<Rightarrow> string \<Rightarrow> operation option" where
  "operation_at paths p m = (case map_of paths p of None \<Rightarrow> None | Some ops \<Rightarrow> map_of ops m)"

lemma operation_at_update:
  "operation_at (AList.update p (AList.update m op (case map_of paths p of None \<Rightarrow> [] | Some i \<Rightarrow> i)) paths) q n
   = (if (q, n) = (p, m) then Some op else operation_at paths q n)"
  by (auto simp: operation_at_def update_conv' split: option.split)

definition doc_method :: "route_metadata \<Rightarrow> string" where
  "doc_method r = ToLower (TrimSpace (roMethod r))"

definition doc_path :: "metadata_store \<Rightarrow> route_metadata \<Rightarrow> string" where
  "doc_path store r = toOpenAPIPath (route_path (openAPIRouteMetadata store r) r)"

definition route_auth :: "bool \<Rightarrow> metadata_store \<Rightarrow> route_metadata \<Rightarrow> bool" where
  "route_auth globalAuth store r \<longleftrightarrow> globalAuth \<or> openAPIHasAuthFairing (omFairings (openAPIRouteMetadata store r))"

definition route_public :: "doc_config option \<Rightarrow> bool \<Rightarrow> metadata_store \<Rightarrow> route_metadata \<Rightarrow> bool" where
  "route_public config globalAuth store r \<longleftrightarrow>
     route_auth globalAuth store r \<and> openAPIRouteIsPublic (route_path (openAPIRouteMetadata store r) r) config"

definition documents :: "doc_config option \<Rightarrow> bool \<Rightarrow> metadata_store \<Rightarrow> (string \<Rightarrow> string \<Rightarrow> operation option) \<Rightarrow> route_metadata \<Rightarrow> string \<Rightarrow> bool" where
  "documents config globalAuth store at' r i \<longleftrightarrow>
     (\<exists>op. at' (doc_path store r) (doc_method r) = Some op \<and> map_of op ''operationId'' = Some (OStr i)
       \<and> described (doc_path store r) (route_public config globalAuth store r) (route_auth globalAuth store r) globalAuth op)"

text \<open>The state of the loop: a builder whose names are complete, operations whose references resolve.\<close>

definition doc_good :: "oenv \<Rightarrow> doc_state \<Rightarrow> bool" where
  "doc_good E ds \<longleftrightarrow>
     good (dsBuilder ds)
   \<and> (\<forall>i n. map_of (obNames (dsBuilder ds)) i = Some n \<longrightarrow> complete E (dsBuilder ds) i)
   \<and> (\<forall>(p, ops) \<in> set (dsPaths ds). \<forall>(m, op) \<in> set ops. closed (dsBuilder ds) (OObj op))"

lemma lookup_closed:
  assumes "closed b (OObj es)" "map_of es k = Some v" "k \<noteq> ''$ref''"
  shows "closed b v"
proof -
  have "(k, v) \<in> set es" using assms(2) by (rule map_of_SomeD)
  then show ?thesis using assms(1,3) by (auto simp: closed_Obj)
qed

lemma ensure_closed:
  assumes "closed b (OObj op)"
  shows "closed b (OObj (ensureOpenAPIPathParameters E op path))"
proof -
  have "\<forall>p \<in> set (op_parameters op). closed b p"
    using lookup_closed [OF assms, of "''parameters''"]
    by (cases "map_of op ''parameters''"; cases "the (map_of op ''parameters'')") (simp_all add: op_parameters_def)
  then have "\<forall>p \<in> set (add_path_parameters E (Split CHR ''/'' path) (op_parameters op)). closed b p"
    by (rule add_path_parameters_closed)
  then show ?thesis
    using assms by (auto simp: ensureOpenAPIPathParameters_def Let_def intro!: closed_update)
qed

lemma security_closed: "closed b (OObj op) \<Longrightarrow> closed b (OObj (put_security p r g op))"
  by (simp add: put_security_def closed_update bearer_def entry_closed_def)

lemma info_closed: "closed b (OObj op) \<Longrightarrow> closed b (OObj (put_info i op))"
  by (simp add: put_info_def closed_update entry_closed_def split: option.split)

lemma errors_closed:
  assumes g: "good b" and op: "closed b (OObj op)"
  shows "closed b (OObj (addStandardOpenAPIErrorResponses op u))"
proof -
  define rs where "rs = (case map_of op ''responses'' of Some (OObj rs) \<Rightarrow> rs | _ \<Rightarrow> [])"
  have rs: "closed b (OObj rs)"
    using lookup_closed [OF op, of "''responses''"] by (auto simp: rs_def split: option.split json.split)
  have "''ErrorResponse'' \<in> component_names b" using goodD(2,3) [OF g, of "''ErrorResponse''"] by simp
  then have e: "entry_closed b code (openAPIErrorResponse d)" for code d
    by (simp add: openAPIErrorResponse_def json_content_def component_ref_def entry_closed_def ref_to_def)
  show ?thesis
    unfolding addStandardOpenAPIErrorResponses_def Let_def rs_def [symmetric]
    by (rule closed_update [OF op]) (cases u; simp add: closed_update e rs)
qed

lemma document_route_step:
  assumes r: "document_route E config globalAuth store r ds = Inr ds'" and g: "doc_good E ds"
  shows "doc_good E ds'"
    and "\<exists>i. i \<notin> set (dsOperationIDs ds) \<and> dsOperationIDs ds' = i # dsOperationIDs ds
      \<and> documents config globalAuth store (operation_at (dsPaths ds')) r i"
    and "\<exists>k h. k = doc_method r @ '' '' @ doc_path store r \<and> map_of (dsRoutes ds) k = None \<and> dsRoutes ds' = (k, h) # dsRoutes ds"
    and "(p, m) \<noteq> (doc_path store r, doc_method r) \<Longrightarrow> operation_at (dsPaths ds') p m = operation_at (dsPaths ds) p m"
proof -
  let ?envelope = "case config of None \<Rightarrow> False | Some c \<Rightarrow> dcEnvelope c"
  let ?p = "doc_path store r" and ?m = "doc_method r"
  let ?auth = "route_auth globalAuth store r" and ?public = "route_public config globalAuth store r"
  let ?info = "openAPIControllerInfo (openAPIRouteMetadata store r) r ?p"
  obtain i op b where new: "map_of (dsRoutes ds) (?m @ '' '' @ ?p) = None"
    and i: "openAPIOperationID r ?m ?p (dsOperationIDs ds) = Inr i"
    and op: "enrichOpenAPIOperation E (new_operation i) ?m (roHandlerType r) ?envelope (dsBuilder ds) = (op, b)"
    and ds': "ds' = \<lparr>dsBuilder = b,
        dsPaths = AList.update ?p (AList.update ?m (put_info ?info (addStandardOpenAPIErrorResponses
            (put_security ?public ?auth globalAuth (ensureOpenAPIPathParameters E op ?p)) (?auth \<and> \<not> ?public)))
          (case map_of (dsPaths ds) ?p of None \<Rightarrow> [] | Some i \<Rightarrow> i)) (dsPaths ds),
        dsRoutes = (?m @ '' '' @ ?p, roHandlerName r) # dsRoutes ds, dsOperationIDs = i # dsOperationIDs ds\<rparr>"
    using r unfolding document_route_def Let_def doc_path_def doc_method_def route_public_def route_auth_def
    by (force split: if_splits option.splits sum.splits prod.splits)
  have g0: "good (dsBuilder ds)" "\<And>i n. map_of (obNames (dsBuilder ds)) i = Some n \<Longrightarrow> complete E (dsBuilder ds) i"
    and paths: "\<And>p ops m op. (p, ops) \<in> set (dsPaths ds) \<Longrightarrow> (m, op) \<in> set ops \<Longrightarrow> closed (dsBuilder ds) (OObj op)"
    using g by (auto simp: doc_good_def)
  have "closed (dsBuilder ds) (OObj (new_operation i))" by (simp add: new_operation_def)
  note e = enrich_step [OF g0(1) this op]
  then have b: "grows E (dsBuilder ds) b" and op_closed: "closed b (OObj op)"
    and keep: "\<And>k. k \<notin> {''requestBody'', ''parameters'', ''responses''} \<Longrightarrow> map_of op k = map_of (new_operation i) k"
    by simp_all
  define final where "final = put_info ?info (addStandardOpenAPIErrorResponses
      (put_security ?public ?auth globalAuth (ensureOpenAPIPathParameters E op ?p)) (?auth \<and> \<not> ?public))"
  have final_closed: "closed b (OObj final)"
    unfolding final_def by (intro info_closed errors_closed security_closed ensure_closed op_closed growsD(1) [OF b])
  show "doc_good E ds'"
    unfolding doc_good_def
  proof (intro conjI allI impI ballI)
    show "good (dsBuilder ds')" using growsD(1) [OF b] by (simp add: ds')
    show "complete E (dsBuilder ds') i" if "map_of (obNames (dsBuilder ds')) i = Some n" for i n
      using growsD(4) [OF b, of i n] complete_grows [OF b g0(2)] that by (auto simp: ds')
    show "case x of (p, ops) \<Rightarrow> \<forall>(m, op) \<in> set ops. closed (dsBuilder ds') (OObj op)" if x: "x \<in> set (dsPaths ds')" for x
    proof -
      have old: "closed b (OObj op)" if "(p, ops) \<in> set (dsPaths ds)" "(m, op) \<in> set ops" for p ops m op
        by (rule grows_closed [OF b paths [OF that]])
      have item: "closed b (OObj op)" if "(m, op) \<in> set (case map_of (dsPaths ds) ?p of None \<Rightarrow> [] | Some i \<Rightarrow> i)" for m op
        using that old by (cases "map_of (dsPaths ds) ?p") (auto dest: map_of_SomeD)
      have "x = (?p, AList.update ?m final (case map_of (dsPaths ds) ?p of None \<Rightarrow> [] | Some i \<Rightarrow> i)) \<or> x \<in> set (dsPaths ds)"
        using x by (intro set_update) (simp add: ds' final_def)
      then show ?thesis
        using old item final_closed by (auto simp: ds' dest!: set_update)
    qed
  qed
  show "\<exists>i. i \<notin> set (dsOperationIDs ds) \<and> dsOperationIDs ds' = i # dsOperationIDs ds
      \<and> documents config globalAuth store (operation_at (dsPaths ds')) r i"
  proof (intro exI conjI)
    show "i \<notin> set (dsOperationIDs ds)" using i by (auto simp: openAPIOperationID_def Let_def split: if_splits)
    show "dsOperationIDs ds' = i # dsOperationIDs ds" by (simp add: ds')
    have params: "op_parameters final = add_path_parameters E (Split CHR ''/'' ?p) (op_parameters op)"
      unfolding ensure_parameters(1) [symmetric] final_def
      by (rule op_parameters_keep) (simp add: put_info_map errors_map put_security_map)
    have "described ?p ?public ?auth globalAuth final"
      unfolding described_def params
    proof (intro conjI)
      show "map_of final ''security'' = (if ?public then Some (OList []) else if ?auth \<and> \<not> globalAuth then Some bearer else None)"
        using put_security_lookup [of "ensureOpenAPIPathParameters E op ?p"] keep [of "''security''"]
        by (simp add: final_def put_info_map errors_map ensure_parameters(2) new_operation_def)
      show "?auth \<and> \<not> ?public \<longrightarrow> unauthorized_documented final" using errors_unauthorized by (simp add: final_def)
    qed (use add_path_parameters_covers(2) in blast)
    moreover have "map_of final ''operationId'' = Some (OStr i)"
      using keep [of "''operationId''"] by (simp add: final_def put_info_map errors_map put_security_map ensure_parameters(2) new_operation_def)
    moreover have "operation_at (dsPaths ds') ?p ?m = Some final" by (simp add: ds' operation_at_update final_def)
    ultimately show "documents config globalAuth store (operation_at (dsPaths ds')) r i" by (auto simp: documents_def)
  qed
  show "\<exists>k h. k = ?m @ '' '' @ ?p \<and> map_of (dsRoutes ds) k = None \<and> dsRoutes ds' = (k, h) # dsRoutes ds"
    using new by (simp add: ds')
  show "(p, m) \<noteq> (?p, ?m) \<Longrightarrow> operation_at (dsPaths ds') p m = operation_at (dsPaths ds) p m"
    by (auto simp: ds' operation_at_update)
qed

lemma document_routes_steps:
  assumes "document_routes E config globalAuth store rs ds = Inr ds'" "doc_good E ds"
  shows "doc_good E ds'"
    and "\<exists>is. length is = length rs \<and> distinct is \<and> set is \<inter> set (dsOperationIDs ds) = {}
      \<and> set (dsOperationIDs ds') = set is \<union> set (dsOperationIDs ds)
      \<and> list_all2 (documents config globalAuth store (operation_at (dsPaths ds'))) rs is"
    and "distinct (map (\<lambda>r. (doc_path store r, doc_method r)) rs)"
    and "(\<forall>r \<in> set rs. (p, m) \<noteq> (doc_path store r, doc_method r)) \<Longrightarrow>
      operation_at (dsPaths ds') p m = operation_at (dsPaths ds) p m"
    and "r \<in> set rs \<Longrightarrow> map_of (dsRoutes ds) (doc_method r @ '' '' @ doc_path store r) = None"
proof -
  have "doc_good E ds'
    \<and> (\<exists>is. length is = length rs \<and> distinct is \<and> set is \<inter> set (dsOperationIDs ds) = {}
        \<and> set (dsOperationIDs ds') = set is \<union> set (dsOperationIDs ds)
        \<and> list_all2 (documents config globalAuth store (operation_at (dsPaths ds'))) rs is)
    \<and> distinct (map (\<lambda>r. (doc_path store r, doc_method r)) rs)
    \<and> (\<forall>p m. (\<forall>r \<in> set rs. (p, m) \<noteq> (doc_path store r, doc_method r)) \<longrightarrow>
        operation_at (dsPaths ds') p m = operation_at (dsPaths ds) p m)
    \<and> (\<forall>r \<in> set rs. map_of (dsRoutes ds) (doc_method r @ '' '' @ doc_path store r) = None)"
    using assms
  proof (induction rs arbitrary: ds)
    case Nil
    then show ?case by simp
  next
    case (Cons r rs)
    obtain ds1 where d: "document_route E config globalAuth store r ds = Inr ds1"
      "document_routes E config globalAuth store rs ds1 = Inr ds'"
      using Cons.prems(1) by (auto split: sum.splits)
    note step = document_route_step [OF d(1) Cons.prems(2)]
    note IH = Cons.IH [OF d(2) step(1)]
    obtain i where i: "i \<notin> set (dsOperationIDs ds)" "dsOperationIDs ds1 = i # dsOperationIDs ds"
      "documents config globalAuth store (operation_at (dsPaths ds1)) r i" using step(2) by blast
    obtain h where k: "map_of (dsRoutes ds) (doc_method r @ '' '' @ doc_path store r) = None"
      "dsRoutes ds1 = (doc_method r @ '' '' @ doc_path store r, h) # dsRoutes ds" using step(3) by blast
    obtain js where js: "length js = length rs" "distinct js" "set js \<inter> set (dsOperationIDs ds1) = {}"
      "set (dsOperationIDs ds') = set js \<union> set (dsOperationIDs ds1)"
      "list_all2 (documents config globalAuth store (operation_at (dsPaths ds'))) rs js" using IH by blast
    have fresh: "(doc_path store q, doc_method q) \<noteq> (doc_path store r, doc_method r)
        \<and> map_of (dsRoutes ds) (doc_method q @ '' '' @ doc_path store q) = None" if "q \<in> set rs" for q
    proof -
      have "map_of (dsRoutes ds1) (doc_method q @ '' '' @ doc_path store q) = None" using IH that by blast
      then show ?thesis by (auto simp: k(2) split: if_splits)
    qed
    then have at_r: "operation_at (dsPaths ds') (doc_path store r) (doc_method r) = operation_at (dsPaths ds1) (doc_path store r) (doc_method r)"
      using IH by metis
    have "documents config globalAuth store (operation_at (dsPaths ds')) r i"
      using i(3) by (simp add: documents_def at_r)
    then have "length (i # js) = length (r # rs) \<and> distinct (i # js) \<and> set (i # js) \<inter> set (dsOperationIDs ds) = {}
        \<and> set (dsOperationIDs ds') = set (i # js) \<union> set (dsOperationIDs ds)
        \<and> list_all2 (documents config globalAuth store (operation_at (dsPaths ds'))) (r # rs) (i # js)"
      using i js by auto
    moreover have "distinct (map (\<lambda>r. (doc_path store r, doc_method r)) (r # rs))" using IH fresh by fastforce
    moreover have "operation_at (dsPaths ds') p m = operation_at (dsPaths ds) p m"
      if "\<forall>q \<in> set (r # rs). (p, m) \<noteq> (doc_path store q, doc_method q)" for p m
      using IH step(4) [of p m] that by simp
    moreover have "\<forall>q \<in> set (r # rs). map_of (dsRoutes ds) (doc_method q @ '' '' @ doc_path store q) = None"
      using k(1) fresh by simp
    ultimately show ?case using IH by blast
  qed
  then show "doc_good E ds'"
    and "\<exists>is. length is = length rs \<and> distinct is \<and> set is \<inter> set (dsOperationIDs ds) = {}
      \<and> set (dsOperationIDs ds') = set is \<union> set (dsOperationIDs ds)
      \<and> list_all2 (documents config globalAuth store (operation_at (dsPaths ds'))) rs is"
    and "distinct (map (\<lambda>r. (doc_path store r, doc_method r)) rs)"
    and "(\<forall>r \<in> set rs. (p, m) \<noteq> (doc_path store r, doc_method r)) \<Longrightarrow>
      operation_at (dsPaths ds') p m = operation_at (dsPaths ds) p m"
    and "r \<in> set rs \<Longrightarrow> map_of (dsRoutes ds) (doc_method r @ '' '' @ doc_path store r) = None"
    by blast+
qed

text \<open>Reading a document.\<close>

definition doc_schemas :: "json \<Rightarrow> (string \<times> json) list" where
  "doc_schemas doc =
     (case obj_get ''components'' doc of
        None \<Rightarrow> []
      | Some c \<Rightarrow> (case obj_get ''schemas'' c of Some (OObj ss) \<Rightarrow> ss | _ \<Rightarrow> []))"

definition doc_operation :: "json \<Rightarrow> string \<Rightarrow> string \<Rightarrow> operation option" where
  "doc_operation doc p m =
     (case obj_get ''paths'' doc of
        None \<Rightarrow> None
      | Some ps \<Rightarrow>
          (case obj_get p ps of
             None \<Rightarrow> None
           | Some ops \<Rightarrow> (case obj_get m ops of Some (OObj op) \<Rightarrow> Some op | _ \<Rightarrow> None)))"

lemma map_of_pairs: "map_of (map (\<lambda>(k, v). (k, f v)) xs) k = map_option f (map_of xs k)"
  by (induction xs) auto

lemma render_schemas: "doc_schemas (render_document config any globalAuth ds) = obComponents (dsBuilder ds)"
  by (simp add: doc_schemas_def render_document_def obj_get_def)

lemma render_operation: "doc_operation (render_document config any globalAuth ds) p m = operation_at (dsPaths ds) p m"
  by (simp add: doc_operation_def operation_at_def render_document_def obj_get_def map_of_pairs split: option.split)

lemma render_closed:
  assumes "doc_good E ds"
  shows "closed (dsBuilder ds) (render_document config any globalAuth ds)"
proof -
  let ?b = "dsBuilder ds"
  have g: "good ?b" and paths: "\<And>p ops m op. (p, ops) \<in> set (dsPaths ds) \<Longrightarrow> (m, op) \<in> set ops \<Longrightarrow> closed ?b (OObj op)"
    using assms by (auto simp: doc_good_def)
  have "closed ?b (OObj (map (\<lambda>(p, ops). (p, OObj (map (\<lambda>(m, op). (m, OObj op)) ops))) (dsPaths ds)))"
    using paths by (auto simp: closed_Obj)
  then show ?thesis
    using goodD(4) [OF g] by (simp add: render_document_def bearer_def security_schemes_def)
qed

lemma start_good: "doc_good E start_state"
  by (auto simp: doc_good_def good_def start_state_def newOpenAPISchemaBuilder_def component_names_def error_response_schema_def)

lemma generated_state:
  assumes "GenerateOpenAPI E config globals store routes = Inr doc"
  obtains ds any where "document_routes E config (openAPIHasAuthFairing globals) store routes start_state = Inr ds"
    "doc = render_document config any (openAPIHasAuthFairing globals) ds"
  using assms by (auto simp: GenerateOpenAPI_def Let_def split: sum.splits option.splits)

text \<open>
  Two recursive struct types with the same name, behind a route with a parameter and behind one with a
  body, the second on a public path.
\<close>

definition sample_field :: "string \<Rightarrow> gotype \<Rightarrow> string \<Rightarrow> string \<Rightarrow> sfield" where
  "sample_field name t json uri =
     \<lparr>sfName = name, sfType = t, sfExported = True, sfAnonymous = False, sfJson = json, sfUri = uri, sfQuery = [], sfForm = [],
      sfBinding = ''required''\<rparr>"

definition sample_oenv :: oenv where
  "sample_oenv =
     \<lparr>oaFields = (\<lambda>i. if i = 0 then [sample_field ''Value'' TInt ''value'' [], sample_field ''Next'' (TPtr (TStruct 0)) ''next'' []]
          else if i = 1 then [sample_field ''Children'' (TSlice (TStruct 1)) ''children,omitempty'' []]
          else if i = 2 then [sample_field ''ID'' TString [] ''id'']
          else []),
      oaName = (\<lambda>i. if i \<le> 1 then ''Node'' else ''Request''), oaTime = 7, oaGinContext = 8, oaResponse = 9,
      oaValidate = (\<lambda>_. None)\<rparr>"

definition sample_route :: "string \<Rightarrow> string \<Rightarrow> string \<Rightarrow> gotype list \<Rightarrow> gotype \<Rightarrow> route_metadata" where
  "sample_route method path name ins out =
     \<lparr>roMethod = method, roPath = path, roGroupName = ''v1'',
      roHandlerType = Some \<lparr>htIsFunc = True, htString = name, htIn = ins, htOut = [(out, False), (TIface, True)]\<rparr>,
      roHandlerName = name\<rparr>"

definition sample_routes :: "route_metadata list" where
  "sample_routes =
     [sample_route ''GET'' ''/items/:id'' ''func(Get) Node'' [TPtr (TStruct 2)] (TStruct 0),
      sample_route ''POST'' ''/items'' ''func(Node) Node'' [TPtr (TStruct 1)] (TStruct 1)]"

definition sample_generate :: "string + json" where
  "sample_generate = GenerateOpenAPI sample_oenv (Some \<lparr>dcName = ''demo'', dcEnvelope = True, dcPublicPaths = Some [''/v1/items'']\<rparr>)
     [IsAuthFairing] [] sample_routes"

lemma sample_document: "\<exists>doc. sample_generate = Inr doc"
proof -
  have "case sample_generate of Inl e \<Rightarrow> False | Inr doc \<Rightarrow> True" by code_simp
  then show ?thesis by (metis sum.case(1) sum.exhaust)
qed



text \<open>
  C23: a generated document has the operations of the routes and no others: no two routes share a path and
  method, each has an operation of its own with an id that no other has, a path parameter for every part
  \<open>{name}\<close> of its path, and the security it is served with: public paths are marked as such, an
  authenticated route documents the bearer token (its own, or the application's) and the answer 401.
\<close>

theorem document_lists_routes:
  assumes "GenerateOpenAPI E config globals store routes = Inr doc"
  shows "distinct (map (\<lambda>r. (doc_path store r, doc_method r)) routes)
    \<and> (\<exists>ids. distinct ids \<and> list_all2 (documents config (openAPIHasAuthFairing globals) store (doc_operation doc)) routes ids)
    \<and> ((p, m) \<notin> (\<lambda>r. (doc_path store r, doc_method r)) ` set routes \<longrightarrow> doc_operation doc p m = None)"
proof -
  obtain ds any where run: "document_routes E config (openAPIHasAuthFairing globals) store routes start_state = Inr ds"
    and doc: "doc = render_document config any (openAPIHasAuthFairing globals) ds"
    using assms by (rule generated_state)
  note steps = document_routes_steps [OF run start_good]
  have at': "doc_operation doc = operation_at (dsPaths ds)" by (intro ext) (simp add: doc render_operation)
  have "operation_at (dsPaths start_state) p m = None" by (simp add: operation_at_def start_state_def)
  then show ?thesis unfolding at' using steps(2,3) steps(4) [of p m] by fastforce
qed

lemma document_lists_routes_witness:
  "\<exists>doc ids. sample_generate = Inr doc \<and> distinct ids
     \<and> list_all2 (documents (Some \<lparr>dcName = ''demo'', dcEnvelope = True, dcPublicPaths = Some [''/v1/items'']\<rparr>) True []
         (doc_operation doc)) sample_routes ids"
proof -
  obtain doc where doc: "sample_generate = Inr doc" using sample_document by blast
  have "openAPIHasAuthFairing [IsAuthFairing] = True" by (simp add: openAPIHasAuthFairing_def)
  note lists = document_lists_routes [OF doc [unfolded sample_generate_def], unfolded this, THEN conjunct2, THEN conjunct1]
  from lists obtain ids where "distinct ids" "list_all2 (documents (Some \<lparr>dcName = ''demo'', dcEnvelope = True, dcPublicPaths = Some [''/v1/items'']\<rparr>) True []
         (doc_operation doc)) sample_routes ids" by (elim exE conjE)
  with doc show ?thesis by (intro exI conjI)
qed

end
