(* ===== verification/Shutdown.thy ===== *)
theory Shutdown
  imports Main
begin

text \<open>
  How an application stops (\<open>pkg/bear/handler_tracker.go\<close>, the hijacked and WebSocket connections of
  \<open>runtime.go\<close>, and \<open>Serve\<close>, \<open>Shutdown\<close> and the WebSocket handler of \<open>bear.go\<close>). The goroutines of requests,
  the one that runs \<open>Serve\<close> and the callers of \<open>Shutdown\<close> interleave; a step is a critical section, an
  atomic operation or a call of the network. The gRPC server and failures before the listeners serve
  are left out. Deadlines expire at any time.
\<close>

section \<open>The tracker of active handlers\<close>

text \<open>
  The channel \<open>idle\<close> is the number of channels made so far and whether the last one is closed; all
  earlier ones are closed.
\<close>

record tracker =
  tActive :: nat
  tIdle :: nat
  tIdleClosed :: bool
  tClosed :: bool

definition newActiveHandlerTracker :: tracker where
  "newActiveHandlerTracker = \<lparr>tActive = 0, tIdle = 0, tIdleClosed = True, tClosed = False\<rparr>"

definition tracker_begin :: "tracker \<Rightarrow> bool \<times> tracker" where
  "tracker_begin t =
     (if tClosed t then (False, t)
      else let t = (if tActive t = 0 then t\<lparr>tIdle := tIdle t + 1, tIdleClosed := False\<rparr> else t) in
        (True, t\<lparr>tActive := tActive t + 1\<rparr>))"

definition tracker_end :: "tracker \<Rightarrow> tracker" where
  "tracker_end t =
     (if 0 < tActive t
      then let t = t\<lparr>tActive := tActive t - 1\<rparr> in if tActive t = 0 then t\<lparr>tIdleClosed := True\<rparr> else t
      else t)"

definition tracker_stopAccepting :: "tracker \<Rightarrow> tracker" where
  "tracker_stopAccepting t = t\<lparr>tClosed := True\<rparr>"

text \<open>\<open>wait\<close> returns at once when nothing is active, else it waits for the channel it read.\<close>

definition tracker_wait :: "tracker \<Rightarrow> nat option" where
  "tracker_wait t = (if tActive t = 0 then None else Some (tIdle t))"

definition idle_is_closed :: "tracker \<Rightarrow> nat \<Rightarrow> bool" where
  "idle_is_closed t ch \<longleftrightarrow> ch < tIdle t \<or> tIdleClosed t"

section \<open>The connections of a runtime\<close>

record runtime =
  rHijacked :: "nat list"
  rClosing :: bool
  rSockets :: int

definition new_runtime :: runtime where
  "new_runtime = \<lparr>rHijacked = [], rClosing = False, rSockets = 0\<rparr>"

text \<open>When the answer is false because the runtime is closing, the connection was closed.\<close>

definition trackHijackedConnection :: "nat \<Rightarrow> runtime \<Rightarrow> bool \<times> runtime" where
  "trackHijackedConnection c r = (if rClosing r then (False, r) else (True, r\<lparr>rHijacked := List.insert c (rHijacked r)\<rparr>))"

definition untrackHijackedConnection :: "nat \<Rightarrow> runtime \<Rightarrow> runtime" where
  "untrackHijackedConnection c r = r\<lparr>rHijacked := removeAll c (rHijacked r)\<rparr>"

definition beginHijackedShutdown :: "runtime \<Rightarrow> runtime" where
  "beginHijackedShutdown r = r\<lparr>rClosing := True\<rparr>"

text \<open>The critical section of \<open>closeHijackedConnections\<close>; the connections it took are closed after it.\<close>

definition take_hijacked :: "runtime \<Rightarrow> nat list \<times> runtime" where
  "take_hijacked r = (rHijacked r, r\<lparr>rHijacked := []\<rparr>)"

text \<open>The loop of \<open>acquireWebSocketConnection\<close>: a load, which may end it, and a compare and swap.\<close>

definition load_sockets :: "int \<Rightarrow> runtime \<Rightarrow> int option" where
  "load_sockets limit r = (if limit \<le> rSockets r then None else Some (rSockets r))"

definition swap_sockets :: "int \<Rightarrow> runtime \<Rightarrow> bool \<times> runtime" where
  "swap_sockets current r = (if rSockets r = current then (True, r\<lparr>rSockets := current + 1\<rparr>) else (False, r))"

definition releaseWebSocketConnection :: "int \<Rightarrow> runtime \<Rightarrow> runtime" where
  "releaseWebSocketConnection limit r = (if limit \<le> 0 then r else r\<lparr>rSockets := rSockets r - 1\<rparr>)"

section \<open>The goroutines\<close>

text \<open>
  A request: running its handlers, in the loop of the acquisition, with a loaded count, with a slot,
  with an upgraded connection, with an open one, with a closed one, about to give back the slot, about
  to return, and ended.
\<close>

datatype phase =
    Running | Acquiring | Loaded int | Held | Upgraded nat | Open nat | Closed nat | Releasing | Returning | Ended

text \<open>
  \<open>Serve\<close>: not called or over, applying the configuration, serving, canceled, after \<open>stopAccepting\<close>, after
  \<open>beginHijackedShutdown\<close>, closing the connections it took, after the drain, waiting for the handlers,
  past a wait without error, past a wait that ran into its deadline, and past \<open>Lifecycle.Stop\<close>.
\<close>

datatype serve_pc =
    NotServing | Applying | Serving | Canceled | Refusing | Draining | Closing "nat list" | Drained
  | Waiting nat | Quiet | TimedOut | StoppedAll

text \<open>
  A call of \<open>Shutdown\<close>, likewise: \<open>Delegated\<close> waits for \<open>Serve\<close>, \<open>Alone\<close> has found that \<open>Serve\<close> is not
  running, \<open>Left\<close> returned.
\<close>

datatype caller_pc =
    Calling | Delegated | Alone | Refused | CWaiting nat | CQuiet | CFlagged | CClosing "nat list" | CDrained | Left

record sys =
  yTracker :: tracker
  yRuntime :: runtime
  yHandlers :: "phase list"
  yNextConn :: nat
  yClosedConns :: "nat list"
  yServe :: serve_pc
  yCallers :: "caller_pc list"
  yServing :: bool
  yServed :: bool
  yRequested :: bool
  yUnsafe :: bool
  yStopped :: bool

definition init_sys :: sys where
  "init_sys = \<lparr>yTracker = newActiveHandlerTracker, yRuntime = new_runtime, yHandlers = [], yNextConn = 0,
     yClosedConns = [], yServe = NotServing, yCallers = [], yServing = False, yServed = False,
     yRequested = False, yUnsafe = False, yStopped = False\<rparr>"

text \<open>
  The steps of request \<open>i\<close>. \<open>limit\<close> is the configured limit of WebSocket connections. The network may fail an
  upgrade, and the loop over the messages of an open connection ends when the connection is closed
  (\<open>LoopEnds\<close>) or the peer goes away (\<open>PeerLeaves\<close>).
\<close>

datatype hact =
    HandlerReturns | AskSocket | LoadCount | SwapCount | Upgrade bool | Track | LoopEnds | PeerLeaves | Untrack | GiveBack

definition set_phase :: "nat \<Rightarrow> phase \<Rightarrow> sys \<Rightarrow> sys" where
  "set_phase i p y = y\<lparr>yHandlers := (yHandlers y)[i := p]\<rparr>"

definition close_conn :: "nat \<Rightarrow> sys \<Rightarrow> sys" where
  "close_conn c y = y\<lparr>yClosedConns := List.insert c (yClosedConns y)\<rparr>"

definition with_runtime :: "runtime \<Rightarrow> sys \<Rightarrow> sys" where
  "with_runtime r y = y\<lparr>yRuntime := r\<rparr>"

definition handler_step :: "int \<Rightarrow> nat \<Rightarrow> hact \<Rightarrow> sys \<Rightarrow> sys option" where
  "handler_step limit i a y =
     (if length (yHandlers y) \<le> i then None
      else case (a, yHandlers y ! i) of
        (HandlerReturns, Running) \<Rightarrow> Some (set_phase i Ended (y\<lparr>yTracker := tracker_end (yTracker y)\<rparr>))
      | (HandlerReturns, Returning) \<Rightarrow> Some (set_phase i Ended (y\<lparr>yTracker := tracker_end (yTracker y)\<rparr>))
      | (AskSocket, Running) \<Rightarrow>
          Some (set_phase i (if rClosing (yRuntime y) then Returning
                             else if limit \<le> 0 then Held else Acquiring) y)
      | (LoadCount, Acquiring) \<Rightarrow>
          (case load_sockets limit (yRuntime y) of
             None \<Rightarrow> Some (set_phase i Returning y)
           | Some current \<Rightarrow> Some (set_phase i (Loaded current) y))
      | (SwapCount, Loaded current) \<Rightarrow>
          (case swap_sockets current (yRuntime y) of
             (True, r) \<Rightarrow> Some (set_phase i Held (with_runtime r y))
           | (False, r) \<Rightarrow> Some (set_phase i Acquiring (with_runtime r y)))
      | (Upgrade ok, Held) \<Rightarrow>
          Some (if ok then (set_phase i (Upgraded (yNextConn y)) y)\<lparr>yNextConn := yNextConn y + 1\<rparr>
                else set_phase i Releasing y)
      | (Track, Upgraded c) \<Rightarrow>
          (case trackHijackedConnection c (yRuntime y) of
             (True, r) \<Rightarrow> Some (set_phase i (Open c) (with_runtime r y))
           | (False, r) \<Rightarrow> Some (set_phase i Releasing (close_conn c y)))
      | (LoopEnds, Open c) \<Rightarrow>
          if c \<in> set (yClosedConns y) then Some (set_phase i (Closed c) (close_conn c y)) else None
      | (PeerLeaves, Open c) \<Rightarrow> Some (set_phase i (Closed c) (close_conn c y))
      | (Untrack, Closed c) \<Rightarrow> Some (set_phase i Releasing (with_runtime (untrackHijackedConnection c (yRuntime y)) y))
      | (GiveBack, Releasing) \<Rightarrow>
          Some (set_phase i Returning (with_runtime (releaseWebSocketConnection limit (yRuntime y)) y))
      | _ \<Rightarrow> None)"

text \<open>The middleware of the tracker in front of a new request; a refused one is answered with 503.\<close>

definition arrive :: "sys \<Rightarrow> sys" where
  "arrive y =
     (case tracker_begin (yTracker y) of
        (True, t) \<Rightarrow> y\<lparr>yTracker := t, yHandlers := yHandlers y @ [Running]\<rparr>
      | (False, t) \<Rightarrow> y)"

text \<open>The steps of \<open>Serve\<close>.\<close>

datatype sact =
    AcquireServing | ApplyFails | MarkServed | ServeEnds | RefuseNew | BeginDrain | TakeConns | CloseConn
  | WaitHandlers | WaitDone | WaitExpires | StopLifecycle | StopSkipped | ReleaseServing

definition acquireServing :: "sys \<Rightarrow> sys option" where
  "acquireServing y =
     (if yServing y \<or> yServed y \<or> yRequested y then None
      else Some (y\<lparr>yServing := True, yServe := Applying\<rparr>))"

definition serve_step :: "sact \<Rightarrow> sys \<Rightarrow> sys option" where
  "serve_step a y =
     (case (a, yServe y) of
        (AcquireServing, NotServing) \<Rightarrow> acquireServing y
      | (ApplyFails, Applying) \<Rightarrow> Some (y\<lparr>yServing := False, yServe := NotServing\<rparr>)
      | (MarkServed, Applying) \<Rightarrow> Some (y\<lparr>yServed := True, yUnsafe := False, yServe := Serving\<rparr>)
      | (ServeEnds, Serving) \<Rightarrow> Some (y\<lparr>yServe := Canceled\<rparr>)
      | (RefuseNew, Canceled) \<Rightarrow> Some (y\<lparr>yTracker := tracker_stopAccepting (yTracker y), yServe := Refusing\<rparr>)
      | (BeginDrain, Refusing) \<Rightarrow> Some (y\<lparr>yRuntime := beginHijackedShutdown (yRuntime y), yServe := Draining\<rparr>)
      | (TakeConns, Draining) \<Rightarrow>
          (case take_hijacked (yRuntime y) of (cs, r) \<Rightarrow> Some (y\<lparr>yRuntime := r, yServe := Closing cs\<rparr>))
      | (CloseConn, Closing []) \<Rightarrow> Some (y\<lparr>yServe := Drained\<rparr>)
      | (CloseConn, Closing (c # cs)) \<Rightarrow> Some ((close_conn c y)\<lparr>yServe := Closing cs\<rparr>)
      | (WaitHandlers, Drained) \<Rightarrow>
          Some (y\<lparr>yServe := (case tracker_wait (yTracker y) of None \<Rightarrow> Quiet | Some ch \<Rightarrow> Waiting ch)\<rparr>)
      | (WaitDone, Waiting ch) \<Rightarrow> if idle_is_closed (yTracker y) ch then Some (y\<lparr>yServe := Quiet\<rparr>) else None
      | (WaitExpires, Waiting ch) \<Rightarrow> Some (y\<lparr>yUnsafe := True, yServe := TimedOut\<rparr>)
      | (StopLifecycle, Quiet) \<Rightarrow> Some (y\<lparr>yStopped := True, yUnsafe := False, yServe := StoppedAll\<rparr>)
      | (StopSkipped, Quiet) \<Rightarrow> Some (y\<lparr>yUnsafe := False, yServe := StoppedAll\<rparr>)
      | (ReleaseServing, StoppedAll) \<Rightarrow> Some (y\<lparr>yServing := False, yServe := NotServing\<rparr>)
      | (ReleaseServing, TimedOut) \<Rightarrow> Some (y\<lparr>yServing := False, yServe := NotServing\<rparr>)
      | _ \<Rightarrow> None)"

text \<open>
  The steps of caller \<open>j\<close> of \<open>Shutdown\<close>. The first is its critical section; a caller that does not find
  \<open>Serve\<close> running refuses new requests itself (\<open>Refuse\<close>). After a timeout of \<open>Serve\<close> its wait may end early.
\<close>

datatype cact =
    RequestShutdown | Refuse | UnsafeExpires | Wait | CWaitDone | CWaitExpires | Flag | CTake | CClose | CStop | ServeOver

definition set_caller :: "nat \<Rightarrow> caller_pc \<Rightarrow> sys \<Rightarrow> sys" where
  "set_caller j p y = y\<lparr>yCallers := (yCallers y)[j := p]\<rparr>"

definition cancel_serving :: "serve_pc \<Rightarrow> serve_pc" where
  "cancel_serving p = (if p = Serving then Canceled else p)"

definition shutdown_step :: "nat \<Rightarrow> cact \<Rightarrow> sys \<Rightarrow> sys option" where
  "shutdown_step j a y =
     (if length (yCallers y) \<le> j then None
      else case (a, yCallers y ! j) of
        (RequestShutdown, Calling) \<Rightarrow>
          Some (if yServing y
                then set_caller j Delegated (y\<lparr>yRequested := True, yTracker := tracker_stopAccepting (yTracker y),
                       yServe := cancel_serving (yServe y)\<rparr>)
                else set_caller j Alone (y\<lparr>yRequested := True\<rparr>))
      | (Refuse, Alone) \<Rightarrow> Some (set_caller j Refused (y\<lparr>yTracker := tracker_stopAccepting (yTracker y)\<rparr>))
      | (Wait, Refused) \<Rightarrow>
          Some (set_caller j (case tracker_wait (yTracker y) of None \<Rightarrow> CQuiet | Some ch \<Rightarrow> CWaiting ch) y)
      | (UnsafeExpires, CWaiting ch) \<Rightarrow> if yUnsafe y then Some (set_caller j Left y) else None
      | (CWaitDone, CWaiting ch) \<Rightarrow> if idle_is_closed (yTracker y) ch then Some (set_caller j CQuiet y) else None
      | (CWaitExpires, CWaiting ch) \<Rightarrow> Some (set_caller j Left y)
      | (Flag, CQuiet) \<Rightarrow>
          Some (set_caller j CFlagged (y\<lparr>yUnsafe := False, yRuntime := beginHijackedShutdown (yRuntime y)\<rparr>))
      | (CTake, CFlagged) \<Rightarrow>
          (case take_hijacked (yRuntime y) of (cs, r) \<Rightarrow> Some (set_caller j (CClosing cs) (with_runtime r y)))
      | (CClose, CClosing []) \<Rightarrow> Some (set_caller j CDrained y)
      | (CClose, CClosing (c # cs)) \<Rightarrow> Some (set_caller j (CClosing cs) (close_conn c y))
      | (CStop, CDrained) \<Rightarrow> Some (set_caller j Left (y\<lparr>yStopped := True\<rparr>))
      | (ServeOver, Delegated) \<Rightarrow> Some (set_caller j Left y)
      | _ \<Rightarrow> None)"

datatype act = Arrive | Handler nat hact | ServeStep sact | Call | Caller nat cact

definition sys_step :: "int \<Rightarrow> act \<Rightarrow> sys \<Rightarrow> sys option" where
  "sys_step limit a y =
     (case a of
        Arrive \<Rightarrow> Some (arrive y)
      | Handler i h \<Rightarrow> handler_step limit i h y
      | ServeStep s \<Rightarrow> serve_step s y
      | Call \<Rightarrow> Some (y\<lparr>yCallers := yCallers y @ [Calling]\<rparr>)
      | Caller j c \<Rightarrow> shutdown_step j c y)"

inductive reachable :: "int \<Rightarrow> sys \<Rightarrow> bool" for limit where
  reach_init: "reachable limit init_sys"
| reach_step: "reachable limit y \<Longrightarrow> sys_step limit a y = Some y' \<Longrightarrow> reachable limit y'"

inductive_cases reachable_cases: "reachable limit y"

fun sys_run :: "int \<Rightarrow> act list \<Rightarrow> sys \<Rightarrow> sys option" where
  "sys_run limit [] y = Some y"
| "sys_run limit (a # as) y = (case sys_step limit a y of None \<Rightarrow> None | Some y' \<Rightarrow> sys_run limit as y')"

lemma sys_run_reachable:
  "sys_run limit as y = Some y' \<Longrightarrow> reachable limit y \<Longrightarrow> reachable limit y'"
  by (induction as arbitrary: y) (auto split: option.splits intro: reach_step)

end
