(* ===== verification/ShutdownProps.thy ===== *)
theory ShutdownProps
  imports Shutdown
begin

text \<open>
  What the shutdown of an application guarantees in every interleaving of requests, \<open>Serve\<close> and calls of
  \<open>Shutdown\<close>: the components are stopped only when no handler is left and none can come, the limit of
  WebSocket connections holds, and after the drain the handlers end.
\<close>

section \<open>Counting phases\<close>

definition count_phase :: "(phase \<Rightarrow> bool) \<Rightarrow> phase list \<Rightarrow> nat" where
  "count_phase P hs = length (filter P hs)"

lemma count_phase_simps [simp]:
  "count_phase P [] = 0" "count_phase P (hs @ [p]) = count_phase P hs + (if P p then 1 else 0)"
  by (simp_all add: count_phase_def)

lemma count_phase_update:
  assumes "i < length hs"
  shows "count_phase P (hs[i := q]) + (if P (hs ! i) then 1 else 0) = count_phase P hs + (if P q then 1 else 0)"
  using assms
proof (induction hs arbitrary: i)
  case (Cons h hs)
  then show ?case by (cases i) (auto simp: count_phase_def)
qed simp

lemma count_phase_keep [simp]:
  "i < length hs \<Longrightarrow> P (hs ! i) = P q \<Longrightarrow> count_phase P (hs[i := q]) = count_phase P hs"
  using count_phase_update [of i hs P q] by simp

lemma count_phase_drop [simp]:
  "i < length hs \<Longrightarrow> P (hs ! i) \<Longrightarrow> \<not> P q \<Longrightarrow> Suc (count_phase P (hs[i := q])) = count_phase P hs"
  using count_phase_update [of i hs P q] by simp

lemma count_phase_gain [simp]:
  "i < length hs \<Longrightarrow> \<not> P (hs ! i) \<Longrightarrow> P q \<Longrightarrow> count_phase P (hs[i := q]) = Suc (count_phase P hs)"
  using count_phase_update [of i hs P q] by simp

lemma count_phase_pos: "i < length hs \<Longrightarrow> P (hs ! i) \<Longrightarrow> 0 < count_phase P hs"
  by (auto simp: count_phase_def filter_empty_conv)

lemma count_phase_zero: "count_phase P hs = 0 \<longleftrightarrow> (\<forall>h \<in> set hs. \<not> P h)"
  by (auto simp: count_phase_def filter_empty_conv)

lemma in_update: "x \<in> set (xs[i := q]) \<Longrightarrow> x = q \<or> x \<in> set xs"
  using set_update_subset_insert [of xs i q] by auto

lemma in_update_other: "x \<in> set xs \<Longrightarrow> xs ! i \<noteq> x \<Longrightarrow> x \<in> set (xs[i := q])"
  by (metis in_set_conv_nth length_list_update nth_list_update_neq)

definition live :: "phase \<Rightarrow> bool" where
  "live p \<longleftrightarrow> p \<noteq> Ended"

definition holds :: "phase \<Rightarrow> bool" where
  "holds p \<longleftrightarrow> (case p of Held \<Rightarrow> True | Upgraded _ \<Rightarrow> True | Open _ \<Rightarrow> True | Closed _ \<Rightarrow> True | Releasing \<Rightarrow> True | _ \<Rightarrow> False)"

section \<open>The steps by cases\<close>

lemma handler_step_cases:
  assumes "handler_step limit i a y = Some y'"
  obtains
    (returns) "i < length (yHandlers y)" "a = HandlerReturns" "yHandlers y ! i \<in> {Running, Returning}"
      "y' = set_phase i Ended (y\<lparr>yTracker := tracker_end (yTracker y)\<rparr>)"
  | (ask) "i < length (yHandlers y)" "a = AskSocket" "yHandlers y ! i = Running"
      "y' = set_phase i (if rClosing (yRuntime y) then Returning else if limit \<le> 0 then Held else Acquiring) y"
  | (full) "i < length (yHandlers y)" "a = LoadCount" "yHandlers y ! i = Acquiring"
      "limit \<le> rSockets (yRuntime y)" "y' = set_phase i Returning y"
  | (loaded) "i < length (yHandlers y)" "a = LoadCount" "yHandlers y ! i = Acquiring"
      "rSockets (yRuntime y) < limit" "y' = set_phase i (Loaded (rSockets (yRuntime y))) y"
  | (swapped) "i < length (yHandlers y)" "a = SwapCount" "yHandlers y ! i = Loaded (rSockets (yRuntime y))"
      "y' = set_phase i Held (with_runtime ((yRuntime y)\<lparr>rSockets := rSockets (yRuntime y) + 1\<rparr>) y)"
  | (stale) current where "i < length (yHandlers y)" "a = SwapCount" "yHandlers y ! i = Loaded current"
      "current \<noteq> rSockets (yRuntime y)" "y' = set_phase i Acquiring y"
  | (upgraded) "i < length (yHandlers y)" "a = Upgrade True" "yHandlers y ! i = Held"
      "y' = (set_phase i (Upgraded (yNextConn y)) y)\<lparr>yNextConn := yNextConn y + 1\<rparr>"
  | (not_upgraded) "i < length (yHandlers y)" "a = Upgrade False" "yHandlers y ! i = Held" "y' = set_phase i Releasing y"
  | (tracked) c where "i < length (yHandlers y)" "a = Track" "yHandlers y ! i = Upgraded c" "\<not> rClosing (yRuntime y)"
      "y' = set_phase i (Open c) (with_runtime ((yRuntime y)\<lparr>rHijacked := List.insert c (rHijacked (yRuntime y))\<rparr>) y)"
  | (not_tracked) c where "i < length (yHandlers y)" "a = Track" "yHandlers y ! i = Upgraded c" "rClosing (yRuntime y)"
      "y' = set_phase i Releasing (close_conn c y)"
  | (ended) c where "i < length (yHandlers y)" "a = LoopEnds \<and> c \<in> set (yClosedConns y) \<or> a = PeerLeaves"
      "yHandlers y ! i = Open c" "y' = set_phase i (Closed c) (close_conn c y)"
  | (untracked) c where "i < length (yHandlers y)" "a = Untrack" "yHandlers y ! i = Closed c"
      "y' = set_phase i Releasing (with_runtime (untrackHijackedConnection c (yRuntime y)) y)"
  | (released) "i < length (yHandlers y)" "a = GiveBack" "yHandlers y ! i = Releasing"
      "y' = set_phase i Returning (with_runtime (releaseWebSocketConnection limit (yRuntime y)) y)"
proof -
  have len: "i < length (yHandlers y)" using assms by (auto simp: handler_step_def split: if_splits)
  show thesis
  proof (cases "yHandlers y ! i")
    case Running
    then show thesis using assms len returns ask by (cases a) (auto simp: handler_step_def)
  next
    case Acquiring
    then show thesis using assms len full loaded
      by (cases a) (auto simp: handler_step_def load_sockets_def split: if_splits)
  next
    case (Loaded current)
    then show thesis using assms len swapped stale
      by (cases a) (auto simp: handler_step_def swap_sockets_def with_runtime_def split: if_splits)
  next
    case Held
    then show thesis using assms len upgraded not_upgraded
      by (cases a) (auto simp: handler_step_def split: if_splits)
  next
    case (Upgraded c)
    then show thesis using assms len tracked not_tracked
      by (cases a) (auto simp: handler_step_def trackHijackedConnection_def split: if_splits)
  next
    case (Open c)
    then show thesis using assms len ended by (cases a) (auto simp: handler_step_def split: if_splits)
  next
    case (Closed c)
    then show thesis using assms len untracked by (cases a) (auto simp: handler_step_def)
  next
    case Releasing
    then show thesis using assms len released by (cases a) (auto simp: handler_step_def)
  next
    case Returning
    then show thesis using assms len returns by (cases a) (auto simp: handler_step_def)
  next
    case Ended
    then show thesis using assms len by (cases a) (auto simp: handler_step_def)
  qed
qed


lemma handler_step_frame:
  assumes "handler_step limit i a y = Some y'"
  shows "yServe y' = yServe y" "yCallers y' = yCallers y" "yStopped y' = yStopped y"
    "rClosing (yRuntime y') = rClosing (yRuntime y)" "length (yHandlers y') = length (yHandlers y)"
  using assms
  by (cases rule: handler_step_cases,
      simp_all add: set_phase_def with_runtime_def close_conn_def untrackHijackedConnection_def releaseWebSocketConnection_def)+

lemma handler_step_tracker:
  assumes "handler_step limit i a y = Some y'"
  shows "yTracker y' = yTracker y \<and> count_phase live (yHandlers y') = count_phase live (yHandlers y)
    \<or> yTracker y' = tracker_end (yTracker y) \<and> count_phase live (yHandlers y') + 1 = count_phase live (yHandlers y)"
  using assms
  by (cases rule: handler_step_cases) (auto simp: set_phase_def with_runtime_def close_conn_def live_def)

section \<open>The components are stopped last\<close>

definition serve_refused :: "serve_pc \<Rightarrow> bool" where
  "serve_refused p \<longleftrightarrow> p \<notin> {NotServing, Applying, Serving, Canceled}"

definition serve_quiet :: "serve_pc \<Rightarrow> bool" where
  "serve_quiet p \<longleftrightarrow> p \<in> {Quiet, StoppedAll}"

definition caller_refused :: "caller_pc \<Rightarrow> bool" where
  "caller_refused p \<longleftrightarrow> p \<notin> {Calling, Delegated, Alone, Left}"

definition caller_quiet :: "caller_pc \<Rightarrow> bool" where
  "caller_quiet p \<longleftrightarrow> (case p of CQuiet \<Rightarrow> True | CFlagged \<Rightarrow> True | CClosing cs \<Rightarrow> True | CDrained \<Rightarrow> True | _ \<Rightarrow> False)"

definition tracker_ok :: "sys \<Rightarrow> bool" where
  "tracker_ok y \<longleftrightarrow>
     tActive (yTracker y) = count_phase live (yHandlers y)
   \<and> (tIdleClosed (yTracker y) \<longleftrightarrow> tActive (yTracker y) = 0)"

definition serve_ok :: "sys \<Rightarrow> bool" where
  "serve_ok y \<longleftrightarrow>
     (\<forall>ch. yServe y = Waiting ch \<longrightarrow> ch = tIdle (yTracker y))
   \<and> (serve_refused (yServe y) \<longrightarrow> tClosed (yTracker y))
   \<and> (serve_quiet (yServe y) \<longrightarrow> tActive (yTracker y) = 0)"

definition caller_ok :: "tracker \<Rightarrow> caller_pc \<Rightarrow> bool" where
  "caller_ok t p \<longleftrightarrow>
     (\<forall>ch. p = CWaiting ch \<longrightarrow> ch = tIdle t)
   \<and> (caller_refused p \<longrightarrow> tClosed t) \<and> (caller_quiet p \<longrightarrow> tActive t = 0)"

definition stop_ok :: "sys \<Rightarrow> bool" where
  "stop_ok y \<longleftrightarrow>
     tracker_ok y \<and> serve_ok y \<and> (\<forall>p \<in> set (yCallers y). caller_ok (yTracker y) p)
   \<and> (yStopped y \<longrightarrow> tActive (yTracker y) = 0 \<and> tClosed (yTracker y))"

lemmas stop_defs = tracker_ok_def serve_ok_def caller_ok_def serve_refused_def serve_quiet_def
  caller_refused_def caller_quiet_def

text \<open>A change of the tracker that keeps what the waiting goroutines rely on.\<close>

lemma tracker_end_ok:
  assumes "stop_ok y" "yTracker y' = tracker_end (yTracker y)" "yServe y' = yServe y" "yCallers y' = yCallers y"
    "yStopped y' = yStopped y" "count_phase live (yHandlers y') + 1 = count_phase live (yHandlers y)"
  shows "stop_ok y'"
proof -
  let ?t = "yTracker y" and ?t' = "tracker_end (yTracker y)"
  have act: "tActive ?t' = tActive ?t - 1" "tIdle ?t' = tIdle ?t" "tClosed ?t' = tClosed ?t"
    by (simp_all add: tracker_end_def Let_def)
  have pos: "0 < tActive ?t" using assms(1,6) by (simp add: stop_ok_def tracker_ok_def)
  then have idle: "tIdleClosed ?t' \<longleftrightarrow> tActive ?t' = 0"
    using assms(1) by (auto simp: tracker_end_def Let_def stop_ok_def tracker_ok_def)
  show ?thesis
    using assms act idle pos
    by (auto simp: stop_ok_def tracker_ok_def serve_ok_def caller_ok_def)
qed

lemma stop_ok_same:
  assumes "stop_ok y" "yTracker y' = yTracker y" "yServe y' = yServe y" "yCallers y' = yCallers y"
    "yStopped y' = yStopped y" "count_phase live (yHandlers y') = count_phase live (yHandlers y)"
  shows "stop_ok y'"
  using assms unfolding stop_ok_def tracker_ok_def serve_ok_def by auto

lemma handler_step_stop_ok:
  assumes "handler_step limit i a y = Some y'" "stop_ok y"
  shows "stop_ok y'"
  using handler_step_tracker [OF assms(1)] handler_step_frame [OF assms(1)] assms(2)
    stop_ok_same tracker_end_ok by metis

lemma refused_simps [simp]:
  "serve_refused (Waiting ch)" "serve_quiet p \<Longrightarrow> serve_refused p"
  "caller_refused (CWaiting ch)" "caller_quiet q \<Longrightarrow> caller_refused q"
  by (auto simp: serve_refused_def serve_quiet_def caller_refused_def caller_quiet_def)

lemma arrive_stop_ok:
  assumes "stop_ok y"
  shows "stop_ok (arrive y)"
proof (cases "tClosed (yTracker y)")
  case True
  then show ?thesis using assms by (simp add: arrive_def tracker_begin_def)
next
  case False
  then have "\<not> serve_refused (yServe y)" "\<forall>p \<in> set (yCallers y). \<not> caller_refused p" "\<not> yStopped y"
    using assms by (auto simp: stop_ok_def serve_ok_def caller_ok_def)
  then have "\<forall>ch. yServe y \<noteq> Waiting ch" "\<not> serve_quiet (yServe y)" "\<forall>p \<in> set (yCallers y). \<not> caller_quiet p"
    "\<forall>ch. CWaiting ch \<notin> set (yCallers y)"
    using refused_simps by metis+
  then show ?thesis
    using False assms \<open>\<not> yStopped y\<close> \<open>\<not> serve_refused (yServe y)\<close> \<open>\<forall>p \<in> set (yCallers y). \<not> caller_refused p\<close>
    by (auto simp: arrive_def tracker_begin_def Let_def stop_ok_def tracker_ok_def serve_ok_def caller_ok_def live_def)
qed

lemma stopAccepting_ok: "stop_ok y \<Longrightarrow> stop_ok (y\<lparr>yTracker := tracker_stopAccepting (yTracker y)\<rparr>)"
  by (auto simp: stop_ok_def tracker_ok_def serve_ok_def caller_ok_def tracker_stopAccepting_def)

lemma idle_when_closed: "stop_ok y \<Longrightarrow> ch = tIdle (yTracker y) \<Longrightarrow> idle_is_closed (yTracker y) ch \<longleftrightarrow> tActive (yTracker y) = 0"
  by (simp add: stop_ok_def tracker_ok_def idle_is_closed_def)

lemma serve_move:
  assumes "stop_ok y" "yTracker y' = yTracker y" "yHandlers y' = yHandlers y" "yCallers y' = yCallers y"
    "serve_ok y'" "yStopped y' \<longrightarrow> yStopped y \<or> tActive (yTracker y) = 0 \<and> tClosed (yTracker y)"
  shows "stop_ok y'"
  using assms unfolding stop_ok_def tracker_ok_def by auto

lemma serve_step_stop_ok:
  assumes step: "serve_step a y = Some y'" and ok: "stop_ok y"
  shows "stop_ok y'"
proof (cases "yServe y = Canceled")
  case True
  then have "y' = (y\<lparr>yTracker := tracker_stopAccepting (yTracker y)\<rparr>)\<lparr>yServe := Refusing\<rparr>"
    using step by (cases a) (auto simp: serve_step_def)
  moreover have "serve_ok \<dots>" by (simp add: serve_ok_def serve_quiet_def tracker_stopAccepting_def)
  ultimately show ?thesis
    using serve_move [OF stopAccepting_ok [OF ok], of y'] by simp
next
  case False
  have s: "serve_ok y" using ok by (simp add: stop_ok_def)
  have idle: "idle_is_closed (yTracker y) ch \<Longrightarrow> yServe y = Waiting ch \<Longrightarrow> tActive (yTracker y) = 0" for ch
    using idle_when_closed [OF ok, of ch] s by (simp add: serve_ok_def)
  show ?thesis
  proof (rule serve_move [OF ok])
    show "yTracker y' = yTracker y" "yHandlers y' = yHandlers y" "yCallers y' = yCallers y"
      using step False
      by (cases "yServe y"; cases a; auto simp: serve_step_def acquireServing_def take_hijacked_def close_conn_def
          split: if_splits list.splits)+
    show "yStopped y' \<longrightarrow> yStopped y \<or> tActive (yTracker y) = 0 \<and> tClosed (yTracker y)"
      using step False s
      by (cases "yServe y"; cases a; auto simp: serve_step_def acquireServing_def take_hijacked_def close_conn_def
          serve_ok_def serve_quiet_def serve_refused_def split: if_splits list.splits)
    show "serve_ok y'"
      using step False s idle
      by (cases "yServe y"; cases a; auto simp: serve_step_def acquireServing_def take_hijacked_def close_conn_def
          tracker_wait_def serve_ok_def serve_quiet_def serve_refused_def split: if_splits list.splits)
  qed
qed

lemma stop_ok_set_caller:
  assumes "stop_ok y" "caller_ok (yTracker y) q"
  shows "stop_ok (set_caller j q y)"
proof -
  have "\<forall>p \<in> set ((yCallers y)[j := q]). caller_ok (yTracker y) p"
    using assms by (auto simp: stop_ok_def dest: in_update)
  then show ?thesis using assms(1) unfolding stop_ok_def tracker_ok_def serve_ok_def set_caller_def by auto
qed

lemma stop_ok_cancel:
  assumes "stop_ok y"
  shows "stop_ok (y\<lparr>yRequested := True, yTracker := tracker_stopAccepting (yTracker y), yServe := cancel_serving (yServe y)\<rparr>)"
proof -
  let ?z = "y\<lparr>yTracker := tracker_stopAccepting (yTracker y)\<rparr>"
  have z: "stop_ok ?z" by (rule stopAccepting_ok [OF assms])
  then have "serve_ok ?z" by (simp add: stop_ok_def)
  then have "serve_ok (y\<lparr>yRequested := True, yTracker := tracker_stopAccepting (yTracker y), yServe := cancel_serving (yServe y)\<rparr>)"
    by (auto simp: serve_ok_def cancel_serving_def serve_refused_def serve_quiet_def)
  from serve_move [OF z _ _ _ this] show ?thesis by simp
qed

lemma stop_ok_irrelevant [simp]:
  "stop_ok (y\<lparr>yRequested := b\<rparr>) = stop_ok y" "stop_ok (y\<lparr>yUnsafe := b\<rparr>) = stop_ok y"
  "stop_ok (y\<lparr>yRuntime := r\<rparr>) = stop_ok y" "stop_ok (y\<lparr>yClosedConns := cs\<rparr>) = stop_ok y"
  by (simp_all add: stop_ok_def tracker_ok_def serve_ok_def)

lemma shutdown_step_stop_ok:
  assumes step: "shutdown_step j a y = Some y'" and ok: "stop_ok y"
  shows "stop_ok y'"
proof -
  have j: "j < length (yCallers y)" using step by (auto simp: shutdown_step_def split: if_splits)
  then have here: "caller_ok (yTracker y) (yCallers y ! j)" using ok by (simp add: stop_ok_def)
  have off: "caller_ok t Delegated" "caller_ok t Alone" "caller_ok t Left" for t
    by (simp_all add: caller_ok_def caller_refused_def caller_quiet_def)
  show ?thesis
  proof (cases "yCallers y ! j")
    case Calling
    then show ?thesis
      using step j ok off stop_ok_cancel [OF ok]
      by (cases a) (auto simp: shutdown_step_def intro!: stop_ok_set_caller)
  next
    case Delegated
    then show ?thesis using step j ok off by (cases a) (auto simp: shutdown_step_def intro!: stop_ok_set_caller)
  next
    case Alone
    have "caller_ok (tracker_stopAccepting (yTracker y)) Refused"
      by (simp add: caller_ok_def caller_quiet_def tracker_stopAccepting_def)
    then show ?thesis
      using step j Alone stopAccepting_ok [OF ok]
      by (cases a) (auto simp: shutdown_step_def intro!: stop_ok_set_caller)
  next
    case Refused
    then have "caller_ok (yTracker y) (case tracker_wait (yTracker y) of None \<Rightarrow> CQuiet | Some ch \<Rightarrow> CWaiting ch)"
      using here by (auto simp: caller_ok_def caller_refused_def caller_quiet_def tracker_wait_def)
    then show ?thesis
      using step j Refused ok by (cases a) (auto simp: shutdown_step_def intro!: stop_ok_set_caller)
  next
    case (CWaiting ch)
    have "idle_is_closed (yTracker y) ch \<Longrightarrow> caller_ok (yTracker y) CQuiet"
      using idle_when_closed [OF ok, of ch] here CWaiting
      by (auto simp: caller_ok_def caller_refused_def caller_quiet_def)
    then show ?thesis
      using step j ok off CWaiting
      by (cases a) (auto simp: shutdown_step_def split: if_splits intro!: stop_ok_set_caller)
  next
    case CQuiet
    then have "caller_ok (yTracker y) CFlagged" using here by (simp add: caller_ok_def caller_refused_def caller_quiet_def)
    then show ?thesis
      using step j ok CQuiet by (cases a) (auto simp: shutdown_step_def intro!: stop_ok_set_caller)
  next
    case CFlagged
    then have "caller_ok (yTracker y) (CClosing cs)" for cs
      using here by (simp add: caller_ok_def caller_refused_def caller_quiet_def)
    then show ?thesis
      using step j ok CFlagged
      by (cases a) (auto simp: shutdown_step_def take_hijacked_def with_runtime_def intro!: stop_ok_set_caller)
  next
    case (CClosing cs)
    then have "caller_ok (yTracker y) (CClosing ds)" "caller_ok (yTracker y) CDrained" for ds
      using here by (simp_all add: caller_ok_def caller_refused_def caller_quiet_def)
    then show ?thesis
      using step j ok CClosing
      by (cases a; cases cs) (auto simp: shutdown_step_def close_conn_def intro!: stop_ok_set_caller)
  next
    case CDrained
    then have "tActive (yTracker y) = 0" "tClosed (yTracker y)"
      using here by (simp_all add: caller_ok_def caller_refused_def caller_quiet_def)
    then have "stop_ok (y\<lparr>yStopped := True\<rparr>)" using ok by (simp add: stop_ok_def tracker_ok_def serve_ok_def)
    then show ?thesis
      using step j off CDrained by (cases a) (auto simp: shutdown_step_def intro!: stop_ok_set_caller)
  next
    case Left
    then show ?thesis using step j by (cases a) (auto simp: shutdown_step_def)
  qed
qed

lemma stop_ok_reachable: "reachable limit y \<Longrightarrow> stop_ok y"
proof (induction rule: reachable.induct)
  case reach_init
  show ?case
    by (simp add: init_sys_def newActiveHandlerTracker_def stop_ok_def tracker_ok_def serve_ok_def serve_refused_def
        serve_quiet_def)
next
  case (reach_step y a y')
  have call: "stop_ok (y\<lparr>yCallers := yCallers y @ [Calling]\<rparr>)"
    using reach_step.IH
    by (auto simp: stop_ok_def tracker_ok_def serve_ok_def caller_ok_def caller_refused_def caller_quiet_def)
  show ?case
    using reach_step.hyps reach_step.IH call
    by (cases a) (auto simp: sys_step_def intro: arrive_stop_ok handler_step_stop_ok serve_step_stop_ok shutdown_step_stop_ok)
qed


section \<open>The limit of WebSocket connections\<close>

definition sockets_ok :: "int \<Rightarrow> runtime \<Rightarrow> phase list \<Rightarrow> bool" where
  "sockets_ok limit r hs \<longleftrightarrow>
     0 < limit \<longrightarrow> rSockets r = int (count_phase holds hs) \<and> rSockets r \<le> limit
       \<and> (\<forall>current. Loaded current \<in> set hs \<longrightarrow> current < limit)"

lemma holds_simps [simp]:
  "\<not> holds Running" "\<not> holds Acquiring" "\<not> holds (Loaded n)" "holds Held" "holds (Upgraded c)" "holds (Open c)"
  "holds (Closed c)" "holds Releasing" "\<not> holds Returning" "\<not> holds Ended"
  by (simp_all add: holds_def)

lemma sockets_ok_keep:
  assumes "sockets_ok limit r hs" "i < length hs" "holds (hs ! i) = holds q" "rSockets r' = rSockets r"
    "\<forall>n. q = Loaded n \<longrightarrow> n < limit"
  shows "sockets_ok limit r' (hs[i := q])"
  using assms unfolding sockets_ok_def by (auto dest!: in_update)

lemma sockets_ok_same: "sockets_ok limit r hs \<Longrightarrow> rSockets r' = rSockets r \<Longrightarrow> sockets_ok limit r' hs"
  by (simp only: sockets_ok_def)

lemma handler_step_sockets_ok:
  assumes "handler_step limit i a y = Some y'" "sockets_ok limit (yRuntime y) (yHandlers y)"
  shows "sockets_ok limit (yRuntime y') (yHandlers y')"
  using assms(1)
proof (cases rule: handler_step_cases)
  case returns
  then show ?thesis using sockets_ok_keep [OF assms(2), of i Ended] by (auto simp: set_phase_def)
next
  case ask
  then show ?thesis
    using assms(2) sockets_ok_keep [OF assms(2), of i Returning] sockets_ok_keep [OF assms(2), of i Acquiring]
    by (auto simp: set_phase_def) (simp add: sockets_ok_def)
next
  case full
  then show ?thesis using sockets_ok_keep [OF assms(2), of i Returning] by (simp add: set_phase_def)
next
  case loaded
  then show ?thesis
    using sockets_ok_keep [OF assms(2), of i "Loaded (rSockets (yRuntime y))"] by (simp add: set_phase_def)
next
  case swapped
  then have "Loaded (rSockets (yRuntime y)) \<in> set (yHandlers y)" by (metis nth_mem)
  then show ?thesis using swapped assms(2)
    by (auto simp: sockets_ok_def set_phase_def with_runtime_def dest!: in_update)
next
  case (stale c)
  then show ?thesis using sockets_ok_keep [OF assms(2), of i Acquiring] by (simp add: set_phase_def)
next
  case upgraded
  then show ?thesis using sockets_ok_keep [OF assms(2), of i "Upgraded (yNextConn y)"] by (simp add: set_phase_def)
next
  case not_upgraded
  then show ?thesis using sockets_ok_keep [OF assms(2), of i Releasing] by (simp add: set_phase_def)
next
  case (tracked c)
  then show ?thesis using sockets_ok_keep [OF assms(2), of i "Open c"] by (simp add: set_phase_def with_runtime_def)
next
  case (not_tracked c)
  then show ?thesis using sockets_ok_keep [OF assms(2), of i Releasing] by (simp add: set_phase_def close_conn_def)
next
  case (ended c)
  then show ?thesis using sockets_ok_keep [OF assms(2), of i "Closed c"] by (simp add: set_phase_def close_conn_def)
next
  case (untracked c)
  then show ?thesis using sockets_ok_keep [OF assms(2), of i Releasing]
    by (simp add: set_phase_def with_runtime_def untrackHijackedConnection_def)
next
  case released
  have "Suc (count_phase holds ((yHandlers y)[i := Returning])) = count_phase holds (yHandlers y)"
    by (rule count_phase_drop) (use released in simp_all)
  then have "int (count_phase holds ((yHandlers y)[i := Returning])) = int (count_phase holds (yHandlers y)) - 1"
    by linarith
  then show ?thesis using released assms(2)
    by (auto simp: sockets_ok_def set_phase_def with_runtime_def releaseWebSocketConnection_def dest!: in_update)
qed

lemma other_steps_frame:
  "serve_step s y = Some y' \<Longrightarrow> yHandlers y' = yHandlers y \<and> rSockets (yRuntime y') = rSockets (yRuntime y)
     \<and> yNextConn y' = yNextConn y"
  "shutdown_step j c y = Some y' \<Longrightarrow> yHandlers y' = yHandlers y \<and> rSockets (yRuntime y') = rSockets (yRuntime y)
     \<and> yNextConn y' = yNextConn y"
  subgoal
    by (cases "yServe y"; cases s; auto simp: serve_step_def acquireServing_def take_hijacked_def close_conn_def
        beginHijackedShutdown_def split: if_splits list.splits)
  subgoal
    by (cases "yCallers y ! j"; cases c; auto simp: shutdown_step_def take_hijacked_def close_conn_def
        beginHijackedShutdown_def with_runtime_def set_caller_def Let_def split: if_splits list.splits)
  done

lemma sockets_ok_reachable: "reachable limit y \<Longrightarrow> sockets_ok limit (yRuntime y) (yHandlers y)"
proof (induction rule: reachable.induct)
  case reach_init
  show ?case by (simp add: init_sys_def new_runtime_def sockets_ok_def)
next
  case (reach_step y a y')
  show ?case
  proof (cases a)
    case Arrive
    then show ?thesis using reach_step
      by (auto simp: sys_step_def arrive_def sockets_ok_def split: prod.splits bool.splits)
  next
    case (Handler i h)
    then show ?thesis using reach_step handler_step_sockets_ok by (simp add: sys_step_def)
  next
    case (ServeStep s)
    then show ?thesis using reach_step other_steps_frame(1) [of s y y'] sockets_ok_same by (simp add: sys_step_def)
  next
    case Call
    then show ?thesis using reach_step by (auto simp: sys_step_def)
  next
    case (Caller j c)
    then show ?thesis using reach_step other_steps_frame(2) [of j c y y'] sockets_ok_same by (simp add: sys_step_def)
  qed
qed

section \<open>The connections of a drained application are closed\<close>

definition pending :: "sys \<Rightarrow> nat set" where
  "pending y = {c. (\<exists>cs. yServe y = Closing cs \<and> c \<in> set cs) \<or> (\<exists>cs. CClosing cs \<in> set (yCallers y) \<and> c \<in> set cs)}"

definition taken :: "serve_pc \<Rightarrow> bool" where
  "taken p \<longleftrightarrow> (case p of Closing cs \<Rightarrow> True | Drained \<Rightarrow> True | Waiting ch \<Rightarrow> True | Quiet \<Rightarrow> True | TimedOut \<Rightarrow> True
     | StoppedAll \<Rightarrow> True | _ \<Rightarrow> False)"

definition conn_inv :: "phase list \<Rightarrow> nat set \<Rightarrow> nat set \<Rightarrow> nat set \<Rightarrow> bool" where
  "conn_inv hs hij pd cl \<longleftrightarrow>
     (\<forall>c. Open c \<in> set hs \<longrightarrow> c \<in> hij \<or> c \<in> pd \<or> c \<in> cl)
   \<and> (\<forall>c. Closed c \<in> set hs \<longrightarrow> c \<in> cl)
   \<and> (\<forall>c \<in> hij. Open c \<in> set hs \<or> Closed c \<in> set hs)"

definition no_conn :: "phase \<Rightarrow> bool" where
  "no_conn p \<longleftrightarrow> (\<forall>c. p \<noteq> Open c \<and> p \<noteq> Closed c)"

lemma conn_inv_keep:
  assumes "conn_inv hs hij pd cl" "i < length hs" "no_conn (hs ! i)" "no_conn q" "cl \<subseteq> cl'"
  shows "conn_inv (hs[i := q]) hij pd cl'"
proof -
  have "Open c \<in> set (hs[i := q]) \<longleftrightarrow> Open c \<in> set hs" "Closed c \<in> set (hs[i := q]) \<longleftrightarrow> Closed c \<in> set hs" for c
    using assms(3,4) in_update [of _ hs i q] in_update_other [of _ hs i q] unfolding no_conn_def by metis+
  then show ?thesis using assms(1,5) unfolding conn_inv_def by blast
qed

lemma conn_inv_open:
  assumes "conn_inv hs hij pd cl" "i < length hs" "no_conn (hs ! i)"
  shows "conn_inv (hs[i := Open c]) (insert c hij) pd cl"
proof -
  have "Open d \<in> set (hs[i := Open c]) \<longleftrightarrow> d = c \<or> Open d \<in> set hs"
    "Closed d \<in> set (hs[i := Open c]) \<longleftrightarrow> Closed d \<in> set hs" for d
    using assms(2,3) in_update [of _ hs i "Open c"] in_update_other [of _ hs i "Open c"] set_update_memI [of i hs "Open c"]
    unfolding no_conn_def by (metis phase.inject(3) phase.distinct)+
  then show ?thesis using assms(1) unfolding conn_inv_def by blast
qed

lemma conn_inv_close:
  assumes "conn_inv hs hij pd cl" "i < length hs" "hs ! i = Open c"
  shows "conn_inv (hs[i := Closed c]) hij pd (insert c cl)"
proof -
  have o: "Open d \<in> set (hs[i := Closed c]) \<Longrightarrow> Open d \<in> set hs" for d
    using in_update [of "Open d" hs i "Closed c"] by simp
  have o': "Open d \<in> set hs \<Longrightarrow> d \<noteq> c \<Longrightarrow> Open d \<in> set (hs[i := Closed c])" for d
    using in_update_other [of "Open d" hs i "Closed c"] assms(3) by simp
  have k: "Closed d \<in> set (hs[i := Closed c]) \<longleftrightarrow> d = c \<or> Closed d \<in> set hs" for d
    using in_update [of "Closed d" hs i "Closed c"] in_update_other [of "Closed d" hs i "Closed c"]
      set_update_memI [OF assms(2), of "Closed c"] assms(3) by auto
  show ?thesis using assms(1) o o' k unfolding conn_inv_def by blast
qed

lemma conn_inv_untrack:
  assumes "conn_inv hs hij pd cl" "i < length hs" "hs ! i = Closed c" "no_conn q"
  shows "conn_inv (hs[i := q]) (hij - {c}) pd cl"
proof -
  have o: "Open d \<in> set (hs[i := q]) \<longleftrightarrow> Open d \<in> set hs" for d
    using in_update [of "Open d" hs i q] in_update_other [of "Open d" hs i q] assms(3,4) unfolding no_conn_def by auto
  have k: "Closed d \<in> set (hs[i := q]) \<Longrightarrow> Closed d \<in> set hs" for d
    using in_update [of "Closed d" hs i q] assms(4) unfolding no_conn_def by auto
  have k': "Closed d \<in> set hs \<Longrightarrow> d \<noteq> c \<Longrightarrow> Closed d \<in> set (hs[i := q])" for d
    using in_update_other [of "Closed d" hs i q] assms(3) by simp
  have "Closed c \<in> set hs" using assms(2,3) by (metis nth_mem)
  then have "c \<in> cl" using assms(1) unfolding conn_inv_def by blast
  then show ?thesis using assms(1) o k k' unfolding conn_inv_def by blast
qed

definition conns_ok :: "sys \<Rightarrow> bool" where
  "conns_ok y \<longleftrightarrow>
     conn_inv (yHandlers y) (set (rHijacked (yRuntime y))) (pending y) (set (yClosedConns y))
   \<and> (taken (yServe y) \<or> yServe y = Draining \<longrightarrow> rClosing (yRuntime y))
   \<and> (taken (yServe y) \<longrightarrow> rHijacked (yRuntime y) = [])"

lemma no_conn_simps [simp]:
  "no_conn Running" "no_conn Acquiring" "no_conn (Loaded n)" "no_conn Held" "no_conn (Upgraded c)" "no_conn Releasing"
  "no_conn Returning" "no_conn Ended"
  by (simp_all add: no_conn_def)

lemma handler_step_conns_ok:
  assumes step: "handler_step limit i a y = Some y'" and ok: "conns_ok y"
  shows "conns_ok y'"
proof -
  have pd: "pending y' = pending y" and frame: "yServe y' = yServe y" "rClosing (yRuntime y') = rClosing (yRuntime y)"
    using handler_step_frame [OF step] by (simp_all add: pending_def)
  have inv: "conn_inv (yHandlers y) (set (rHijacked (yRuntime y))) (pending y) (set (yClosedConns y))"
    using ok by (simp add: conns_ok_def)
  have "conn_inv (yHandlers y') (set (rHijacked (yRuntime y'))) (pending y) (set (yClosedConns y'))
    \<and> (rHijacked (yRuntime y) = [] \<longrightarrow> rClosing (yRuntime y) \<longrightarrow> rHijacked (yRuntime y') = [])"
    using step
  proof (cases rule: handler_step_cases)
    case returns
    then show ?thesis using conn_inv_keep [OF inv, of i Ended] by (auto simp: set_phase_def)
  next
    case ask
    then show ?thesis using conn_inv_keep [OF inv, of i] by (simp add: set_phase_def)
  next
    case full
    then show ?thesis using conn_inv_keep [OF inv, of i] by (simp add: set_phase_def)
  next
    case loaded
    then show ?thesis using conn_inv_keep [OF inv, of i] by (simp add: set_phase_def)
  next
    case swapped
    then show ?thesis using conn_inv_keep [OF inv, of i] by (simp add: set_phase_def with_runtime_def)
  next
    case (stale n)
    then show ?thesis using conn_inv_keep [OF inv, of i] by (simp add: set_phase_def)
  next
    case upgraded
    then show ?thesis using conn_inv_keep [OF inv, of i] by (simp add: set_phase_def)
  next
    case not_upgraded
    then show ?thesis using conn_inv_keep [OF inv, of i] by (simp add: set_phase_def)
  next
    case (tracked c)
    then show ?thesis using conn_inv_open [OF inv, of i] by (simp add: set_phase_def with_runtime_def)
  next
    case (not_tracked c)
    then show ?thesis using conn_inv_keep [OF inv, of i Releasing "insert c (set (yClosedConns y))"]
      by (auto simp: set_phase_def close_conn_def)
  next
    case (ended c)
    then show ?thesis using conn_inv_close [OF inv, of i] by (simp add: set_phase_def close_conn_def)
  next
    case (untracked c)
    then show ?thesis using conn_inv_untrack [OF inv, of i c Releasing]
      by (simp add: set_phase_def with_runtime_def untrackHijackedConnection_def)
  next
    case released
    then show ?thesis using conn_inv_keep [OF inv, of i]
      by (simp add: set_phase_def with_runtime_def releaseWebSocketConnection_def)
  qed
  then show ?thesis using ok pd frame by (auto simp: conns_ok_def)
qed


text \<open>A step of \<open>Serve\<close> or of a caller moves connections from the map to its list and from there to the closed ones.\<close>

lemma conn_inv_moved:
  assumes "conn_inv hs hij pd cl" "hij' \<subseteq> hij" "hij \<union> pd \<subseteq> hij' \<union> pd' \<union> cl'" "cl \<subseteq> cl'"
  shows "conn_inv hs hij' pd' cl'"
  using assms unfolding conn_inv_def by blast

lemma serve_step_conns_ok:
  assumes step: "serve_step a y = Some y'" and ok: "conns_ok y"
  shows "conns_ok y'"
proof -
  have inv: "conn_inv (yHandlers y) (set (rHijacked (yRuntime y))) (pending y) (set (yClosedConns y))"
    using ok by (simp add: conns_ok_def)
  have "set (rHijacked (yRuntime y')) \<subseteq> set (rHijacked (yRuntime y))"
    using step by (cases "yServe y"; cases a; auto simp: serve_step_def acquireServing_def take_hijacked_def
        close_conn_def beginHijackedShutdown_def split: if_splits list.splits)
  moreover have "set (rHijacked (yRuntime y)) \<union> pending y
      \<subseteq> set (rHijacked (yRuntime y')) \<union> pending y' \<union> set (yClosedConns y')"
    using step by (cases "yServe y"; cases a; auto simp: serve_step_def acquireServing_def take_hijacked_def pending_def
        close_conn_def beginHijackedShutdown_def split: if_splits list.splits)
  moreover have "set (yClosedConns y) \<subseteq> set (yClosedConns y')"
    using step by (cases "yServe y"; cases a; auto simp: serve_step_def acquireServing_def take_hijacked_def
        close_conn_def beginHijackedShutdown_def split: if_splits list.splits)
  ultimately have "conn_inv (yHandlers y) (set (rHijacked (yRuntime y'))) (pending y') (set (yClosedConns y'))"
    by (rule conn_inv_moved [OF inv])
  moreover have "(taken (yServe y') \<or> yServe y' = Draining \<longrightarrow> rClosing (yRuntime y'))
      \<and> (taken (yServe y') \<longrightarrow> rHijacked (yRuntime y') = [])"
    using step ok by (cases "yServe y"; cases a; auto simp: serve_step_def acquireServing_def take_hijacked_def
        close_conn_def beginHijackedShutdown_def conns_ok_def taken_def split: if_splits list.splits option.splits)
  ultimately show ?thesis using other_steps_frame(1) [OF step] by (simp add: conns_ok_def)
qed

lemma pending_set_caller:
  assumes "j < length (yCallers y)" and "\<And>cs. yCallers y ! j = CClosing cs \<Longrightarrow> set cs \<subseteq> N"
  shows "pending y \<subseteq> pending (set_caller j q y) \<union> N"
  using assms in_update_other [of _ "yCallers y" j q] unfolding pending_def set_caller_def by fastforce

lemma pending_new: "j < length (yCallers y) \<Longrightarrow> set cs \<subseteq> pending (set_caller j (CClosing cs) y)"
  using set_update_memI [of j "yCallers y" "CClosing cs"] by (auto simp: pending_def set_caller_def)

lemma shutdown_step_moves:
  assumes step: "shutdown_step j a y = Some y'"
  shows "set (rHijacked (yRuntime y')) \<subseteq> set (rHijacked (yRuntime y))"
    and "set (rHijacked (yRuntime y)) \<union> pending y \<subseteq> set (rHijacked (yRuntime y')) \<union> pending y' \<union> set (yClosedConns y')"
    and "set (yClosedConns y) \<subseteq> set (yClosedConns y')"
    and "rClosing (yRuntime y) \<longrightarrow> rClosing (yRuntime y')"
    and "yServe y' = yServe y \<or> yServe y = Serving \<and> yServe y' = Canceled"
proof -
  have j: "j < length (yCallers y)" using step by (auto simp: shutdown_step_def split: if_splits)
  note defs = shutdown_step_def take_hijacked_def with_runtime_def close_conn_def beginHijackedShutdown_def set_caller_def
    cancel_serving_def
  show "set (rHijacked (yRuntime y')) \<subseteq> set (rHijacked (yRuntime y))"
    "set (yClosedConns y) \<subseteq> set (yClosedConns y')"
    "rClosing (yRuntime y) \<longrightarrow> rClosing (yRuntime y')"
    "yServe y' = yServe y \<or> yServe y = Serving \<and> yServe y' = Canceled"
    using step by (cases "yCallers y ! j"; cases a; auto simp: defs split: if_splits list.splits)+
  have keep: "pending z \<subseteq> pending (set_caller j q z)" if "yCallers z = yCallers y" "\<forall>cs. yCallers y ! j \<noteq> CClosing cs" for z q
    using pending_set_caller [of j z "{}" q] that j by simp
  show "set (rHijacked (yRuntime y)) \<union> pending y \<subseteq> set (rHijacked (yRuntime y')) \<union> pending y' \<union> set (yClosedConns y')"
  proof (cases "yCallers y ! j")
    case (CClosing cs)
    show ?thesis
    proof (cases cs)
      case Nil
      then have "y' = set_caller j CDrained y" using step j CClosing by (cases a) (auto simp: shutdown_step_def)
      moreover have "pending y \<subseteq> pending (set_caller j CDrained y) \<union> {}"
        by (rule pending_set_caller [OF j]) (use CClosing Nil in auto)
      ultimately show ?thesis by (auto simp: set_caller_def)
    next
      case (Cons c ds)
      then have y': "y' = set_caller j (CClosing ds) (close_conn c y)"
        using step j CClosing by (cases a) (auto simp: shutdown_step_def)
      have "pending (close_conn c y) \<subseteq> pending y' \<union> insert c (set ds)"
        unfolding y' by (rule pending_set_caller) (use j CClosing Cons in \<open>auto simp: close_conn_def\<close>)
      moreover have "set ds \<subseteq> pending y'" unfolding y' by (rule pending_new) (use j in \<open>simp add: close_conn_def\<close>)
      moreover have "pending (close_conn c y) = pending y" by (simp add: pending_def close_conn_def)
      moreover have "c \<in> set (yClosedConns y')" "yRuntime y' = yRuntime y"
        unfolding y' by (simp_all add: set_caller_def close_conn_def)
      ultimately show ?thesis by auto
    qed
  next
    case CFlagged
    then have y': "y' = set_caller j (CClosing (rHijacked (yRuntime y))) (with_runtime ((yRuntime y)\<lparr>rHijacked := []\<rparr>) y)"
      using step j by (cases a) (auto simp: shutdown_step_def take_hijacked_def)
    have "set (rHijacked (yRuntime y)) \<subseteq> pending y'"
      unfolding y' by (rule pending_new) (use j in \<open>simp add: with_runtime_def\<close>)
    moreover have "pending (with_runtime ((yRuntime y)\<lparr>rHijacked := []\<rparr>) y) \<subseteq> pending y'"
      unfolding y' by (rule keep) (use CFlagged in \<open>simp_all add: with_runtime_def\<close>)
    moreover have "pending (with_runtime ((yRuntime y)\<lparr>rHijacked := []\<rparr>) y) = pending y"
      by (simp add: pending_def with_runtime_def)
    ultimately show ?thesis by auto
  next
    case Calling
    let ?z = "y\<lparr>yRequested := True, yTracker := tracker_stopAccepting (yTracker y), yServe := cancel_serving (yServe y)\<rparr>"
    have y': "y' = set_caller j Delegated ?z \<or> y' = set_caller j Alone (y\<lparr>yRequested := True\<rparr>)"
      using Calling step j by (cases a) (auto simp: shutdown_step_def)
    have "pending ?z = pending y" "pending (y\<lparr>yRequested := True\<rparr>) = pending y"
      by (auto simp: pending_def cancel_serving_def)
    then have "pending y \<subseteq> pending (set_caller j Delegated ?z)"
      "pending y \<subseteq> pending (set_caller j Alone (y\<lparr>yRequested := True\<rparr>))"
      using keep [of ?z Delegated] keep [of "y\<lparr>yRequested := True\<rparr>" Alone] Calling by simp_all
    then show ?thesis using y' by (auto simp: set_caller_def)
  next
    case Delegated
    then show ?thesis using step j keep [of y] by (cases a) (auto simp: shutdown_step_def set_caller_def)
  next
    case Alone
    then have y': "y' = set_caller j Refused (y\<lparr>yTracker := tracker_stopAccepting (yTracker y)\<rparr>)"
      using step j by (cases a) (auto simp: shutdown_step_def)
    have "pending (y\<lparr>yTracker := tracker_stopAccepting (yTracker y)\<rparr>) \<subseteq> pending y'"
      unfolding y' by (rule keep) (use Alone in simp_all)
    then show ?thesis unfolding y' by (auto simp: set_caller_def pending_def)
  next
    case Refused
    then show ?thesis using step j keep [of y] by (cases a) (auto simp: shutdown_step_def set_caller_def)
  next
    case (CWaiting ch)
    then show ?thesis using step j keep [of y] by (cases a) (auto simp: shutdown_step_def set_caller_def split: if_splits)
  next
    case CQuiet
    then have y': "y' = set_caller j CFlagged (y\<lparr>yUnsafe := False, yRuntime := beginHijackedShutdown (yRuntime y)\<rparr>)"
      using step j by (cases a) (auto simp: shutdown_step_def)
    have "pending (y\<lparr>yUnsafe := False, yRuntime := beginHijackedShutdown (yRuntime y)\<rparr>) \<subseteq> pending y'"
      unfolding y' by (rule keep) (use CQuiet in simp_all)
    then show ?thesis unfolding y' by (auto simp: set_caller_def pending_def beginHijackedShutdown_def)
  next
    case CDrained
    then have y': "y' = set_caller j Left (y\<lparr>yStopped := True\<rparr>)"
      using step j by (cases a) (auto simp: shutdown_step_def)
    have "pending (y\<lparr>yStopped := True\<rparr>) \<subseteq> pending y'"
      unfolding y' by (rule keep) (use CDrained in simp_all)
    then show ?thesis unfolding y' by (auto simp: set_caller_def pending_def)
  next
    case Left
    then show ?thesis using step j by (cases a) (auto simp: shutdown_step_def)
  qed
qed

lemma shutdown_step_conns_ok:
  assumes step: "shutdown_step j a y = Some y'" and ok: "conns_ok y"
  shows "conns_ok y'"
proof -
  have "conn_inv (yHandlers y) (set (rHijacked (yRuntime y'))) (pending y') (set (yClosedConns y'))"
    using ok shutdown_step_moves(1-3) [OF step] conn_inv_moved unfolding conns_ok_def by blast
  moreover have "rHijacked (yRuntime y) = [] \<Longrightarrow> rHijacked (yRuntime y') = []"
    using shutdown_step_moves(1) [OF step] by simp
  ultimately show ?thesis
    using ok other_steps_frame(2) [OF step] shutdown_step_moves(4,5) [OF step]
    unfolding conns_ok_def taken_def by (auto split: serve_pc.splits)
qed

lemma conns_ok_reachable: "reachable limit y \<Longrightarrow> conns_ok y"
proof (induction rule: reachable.induct)
  case reach_init
  show ?case by (simp add: init_sys_def new_runtime_def conns_ok_def conn_inv_def taken_def)
next
  case (reach_step y a y')
  show ?case
  proof (cases a)
    case Arrive
    then have "yHandlers y' \<in> {yHandlers y, yHandlers y @ [Running]}" "yRuntime y' = yRuntime y" "pending y' = pending y"
      "yClosedConns y' = yClosedConns y" "yServe y' = yServe y"
      using reach_step.hyps(2) by (auto simp: sys_step_def arrive_def pending_def split: prod.splits bool.splits)
    then show ?thesis using reach_step.IH by (auto simp: conns_ok_def conn_inv_def)
  next
    case (Handler i h)
    then show ?thesis using reach_step handler_step_conns_ok by (simp add: sys_step_def)
  next
    case (ServeStep s)
    then show ?thesis using reach_step serve_step_conns_ok by (simp add: sys_step_def)
  next
    case Call
    then have "y' = y\<lparr>yCallers := yCallers y @ [Calling]\<rparr>" using reach_step.hyps(2) by (simp add: sys_step_def)
    then show ?thesis using reach_step.IH by (simp add: conns_ok_def pending_def)
  next
    case (Caller j c)
    then show ?thesis using reach_step shutdown_step_conns_ok by (simp add: sys_step_def)
  qed
qed


section \<open>Progress of the drain\<close>

text \<open>
  A rank that every step of a handler lowers: how far the handlers are from their end, and, for the
  loop of the acquisition, how many of them have an old count or none. A compare and swap fails only
  when another one changed the count.
\<close>

definition stage :: "phase \<Rightarrow> nat" where
  "stage p = (case p of Running \<Rightarrow> 9 | Acquiring \<Rightarrow> 8 | Loaded n \<Rightarrow> 8 | Held \<Rightarrow> 7 | Upgraded c \<Rightarrow> 6 | Open c \<Rightarrow> 5
     | Closed c \<Rightarrow> 4 | Releasing \<Rightarrow> 3 | Returning \<Rightarrow> 2 | Ended \<Rightarrow> 0)"

definition retries :: "int \<Rightarrow> phase \<Rightarrow> nat" where
  "retries sockets p = (case p of Acquiring \<Rightarrow> 1 | Loaded n \<Rightarrow> (if n = sockets then 0 else 2) | _ \<Rightarrow> 0)"

definition rank :: "sys \<Rightarrow> nat \<times> nat" where
  "rank y = (sum_list (map stage (yHandlers y)), sum_list (map (retries (rSockets (yRuntime y))) (yHandlers y)))"

definition lower :: "(nat \<times> nat) rel" where
  "lower = less_than <*lex*> less_than"

lemma wf_lower: "wf lower"
  by (simp add: lower_def wf_lex_prod)

lemma sum_list_change:
  fixes f :: "phase \<Rightarrow> nat"
  assumes "i < length hs"
  shows "sum_list (map f (hs[i := q])) + f (hs ! i) = sum_list (map f hs) + f q"
  using assms
proof (induction hs arbitrary: i)
  case (Cons h hs)
  then show ?case by (cases i) (auto simp: algebra_simps)
qed simp

lemma sum_list_less:
  fixes f :: "phase \<Rightarrow> nat"
  assumes "i < length hs" "f q < f (hs ! i)"
  shows "sum_list (map f (hs[i := q])) < sum_list (map f hs)"
  using sum_list_change [OF assms(1), of f q] assms(2) by linarith

lemma sum_list_same:
  fixes f :: "phase \<Rightarrow> nat"
  assumes "i < length hs" "f q = f (hs ! i)"
  shows "sum_list (map f (hs[i := q])) = sum_list (map f hs)"
  using sum_list_change [OF assms(1), of f q] assms(2) by linarith

lemma handler_step_lower:
  assumes "handler_step limit i a y = Some y'"
  shows "(rank y', rank y) \<in> lower"
  using assms
proof (cases rule: handler_step_cases)
  case loaded
  then show ?thesis
    using sum_list_same [of i "yHandlers y" stage "Loaded (rSockets (yRuntime y))"]
      sum_list_less [of i "yHandlers y" "retries (rSockets (yRuntime y))" "Loaded (rSockets (yRuntime y))"]
    by (simp add: rank_def lower_def set_phase_def stage_def retries_def)
next
  case (stale n)
  then show ?thesis
    using sum_list_same [of i "yHandlers y" stage Acquiring]
      sum_list_less [of i "yHandlers y" "retries (rSockets (yRuntime y))" Acquiring]
    by (simp add: rank_def lower_def set_phase_def stage_def retries_def)
qed (auto simp: rank_def lower_def set_phase_def with_runtime_def close_conn_def stage_def intro!: sum_list_less)

lemma other_steps_rank:
  assumes "sys_step limit a y = Some y'" "\<forall>i h. a \<noteq> Handler i h" "tClosed (yTracker y)"
  shows "rank y' = rank y"
  using assms other_steps_frame
  by (cases a) (auto simp: sys_step_def rank_def arrive_def tracker_begin_def split: prod.splits)

text \<open>A handler that is left can go on, unless its connection is open and not closed.\<close>

lemma handler_can_step:
  assumes "i < length (yHandlers y)" "yHandlers y ! i \<noteq> Ended"
    "\<forall>c. yHandlers y ! i = Open c \<longrightarrow> c \<in> set (yClosedConns y)"
  shows "\<exists>a. a \<noteq> PeerLeaves \<and> handler_step limit i a y \<noteq> None"
proof (cases "yHandlers y ! i")
  case Running
  then show ?thesis using assms(1) by (intro exI [of _ HandlerReturns]) (simp add: handler_step_def)
next
  case Acquiring
  then show ?thesis using assms(1)
    by (intro exI [of _ LoadCount]) (simp add: handler_step_def split: option.split)
next
  case (Loaded n)
  then show ?thesis using assms(1)
    by (intro exI [of _ SwapCount]) (simp add: handler_step_def swap_sockets_def)
next
  case Held
  then show ?thesis using assms(1) by (intro exI [of _ "Upgrade True"]) (simp add: handler_step_def)
next
  case (Upgraded c)
  then show ?thesis using assms(1)
    by (intro exI [of _ Track]) (simp add: handler_step_def trackHijackedConnection_def)
next
  case (Open c)
  then show ?thesis using assms(1,3) by (intro exI [of _ LoopEnds]) (simp add: handler_step_def)
next
  case (Closed c)
  then show ?thesis using assms(1) by (intro exI [of _ Untrack]) (simp add: handler_step_def)
next
  case Releasing
  then show ?thesis using assms(1) by (intro exI [of _ GiveBack]) (simp add: handler_step_def)
next
  case Returning
  then show ?thesis using assms(1) by (intro exI [of _ HandlerReturns]) (simp add: handler_step_def)
next
  case Ended
  then show ?thesis using assms(2) by simp
qed

lemma drained_conns_closed:
  assumes "reachable limit y" "yServe y = Waiting ch" "Open c \<in> set (yHandlers y)"
  shows "c \<in> set (yClosedConns y)"
proof -
  have stop: "stop_ok y" and conns: "conns_ok y"
    using stop_ok_reachable [OF assms(1)] conns_ok_reachable [OF assms(1)] by simp_all
  have "count_phase live (yHandlers y) \<noteq> 0" using assms(3) by (auto simp: count_phase_zero live_def)
  then have active: "tActive (yTracker y) \<noteq> 0" using stop by (simp add: stop_ok_def tracker_ok_def)
  have "CClosing cs \<notin> set (yCallers y)" for cs
    using stop active by (force simp: stop_ok_def caller_ok_def caller_quiet_def)
  then have "pending y = {}" using assms(2) by (simp add: pending_def)
  moreover have "rHijacked (yRuntime y) = []" using conns assms(2) by (simp add: conns_ok_def taken_def)
  ultimately show ?thesis using conns assms(3) by (simp add: conns_ok_def conn_inv_def)
qed


text \<open>A call of \<open>Shutdown\<close> that is past its wait for the handlers finds no connection left to close.\<close>

lemma shutdown_finds_no_connection:
  assumes "reachable limit y" "p \<in> set (yCallers y)" "caller_quiet p"
  shows "rHijacked (yRuntime y) = []"
proof -
  have stop: "stop_ok y" and conns: "conns_ok y"
    using stop_ok_reachable [OF assms(1)] conns_ok_reachable [OF assms(1)] by simp_all
  have "count_phase live (yHandlers y) = 0"
    using stop assms(2,3) by (auto simp: stop_ok_def caller_ok_def tracker_ok_def)
  then have "Open c \<notin> set (yHandlers y) \<and> Closed c \<notin> set (yHandlers y)" for c
    by (auto simp: count_phase_zero live_def)
  then show ?thesis using conns by (auto simp: conns_ok_def conn_inv_def)
qed

text \<open>The WebSocket connections never exceed a positive limit.\<close>

lemma socket_limit_holds:
  "reachable limit y \<Longrightarrow> 0 < limit \<Longrightarrow> int (count_phase holds (yHandlers y)) \<le> limit"
  using sockets_ok_reachable [of limit y] by (auto simp: sockets_ok_def)

section \<open>Properties\<close>

text \<open>
  C17: In every interleaving of requests, \<open>Serve\<close> and any number of calls of \<open>Shutdown\<close>, once the
  components of the application are being stopped, no handler is left and no request can start one.
\<close>

theorem components_stop_last:
  assumes "reachable limit y" and "yStopped y"
  shows "(\<forall>p \<in> set (yHandlers y). p = Ended) \<and> arrive y = y"
proof -
  have "stop_ok y" by (rule stop_ok_reachable [OF assms(1)])
  then have "count_phase live (yHandlers y) = 0" "tClosed (yTracker y)"
    using assms(2) by (simp_all add: stop_ok_def tracker_ok_def)
  then show ?thesis by (auto simp: count_phase_zero live_def arrive_def tracker_begin_def)
qed

text \<open>A request with a WebSocket connection, a plain one that has ended, and \<open>Serve\<close> until it waits and to its end.\<close>

definition demo_drain :: "act list" where
  "demo_drain = map ServeStep [AcquireServing, MarkServed] @ [Arrive, Arrive, Handler 1 HandlerReturns]
     @ map (Handler 0) [AskSocket, LoadCount, SwapCount, Upgrade True, Track] @ [Call, Caller 0 RequestShutdown]
     @ map ServeStep [RefuseNew, BeginDrain, TakeConns, CloseConn, CloseConn, WaitHandlers]"

definition demo_stop :: "act list" where
  "demo_stop = demo_drain @ map (Handler 0) [LoopEnds, Untrack, GiveBack, HandlerReturns]
     @ map ServeStep [WaitDone, StopLifecycle]"

lemma demo_runs:
  "\<exists>y. sys_run 2 demo_drain init_sys = Some y \<and> yServe y = Waiting 1 \<and> yHandlers y = [Open 0, Ended]"
  "\<exists>y. sys_run 2 demo_stop init_sys = Some y \<and> yStopped y \<and> yHandlers y = [Ended, Ended]"
  by (rule exI [of _ "the (sys_run 2 demo_drain init_sys)"], code_simp)
     (rule exI [of _ "the (sys_run 2 demo_stop init_sys)"], code_simp)

theorem components_stop_last_witness:
  "\<exists>y. reachable 2 y \<and> yStopped y \<and> length (yHandlers y) = 2 \<and> arrive y = y"
proof -
  obtain y where y: "sys_run 2 demo_stop init_sys = Some y" "yStopped y" "yHandlers y = [Ended, Ended]"
    using demo_runs(2) by blast
  have r: "reachable 2 y" using sys_run_reachable [OF y(1)] reach_init by blast
  have "arrive y = y" using components_stop_last [OF r y(2)] by blast
  then show ?thesis using r y by auto
qed

text \<open>
  C18: While \<open>Serve\<close> waits for the handlers, after the drain, (1) every step of a handler lowers a rank in
  a well-founded order and no other step of the system raises it, so the handlers can only take finitely
  many steps, the retries of the compare and swap included; (2) as long as one handler is left, one of
  them can take a step that does not depend on a peer; (3) when none is left, the wait is over.
\<close>

theorem drain_makes_progress:
  assumes "reachable limit y" and "yServe y = Waiting ch"
  shows "wf lower
    \<and> (\<forall>a y'. sys_step limit a y = Some y' \<longrightarrow>
        (case a of Handler i h \<Rightarrow> (rank y', rank y) \<in> lower | _ \<Rightarrow> rank y' = rank y))
    \<and> ((\<exists>p \<in> set (yHandlers y). p \<noteq> Ended) \<longrightarrow>
        (\<exists>i a. a \<noteq> PeerLeaves \<and> handler_step limit i a y \<noteq> None))
    \<and> ((\<forall>p \<in> set (yHandlers y). p = Ended) \<longrightarrow> (\<exists>y'. serve_step WaitDone y = Some y' \<and> yServe y' = Quiet))"
proof -
  have stop: "stop_ok y" by (rule stop_ok_reachable [OF assms(1)])
  then have s: "serve_ok y" by (simp add: stop_ok_def)
  have closed: "tClosed (yTracker y)" and ch: "ch = tIdle (yTracker y)"
    using s assms(2) by (simp_all add: serve_ok_def)
  have ranks: "case a of Handler i h \<Rightarrow> (rank y', rank y) \<in> lower | _ \<Rightarrow> rank y' = rank y"
    if "sys_step limit a y = Some y'" for a y'
    using that handler_step_lower other_steps_rank [OF that _ closed] by (cases a) (auto simp: sys_step_def)
  have goes: "\<exists>i a. a \<noteq> PeerLeaves \<and> handler_step limit i a y \<noteq> None" if left: "\<exists>p \<in> set (yHandlers y). p \<noteq> Ended"
  proof -
    obtain p where p: "p \<in> set (yHandlers y)" "p \<noteq> Ended" using left by blast
    obtain i where "i < length (yHandlers y)" "yHandlers y ! i = p" using p(1) unfolding in_set_conv_nth by blast
    then have i: "i < length (yHandlers y)" "yHandlers y ! i \<noteq> Ended" using p(2) by simp_all
    have "\<forall>c. yHandlers y ! i = Open c \<longrightarrow> c \<in> set (yClosedConns y)"
      using drained_conns_closed [OF assms] i(1) by (metis nth_mem)
    then show ?thesis using handler_can_step [OF i] by blast
  qed
  have over: "\<exists>y'. serve_step WaitDone y = Some y' \<and> yServe y' = Quiet" if "\<forall>p \<in> set (yHandlers y). p = Ended"
  proof -
    have "count_phase live (yHandlers y) = 0" using that by (simp add: count_phase_zero live_def)
    then have "idle_is_closed (yTracker y) ch"
      using idle_when_closed [OF stop ch] stop by (simp add: stop_ok_def tracker_ok_def)
    then show ?thesis using assms(2) by (simp add: serve_step_def)
  qed
  show ?thesis using wf_lower ranks goes over by blast
qed

theorem drain_makes_progress_witness:
  "\<exists>y i a. reachable 2 y \<and> yServe y = Waiting 1 \<and> yHandlers y = [Open 0, Ended]
     \<and> a \<noteq> PeerLeaves \<and> handler_step 2 i a y \<noteq> None"
proof -
  obtain y where y: "sys_run 2 demo_drain init_sys = Some y" "yServe y = Waiting 1" "yHandlers y = [Open 0, Ended]"
    using demo_runs(1) by blast
  have r: "reachable 2 y" using sys_run_reachable [OF y(1)] reach_init by blast
  have "\<exists>i a. a \<noteq> PeerLeaves \<and> handler_step 2 i a y \<noteq> None"
    using drain_makes_progress [OF r y(2)] y(3) by simp
  then show ?thesis using r y by blast
qed

end
