(* ===== verification/GoInt64.thy ===== *)
theory GoInt64
  imports "HOL-Library.Word" "HOL-Library.Signed_Division"
begin

text \<open>
  Go's \<open>int64\<close> (and \<open>int\<close> on a 64 bit machine): a word of 64 bits read with its sign. \<open>+\<close> and \<open>-\<close> wrap;
  the division rounds towards zero, and the remainder has the sign of the dividend.
\<close>

type_synonym int64 = "64 word"

definition div64 :: "int64 \<Rightarrow> int64 \<Rightarrow> int64" where
  "div64 x y = word_of_int (sint x sdiv sint y)"

definition mod64 :: "int64 \<Rightarrow> int64 \<Rightarrow> int64" where
  "mod64 x y = word_of_int (sint x smod sint y)"

lemma sint64_bounds: "- 9223372036854775808 \<le> sint (x :: int64)" "sint (x :: int64) < 9223372036854775808"
  using sint_ge [of x] sint_lt [of x] by simp_all

lemma sint64_of_int: "- 9223372036854775808 \<le> k \<Longrightarrow> k < 9223372036854775808 \<Longrightarrow> sint (word_of_int k :: int64) = k"
  by (simp add: sint_sbintrunc' signed_take_bit_int_eq_self)

lemma sint64_plus: "sint ((x :: int64) + y) = signed_take_bit 63 (sint x + sint y)"
  by (simp add: sint_word_ariths)

lemma sint64_minus: "sint ((x :: int64) - y) = signed_take_bit 63 (sint x - sint y)"
  by (simp add: sint_word_ariths)

lemma signed64: "- 9223372036854775808 \<le> k \<Longrightarrow> k < 9223372036854775808 \<Longrightarrow> signed_take_bit 63 (k :: int) = k"
  by (simp add: signed_take_bit_int_eq_self)

lemma sdiv_nonneg: "0 \<le> a \<Longrightarrow> 0 < b \<Longrightarrow> (a :: int) sdiv b = a div b"
  by (auto simp: signed_divide_int_def sgn_if)

lemma smod_nonneg: "0 \<le> a \<Longrightarrow> 0 < b \<Longrightarrow> (a :: int) smod b = a mod b"
  by (auto simp: signed_modulo_int_def sgn_if)

lemma sint_div64:
  assumes "0 \<le> sint x" "0 < sint y"
  shows "sint (div64 x y) = sint x div sint y"
proof -
  have "0 \<le> sint x div sint y" "sint x div sint y \<le> sint x"
    using assms zdiv_mono2 [of "sint x" 1 "sint y"] by (simp_all add: pos_imp_zdiv_nonneg_iff)
  then show ?thesis
    unfolding div64_def sdiv_nonneg [OF assms] using sint64_bounds [of x] by (intro sint64_of_int) simp_all
qed

lemma sint_mod64:
  assumes "0 \<le> sint x" "0 < sint y"
  shows "sint (mod64 x y) = sint x mod sint y"
proof -
  have "0 \<le> sint x mod sint y" "sint x mod sint y < sint y" using assms by simp_all
  then show ?thesis
    unfolding mod64_def smod_nonneg [OF assms] using sint64_bounds [of y] by (intro sint64_of_int) simp_all
qed

end
