(* ===== verification/RateLimit.thy ===== *)
theory RateLimit
  imports GoInt64 GoStrings "HOL-Library.AList"
begin

text \<open>
  The rate limiters (\<open>pkg/bear/limiter.go\<close>): a counter per key in memory that is cleared at every tick
  of a window, the same in Redis through a script, and the middleware that turns a request away.
  Counts, limits and durations are 64 bit integers. The commands \<open>INCR\<close> and \<open>PEXPIRE\<close> are parameters.
\<close>

section \<open>Policies and lengths of windows\<close>

text \<open>Durations are nanoseconds.\<close>

definition Second :: int64 where
  "Second = 1000000000"

definition Millisecond :: int64 where
  "Millisecond = 1000000"

definition validateLimiterPolicy :: "int64 \<Rightarrow> int64 \<Rightarrow> string option" where
  "validateLimiterPolicy limit window =
     (if limit \<le>s 0 then Some ''rate limiter limit must be positive''
      else if window \<le>s 0 then Some ''rate limiter window must be positive''
      else None)"

definition redisWindowMilliseconds :: "int64 \<Rightarrow> int64" where
  "redisWindowMilliseconds window =
     (let milliseconds = div64 window Millisecond in
      if mod64 window Millisecond \<noteq> 0 then milliseconds + 1 else milliseconds)"

text \<open>The limiter's \<open>RetryAfter\<close>, if it has one, is the argument.\<close>

definition retryAfterSeconds :: "int64 option \<Rightarrow> int64" where
  "retryAfterSeconds provider =
     (let delay = (case provider of Some d \<Rightarrow> if 0 <s d then d else Second | None \<Rightarrow> Second);
          seconds = div64 (delay + Second - 1) Second in
      if seconds <s 1 then 1 else seconds)"

section \<open>The limiter in memory\<close>

record mem_limiter =
  mlCounts :: "(string \<times> int64) list"
  mlLimit :: int64
  mlWindow :: int64
  mlStopped :: bool
  mlWorkerDone :: bool

definition mem_Validate :: "mem_limiter \<Rightarrow> string option" where
  "mem_Validate l = validateLimiterPolicy (mlLimit l) (mlWindow l)"

definition NewMemoryRateLimiter :: "int64 \<Rightarrow> int64 \<Rightarrow> mem_limiter" where
  "NewMemoryRateLimiter limit window =
     \<lparr>mlCounts = [], mlLimit = limit, mlWindow = window, mlStopped = False,
      mlWorkerDone = (validateLimiterPolicy limit window \<noteq> None)\<rparr>"

definition count_in :: "(string \<times> int64) list \<Rightarrow> string \<Rightarrow> int64" where
  "count_in cs key = (case map_of cs key of Some n \<Rightarrow> n | None \<Rightarrow> 0)"

definition count_hit :: "(string \<times> int64) list \<Rightarrow> string \<Rightarrow> int64 \<times> (string \<times> int64) list" where
  "count_hit cs key = (let n = count_in cs key + 1 in (n, AList.update key n cs))"

definition mem_Allow :: "mem_limiter \<Rightarrow> string \<Rightarrow> bool \<times> mem_limiter" where
  "mem_Allow l key =
     (if mem_Validate l \<noteq> None then (False, l)
      else let (n, cs) = count_hit (mlCounts l) key in (n \<le>s mlLimit l, l\<lparr>mlCounts := cs\<rparr>))"

text \<open>
  A turn of the worker takes the tick or the closed channel \<open>done\<close>, whichever is ready; after the
  latter it is over. \<open>ShutdownContext\<close> closes \<open>done\<close> once and waits for the worker or the context.
\<close>

definition worker_tick :: "mem_limiter \<Rightarrow> mem_limiter" where
  "worker_tick l = (if mlWorkerDone l then l else l\<lparr>mlCounts := []\<rparr>)"

definition worker_done :: "mem_limiter \<Rightarrow> mem_limiter" where
  "worker_done l = (if mlStopped l then l\<lparr>mlWorkerDone := True\<rparr> else l)"

definition mem_Shutdown :: "mem_limiter \<Rightarrow> mem_limiter" where
  "mem_Shutdown l = l\<lparr>mlStopped := True\<rparr>"

definition mem_Shutdown_returns :: "mem_limiter \<Rightarrow> bool" where
  "mem_Shutdown_returns l = mlWorkerDone l"

section \<open>The limiter in Redis\<close>

record 'r redis_counter =
  rcIncr :: "string \<Rightarrow> 'r \<Rightarrow> int \<times> 'r"
  rcPexpire :: "string \<Rightarrow> int64 \<Rightarrow> 'r \<Rightarrow> 'r"

datatype failure_mode = ModeEmpty | ModeOpen | ModeClosed | ModeOther string

record 'r redis_limiter =
  rlClient :: "'r redis_counter option"
  rlLimit :: int64
  rlWindow :: int64
  rlPrefix :: string
  rlFailClosed :: bool
  rlFailureMode :: failure_mode

definition NewRedisRateLimiter :: "'r redis_counter option \<Rightarrow> int64 \<Rightarrow> int64 \<Rightarrow> 'r redis_limiter" where
  "NewRedisRateLimiter client limit window =
     \<lparr>rlClient = client, rlLimit = limit, rlWindow = window, rlPrefix = ''bear_limiter:'',
      rlFailClosed = False, rlFailureMode = ModeOpen\<rparr>"

definition redis_Validate :: "'r redis_limiter \<Rightarrow> string option" where
  "redis_Validate l =
     (case validateLimiterPolicy (rlLimit l) (rlWindow l) of
        Some e \<Rightarrow> Some e
      | None \<Rightarrow>
          (case rlFailureMode l of
             ModeOther m \<Rightarrow> Some ''limiter failure mode must be open or closed''
           | _ \<Rightarrow> None))"

definition failClosed :: "'r redis_limiter \<Rightarrow> bool" where
  "failClosed l \<longleftrightarrow> rlFailClosed l \<or> rlFailureMode l = ModeClosed"

definition luaIncr :: "'r redis_counter \<Rightarrow> string \<Rightarrow> int64 \<Rightarrow> int64 \<Rightarrow> 'r \<Rightarrow> int \<times> 'r" where
  "luaIncr rc key limit window store =
     (let (current, store) = rcIncr rc key store;
          store = (if current = 1 then rcPexpire rc key window store else store) in
      (if sint limit < current then 0 else 1, store))"

text \<open>\<open>broken\<close> tells that the call of the client fails.\<close>

definition redis_Allow :: "'r redis_limiter \<Rightarrow> bool \<Rightarrow> string \<Rightarrow> 'r \<Rightarrow> bool \<times> 'r" where
  "redis_Allow l broken key store =
     (if redis_Validate l \<noteq> None then (False, store)
      else case rlClient l of
        None \<Rightarrow> (\<not> failClosed l, store)
      | Some rc \<Rightarrow>
          if broken then (\<not> failClosed l, store)
          else let (res, store) = luaIncr rc (rlPrefix l @ key) (rlLimit l)
                                    (redisWindowMilliseconds (rlWindow l)) store
               in (res = 1, store))"

section \<open>The middleware\<close>

datatype limited = Served | TooMany int64

definition RateLimitMiddleware :: "('s \<Rightarrow> string \<Rightarrow> bool \<times> 's) \<Rightarrow> int64 option \<Rightarrow> string \<Rightarrow> 's \<Rightarrow> limited \<times> 's" where
  "RateLimitMiddleware allow retryAfter clientIP s =
     (let (ok, s) = allow s clientIP in
      (if ok then Served else TooMany (retryAfterSeconds retryAfter), s))"

section \<open>The contract of a window\<close>

text \<open>
  A counter of hits per key: \<open>hit\<close> answers with the number of hits and adds one to it, as long as no
  count has reached \<open>cap\<close>. A \<open>window_counter\<close> can be cleared.
\<close>

locale hit_counter =
  fixes hit :: "'s \<Rightarrow> string \<Rightarrow> int \<times> 's"
    and seen :: "'s \<Rightarrow> string \<Rightarrow> int"
    and cap :: int
  assumes hit_value: "seen s key < cap \<Longrightarrow> fst (hit s key) = seen s key + 1"
    and hit_seen: "seen s key < cap \<Longrightarrow>
      seen (snd (hit s key)) key' = (if key' = key then seen s key + 1 else seen s key')"

datatype window_event = Request string | Tick

fun window_run :: "('s \<Rightarrow> string \<Rightarrow> int \<times> 's) \<Rightarrow> ('s \<Rightarrow> 's) \<Rightarrow> int \<Rightarrow> 's \<Rightarrow> window_event list \<Rightarrow> bool option list" where
  "window_run hit clear limit s [] = []"
| "window_run hit clear limit s (Request key # es) =
     Some (fst (hit s key) \<le> limit) # window_run hit clear limit (snd (hit s key)) es"
| "window_run hit clear limit s (Tick # es) = None # window_run hit clear limit (clear s) es"

text \<open>The events since the last tick, latest first.\<close>

definition since_tick :: "window_event list \<Rightarrow> window_event list" where
  "since_tick es = takeWhile (\<lambda>e. e \<noteq> Tick) (rev es)"

lemma since_tick_simps [simp]:
  "since_tick [] = []" "since_tick (es @ [Request k]) = Request k # since_tick es"
  "since_tick (es @ [Tick]) = []"
  by (simp_all add: since_tick_def)

lemma since_tick_length: "length (since_tick es) \<le> length es"
  using length_takeWhile_le [of "\<lambda>e. e \<noteq> Tick" "rev es"] by (simp add: since_tick_def)

definition verdict_at :: "int \<Rightarrow> window_event list \<Rightarrow> window_event \<Rightarrow> bool option" where
  "verdict_at limit before e =
     (case e of
        Request key \<Rightarrow> Some (int (count_list (since_tick before) (Request key)) < limit)
      | Tick \<Rightarrow> None)"

locale window_counter = hit_counter +
  fixes clear :: "'a \<Rightarrow> 'a"
  assumes clear_seen: "seen (clear s) key = 0"
begin

lemma run_from:
  assumes "\<And>key. seen s key = int (count_list (since_tick before) (Request key))"
    and "int (length before + length es) \<le> cap"
  shows "window_run hit clear limit s es
       = map (\<lambda>i. verdict_at limit (before @ take i es) (es ! i)) [0..<length es]"
  using assms
proof (induction es arbitrary: s before)
  case Nil
  then show ?case by simp
next
  case (Cons e es)
  let ?next = "case e of Request key \<Rightarrow> snd (hit s key) | Tick \<Rightarrow> clear s"
  have le: "count_list (since_tick before) x \<le> length before" for x
    using count_le_length [of "since_tick before" x] since_tick_length [of before] by linarith
  have below: "seen s key < cap" for key
  proof -
    have "seen s key \<le> int (length before)" using Cons.prems(1) [of key] le [of "Request key"] by simp
    then show ?thesis using Cons.prems(2) by simp
  qed
  have "seen ?next key = int (count_list (since_tick (before @ [e])) (Request key))" for key
    using Cons.prems(1) hit_seen [OF below] by (cases e) (simp_all add: clear_seen)
  moreover have "int (length (before @ [e]) + length es) \<le> cap" using Cons.prems(2) by simp
  ultimately have "window_run hit clear limit ?next es
      = map (\<lambda>i. verdict_at limit ((before @ [e]) @ take i es) (es ! i)) [0..<length es]"
    by (rule Cons.IH)
  also have "\<dots> = map (\<lambda>i. verdict_at limit (before @ take i (e # es)) ((e # es) ! i)) (map Suc [0..<length es])"
    by simp
  finally have tail: "window_run hit clear limit ?next es
      = map (\<lambda>i. verdict_at limit (before @ take i (e # es)) ((e # es) ! i)) [1..<Suc (length es)]"
    by (simp add: map_Suc_upt del: upt_Suc)
  have head: "window_run hit clear limit s (e # es)
      = verdict_at limit before e # window_run hit clear limit ?next es"
    using Cons.prems(1) hit_value [OF below] by (cases e) (auto simp: verdict_at_def)
  have split: "[0..<length (e # es)] = 0 # [1..<Suc (length es)]"
    by (simp add: upt_conv_Cons del: upt_Suc)
  show ?case unfolding head tail split by simp
qed

lemma run_exact:
  assumes "\<And>key. seen s key = 0" and "int (length es) \<le> cap" and "i < length es" and "es ! i = Request key"
  shows "window_run hit clear limit s es ! i
       = Some (int (count_list (since_tick (take i es)) (Request key)) < limit)"
  using run_from [of s "[]" es limit] assms by (simp add: verdict_at_def)

end

end
