(* ===== verification/RateLimitProps.thy ===== *)
theory RateLimitProps
  imports RateLimit
begin

text \<open>
  What the rate limiters promise: in each window the first \<open>limit\<close> requests of a key and no others, and
  the lengths of windows in milliseconds and seconds are rounded up, as far as 64 bits reach.
\<close>

section \<open>The limiter in memory is a window counter\<close>

definition mem_hit :: "(string \<times> int64) list \<Rightarrow> string \<Rightarrow> int \<times> (string \<times> int64) list" where
  "mem_hit cs key = (case count_hit cs key of (n, cs') \<Rightarrow> (sint n, cs'))"

definition mem_seen :: "(string \<times> int64) list \<Rightarrow> string \<Rightarrow> int" where
  "mem_seen cs key = sint (count_in cs key)"

lemma sint_add_one: "sint (x :: int64) < 2 ^ 63 - 1 \<Longrightarrow> sint (x + 1) = sint x + 1"
  using sint64_bounds [of x] by (simp add: sint64_plus signed64)

interpretation mem: window_counter mem_hit mem_seen "2 ^ 63 - 1" "\<lambda>cs. []"
proof
  fix cs :: "(string \<times> int64) list" and key key'
  assume below: "mem_seen cs key < 2 ^ 63 - 1"
  then have one: "sint (count_in cs key + 1) = sint (count_in cs key) + 1"
    unfolding mem_seen_def by (rule sint_add_one)
  then show "fst (mem_hit cs key) = mem_seen cs key + 1"
    by (simp add: mem_hit_def count_hit_def Let_def mem_seen_def)
  show "mem_seen (snd (mem_hit cs key)) key' = (if key' = key then mem_seen cs key + 1 else mem_seen cs key')"
    using one by (simp add: mem_hit_def count_hit_def Let_def mem_seen_def count_in_def update_conv)
next
  fix key :: string
  show "mem_seen [] key = 0" by (simp add: mem_seen_def count_in_def)
qed

text \<open>The limiter under requests and ticks; a tick has no answer.\<close>

fun mem_run :: "mem_limiter \<Rightarrow> window_event list \<Rightarrow> bool option list" where
  "mem_run l [] = []"
| "mem_run l (Request key # es) = (case mem_Allow l key of (ok, l') \<Rightarrow> Some ok # mem_run l' es)"
| "mem_run l (Tick # es) = None # mem_run (worker_tick l) es"

lemma mem_run_window:
  assumes "validateLimiterPolicy (mlLimit l) (mlWindow l) = None" and "\<not> mlWorkerDone l"
  shows "mem_run l es = window_run mem_hit (\<lambda>cs. []) (sint (mlLimit l)) (mlCounts l) es"
  using assms
proof (induction es arbitrary: l)
  case (Cons e es)
  then show ?case
    by (cases e) (simp_all add: mem_Allow_def mem_Validate_def worker_tick_def mem_hit_def word_sle_eq Let_def
      split: prod.split)
qed simp

section \<open>The limiter in Redis\<close>

text \<open>
  The script under the key of a client; \<open>expire\<close> is what happens to the store when the windows end.
  If \<open>INCR\<close> counts and \<open>PEXPIRE\<close> and the end of a window do not disturb a count within the window,
  then the limiter in Redis admits the same requests.
\<close>

definition redis_hit :: "'r redis_counter \<Rightarrow> 'r redis_limiter \<Rightarrow> 'r \<Rightarrow> string \<Rightarrow> int \<times> 'r" where
  "redis_hit rc l store key =
     (fst (rcIncr rc (rlPrefix l @ key) store),
      snd (luaIncr rc (rlPrefix l @ key) (rlLimit l) (redisWindowMilliseconds (rlWindow l)) store))"

fun redis_run :: "'r redis_limiter \<Rightarrow> ('r \<Rightarrow> 'r) \<Rightarrow> 'r \<Rightarrow> window_event list \<Rightarrow> bool option list" where
  "redis_run l expire store [] = []"
| "redis_run l expire store (Request key # es) =
     (case redis_Allow l False key store of (ok, store') \<Rightarrow> Some ok # redis_run l expire store' es)"
| "redis_run l expire store (Tick # es) = None # redis_run l expire (expire store) es"

lemma redis_run_window:
  assumes "redis_Validate l = None" and "rlClient l = Some rc"
  shows "redis_run l expire store es = window_run (redis_hit rc l) expire (sint (rlLimit l)) store es"
proof (induction es arbitrary: store)
  case (Cons e es)
  then show ?case using assms
    by (cases e) (auto simp: redis_Allow_def redis_hit_def luaIncr_def Let_def not_less split: prod.split)
qed simp

lemma redis_window_exact:
  assumes "redis_Validate l = None" "rlClient l = Some rc"
    and "window_counter (redis_hit rc l) seen cap expire"
    and "\<And>key. seen store key = 0" "int (length es) \<le> cap" "i < length es" "es ! i = Request key"
  shows "redis_run l expire store es ! i
       = Some (int (count_list (since_tick (take i es)) (Request key)) < sint (rlLimit l))"
  unfolding redis_run_window [OF assms(1,2)] by (rule window_counter.run_exact [OF assms(3-7)])

section \<open>Lengths of windows\<close>

lemma word_positive: "0 <s (d :: int64) \<longleftrightarrow> 0 < sint d"
  by (simp add: word_sless_alt)

lemma round_up:
  fixes d u :: int
  assumes "0 < u"
  shows "((d + u - 1) div u - 1) * u < d" "d \<le> (d + u - 1) div u * u"
proof -
  define q where "q = (d + u - 1) div u"
  have "q * u + (d + u - 1) mod u = d + u - 1" unfolding q_def by simp
  moreover have "0 \<le> (d + u - 1) mod u" "(d + u - 1) mod u < u" using assms by simp_all
  moreover have "(q - 1) * u = q * u - u" by (simp add: left_diff_distrib)
  ultimately show "((d + u - 1) div u - 1) * u < d" "d \<le> (d + u - 1) div u * u"
    unfolding q_def [symmetric] by linarith+
qed

lemma sint_units: "sint Second = 1000000000" "sint Millisecond = 1000000"
  using sint64_of_int [of 1000000000] sint64_of_int [of 1000000] by (simp_all add: Second_def Millisecond_def)

lemma redis_window_rounds_up:
  assumes "0 <s window"
  shows "(sint (redisWindowMilliseconds window) - 1) * 1000000 < sint window"
    and "sint window \<le> sint (redisWindowMilliseconds window) * 1000000"
proof -
  let ?d = "sint window"
  have d: "0 < ?d" "?d < 2 ^ 63" using assms sint64_bounds [of window] by (simp_all add: word_positive)
  have dv: "sint (div64 window Millisecond) = ?d div 1000000" and md: "sint (mod64 window Millisecond) = ?d mod 1000000"
    using d sint_div64 [of window Millisecond] sint_mod64 [of window Millisecond] by (simp_all add: sint_units)
  have nz: "mod64 window Millisecond = 0 \<longleftrightarrow> ?d mod 1000000 = 0"
    using md by (metis sint_0 signed_word_eqI)
  have "?d div 1000000 < 2 ^ 63 - 1" using d by linarith
  then have "sint (div64 window Millisecond + 1) = ?d div 1000000 + 1"
    using sint_add_one [of "div64 window Millisecond"] dv by simp
  then have r: "sint (redisWindowMilliseconds window)
      = (if ?d mod 1000000 \<noteq> 0 then ?d div 1000000 + 1 else ?d div 1000000)"
    using dv nz by (simp add: redisWindowMilliseconds_def Let_def)
  define q t where "q = ?d div 1000000" and "t = ?d mod 1000000"
  have qt: "?d = q * 1000000 + t" "0 \<le> t" "t < 1000000" unfolding q_def t_def by simp_all
  have r: "sint (redisWindowMilliseconds window) = (if t = 0 then q else q + 1)"
    unfolding r q_def t_def by simp
  show "(sint (redisWindowMilliseconds window) - 1) * 1000000 < ?d"
    "?d \<le> sint (redisWindowMilliseconds window) * 1000000"
    unfolding r using qt by (cases "t = 0"; simp)+
qed

lemma retry_sum:
  fixes d :: int64
  assumes "0 < sint d"
  shows "sint (d + Second - 1) = (if sint d \<le> 2 ^ 63 - 1000000000 then sint d + 999999999
     else sint d + 999999999 - 2 ^ 64)"
proof -
  have s: "d + Second - 1 = word_of_int (sint d + 999999999)"
    by (simp add: Second_def)
  show ?thesis
  proof (cases "sint d \<le> 2 ^ 63 - 1000000000")
    case True
    then show ?thesis unfolding s using assms by (subst sint64_of_int) simp_all
  next
    case False
    have "(word_of_int (sint d + 999999999) :: int64) = word_of_int (sint d + 999999999 - 2 ^ 64)"
      by (simp add: word_of_int_eq_iff take_bit_eq_mod mod_diff_right_eq)
    with s have "sint (d + Second - 1) = sint (word_of_int (sint d + 999999999 - 2 ^ 64) :: int64)" by (simp only:)
    also have "\<dots> = sint d + 999999999 - 2 ^ 64"
      by (rule sint64_of_int) (use False sint64_bounds [of d] in simp_all)
    finally show ?thesis using False by simp
  qed
qed

lemma retry_after_exact:
  assumes "0 <s d"
  shows "sint (retryAfterSeconds (Some d)) =
     (if sint d \<le> 2 ^ 63 - 1000000000 then (sint d + 999999999) div 1000000000 else 1)"
proof -
  have d: "0 < sint d" "sint d < 2 ^ 63" using assms sint64_bounds [of d] by (simp_all add: word_positive)
  let ?q = "div64 (d + Second - 1) Second"
  have w: "retryAfterSeconds (Some d) = (if ?q <s 1 then 1 else ?q)"
    using assms by (simp add: retryAfterSeconds_def Let_def)
  show ?thesis
  proof (cases "sint d \<le> 2 ^ 63 - 1000000000")
    case True
    then have sum: "sint (d + Second - 1) = sint d + 999999999" using retry_sum [OF d(1)] by simp
    have q: "sint ?q = (sint d + 999999999) div 1000000000"
      using sint_div64 [of "d + Second - 1" Second] d unfolding sum sint_units by simp
    have "1 \<le> sint ?q" unfolding q using d by simp
    then have "\<not> ?q <s 1" by (simp add: word_sless_alt)
    then show ?thesis using True q w by simp
  next
    case False
    then have sum: "sint (d + Second - 1) = sint d + 999999999 - 2 ^ 64" using retry_sum [OF d(1)] by simp
    have neg: "sint (d + Second - 1) < 0" unfolding sum using d by simp
    then have quot: "sint (d + Second - 1) sdiv 1000000000 = - ((- sint (d + Second - 1)) div 1000000000)"
      by (simp add: signed_divide_int_def)
    have "0 \<le> (- sint (d + Second - 1)) div 1000000000"
      using neg by (simp add: pos_imp_zdiv_nonneg_iff)
    moreover have "(- sint (d + Second - 1)) div 1000000000 \<le> 2 ^ 63"
      using neg sint64_bounds [of "d + Second - 1"]
        zdiv_mono2 [of "- sint (d + Second - 1)" 1 1000000000] by simp
    ultimately have "sint ?q \<le> 0"
      unfolding div64_def sint_units quot by (subst sint64_of_int) simp_all
    then have "?q <s 1" by (simp add: word_sless_alt)
    then show ?thesis using False w by simp
  qed
qed

section \<open>Properties\<close>

text \<open>
  C19: Under any requests and ticks of a limiter in memory with a valid policy, a request is admitted
  exactly if fewer than \<open>limit\<close> requests of its key came since the last tick; so each window admits the
  first \<open>limit\<close> requests of a key and no others, and keys do not disturb each other.
\<close>

theorem window_admits_first:
  assumes "validateLimiterPolicy limit window = None" and "length es < 2 ^ 63"
    and "i < length es" and "es ! i = Request key"
  shows "mem_run (NewMemoryRateLimiter limit window) es ! i
       = Some (int (count_list (since_tick (take i es)) (Request key)) < sint limit)"
proof -
  have "int (length es) \<le> 2 ^ 63 - 1" using assms(2) by simp
  then have "window_run mem_hit (\<lambda>cs. []) (sint limit) [] es ! i
      = Some (int (count_list (since_tick (take i es)) (Request key)) < sint limit)"
    using mem.run_exact [of "[]" es i key] mem.clear_seen assms(3,4) by blast
  moreover have "mem_run (NewMemoryRateLimiter limit window) es
      = window_run mem_hit (\<lambda>cs. []) (sint limit) [] es"
    using mem_run_window [of "NewMemoryRateLimiter limit window"] assms(1)
    by (simp add: NewMemoryRateLimiter_def)
  ultimately show ?thesis by simp
qed

theorem window_admits_first_witness:
  "mem_run (NewMemoryRateLimiter 1 60) [Request ''a'', Request ''b'', Request ''a'', Tick, Request ''a''] ! 2 = Some False
 \<and> mem_run (NewMemoryRateLimiter 1 60) [Request ''a'', Request ''b'', Request ''a'', Tick, Request ''a''] ! 4 = Some True"
proof -
  have v: "validateLimiterPolicy 1 60 = None" by code_simp
  let ?es = "[Request ''a'', Request ''b'', Request ''a'', Tick, Request ''a'']"
  show ?thesis
    using window_admits_first [OF v, of ?es 2 "''a''"] window_admits_first [OF v, of ?es 4 "''a''"]
    by (simp add: since_tick_def)
qed

text \<open>
  The window in milliseconds that Redis gets and the seconds of the \<open>Retry-After\<close> header are the
  window rounded up, so a client that waits as told meets a new window; in 64 bits the seconds are 1
  instead for windows within a second of the largest duration. Neither is ever below 1.
\<close>

theorem windows_round_up:
  assumes "validateLimiterPolicy limit window = None"
  shows "(sint (redisWindowMilliseconds window) - 1) * 1000000 < sint window
    \<and> sint window \<le> sint (redisWindowMilliseconds window) * 1000000
    \<and> sint (retryAfterSeconds (Some window)) =
       (if sint window \<le> 2 ^ 63 - 1000000000 then (sint window + 999999999) div 1000000000 else 1)
    \<and> 1 \<le> sint (redisWindowMilliseconds window) \<and> 1 \<le> sint (retryAfterSeconds (Some window))"
proof -
  have w: "0 <s window"
    using assms by (auto simp: validateLimiterPolicy_def word_sless_alt word_sle_eq split: if_splits)
  have up: "(sint (redisWindowMilliseconds window) - 1) * 1000000 < sint window"
    "sint window \<le> sint (redisWindowMilliseconds window) * 1000000"
    using redis_window_rounds_up [OF w] by simp_all
  have sec: "sint (retryAfterSeconds (Some window)) =
      (if sint window \<le> 2 ^ 63 - 1000000000 then (sint window + 999999999) div 1000000000 else 1)"
    by (rule retry_after_exact [OF w])
  have pos: "0 < sint window" using w by (simp add: word_positive)
  then have "1 \<le> sint (redisWindowMilliseconds window)" using up(2) by linarith
  moreover have "1000000000 div 1000000000 \<le> (sint window + 999999999) div 1000000000"
    by (rule zdiv_mono1) (use pos in simp_all)
  then have "1 \<le> sint (retryAfterSeconds (Some window))" unfolding sec by simp
  ultimately show ?thesis using up sec by blast
qed

theorem windows_round_up_witness:
  "sint (retryAfterSeconds (Some 1500000000)) = 2
 \<and> sint (retryAfterSeconds (Some 9223372036854775807)) = 1"
proof -
  have "validateLimiterPolicy 1 1500000000 = None" "validateLimiterPolicy 1 9223372036854775807 = None"
    by code_simp+
  from windows_round_up [OF this(1)] windows_round_up [OF this(2)] show ?thesis
    using sint64_of_int [of 1500000000] sint64_of_int [of 9223372036854775807] by simp
qed

end
