(* ===== verification/Lifecycle.thy ===== *)
theory Lifecycle
  imports GoPrelude "HOL-Library.Sublist"
begin

text \<open>
  The component lifecycle of an application (\<open>pkg/bear/lifecycle.go\<close>): registration of components,
  start in registration order with rollback, stop in reverse order, in the legacy and the strict
  mode. What the components do when they are called (return, fail, panic, not answer in time), what
  \<open>ctx.Err()\<close> says at each query and what an operation in progress leaves behind for one that waits
  for it are inputs of the world \<open>lworld\<close>; the calls made are recorded in its trace. A pointer to a
  \<open>lifecycleEntry\<close> is the entry's number.
\<close>

section \<open>State\<close>

datatype lkind = ErrLifecycleStopped | ErrRegistrationClosed | Canceled | DeadlineExceeded | Other nat

type_synonym lerr = "lkind goerr"

text \<open>
  What the lifecycle asks a component about: its dynamic type, the name of a \<open>Bean\<close>, the interfaces it
  implements, and its identity, \<open>None\<close> for a value that is neither comparable nor a reference.
\<close>

datatype shutdown_kind = ContextShutdowner | Shutdowner | NoShutdown

record component =
  cType :: string
  cBeanName :: "string option"
  cIdent :: "nat option"
  cInitializer :: bool
  cShutdown :: shutdown_kind
  cPrestarted :: bool

datatype stop_state = EntryPending | EntryStopping | EntryRetryPending | EntryStopped | EntryStoppedWithError

record lentry =
  eID :: nat
  eComponent :: component
  eRegistrations :: "string list option"
  eActive :: bool
  ePrestarted :: bool
  eStarted :: bool
  eStopped :: bool
  eStopState :: stop_state
  eStopAttempt :: bool
  eTerminalErr :: "lerr option"
  eLegacyStarted :: bool

datatype lstate = LifecycleNew | LifecycleStarting | LifecycleStarted | LifecycleStopping | LifecycleStopped

record lifecycle =
  lComponents :: "lentry list"
  lBeanEntries :: "string \<Rightarrow> nat option"
  lNext :: nat
  lStrict :: bool
  lState :: lstate
  lStoppedFlag :: bool
  lSealed :: bool
  lStartErr :: "lerr option"
  lStartRetryable :: bool
  lStopErr :: "lerr option"

definition newLifecycleWithMode :: "bool \<Rightarrow> lifecycle" where
  "newLifecycleWithMode strict = \<lparr>lComponents = [], lBeanEntries = (\<lambda>_. None), lNext = 0,
     lStrict = strict, lState = LifecycleNew, lStoppedFlag = False, lSealed = False,
     lStartErr = None, lStartRetryable = False, lStopErr = None\<rparr>"

definition newLifecycle :: lifecycle where
  "newLifecycle = newLifecycleWithMode False"

definition errLifecycleStopped :: lerr where
  "errLifecycleStopped = sentinel ErrLifecycleStopped ''lifecycle cannot start after stop''"

definition ErrLifecycleRegistrationClosed :: lerr where
  "ErrLifecycleRegistrationClosed =
     sentinel ErrRegistrationClosed ''lifecycle registration closed after startup begins''"

section \<open>Registration\<close>

definition registrationClosed :: "lifecycle \<Rightarrow> bool" where
  "registrationClosed l \<longleftrightarrow> lSealed l \<or> lState l \<noteq> LifecycleNew"

definition stopped :: "lifecycle \<Rightarrow> bool" where
  "stopped l \<longleftrightarrow> lStoppedFlag l"

definition markStoppedLocked :: "lifecycle \<Rightarrow> lifecycle" where
  "markStoppedLocked l = l\<lparr>lState := LifecycleStopped, lStoppedFlag := True\<rparr>"

definition sealRegistration :: "lifecycle \<Rightarrow> lifecycle" where
  "sealRegistration l = l\<lparr>lSealed := True\<rparr>"

text \<open>\<open>sameLifecycleComponent\<close> on two components that are not nil.\<close>

definition sameLifecycleComponent :: "component \<Rightarrow> component \<Rightarrow> bool" where
  "sameLifecycleComponent a b \<longleftrightarrow> cType a = cType b \<and> cIdent a \<noteq> None \<and> cIdent a = cIdent b"

definition isLifecyclePrestarted :: "component \<Rightarrow> bool" where
  "isLifecyclePrestarted c \<longleftrightarrow> cPrestarted c"

definition newEntry :: "nat \<Rightarrow> component \<Rightarrow> lentry" where
  "newEntry i c = \<lparr>eID = i, eComponent = c, eRegistrations = None, eActive = True,
     ePrestarted = isLifecyclePrestarted c, eStarted = isLifecyclePrestarted c, eStopped = False,
     eStopState = EntryPending, eStopAttempt = False, eTerminalErr = None, eLegacyStarted = False\<rparr>"

definition findEntry :: "nat \<Rightarrow> lifecycle \<Rightarrow> lentry option" where
  "findEntry i l = List.find (\<lambda>e. eID e = i) (lComponents l)"

definition setEntry :: "lentry \<Rightarrow> lifecycle \<Rightarrow> lifecycle" where
  "setEntry e l = l\<lparr>lComponents := map (\<lambda>x. if eID x = eID e then e else x) (lComponents l)\<rparr>"

definition findComponentEntry :: "component \<Rightarrow> lifecycle \<Rightarrow> lentry option" where
  "findComponentEntry c l = List.find (\<lambda>e. sameLifecycleComponent (eComponent e) c) (lComponents l)"

text \<open>The registrations of an entry are a map from types, nil (\<open>None\<close>) for an entry made by \<open>add\<close>. A nil
  map reads as empty and \<open>delete\<close> does nothing to it.\<close>

definition registered :: "lentry \<Rightarrow> string list" where
  "registered e = (case eRegistrations e of None \<Rightarrow> [] | Some tys \<Rightarrow> tys)"

text \<open>An entry that has lost its last registration: inactive, and gone unless it has started.\<close>

definition retireUnregisteredEntry :: "lentry \<Rightarrow> lifecycle \<Rightarrow> lifecycle" where
  "retireUnregisteredEntry e l =
     (if registered e \<noteq> [] then l
      else if eStarted e then setEntry (e\<lparr>eActive := False\<rparr>) l
      else l\<lparr>lComponents := filter (\<lambda>x. eID x \<noteq> eID e) (lComponents l)\<rparr>)"

text \<open>Dropping the registration of a type: the entry it named may retire.\<close>

definition dropRegistration :: "string \<Rightarrow> lentry \<Rightarrow> lifecycle \<Rightarrow> lifecycle" where
  "dropRegistration ty e l =
     (let e' = e\<lparr>eRegistrations := map_option (removeAll ty) (eRegistrations e)\<rparr> in
      retireUnregisteredEntry e' (setEntry e' (l\<lparr>lBeanEntries := (lBeanEntries l)(ty := None)\<rparr>)))"

definition currentEntry :: "string \<Rightarrow> lifecycle \<Rightarrow> lentry option" where
  "currentEntry ty l = (case lBeanEntries l ty of None \<Rightarrow> None | Some i \<Rightarrow> findEntry i l)"

text \<open>The second half of \<open>setBeanLocked\<close>: find or append the entry and register the type with it. The
  result \<open>None\<close> is the panic of an assignment to a nil map.\<close>

definition attachBean :: "string \<Rightarrow> component \<Rightarrow> lifecycle \<Rightarrow> lifecycle option" where
  "attachBean ty c l =
     (case findComponentEntry c l of
        None \<Rightarrow>
          (let e = (newEntry (lNext l) c)\<lparr>eRegistrations := Some [ty]\<rparr> in
           Some (l\<lparr>lComponents := lComponents l @ [e], lNext := lNext l + 1,
             lBeanEntries := (lBeanEntries l)(ty \<mapsto> eID e)\<rparr>))
      | Some e \<Rightarrow>
          (let e1 = (if isLifecyclePrestarted c then e\<lparr>ePrestarted := True, eStarted := True\<rparr> else e) in
           case eRegistrations e1 of
             None \<Rightarrow> None
           | Some tys \<Rightarrow>
               (let e2 = e1\<lparr>eActive := True, eRegistrations := Some (List.insert ty tys)\<rparr> in
                Some ((setEntry e2 l)\<lparr>lBeanEntries := (lBeanEntries l)(ty \<mapsto> eID e)\<rparr>))))"

definition setBeanLocked :: "string \<Rightarrow> component \<Rightarrow> lifecycle \<Rightarrow> lifecycle option" where
  "setBeanLocked ty c l =
     (if lState l = LifecycleStopping \<or> lState l = LifecycleStopped then Some l
      else case currentEntry ty l of
        None \<Rightarrow> attachBean ty c l
      | Some cur \<Rightarrow>
          (if sameLifecycleComponent (eComponent cur) c then Some l
           else attachBean ty c (dropRegistration ty cur l)))"

text \<open>The callers' \<open>commit\<close> functions belong to the bean factory (see BeanContainer), which runs them
  exactly when the result is not the error. \<open>None\<close> is again the panic.\<close>

type_synonym lresult = "(lerr option \<times> lifecycle) option"

definition registerBean :: "string \<Rightarrow> component option \<Rightarrow> lifecycle \<Rightarrow> lresult" where
  "registerBean ty bean l =
     (case bean of
        None \<Rightarrow> Some (None, l)
      | Some c \<Rightarrow> (if registrationClosed l then Some (Some ErrLifecycleRegistrationClosed, l)
                   else map_option (Pair None) (setBeanLocked ty c l)))"

fun setBeansLocked :: "(string \<times> component) list \<Rightarrow> lifecycle \<Rightarrow> lifecycle option" where
  "setBeansLocked [] l = Some l"
| "setBeansLocked ((ty, c) # regs) l =
     (case setBeanLocked ty c l of None \<Rightarrow> None | Some l' \<Rightarrow> setBeansLocked regs l')"

definition registerBeans :: "(string \<times> component) list \<Rightarrow> lifecycle \<Rightarrow> lresult" where
  "registerBeans regs l =
     (if registrationClosed l then Some (Some ErrLifecycleRegistrationClosed, l)
      else map_option (Pair None) (setBeansLocked regs l))"

definition setBean :: "string \<Rightarrow> component option \<Rightarrow> lifecycle \<Rightarrow> lifecycle option" where
  "setBean ty bean l = (case bean of None \<Rightarrow> Some l | Some c \<Rightarrow> setBeanLocked ty c l)"

definition removeBean :: "string \<Rightarrow> lifecycle \<Rightarrow> lerr option \<times> lifecycle" where
  "removeBean ty l =
     (if registrationClosed l then (Some ErrLifecycleRegistrationClosed, l)
      else case currentEntry ty l of
        None \<Rightarrow> (None, l)
      | Some e \<Rightarrow> (None, dropRegistration ty e l))"

fun appendComponents :: "component option list \<Rightarrow> lifecycle \<Rightarrow> lifecycle" where
  "appendComponents [] l = l"
| "appendComponents (None # cs) l = appendComponents cs l"
| "appendComponents (Some c # cs) l =
     appendComponents cs (l\<lparr>lComponents := lComponents l @ [newEntry (lNext l) c], lNext := lNext l + 1\<rparr>)"

definition add :: "component option list \<Rightarrow> lifecycle \<Rightarrow> lerr option \<times> lifecycle" where
  "add cs l =
     (if registrationClosed l then (Some ErrLifecycleRegistrationClosed, l)
      else (None, appendComponents cs l))"

definition TryAdd :: "component option \<Rightarrow> lifecycle \<Rightarrow> lerr option \<times> lifecycle" where
  "TryAdd c l = (if c = None then (None, l) else add [c] l)"

definition Add :: "component option \<Rightarrow> lifecycle \<Rightarrow> lifecycle" where
  "Add c l = snd (TryAdd c l)"

definition canRetryStart :: "lifecycle \<Rightarrow> bool" where
  "canRetryStart l \<longleftrightarrow> lStrict l \<and> lStartRetryable l \<and> lState l = LifecycleNew"

text \<open>The component behind a shutdown hook: already started, not identifiable (it holds a function), and
  asked by its \<open>ShutdownContext\<close>.\<close>

definition shutdownHook :: component where
  "shutdownHook = \<lparr>cType = ''bear.shutdownHook'', cBeanName = None, cIdent = None, cInitializer = False,
     cShutdown = ContextShutdowner, cPrestarted = True\<rparr>"

section \<open>The world of start and stop\<close>

text \<open>How a call of a component ends, and how a wait for a running shutdown attempt ends: the attempt
  has returned (with its error and the error its context had then), it has panicked, or the waiting
  context is done first.\<close>

datatype call_outcome = Returns "lerr option" | Panics
datatype wait_outcome = Finished "lerr option" "lkind option" | FinishedPanic | CtxDone lerr
datatype levent = EvInit nat | EvShutdown nat

record lworld =
  lc :: lifecycle
  wInits :: "call_outcome list"
  wWaits :: "wait_outcome list"
  wCtx :: "lerr option list"
  wOthers :: "(lifecycle \<Rightarrow> lifecycle) list"
  wTrace :: "levent list"

definition ctxErr :: "lworld \<Rightarrow> lerr option \<times> lworld" where
  "ctxErr w = (case wCtx w of [] \<Rightarrow> (None, w) | e # es \<Rightarrow> (e, w\<lparr>wCtx := es\<rparr>))"

definition runLifecycleInitializer :: "nat \<Rightarrow> lworld \<Rightarrow> lerr option \<times> lworld" where
  "runLifecycleInitializer i w =
     (let w = w\<lparr>wTrace := wTrace w @ [EvInit i]\<rparr> in
      case wInits w of
        [] \<Rightarrow> (None, w)
      | Returns e # cs \<Rightarrow> (e, w\<lparr>wInits := cs\<rparr>)
      | Panics # cs \<Rightarrow> (Some (errorf ''component initialization panic''), w\<lparr>wInits := cs\<rparr>))"

text \<open>The result of \<open>waitLifecycleStopAttempt\<close>: the error, whether the attempt is done, and the
  context error it recorded.\<close>

definition waitLifecycleStopAttempt :: "lworld \<Rightarrow> (lerr option \<times> bool \<times> lkind option) \<times> lworld" where
  "waitLifecycleStopAttempt w = (case wWaits w of
     [] \<Rightarrow> ((None, True, None), w)
   | Finished e c # ws \<Rightarrow> ((e, True, c), w\<lparr>wWaits := ws\<rparr>)
   | FinishedPanic # ws \<Rightarrow> ((Some (errorf ''component shutdown panic''), True, None), w\<lparr>wWaits := ws\<rparr>)
   | CtxDone e # ws \<Rightarrow> ((Some e, False, None), w\<lparr>wWaits := ws\<rparr>))"

definition startLifecycleStopAttempt :: "nat \<Rightarrow> lworld \<Rightarrow> lworld" where
  "startLifecycleStopAttempt i w = w\<lparr>wTrace := wTrace w @ [EvShutdown i]\<rparr>"

definition strictLifecycleComponentName :: "component \<Rightarrow> string" where
  "strictLifecycleComponentName c = cType c"

definition lifecycleComponentName :: "component \<Rightarrow> string" where
  "lifecycleComponentName c = (case cBeanName c of Some n \<Rightarrow> n | None \<Rightarrow> cType c)"

definition onComponent :: "string \<Rightarrow> string \<Rightarrow> lerr \<Rightarrow> lerr" where
  "onComponent what name e = wrapf (what @ '' ['' @ name @ '']: '') e"

text \<open>\<open>waitLifecycleOperation\<close>: the context is done (its error), or the operation in progress is, and
  leaves what the next entry of \<open>wOthers\<close> says; without an entry it never ends and the wait lasts
  until the context is canceled.\<close>

definition waitLifecycleOperation :: "lworld \<Rightarrow> lerr option \<times> lworld" where
  "waitLifecycleOperation w =
     (case ctxErr w of
        (Some e, w) \<Rightarrow> (Some e, w)
      | (None, w) \<Rightarrow>
          (case wOthers w of
             [] \<Rightarrow> (Some (sentinel Canceled ''context canceled''), w)
           | f # fs \<Rightarrow> ctxErr (w\<lparr>lc := f (lc w), wOthers := fs\<rparr>)))"

section \<open>Strict stop\<close>

text \<open>One round of the loop of \<open>stopStrictEntry\<close> for a \<open>ContextShutdowner\<close>, with \<open>startedHere\<close> from the
  rounds before; \<open>again\<close> is the loop itself.\<close>

definition stopRound ::
  "(bool \<Rightarrow> lentry \<Rightarrow> lworld \<Rightarrow> (lerr option \<times> bool \<times> lentry) \<times> lworld) \<Rightarrow>
   bool \<Rightarrow> lentry \<Rightarrow> lworld \<Rightarrow> (lerr option \<times> bool \<times> lentry) \<times> lworld" where
  "stopRound again here e w =
     (let starting = eStopState e \<noteq> EntryStopping in
      case (if starting then ctxErr w else (None, w)) of
        (Some err, w) \<Rightarrow> ((Some err, False, e), w)
      | (None, w) \<Rightarrow>
          (let w = (if starting then startLifecycleStopAttempt (eID e) w else w);
               e = (if starting then e\<lparr>eStopAttempt := True, eStopState := EntryStopping\<rparr> else e);
               here = (starting \<or> here) in
           case waitLifecycleStopAttempt w of
             ((err, False, c), w) \<Rightarrow> ((err, False, e), w)
           | ((None, True, c), w) \<Rightarrow>
               ((None, True, e\<lparr>eStopAttempt := False, eStopState := EntryStopped, eStopped := True\<rparr>), w)
           | ((Some err, True, c), w) \<Rightarrow>
               (if (case c of None \<Rightarrow> False | Some k \<Rightarrow> errors_is err k) then
                  (let e = e\<lparr>eStopAttempt := False, eStopState := EntryRetryPending\<rparr> in
                   if here then ((Some err, False, e), w)
                   else case ctxErr w of
                     (Some _, w) \<Rightarrow> ((Some err, False, e), w)
                   | (None, w) \<Rightarrow> again here e w)
                else ((Some err, True, e\<lparr>eStopAttempt := False, eStopState := EntryStoppedWithError,
                        eStopped := True, eTerminalErr := Some err\<rparr>), w))))"

text \<open>The loop under a bound on its rounds; two are enough (\<open>stopRounds_enough\<close> in LifecycleProps).\<close>

fun stopRounds :: "nat \<Rightarrow> bool \<Rightarrow> lentry \<Rightarrow> lworld \<Rightarrow> (lerr option \<times> bool \<times> lentry) \<times> lworld" where
  "stopRounds 0 here e w = ((None, False, e), w)"
| "stopRounds (Suc n) here e w = stopRound (stopRounds n) here e w"

definition stopStrictEntry :: "lentry \<Rightarrow> lworld \<Rightarrow> (lerr option \<times> bool \<times> lentry) \<times> lworld" where
  "stopStrictEntry e w =
     (case cShutdown (eComponent e) of
        ContextShutdowner \<Rightarrow> stopRounds 2 False e w
      | Shutdowner \<Rightarrow>
          (case (if eLegacyStarted e then (None, w) else ctxErr w) of
             (Some err, w) \<Rightarrow> ((Some err, False, e), w)
           | (None, w) \<Rightarrow>
               (let w = (if eLegacyStarted e then w else startLifecycleStopAttempt (eID e) w);
                    e = (if eLegacyStarted e then e
                         else e\<lparr>eStopAttempt := True, eStopState := EntryStopping, eLegacyStarted := True\<rparr>) in
                case waitLifecycleStopAttempt w of
                  ((err, False, c), w) \<Rightarrow> ((err, False, e), w)
                | ((None, True, c), w) \<Rightarrow> ((None, True, e\<lparr>eStopState := EntryStopped, eStopped := True\<rparr>), w)
                | ((Some err, True, c), w) \<Rightarrow>
                    ((Some err, True, e\<lparr>eStopState := EntryStoppedWithError, eStopped := True,
                       eTerminalErr := Some err\<rparr>), w)))
      | NoShutdown \<Rightarrow> ((None, True, e\<lparr>eStopState := EntryStopped, eStopped := True\<rparr>), w))"

definition stopTerminal :: "lentry \<Rightarrow> bool" where
  "stopTerminal e \<longleftrightarrow> eStopState e = EntryStopped \<or> eStopState e = EntryStoppedWithError"

text \<open>The entries in the order they are stopped; the result has them in that order too.\<close>

fun stopEntries :: "lentry list \<Rightarrow> lworld \<Rightarrow> (lerr list \<times> bool \<times> lentry list) \<times> lworld" where
  "stopEntries [] w = (([], True, []), w)"
| "stopEntries (e # es) w =
     (if \<not> eStarted e \<or> stopTerminal e then
        (case stopEntries es w of ((errs, complete, es'), w) \<Rightarrow> ((errs, complete, e # es'), w))
      else
        (case ctxErr w of
           (Some err, w) \<Rightarrow>
             (([onComponent ''component shutdown not started''
                  (strictLifecycleComponentName (eComponent e)) err], False, e # es), w)
         | (None, w) \<Rightarrow>
             (case stopStrictEntry e w of
                ((err, fin, e'), w) \<Rightarrow>
                  (let errs = (case err of None \<Rightarrow> [] | Some x \<Rightarrow>
                         [onComponent ''component shutdown failed''
                            (strictLifecycleComponentName (eComponent e)) x]) in
                   if \<not> fin then ((errs, False, e' # es), w)
                   else (case stopEntries es w of
                           ((errs', complete, es'), w) \<Rightarrow> ((errs @ errs', complete, e' # es'), w))))))"

definition stopStrictEntries :: "lworld \<Rightarrow> (lerr option \<times> bool) \<times> lworld" where
  "stopStrictEntries w =
     (case stopEntries (rev (lComponents (lc w))) w of
        ((errs, complete, es), w) \<Rightarrow>
          ((errors_join errs, complete), w\<lparr>lc := (lc w)\<lparr>lComponents := rev es\<rparr>\<rparr>))"

definition strictTerminalStopError :: "lifecycle \<Rightarrow> lerr option" where
  "strictTerminalStopError l = errors_join (concat (map (\<lambda>e.
     (case eTerminalErr e of
        Some err \<Rightarrow> (if eStopState e = EntryStoppedWithError
           then [onComponent ''component shutdown failed'' (strictLifecycleComponentName (eComponent e)) err]
           else [])
      | None \<Rightarrow> [])) (lComponents l)))"

text \<open>\<open>stopStrict\<close>: the loop runs once more for each operation it has waited for.\<close>

fun stopStrict_loop :: "nat \<Rightarrow> lworld \<Rightarrow> lerr option \<times> lworld" where
  "stopStrict_loop n w =
     (case lState (lc w) of
        LifecycleStopped \<Rightarrow> (lStopErr (lc w), w)
      | st \<Rightarrow>
          (if st = LifecycleStarting \<or> st = LifecycleStopping then
             (case waitLifecycleOperation w of
                (Some e, w) \<Rightarrow> (Some e, w)
              | (None, w) \<Rightarrow> (case n of 0 \<Rightarrow> (None, w) | Suc m \<Rightarrow> stopStrict_loop m w))
           else
             (case stopStrictEntries (w\<lparr>lc := (lc w)\<lparr>lState := LifecycleStopping\<rparr>\<rparr>) of
                ((err, complete), w) \<Rightarrow>
                  (let terminal = strictTerminalStopError (lc w) in
                   if complete
                   then (terminal, w\<lparr>lc := (markStoppedLocked (lc w))\<lparr>lStopErr := terminal\<rparr>\<rparr>)
                   else (err, w\<lparr>lc := (lc w)\<lparr>lState := LifecycleStarted, lStopErr := None\<rparr>\<rparr>)))))"

declare stopStrict_loop.simps [simp del]

definition stopStrict :: "lworld \<Rightarrow> lerr option \<times> lworld" where
  "stopStrict w = stopStrict_loop (length (wOthers w)) w"

section \<open>Strict start\<close>

definition resetEntry :: "lentry \<Rightarrow> lentry" where
  "resetEntry e = e\<lparr>eStarted := False, eStopped := False, eStopState := EntryPending,
     eStopAttempt := False, eTerminalErr := None, eLegacyStarted := False\<rparr>"

definition resetStrictEntriesForRetryLocked :: "lifecycle \<Rightarrow> lifecycle" where
  "resetStrictEntriesForRetryLocked l = l\<lparr>lComponents := map resetEntry (lComponents l)\<rparr>"

definition rollbackStrictStart :: "lerr \<Rightarrow> lworld \<Rightarrow> lerr option \<times> lworld" where
  "rollbackStrictStart startErr w =
     (let l = (lc w)\<lparr>lState := LifecycleStopping, lStartErr := Some startErr\<rparr>;
          hasPrestarted = list_ex (\<lambda>e. eStarted e \<and> ePrestarted e) (lComponents l) in
      case stopStrictEntries (w\<lparr>lc := l\<rparr>) of
        ((rollbackErr, complete), w) \<Rightarrow>
          (let l = lc w;
               l' = (if complete \<and> rollbackErr = None \<and> \<not> hasPrestarted
                     then (resetStrictEntriesForRetryLocked l)\<lparr>lState := LifecycleNew,
                            lStartRetryable := True, lStopErr := None\<rparr>
                     else (let l = l\<lparr>lStartRetryable := False, lStopErr := rollbackErr\<rparr> in
                           if complete then markStoppedLocked l else l\<lparr>lState := LifecycleStarted\<rparr>)) in
           (case rollbackErr of
              None \<Rightarrow> Some startErr
            | Some e \<Rightarrow> errors_join [startErr, wrapf ''lifecycle rollback failed: '' e],
            w\<lparr>lc := l'\<rparr>)))"

definition beginEntry :: "lentry \<Rightarrow> lentry" where
  "beginEntry e = e\<lparr>eStarted := True, eStopped := False, eStopState := EntryPending,
     eStopAttempt := False, eTerminalErr := None, eLegacyStarted := False\<rparr>"

text \<open>The start loop: the error that ends it, and the entries as it leaves them.\<close>

fun startEntries :: "lentry list \<Rightarrow> lworld \<Rightarrow> (lerr option \<times> lentry list) \<times> lworld" where
  "startEntries [] w = ((None, []), w)"
| "startEntries (e # es) w =
     (case ctxErr w of
        (Some err, w) \<Rightarrow>
          ((Some (onComponent ''component initialization not started''
                    (strictLifecycleComponentName (eComponent e)) err), e # es), w)
      | (None, w) \<Rightarrow>
          (let e' = (if eActive e then beginEntry e else e) in
           case (if eActive e \<and> cInitializer (eComponent e) then runLifecycleInitializer (eID e) w
                 else (None, w)) of
             (Some err, w) \<Rightarrow>
               ((Some (onComponent ''component initialization failed''
                         (strictLifecycleComponentName (eComponent e)) err), e' # es), w)
           | (None, w) \<Rightarrow> (case startEntries es w of ((r, es'), w) \<Rightarrow> ((r, e' # es'), w))))"

definition startStrictComponents :: "lworld \<Rightarrow> lerr option \<times> lworld" where
  "startStrictComponents w =
     (case startEntries (lComponents (lc w)) w of
        ((r, es), w) \<Rightarrow>
          (let w = w\<lparr>lc := (lc w)\<lparr>lComponents := es\<rparr>\<rparr> in
           case r of
             Some err \<Rightarrow> rollbackStrictStart err w
           | None \<Rightarrow> (None, w\<lparr>lc := (lc w)\<lparr>lState := LifecycleStarted, lStartErr := None,
                               lStartRetryable := False\<rparr>\<rparr>)))"

fun startStrict_loop :: "nat \<Rightarrow> lworld \<Rightarrow> lerr option \<times> lworld" where
  "startStrict_loop n w =
     (case lState (lc w) of
        LifecycleStopped \<Rightarrow>
          ((case lStartErr (lc w) of Some e \<Rightarrow> Some e | None \<Rightarrow> Some errLifecycleStopped), w)
      | LifecycleStarted \<Rightarrow> (lStartErr (lc w), w)
      | st \<Rightarrow>
          (if st = LifecycleStarting \<or> st = LifecycleStopping then
             (case waitLifecycleOperation w of
                (Some e, w) \<Rightarrow> (Some e, w)
              | (None, w) \<Rightarrow> (case n of 0 \<Rightarrow> (None, w) | Suc m \<Rightarrow> startStrict_loop m w))
           else startStrictComponents
                  (w\<lparr>lc := (lc w)\<lparr>lState := LifecycleStarting, lStartRetryable := False\<rparr>\<rparr>)))"

declare startStrict_loop.simps [simp del]

definition startStrict :: "lworld \<Rightarrow> lerr option \<times> lworld" where
  "startStrict w = startStrict_loop (length (wOthers w)) w"

section \<open>Legacy start and stop\<close>

text \<open>\<open>stopLifecycleComponent\<close>: the context is asked once more by \<open>runShutdownWorker\<close> before the call.\<close>

definition runShutdownWorker :: "nat \<Rightarrow> lworld \<Rightarrow> lerr option \<times> lworld" where
  "runShutdownWorker i w =
     (case ctxErr w of
        (Some e, w) \<Rightarrow> (Some e, w)
      | (None, w) \<Rightarrow>
          (case waitLifecycleStopAttempt (startLifecycleStopAttempt i w) of
             ((err, _, _), w) \<Rightarrow> (err, w)))"

definition stopLifecycleComponent :: "lentry \<Rightarrow> lworld \<Rightarrow> lerr option \<times> lworld" where
  "stopLifecycleComponent e w =
     (case cShutdown (eComponent e) of
        ContextShutdowner \<Rightarrow>
          (case ctxErr w of (Some err, w) \<Rightarrow> (Some err, w) | (None, w) \<Rightarrow> runShutdownWorker (eID e) w)
      | Shutdowner \<Rightarrow> runShutdownWorker (eID e) w
      | NoShutdown \<Rightarrow> (None, w))"

text \<open>The components in the order they are stopped.\<close>

fun stopLifecycleComponents :: "lentry list \<Rightarrow> lworld \<Rightarrow> lerr list \<times> lworld" where
  "stopLifecycleComponents [] w = ([], w)"
| "stopLifecycleComponents (e # es) w =
     (case ctxErr w of
        (Some err, w) \<Rightarrow>
          ([onComponent ''component shutdown not started'' (lifecycleComponentName (eComponent e)) err], w)
      | (None, w) \<Rightarrow>
          (case stopLifecycleComponent e w of
             (r, w) \<Rightarrow>
               (let errs = (case r of None \<Rightarrow> [] | Some x \<Rightarrow>
                      [onComponent ''component shutdown failed'' (lifecycleComponentName (eComponent e)) x]) in
                case ctxErr w of
                  (Some _, w) \<Rightarrow> (errs, w)
                | (None, w) \<Rightarrow>
                    (case stopLifecycleComponents es w of (errs', w) \<Rightarrow> (errs @ errs', w)))))"

definition toStop :: "lentry \<Rightarrow> bool" where
  "toStop e \<longleftrightarrow> eStarted e \<and> \<not> eStopped e"

definition markToStop :: "lifecycle \<Rightarrow> lifecycle" where
  "markToStop l = l\<lparr>lState := LifecycleStopping,
     lComponents := map (\<lambda>e. if toStop e then e\<lparr>eStopped := True\<rparr> else e) (lComponents l)\<rparr>"

definition stopComponents :: "lentry list \<Rightarrow> lworld \<Rightarrow> lerr option \<times> lworld" where
  "stopComponents es w =
     (case stopLifecycleComponents (rev es) w of
        (errs, w) \<Rightarrow>
          (errors_join errs, w\<lparr>lc := (markStoppedLocked (lc w))\<lparr>lStopErr := errors_join errs\<rparr>\<rparr>))"

definition rollbackStart :: "lerr \<Rightarrow> lworld \<Rightarrow> lerr option \<times> lworld" where
  "rollbackStart startErr w =
     (case stopComponents (filter toStop (lComponents (lc w)))
             (w\<lparr>lc := (markToStop (lc w))\<lparr>lStartErr := Some startErr\<rparr>\<rparr>) of
        (rollbackErr, w) \<Rightarrow>
          (case rollbackErr of
             None \<Rightarrow> Some startErr
           | Some e \<Rightarrow> errors_join [startErr, wrapf ''lifecycle rollback failed: '' e], w))"

fun initEntries :: "lentry list \<Rightarrow> lworld \<Rightarrow> (lerr option \<times> lentry list) \<times> lworld" where
  "initEntries [] w = ((None, []), w)"
| "initEntries (e # es) w =
     (case (if eActive e \<and> cInitializer (eComponent e) then runLifecycleInitializer (eID e) w
            else (None, w)) of
        (Some err, w) \<Rightarrow>
          ((Some (onComponent ''component initialization failed'' (lifecycleComponentName (eComponent e)) err),
            e # es), w)
      | (None, w) \<Rightarrow>
          (let e' = (if eActive e then e\<lparr>eStarted := True\<rparr> else e) in
           case initEntries es w of ((r, es'), w) \<Rightarrow> ((r, e' # es'), w)))"

definition startComponents :: "lworld \<Rightarrow> lerr option \<times> lworld" where
  "startComponents w =
     (case initEntries (lComponents (lc w)) w of
        ((r, es), w) \<Rightarrow>
          (let w = w\<lparr>lc := (lc w)\<lparr>lComponents := es\<rparr>\<rparr> in
           case r of
             Some err \<Rightarrow> rollbackStart err w
           | None \<Rightarrow> (None, w\<lparr>lc := (lc w)\<lparr>lState := LifecycleStarted\<rparr>\<rparr>)))"

fun start_loop :: "nat \<Rightarrow> lworld \<Rightarrow> lerr option \<times> lworld" where
  "start_loop n w =
     (case lState (lc w) of
        LifecycleStopped \<Rightarrow>
          ((case lStartErr (lc w) of Some e \<Rightarrow> Some e | None \<Rightarrow> Some errLifecycleStopped), w)
      | LifecycleStarted \<Rightarrow> (lStartErr (lc w), w)
      | st \<Rightarrow>
          (if st = LifecycleStarting \<or> st = LifecycleStopping then
             (case waitLifecycleOperation w of
                (Some e, w) \<Rightarrow> (Some e, w)
              | (None, w) \<Rightarrow> (case n of 0 \<Rightarrow> (None, w) | Suc m \<Rightarrow> start_loop m w))
           else startComponents (w\<lparr>lc := (lc w)\<lparr>lState := LifecycleStarting\<rparr>\<rparr>)))"

declare start_loop.simps [simp del]

definition Start :: "lworld \<Rightarrow> lerr option \<times> lworld" where
  "Start w = (if lStrict (lc w) then startStrict w else start_loop (length (wOthers w)) w)"

fun stop_loop :: "nat \<Rightarrow> lworld \<Rightarrow> lerr option \<times> lworld" where
  "stop_loop n w =
     (case lState (lc w) of
        LifecycleStopped \<Rightarrow> (lStopErr (lc w), w)
      | st \<Rightarrow>
          (if st = LifecycleStarting \<or> st = LifecycleStopping then
             (case waitLifecycleOperation w of
                (Some e, w) \<Rightarrow> (Some e, w)
              | (None, w) \<Rightarrow> (case n of 0 \<Rightarrow> (None, w) | Suc m \<Rightarrow> stop_loop m w))
           else stopComponents (filter toStop (lComponents (lc w))) (w\<lparr>lc := markToStop (lc w)\<rparr>)))"

declare stop_loop.simps [simp del]

definition Stop :: "lworld \<Rightarrow> lerr option \<times> lworld" where
  "Stop w = (if lStrict (lc w) then stopStrict w else stop_loop (length (wOthers w)) w)"

end
