(* ===== verification/Registry.thy ===== *)
theory Registry
  imports Main
begin

text \<open>
  The interface of a registry by key: \<open>put\<close> (which may fail), \<open>del\<close> and \<open>look\<close>, with the laws its clients
  rely on. \<open>same\<close> relates the value that was put to the one that is found, since a registry may keep
  an equal value it already has. The lifecycle provides it, the bean container relies on it.
\<close>

locale registry =
  fixes ok :: "'s \<Rightarrow> bool"
    and look :: "'s \<Rightarrow> 'k \<Rightarrow> 'v option"
    and put :: "'k \<Rightarrow> 'v \<Rightarrow> 's \<Rightarrow> 's option"
    and del :: "'k \<Rightarrow> 's \<Rightarrow> 's"
    and same :: "'v \<Rightarrow> 'v \<Rightarrow> bool"
  assumes put_ok: "ok s \<Longrightarrow> put k v s = Some s' \<Longrightarrow> ok s'"
    and look_put: "ok s \<Longrightarrow> put k v s = Some s' \<Longrightarrow> \<exists>v'. look s' k = Some v' \<and> same v' v"
    and look_put_other: "ok s \<Longrightarrow> put k v s = Some s' \<Longrightarrow> j \<noteq> k \<Longrightarrow> look s' j = look s j"
    and del_ok: "ok s \<Longrightarrow> ok (del k s)"
    and look_del: "ok s \<Longrightarrow> look (del k s) k = None"
    and look_del_other: "ok s \<Longrightarrow> j \<noteq> k \<Longrightarrow> look (del k s) j = look s j"
begin

primrec put_all :: "('k \<times> 'v) list \<Rightarrow> 's \<Rightarrow> 's option" where
  "put_all [] s = Some s"
| "put_all (kv # kvs) s = (case put (fst kv) (snd kv) s of None \<Rightarrow> None | Some s' \<Rightarrow> put_all kvs s')"

lemma put_all_ok: "ok s \<Longrightarrow> put_all kvs s = Some s' \<Longrightarrow> ok s'"
  by (induction kvs arbitrary: s) (auto split: option.splits intro: put_ok)

lemma put_all_other: "ok s \<Longrightarrow> put_all kvs s = Some s' \<Longrightarrow> k \<notin> fst ` set kvs \<Longrightarrow> look s' k = look s k"
proof (induction kvs arbitrary: s)
  case (Cons kv kvs)
  then obtain s1 where s1: "put (fst kv) (snd kv) s = Some s1" "put_all kvs s1 = Some s'"
    by (auto split: option.splits)
  then have "look s' k = look s1 k" using Cons put_ok [OF Cons.prems(1) s1(1)] by simp
  then show ?case using look_put_other [OF Cons.prems(1) s1(1)] Cons.prems(3) by auto
qed simp

text \<open>After a batch of different keys each of them is found with its value.\<close>

lemma put_all_found:
  "ok s \<Longrightarrow> distinct (map fst kvs) \<Longrightarrow> put_all kvs s = Some s' \<Longrightarrow> (k, v) \<in> set kvs \<Longrightarrow>
   \<exists>v'. look s' k = Some v' \<and> same v' v"
proof (induction kvs arbitrary: s)
  case (Cons kv kvs)
  then obtain s1 where s1: "put (fst kv) (snd kv) s = Some s1" "put_all kvs s1 = Some s'"
    by (auto split: option.splits)
  show ?case
  proof (cases "(k, v) = kv")
    case True
    then have "k \<notin> fst ` set kvs" using Cons.prems(2) by (metis distinct.simps(2) fst_conv image_set list.simps(9))
    then have "look s' k = look s1 k"
      using put_all_other [OF put_ok [OF Cons.prems(1) s1(1)] s1(2)] by simp
    then show ?thesis using look_put [OF Cons.prems(1) s1(1)] True by auto
  next
    case False
    then show ?thesis using Cons.IH [OF put_ok [OF Cons.prems(1) s1(1)]] Cons.prems s1(2) by auto
  qed
qed simp

lemma put_then_del: "ok s \<Longrightarrow> put k v s = Some s' \<Longrightarrow> look (del k s') j = (if j = k then None else look s j)"
  using look_del look_del_other look_put_other put_ok by metis

end

end
