(* ===== verification/LifecycleProps.thy ===== *)
theory LifecycleProps
  imports Lifecycle Registry
begin

text \<open>
  What the lifecycle promises: its registry of beans is a map from types to components under any
  sequence of registrations, start calls every initializer once in registration order, a failed
  strict start undoes itself, stop calls shutdowns in reverse order and never twice.
\<close>

section \<open>The registry of beans\<close>

text \<open>The entry with number \<open>i\<close> and component \<open>c\<close> is registered for the type \<open>ty\<close>.\<close>

definition has :: "lentry set \<Rightarrow> string \<Rightarrow> nat \<Rightarrow> component \<Rightarrow> bool" where
  "has E ty i c \<longleftrightarrow> (\<exists>e \<in> E. eID e = i \<and> ty \<in> set (registered e) \<and> eComponent e = c)"

definition registry_ok :: "lifecycle \<Rightarrow> bool" where
  "registry_ok l \<longleftrightarrow> distinct (map eID (lComponents l)) \<and> (\<forall>e \<in> set (lComponents l). eID e < lNext l) \<and>
     (\<forall>ty i. lBeanEntries l ty = Some i \<longleftrightarrow> (\<exists>c. has (set (lComponents l)) ty i c)) \<and>
     (\<forall>e \<in> set (lComponents l). registered e \<noteq> [] \<longrightarrow> eActive e)"

definition beanOf :: "lifecycle \<Rightarrow> string \<Rightarrow> component option" where
  "beanOf l ty = map_option eComponent (currentEntry ty l)"

lemma registry_ok_new: "registry_ok (newLifecycleWithMode strict)"
  by (simp add: registry_ok_def newLifecycleWithMode_def has_def)

lemma findEntry_Some:
  assumes "distinct (map eID (lComponents l))"
  shows "findEntry i l = Some e \<longleftrightarrow> e \<in> set (lComponents l) \<and> eID e = i"
  unfolding findEntry_def
proof
  assume "List.find (\<lambda>e. eID e = i) (lComponents l) = Some e"
  then show "e \<in> set (lComponents l) \<and> eID e = i" by (rule find_SomeD)
next
  assume "e \<in> set (lComponents l) \<and> eID e = i"
  then show "List.find (\<lambda>e. eID e = i) (lComponents l) = Some e"
    using find_key_unique [OF assms] by blast
qed

lemma currentEntry_Some:
  assumes "registry_ok l"
  shows "currentEntry ty l = Some e \<longleftrightarrow> e \<in> set (lComponents l) \<and> ty \<in> set (registered e)"
proof -
  have d: "distinct (map eID (lComponents l))" using assms by (simp add: registry_ok_def)
  have "currentEntry ty l = Some e \<longleftrightarrow> (\<exists>i. lBeanEntries l ty = Some i \<and> e \<in> set (lComponents l) \<and> eID e = i)"
    using findEntry_Some [OF d] by (auto simp: currentEntry_def split: option.split)
  also have "\<dots> \<longleftrightarrow> e \<in> set (lComponents l) \<and> (\<exists>c. has (set (lComponents l)) ty (eID e) c)"
    using assms unfolding registry_ok_def by blast
  also have "\<dots> \<longleftrightarrow> e \<in> set (lComponents l) \<and> ty \<in> set (registered e)"
    using key_inj [OF d] unfolding has_def by blast
  finally show ?thesis .
qed

lemma beanOf_Some:
  "registry_ok l \<Longrightarrow> beanOf l ty = Some c \<longleftrightarrow> (\<exists>i. has (set (lComponents l)) ty i c)"
  unfolding beanOf_def map_option_eq_Some has_def by (auto simp: currentEntry_Some)

lemma beanOf_eqI:
  assumes "registry_ok l" "registry_ok l'"
    and "\<And>i c. has (set (lComponents l')) ty i c \<longleftrightarrow> has (set (lComponents l)) ty i c"
  shows "beanOf l' ty = beanOf l ty"
proof -
  have "beanOf l' ty = Some c \<longleftrightarrow> beanOf l ty = Some c" for c
    using assms by (simp add: beanOf_Some)
  then show ?thesis by (metis option.exhaust)
qed

lemma beanOf_None: "registry_ok l \<Longrightarrow> (\<And>i c. \<not> has (set (lComponents l)) ty i c) \<Longrightarrow> beanOf l ty = None"
  using beanOf_Some [of l ty] by (metis option.exhaust)

lemma registered_simps [simp]:
  "registered (e\<lparr>eRegistrations := Some tys\<rparr>) = tys"
  "registered (newEntry i c) = []"
  "registered (e\<lparr>eActive := b\<rparr>) = registered e"
  "registered (e\<lparr>ePrestarted := b, eStarted := b'\<rparr>) = registered e"
  by (simp_all add: registered_def newEntry_def split: option.split)

lemma registered_remove:
  "set (registered (e\<lparr>eRegistrations := map_option (removeAll ty) (eRegistrations e)\<rparr>)) = set (registered e) - {ty}"
  by (cases "eRegistrations e") (auto simp: registered_def)

lemma set_setEntry:
  assumes "distinct (map eID (lComponents l))" and "e \<in> set (lComponents l)" and "eID e' = eID e"
  shows "set (lComponents (setEntry e' l)) = insert e' (set (lComponents l) - {e})"
proof -
  have "(if eID x = eID e' then e' else x) = (if x = e then e' else x)" if "x \<in> set (lComponents l)" for x
    using key_inj [OF assms(1) that assms(2)] assms(3) by auto
  then have "set (lComponents (setEntry e' l)) = (\<lambda>x. if x = e then e' else x) ` set (lComponents l)"
    by (auto simp: setEntry_def)
  then show ?thesis using assms(2) by auto
qed

lemma setEntry_ids: "map eID (lComponents (setEntry e l)) = map eID (lComponents l)"
  by (simp add: setEntry_def)

lemma setEntry_fields [simp]:
  "lBeanEntries (setEntry e l) = lBeanEntries l" "lNext (setEntry e l) = lNext l"
  "lState (setEntry e l) = lState l" "lSealed (setEntry e l) = lSealed l" "lStrict (setEntry e l) = lStrict l"
  by (simp_all add: setEntry_def)

text \<open>Where an entry is replaced by one with the same number and component.\<close>

lemma has_replace:
  assumes "distinct (map eID (lComponents l))" and "e \<in> set (lComponents l)" and "eID e' = eID e"
    and "eComponent e' = eComponent e"
  shows "has (set (lComponents (setEntry e' l))) ty i c \<longleftrightarrow>
    (if i = eID e then ty \<in> set (registered e') \<and> c = eComponent e else has (set (lComponents l)) ty i c)"
  using set_setEntry [OF assms(1-3)] assms(3,4) key_inj [OF assms(1) _ assms(2)]
  unfolding has_def by auto

lemma has_self:
  assumes "distinct (map eID (lComponents l))" and "e \<in> set (lComponents l)"
  shows "has (set (lComponents l)) ty (eID e) c \<longleftrightarrow> ty \<in> set (registered e) \<and> c = eComponent e"
  using key_inj [OF assms(1) _ assms(2)] assms(2) unfolding has_def by blast

lemma has_type_unique:
  assumes "registry_ok l" and "has (set (lComponents l)) ty i c" and "has (set (lComponents l)) ty j d"
  shows "j = i \<and> d = c"
proof -
  have "i = j" using assms unfolding registry_ok_def by (metis option.inject)
  moreover have "distinct (map eID (lComponents l))" using assms(1) by (simp add: registry_ok_def)
  ultimately show ?thesis using assms(2,3) key_inj unfolding has_def by metis
qed

definition lopen :: "lifecycle \<Rightarrow> bool" where
  "lopen l \<longleftrightarrow> lState l \<noteq> LifecycleStopping \<and> lState l \<noteq> LifecycleStopped"

lemma dropRegistration_has:
  assumes ok: "registry_ok l" and cur: "currentEntry ty l = Some e"
  shows "distinct (map eID (lComponents (dropRegistration ty e l))) \<and>
    (\<forall>x \<in> set (lComponents (dropRegistration ty e l)). eID x < lNext l \<and> (registered x \<noteq> [] \<longrightarrow> eActive x)) \<and>
    lNext (dropRegistration ty e l) = lNext l \<and> lState (dropRegistration ty e l) = lState l \<and>
    lBeanEntries (dropRegistration ty e l) = (lBeanEntries l)(ty := None) \<and>
    (\<forall>u i c. has (set (lComponents (dropRegistration ty e l))) u i c \<longleftrightarrow>
       u \<noteq> ty \<and> has (set (lComponents l)) u i c)"
proof -
  have d: "distinct (map eID (lComponents l))" using ok by (simp add: registry_ok_def)
  have e: "e \<in> set (lComponents l)" "ty \<in> set (registered e)"
    using cur currentEntry_Some [OF ok] by auto
  define e1 where "e1 = e\<lparr>eRegistrations := map_option (removeAll ty) (eRegistrations e)\<rparr>"
  define l0 where "l0 = l\<lparr>lBeanEntries := (lBeanEntries l)(ty := None)\<rparr>"
  define l1 where "l1 = setEntry e1 l0"
  have drop: "dropRegistration ty e l = retireUnregisteredEntry e1 l1"
    by (simp add: dropRegistration_def l1_def l0_def e1_def Let_def)
  have e1: "eID e1 = eID e" "eComponent e1 = eComponent e" "set (registered e1) = set (registered e) - {ty}"
      "eActive e1 = eActive e"
    by (simp_all add: e1_def registered_remove)
  have l0: "lComponents l0 = lComponents l" by (simp add: l0_def)
  have d1: "distinct (map eID (lComponents l1))" by (simp add: l1_def setEntry_ids l0 d)
  have S1: "set (lComponents l1) = insert e1 (set (lComponents l) - {e})"
    using set_setEntry [of l0 e e1] d e(1) e1(1) by (simp add: l1_def l0)
  have H1: "has (set (lComponents l1)) u i c \<longleftrightarrow> u \<noteq> ty \<and> has (set (lComponents l)) u i c" for u i c
  proof (cases "i = eID e")
    case True
    then show ?thesis
      using has_replace [of l0 e e1 u i c] has_self [OF d e(1), of u c] d e(1) e1 by (auto simp: l1_def l0)
  next
    case False
    have "u \<noteq> ty" if "has (set (lComponents l)) u i c"
      using that False has_type_unique [OF ok] has_self [OF d e(1)] e(2) by blast
    then show ?thesis
      using has_replace [of l0 e e1 u i c] d e(1) e1 False by (auto simp: l1_def l0)
  qed
  have f1: "lNext l1 = lNext l" "lState l1 = lState l" "lBeanEntries l1 = (lBeanEntries l)(ty := None)"
    by (simp_all add: l1_def l0_def)
  have A1: "\<forall>x \<in> set (lComponents l1). eID x < lNext l \<and> (registered x \<noteq> [] \<longrightarrow> eActive x)"
    using ok e e1 unfolding S1 registry_ok_def by (auto simp: set_empty2 [symmetric] simp del: set_empty2)
  show ?thesis
  proof (cases "registered e1 = []")
    case False
    then show ?thesis using d1 H1 f1 A1 by (simp add: drop retireUnregisteredEntry_def)
  next
    case empty: True
    show ?thesis
    proof (cases "eStarted e1")
      case True
      define e2 where "e2 = e1\<lparr>eActive := False\<rparr>"
      have l2: "dropRegistration ty e l = setEntry e2 l1"
        using empty True by (simp add: drop retireUnregisteredEntry_def e2_def)
      have m1: "e1 \<in> set (lComponents l1)" "eID e2 = eID e1" "eComponent e2 = eComponent e1" "registered e2 = []"
        using S1 empty by (simp_all add: e2_def)
      have "has (set (lComponents (setEntry e2 l1))) u i c \<longleftrightarrow> has (set (lComponents l1)) u i c" for u i c
        using has_replace [OF d1 m1(1-3), of u i c] has_self [OF d1 m1(1), of u c] m1(4) empty by auto
      moreover have "\<forall>x \<in> set (lComponents (setEntry e2 l1)). eID x < lNext l \<and> (registered x \<noteq> [] \<longrightarrow> eActive x)"
        using set_setEntry [OF d1 m1(1,2)] A1 m1 by auto
      ultimately show ?thesis using H1 f1 d1 by (simp add: l2 setEntry_ids)
    next
      case False
      define l2 where "l2 = l1\<lparr>lComponents := filter (\<lambda>x. eID x \<noteq> eID e1) (lComponents l1)\<rparr>"
      have l2: "dropRegistration ty e l = l2"
        using empty False by (simp add: drop retireUnregisteredEntry_def l2_def)
      have "has (set (lComponents l2)) u i c \<longleftrightarrow> has (set (lComponents l1)) u i c" for u i c
      proof (cases "i = eID e1")
        case True
        then show ?thesis
          using has_self [OF d1, of e1 u c] S1 empty by (auto simp: l2_def has_def)
      qed (auto simp: l2_def has_def)
      moreover have "distinct (map eID (lComponents l2))"
        using d1 by (simp add: l2_def distinct_map_filter)
      moreover have "\<forall>x \<in> set (lComponents l2). eID x < lNext l \<and> (registered x \<noteq> [] \<longrightarrow> eActive x)"
        using A1 by (simp add: l2_def)
      ultimately show ?thesis using H1 f1 by (simp add: l2) (simp add: l2_def)
    qed
  qed
qed

lemma dropRegistration_ok:
  assumes ok: "registry_ok l" and cur: "currentEntry ty l = Some e"
  shows "registry_ok (dropRegistration ty e l)" "beanOf (dropRegistration ty e l) ty = None"
    "u \<noteq> ty \<Longrightarrow> beanOf (dropRegistration ty e l) u = beanOf l u"
proof -
  note h = dropRegistration_has [OF ok cur]
  have x: "(\<exists>c. has (set (lComponents (dropRegistration ty e l))) u i c) \<longleftrightarrow>
      u \<noteq> ty \<and> (\<exists>c. has (set (lComponents l)) u i c)" for u i
    using h by blast
  show ok': "registry_ok (dropRegistration ty e l)"
    unfolding registry_ok_def x using h ok unfolding registry_ok_def by auto
  show "beanOf (dropRegistration ty e l) ty = None"
    using h by (intro beanOf_None [OF ok']) simp
  show "u \<noteq> ty \<Longrightarrow> beanOf (dropRegistration ty e l) u = beanOf l u"
    using h by (intro beanOf_eqI [OF ok ok']) simp
qed

lemma attachBean_has:
  assumes ok: "registry_ok l" and cur: "beanOf l ty = None" and att: "attachBean ty c l = Some l'"
  shows "registry_ok l' \<and> lState l' = lState l \<and> lSealed l' = lSealed l \<and>
    (\<exists>i c'. (c' = c \<or> sameLifecycleComponent c' c) \<and>
       (\<forall>u j d. has (set (lComponents l')) u j d \<longleftrightarrow>
          (if u = ty then j = i \<and> d = c' else has (set (lComponents l)) u j d)))"
proof (cases "findComponentEntry c l")
  case None
  define e where "e = (newEntry (lNext l) c)\<lparr>eRegistrations := Some [ty]\<rparr>"
  have l': "l' = l\<lparr>lComponents := lComponents l @ [e], lNext := lNext l + 1,
      lBeanEntries := (lBeanEntries l)(ty \<mapsto> eID e)\<rparr>"
    using att None by (simp add: attachBean_def e_def Let_def)
  have e: "eID e = lNext l" "eComponent e = c" "registered e = [ty]" "eActive e"
    by (simp_all add: e_def newEntry_def registered_def)
  have no: "\<not> has (set (lComponents l)) ty j d" for j d
    using beanOf_Some [OF ok, of ty d] cur by auto
  have H: "has (set (lComponents l')) u j d \<longleftrightarrow>
      (if u = ty then j = lNext l \<and> d = c else has (set (lComponents l)) u j d)" for u j d
    using e no by (auto simp: has_def l')
  have "registry_ok l'"
    using ok H e unfolding registry_ok_def by (auto simp: l' less_Suc_eq)
  then show ?thesis using H by (auto simp: l')
next
  case (Some e)
  have e: "e \<in> set (lComponents l)" "sameLifecycleComponent (eComponent e) c"
    using find_SomeD [OF Some [unfolded findComponentEntry_def]] by simp_all
  have d: "distinct (map eID (lComponents l))" using ok by (simp add: registry_ok_def)
  define e1 where "e1 = (if isLifecyclePrestarted c then e\<lparr>ePrestarted := True, eStarted := True\<rparr> else e)"
  obtain tys where tys: "eRegistrations e1 = Some tys"
    using att Some by (auto simp: attachBean_def e1_def Let_def split: option.splits)
  define e2 where "e2 = e1\<lparr>eActive := True, eRegistrations := Some (List.insert ty tys)\<rparr>"
  have l': "l' = (setEntry e2 l)\<lparr>lBeanEntries := (lBeanEntries l)(ty \<mapsto> eID e)\<rparr>"
    using att Some tys by (simp add: attachBean_def e1_def [symmetric] e2_def Let_def)
  have e2: "eID e2 = eID e" "eComponent e2 = eComponent e" "eActive e2"
      "set (registered e2) = insert ty (set (registered e))"
    using tys by (auto simp: e2_def e1_def registered_def split: if_splits)
  have no: "\<not> has (set (lComponents l)) ty j d" for j d
    using beanOf_Some [OF ok, of ty d] cur by auto
  have H: "has (set (lComponents l')) u j d \<longleftrightarrow>
      (if u = ty then j = eID e \<and> d = eComponent e else has (set (lComponents l)) u j d)" for u j d
    using has_replace [OF d e(1) e2(1,2), of u j d] has_self [OF d e(1), of u d] no e2(4)
    by (auto simp: l')
  have "registry_ok l'"
    using ok H set_setEntry [OF d e(1) e2(1)] e2 e(1) unfolding registry_ok_def
    by (auto simp: l' setEntry_ids)
  then show ?thesis using H e(2) by (auto simp: l')
qed

lemma setBeanLocked_ok:
  assumes ok: "registry_ok l" and op: "lopen l" and set: "setBeanLocked ty c l = Some l'"
  shows "registry_ok l'" "lState l' = lState l"
    "\<exists>c'. beanOf l' ty = Some c' \<and> (c' = c \<or> sameLifecycleComponent c' c)"
    "u \<noteq> ty \<Longrightarrow> beanOf l' u = beanOf l u"
proof -
  have goal: "registry_ok l' \<and> lState l' = lState l \<and>
    (\<exists>c'. beanOf l' ty = Some c' \<and> (c' = c \<or> sameLifecycleComponent c' c)) \<and>
    (\<forall>u. u \<noteq> ty \<longrightarrow> beanOf l' u = beanOf l u)"
  proof (cases "currentEntry ty l")
    case None
    then have cur: "beanOf l ty = None" by (simp add: beanOf_def)
    have att: "attachBean ty c l = Some l'" using set None op by (simp add: setBeanLocked_def lopen_def)
    from attachBean_has [OF ok cur att] obtain i c' where
      r: "registry_ok l'" "lState l' = lState l" "c' = c \<or> sameLifecycleComponent c' c"
      and H: "\<And>u j d. has (set (lComponents l')) u j d \<longleftrightarrow>
          (if u = ty then j = i \<and> d = c' else has (set (lComponents l)) u j d)" by blast
    have "beanOf l' ty = Some c'" using H by (simp add: beanOf_Some [OF r(1)])
    moreover have "beanOf l' u = beanOf l u" if "u \<noteq> ty" for u
      using H that by (intro beanOf_eqI [OF ok r(1)]) simp
    ultimately show ?thesis using r by blast
  next
    case (Some e)
    show ?thesis
    proof (cases "sameLifecycleComponent (eComponent e) c")
      case True
      then have "l' = l" using set Some op by (simp add: setBeanLocked_def lopen_def)
      then show ?thesis using ok Some True by (simp add: beanOf_def)
    next
      case False
      let ?d = "dropRegistration ty e l"
      have att: "attachBean ty c ?d = Some l'" using set Some op False by (simp add: setBeanLocked_def lopen_def)
      from attachBean_has [OF dropRegistration_ok(1,2) [OF ok Some] att] obtain i c' where
        r: "registry_ok l'" "lState l' = lState ?d" "c' = c \<or> sameLifecycleComponent c' c"
        and H: "\<And>u j d. has (set (lComponents l')) u j d \<longleftrightarrow>
            (if u = ty then j = i \<and> d = c' else has (set (lComponents ?d)) u j d)" by blast
      have "beanOf l' ty = Some c'" using H by (simp add: beanOf_Some [OF r(1)])
      moreover have "beanOf l' u = beanOf l u" if "u \<noteq> ty" for u
      proof -
        have "beanOf l' u = beanOf ?d u"
          using H that by (intro beanOf_eqI [OF dropRegistration_ok(1) [OF ok Some] r(1)]) simp
        then show ?thesis using dropRegistration_ok(3) [OF ok Some that] by simp
      qed
      ultimately show ?thesis using r dropRegistration_has [OF ok Some] by auto
    qed
  qed
  then show "registry_ok l'" "lState l' = lState l"
    "\<exists>c'. beanOf l' ty = Some c' \<and> (c' = c \<or> sameLifecycleComponent c' c)"
    "u \<noteq> ty \<Longrightarrow> beanOf l' u = beanOf l u" by blast+
qed

definition unregister :: "string \<Rightarrow> lifecycle \<Rightarrow> lifecycle" where
  "unregister ty l = (case currentEntry ty l of None \<Rightarrow> l | Some e \<Rightarrow> dropRegistration ty e l)"

lemma removeBean_unregister: "\<not> registrationClosed l \<Longrightarrow> removeBean ty l = (None, unregister ty l)"
  by (simp add: removeBean_def unregister_def split: option.split)

definition sameBean :: "component \<Rightarrow> component \<Rightarrow> bool" where
  "sameBean c' c \<longleftrightarrow> c' = c \<or> sameLifecycleComponent c' c"

lemma unregister_ok:
  assumes "registry_ok l"
  shows "registry_ok (unregister ty l)" "lState (unregister ty l) = lState l"
    "beanOf (unregister ty l) ty = None" "u \<noteq> ty \<Longrightarrow> beanOf (unregister ty l) u = beanOf l u"
  using dropRegistration_ok [OF assms] dropRegistration_has [OF assms] assms
  by (auto simp: unregister_def beanOf_def split: option.split)

interpretation beans: registry "\<lambda>l. registry_ok l \<and> lopen l" beanOf setBeanLocked unregister sameBean
proof
  fix s s' and k j :: string and v
  assume ok: "registry_ok s \<and> lopen s"
  show "registry_ok (unregister k s) \<and> lopen (unregister k s)"
    using ok unregister_ok by (simp add: lopen_def)
  show "beanOf (unregister k s) k = None" using ok unregister_ok by simp
  show "beanOf (unregister k s) j = beanOf s j" if "j \<noteq> k" using ok unregister_ok that by simp
  assume put: "setBeanLocked k v s = Some s'"
  note set = setBeanLocked_ok [OF conjunct1 [OF ok] conjunct2 [OF ok] put]
  show "registry_ok s' \<and> lopen s'" using ok set(1,2) by (simp add: lopen_def)
  show "\<exists>v'. beanOf s' k = Some v' \<and> sameBean v' v" using set(3) by (simp add: sameBean_def)
  show "beanOf s' j = beanOf s j" if "j \<noteq> k" using set(4) that by simp
qed

lemma put_all_eq: "beans.put_all regs l = setBeansLocked regs l"
  by (induction regs arbitrary: l) (auto split: option.split)

lemma open_of_registration: "\<not> registrationClosed l \<Longrightarrow> lopen l"
  by (simp add: registrationClosed_def lopen_def)

lemma dropRegistration_flags:
  "lSealed (dropRegistration ty e l) = lSealed l" "lState (dropRegistration ty e l) = lState l"
  by (simp_all add: dropRegistration_def retireUnregisteredEntry_def Let_def)

lemma attachBean_flags:
  "attachBean ty c l = Some l' \<Longrightarrow> lSealed l' = lSealed l \<and> lState l' = lState l"
  by (auto simp: attachBean_def Let_def split: option.splits if_splits)

lemma setBeansLocked_flags:
  "setBeansLocked regs l = Some l' \<Longrightarrow> lSealed l' = lSealed l \<and> lState l' = lState l"
proof (induction regs l rule: setBeansLocked.induct)
  case (2 ty c regs l)
  then obtain l1 where l1: "setBeanLocked ty c l = Some l1" "setBeansLocked regs l1 = Some l'"
    by (auto split: option.splits)
  then have "lSealed l1 = lSealed l \<and> lState l1 = lState l"
    using attachBean_flags dropRegistration_flags
    by (fastforce simp: setBeanLocked_def split: if_splits option.splits)
  then show ?case using 2 l1 by simp
qed simp

text \<open>The lifecycle's registry of beans is a map from types to components: a batch of registrations
  makes each of its types find its component (or the identical one that is there already), leaves
  every other type alone, and a removed type finds nothing.\<close>

theorem bean_registry_is_a_map:
  assumes "registry_ok l" and "registerBeans regs l = Some (None, l')" and "distinct (map fst regs)"
  shows "registry_ok l' \<and>
    (\<forall>(ty, c) \<in> set regs. \<exists>c'. beanOf l' ty = Some c' \<and> (c' = c \<or> sameLifecycleComponent c' c)) \<and>
    (\<forall>ty. ty \<notin> fst ` set regs \<longrightarrow> beanOf l' ty = beanOf l ty) \<and>
    (\<forall>ty. beanOf (snd (removeBean ty l')) ty = None)"
proof -
  have op: "\<not> registrationClosed l" and set: "setBeansLocked regs l = Some l'"
    using assms(2) by (auto simp: registerBeans_def split: if_splits)
  then have ok: "registry_ok l \<and> lopen l" using assms(1) open_of_registration by simp
  have put: "beans.put_all regs l = Some l'" using set by (simp add: put_all_eq)
  have ok': "registry_ok l'" using beans.put_all_ok [OF ok put] by simp
  have closed: "registrationClosed l' = registrationClosed l"
    using setBeansLocked_flags [OF set] by (simp add: registrationClosed_def)
  show ?thesis
    using ok' beans.put_all_found [OF ok assms(3) put] beans.put_all_other [OF ok put]
      removeBean_unregister [of l'] closed op unregister_ok(3) [OF ok'] by (auto simp: sameBean_def)
qed


definition demo_component :: "string \<Rightarrow> nat \<Rightarrow> component" where
  "demo_component ty i = \<lparr>cType = ty, cBeanName = None, cIdent = Some i, cInitializer = True,
     cShutdown = ContextShutdowner, cPrestarted = False\<rparr>"

theorem bean_registry_is_a_map_witness:
  "\<exists>l'. registerBeans [(''A'', demo_component ''*x.A'' 1), (''B'', demo_component ''*x.B'' 2)] newLifecycle
      = Some (None, l') \<and> beanOf l' ''A'' \<noteq> None \<and> beanOf l' ''C'' = None"
proof -
  let ?regs = "[(''A'', demo_component ''*x.A'' 1), (''B'', demo_component ''*x.B'' 2)]"
  have "registerBeans ?regs newLifecycle \<noteq> None \<and>
      (case registerBeans ?regs newLifecycle of Some (None, l) \<Rightarrow> True | _ \<Rightarrow> False)"
    by code_simp
  then obtain l' where l': "registerBeans ?regs newLifecycle = Some (None, l')"
    by (auto split: option.splits)
  have ok: "registry_ok newLifecycle" unfolding newLifecycle_def by (rule registry_ok_new)
  have "distinct (map fst ?regs)" by simp
  from bean_registry_is_a_map [OF ok l' this] have "beanOf l' ''A'' \<noteq> None" "beanOf l' ''C'' = beanOf newLifecycle ''C''"
    by auto
  moreover have "beanOf newLifecycle ''C'' = None" by code_simp
  ultimately show ?thesis using l' by simp
qed

text \<open>A component that was added by \<open>Add\<close> or \<open>TryAdd\<close> and is registered as a bean afterwards
  makes the registration panic: the entry it finds has no map for its registrations.\<close>

theorem add_then_register_panics:
  assumes "\<not> registrationClosed l" and "cIdent c \<noteq> None" and "beanOf l ty = None"
    and "\<forall>e \<in> set (lComponents l). \<not> sameLifecycleComponent (eComponent e) c" and "registry_ok l"
  shows "registerBean ty (Some c) (Add (Some c) l) = None"
proof -
  let ?e = "newEntry (lNext l) c" and ?l = "l\<lparr>lComponents := lComponents l @ [newEntry (lNext l) c], lNext := lNext l + 1\<rparr>"
  have add: "Add (Some c) l = ?l" using assms(1) by (simp add: Add_def TryAdd_def add_def)
  have "find (\<lambda>e. sameLifecycleComponent (eComponent e) c) (lComponents l) = None"
    using assms(4) by (simp add: find_None_iff)
  then have "findComponentEntry c ?l = Some ?e"
    using assms(2) by (simp add: findComponentEntry_def find_snoc sameLifecycleComponent_def newEntry_def)
  moreover have "lBeanEntries l ty = None"
  proof (cases "lBeanEntries l ty")
    case (Some i)
    then obtain d where "has (set (lComponents l)) ty i d" using assms(5) unfolding registry_ok_def by blast
    then have "beanOf l ty = Some d" using beanOf_Some [OF assms(5)] by blast
    then show ?thesis using assms(3) by simp
  qed simp
  then have "currentEntry ty ?l = None" by (simp add: currentEntry_def)
  ultimately show ?thesis
    using assms(1) by (simp add: add registerBean_def registrationClosed_def setBeanLocked_def attachBean_def
        newEntry_def Let_def)
qed

theorem add_then_register_panics_witness:
  "registerBean ''A'' (Some (demo_component ''*x.A'' 1)) (Add (Some (demo_component ''*x.A'' 1)) newLifecycle) = None"
proof -
  have "\<not> registrationClosed newLifecycle" "beanOf newLifecycle ''A'' = None" by code_simp+
  moreover have "lComponents newLifecycle = []" by (simp add: newLifecycle_def newLifecycleWithMode_def)
  ultimately show ?thesis
    using registry_ok_new [of False] by (intro add_then_register_panics) (simp_all add: demo_component_def newLifecycle_def)
qed

section \<open>Strict start\<close>

lemma ctxErr_keeps [simp]:
  "lc (snd (ctxErr w)) = lc w" "wTrace (snd (ctxErr w)) = wTrace w"
  by (simp_all add: ctxErr_def split: list.split)

lemma ctxErr_eq: "ctxErr w = (r, w') \<Longrightarrow> lc w' = lc w \<and> wTrace w' = wTrace w"
  using ctxErr_keeps [of w] by simp

lemma init_eq:
  "runLifecycleInitializer i w = (r, w') \<Longrightarrow> lc w' = lc w \<and> wTrace w' = wTrace w @ [EvInit i]"
  by (auto simp: runLifecycleInitializer_def Let_def split: list.splits call_outcome.splits)

definition begun :: "lentry \<Rightarrow> lentry" where
  "begun e = (if eActive e then beginEntry e else e)"

definition inits :: "lentry list \<Rightarrow> levent list" where
  "inits es = map (\<lambda>e. EvInit (eID e)) (filter (\<lambda>e. eActive e \<and> cInitializer (eComponent e)) es)"

lemma inits_simps [simp]:
  "inits [] = []"
  "inits (e # es) = (if eActive e \<and> cInitializer (eComponent e) then EvInit (eID e) # inits es else inits es)"
  by (simp_all add: inits_def)

text \<open>How far the start loop gets: all entries, or a first part and perhaps the one that failed.\<close>

lemma startEntries_cases:
  assumes "startEntries es w = ((r, es'), w')"
  shows "lc w' = lc w \<and>
    (case r of
       None \<Rightarrow> es' = map begun es \<and> wTrace w' = wTrace w @ inits es
     | Some err \<Rightarrow> \<exists>xs e ys. es = xs @ e # ys \<and>
         (es' = map begun xs @ e # ys \<and> wTrace w' = wTrace w @ inits xs \<or>
          es' = map begun xs @ begun e # ys \<and> eActive e \<and> cInitializer (eComponent e) \<and> wTrace w' = wTrace w @ inits xs @ [EvInit (eID e)]))"
  using assms
proof (induction es arbitrary: w es')
  case (Cons e es)
  obtain c w1 where c: "ctxErr w = (c, w1)" by fastforce
  note k1 = ctxErr_eq [OF c]
  show ?case
  proof (cases c)
    case (Some err)
    then have "es' = e # es" "wTrace w' = wTrace w" "lc w' = lc w" "r \<noteq> None"
      using Cons.prems c k1 by auto
    then show ?thesis by (auto intro!: exI [of _ "[]"])
  next
    case None
    obtain q w2 where q: "(if eActive e \<and> cInitializer (eComponent e) then runLifecycleInitializer (eID e) w1
        else (None, w1)) = (q, w2)" by fastforce
    have k2: "lc w2 = lc w" "wTrace w2 = wTrace w @ (if eActive e \<and> cInitializer (eComponent e) then [EvInit (eID e)] else [])"
      using q k1 init_eq by (auto split: if_splits)
    show ?thesis
    proof (cases q)
      case (Some err)
      then have "es' = begun e # es" "w' = w2" "r \<noteq> None" "eActive e" "cInitializer (eComponent e)"
        using Cons.prems c None q by (auto simp: begun_def Let_def split: if_splits)
      then show ?thesis using k2 by (auto intro!: exI [of _ "[]"])
    next
      case q': None
      obtain es1 where rest: "startEntries es w2 = ((r, es1), w')" "es' = begun e # es1"
        using Cons.prems c None q q' by (auto simp: begun_def Let_def split: prod.splits)
      have IH: "lc w' = lc w2 \<and> (case r of None \<Rightarrow> es1 = map begun es \<and> wTrace w' = wTrace w2 @ inits es
         | Some err \<Rightarrow> \<exists>xs a ys. es = xs @ a # ys \<and>
         (es1 = map begun xs @ a # ys \<and> wTrace w' = wTrace w2 @ inits xs \<or>
          es1 = map begun xs @ begun a # ys \<and> eActive a \<and> cInitializer (eComponent a) \<and> wTrace w' = wTrace w2 @ inits xs @ [EvInit (eID a)]))"
        by (rule Cons.IH [OF rest(1)])
      show ?thesis
      proof (cases r)
        case None
        then show ?thesis using IH rest(2) k2 by simp
      next
        case (Some err)
        then obtain xs a ys where "es = xs @ a # ys" and or:
         "es1 = map begun xs @ a # ys \<and> wTrace w' = wTrace w2 @ inits xs \<or>
          es1 = map begun xs @ begun a # ys \<and> eActive a \<and> cInitializer (eComponent a) \<and> wTrace w' = wTrace w2 @ inits xs @ [EvInit (eID a)]"
          using IH by auto
        then have split: "e # es = (e # xs) @ a # ys" by simp
        have "es' = map begun (e # xs) @ a # ys \<and> wTrace w' = wTrace w @ inits (e # xs) \<or>
            es' = map begun (e # xs) @ begun a # ys \<and> eActive a \<and> cInitializer (eComponent a) \<and>
            wTrace w' = wTrace w @ inits (e # xs) @ [EvInit (eID a)]"
          using or rest(2) k2(2) by auto
        then show ?thesis using split IH k2(1) Some by (simp only: option.case) blast
      qed
    qed
  qed
qed simp

section \<open>Strict stop\<close>

text \<open>What never changes in an entry while it is stopped.\<close>

definition frame :: "lentry \<Rightarrow> nat \<times> component \<times> string list option \<times> bool \<times> bool \<times> bool" where
  "frame e = (eID e, eComponent e, eRegistrations e, eActive e, ePrestarted e, eStarted e)"

definition entry_step :: "lentry \<Rightarrow> lworld \<Rightarrow> bool \<Rightarrow> lentry \<Rightarrow> lworld \<Rightarrow> bool" where
  "entry_step e w fin e' w' \<longleftrightarrow> lc w' = lc w \<and> frame e' = frame e \<and>
     (wTrace w' = wTrace w \<or> wTrace w' = wTrace w @ [EvShutdown (eID e)]) \<and> (fin \<longrightarrow> stopTerminal e')"

lemma wait_eq: "waitLifecycleStopAttempt w = (r, w') \<Longrightarrow> lc w' = lc w \<and> wTrace w' = wTrace w"
  by (auto simp: waitLifecycleStopAttempt_def split: list.splits wait_outcome.splits)

lemma start_attempt [simp]:
  "lc (startLifecycleStopAttempt i w) = lc w" "wTrace (startLifecycleStopAttempt i w) = wTrace w @ [EvShutdown i]"
  by (simp_all add: startLifecycleStopAttempt_def)

text \<open>One round: when it starts an attempt it does not go on to another round.\<close>

lemma stopRound_starting:
  assumes "stopRound again here e w = ((r, fin, e'), w')" and "eStopState e \<noteq> EntryStopping"
  shows "entry_step e w fin e' w'"
proof -
  obtain c w1 where c: "ctxErr w = (c, w1)" by fastforce
  obtain x w2 where x: "waitLifecycleStopAttempt (startLifecycleStopAttempt (eID e) w1) = (x, w2)" by fastforce
  obtain err dn k where xx: "x = (err, dn, k)" by (cases x)
  show ?thesis
    using assms c x xx ctxErr_eq [OF c] wait_eq [OF x]
    by (cases c; cases err; cases dn)
      (auto simp: stopRound_def Let_def entry_step_def frame_def stopTerminal_def split: if_splits)
qed

lemma stopRound_waiting:
  assumes r: "stopRound again False e w = ((r, fin, e'), w')" and st: "eStopState e = EntryStopping"
    and again: "\<And>e1 w1 r fin e' w'. eStopState e1 \<noteq> EntryStopping \<Longrightarrow> again False e1 w1 = ((r, fin, e'), w') \<Longrightarrow>
      entry_step e1 w1 fin e' w'"
  shows "entry_step e w fin e' w'"
proof -
  obtain x w2 where x: "waitLifecycleStopAttempt w = (x, w2)" by fastforce
  obtain err dn k where xx: "x = (err, dn, k)" by (cases x)
  obtain c w3 where c: "ctxErr w2 = (c, w3)" by fastforce
  note k = wait_eq [OF x] ctxErr_eq [OF c]
  let ?e = "e\<lparr>eStopAttempt := False, eStopState := EntryRetryPending\<rparr>"
  show ?thesis
  proof (cases "dn \<and> err \<noteq> None")
    case False
    then show ?thesis
      using r st x xx k(1)
      by (cases dn; cases err) (auto simp: stopRound_def Let_def entry_step_def frame_def stopTerminal_def)
  next
    case True
    then obtain a where a: "err = Some a" "dn" by blast
    show ?thesis
    proof (cases "case k of None \<Rightarrow> False | Some j \<Rightarrow> errors_is a j")
      case False
      then show ?thesis
        using r st x xx k(1) a by (auto simp: stopRound_def Let_def entry_step_def frame_def stopTerminal_def)
    next
      case True
      show ?thesis
      proof (cases c)
        case None
        then have "again False ?e w3 = ((r, fin, e'), w')"
          using r st x xx c a True by (simp add: stopRound_def Let_def)
        then have "entry_step ?e w3 fin e' w'" by (rule again [rotated]) simp
        then show ?thesis using k by (simp add: entry_step_def frame_def)
      next
        case (Some y)
        then show ?thesis
          using r st x xx c a True k by (auto simp: stopRound_def Let_def entry_step_def frame_def)
      qed
    qed
  qed
qed

lemma stopRounds_step:
  assumes "stopRounds 2 False e w = ((r, fin, e'), w')"
  shows "entry_step e w fin e' w'"
proof -
  have u: "stopRounds 2 = stopRound (stopRounds 1)" "stopRounds 1 = stopRound (stopRounds 0)"
    by (simp_all add: fun_eq_iff numeral_2_eq_2)
  show ?thesis
  proof (cases "eStopState e = EntryStopping")
    case True
    show ?thesis
      by (rule stopRound_waiting [OF assms [unfolded u(1)] True]) (metis u(2) stopRound_starting)
  next
    case False
    then show ?thesis using assms unfolding u(1) by (rule stopRound_starting [rotated])
  qed
qed

lemma stopStrictEntry_step:
  assumes "stopStrictEntry e w = ((r, fin, e'), w')"
  shows "entry_step e w fin e' w'"
proof (cases "cShutdown (eComponent e)")
  case ContextShutdowner
  then show ?thesis using assms stopRounds_step by (simp add: stopStrictEntry_def)
next
  case NoShutdown
  then show ?thesis using assms by (auto simp: stopStrictEntry_def entry_step_def frame_def stopTerminal_def)
next
  case Shutdowner
  obtain c w1 where c: "(if eLegacyStarted e then (None, w) else ctxErr w) = (c, w1)" by fastforce
  have k1: "lc w1 = lc w" "wTrace w1 = wTrace w" using c ctxErr_eq by (auto split: if_splits)
  obtain x w2 where x: "waitLifecycleStopAttempt
      (if eLegacyStarted e then w1 else startLifecycleStopAttempt (eID e) w1) = (x, w2)" by fastforce
  obtain err dn k where xx: "x = (err, dn, k)" by (cases x)
  show ?thesis
    using assms Shutdowner c x xx k1 wait_eq [OF x]
    by (cases c; cases err; cases dn)
      (auto simp: stopStrictEntry_def Let_def entry_step_def frame_def stopTerminal_def split: if_splits)
qed

text \<open>The entries that \<open>stopStrictEntries\<close> still has to stop.\<close>

definition pending :: "lentry \<Rightarrow> bool" where
  "pending e \<longleftrightarrow> eStarted e \<and> \<not> stopTerminal e"

lemma stopEntries_step:
  assumes "stopEntries es w = ((errs, complete, es'), w')"
  shows "lc w' = lc w \<and> map frame es' = map frame es \<and>
    (\<exists>ids. wTrace w' = wTrace w @ map EvShutdown ids \<and> subseq ids (map eID (filter pending es))) \<and>
    (complete \<longrightarrow> (\<forall>e \<in> set es'. \<not> pending e)) \<and>
    list_all2 (\<lambda>e e'. \<not> pending e \<longrightarrow> e' = e) es es'"
  using assms
proof (induction es arbitrary: w errs complete es')
  case (Cons e es)
  show ?case
  proof (cases "pending e")
    case False
    then obtain es1 where "stopEntries es w = ((errs, complete, es1), w')" "es' = e # es1"
      using Cons.prems by (auto simp: pending_def split: prod.splits)
    then show ?thesis using Cons.IH False by simp
  next
    case True
    then have go: "\<not> (\<not> eStarted e \<or> stopTerminal e)" by (simp add: pending_def)
    obtain c w1 where c: "ctxErr w = (c, w1)" by fastforce
    note k1 = ctxErr_eq [OF c]
    show ?thesis
    proof (cases c)
      case (Some err)
      then have "es' = e # es" "w' = w1" "\<not> complete" using Cons.prems go c by auto
      then show ?thesis using k1 by (auto intro!: exI [of _ "[]"] list_all2_refl)
    next
      case None
      obtain q fin e1 w2 where q: "stopStrictEntry e w1 = ((q, fin, e1), w2)" by (metis prod.exhaust)
      note s = stopStrictEntry_step [OF q, unfolded entry_step_def]
      have ev: "\<exists>i. wTrace w2 = wTrace w @ map EvShutdown i \<and> (i = [] \<or> i = [eID e])"
      proof -
        have "wTrace w2 = wTrace w @ map EvShutdown [] \<or> wTrace w2 = wTrace w @ map EvShutdown [eID e]"
          using s k1 by auto
        then show ?thesis by blast
      qed
      show ?thesis
      proof (cases fin)
        case False
        then have "es' = e1 # es" "w' = w2" "\<not> complete"
          using Cons.prems go c None q by (auto simp: Let_def)
        then show ?thesis using s k1 ev True by (auto intro!: list_all2_refl)
      next
        case fin: True
        obtain errs1 es1 where rest: "stopEntries es w2 = ((errs1, complete, es1), w')" "es' = e1 # es1"
          using Cons.prems go c None q fin by (auto simp: Let_def split: prod.splits)
        obtain i where i: "wTrace w2 = wTrace w @ map EvShutdown i" "i = [] \<or> i = [eID e]" using ev by blast
        obtain ids where ids: "wTrace w' = wTrace w2 @ map EvShutdown ids" "subseq ids (map eID (filter pending es))"
          using Cons.IH [OF rest(1)] by blast
        have "subseq (i @ ids) (map eID (filter pending (e # es)))" using i(2) ids(2) True by auto
        moreover have "wTrace w' = wTrace w @ map EvShutdown (i @ ids)" using i(1) ids(1) by simp
        moreover have "\<not> pending e1" using s fin by (simp add: pending_def)
        ultimately have "\<exists>ids. wTrace w' = wTrace w @ map EvShutdown ids \<and>
            subseq ids (map eID (filter pending (e # es)))" "\<not> pending e1" by blast+
        then show ?thesis using Cons.IH [OF rest(1)] rest(2) s k1 True by (intro conjI) simp_all
      qed
    qed
  qed
qed simp

text \<open>An entry no stop has touched yet: stopping it to the end calls its shutdown once.\<close>

definition untouched :: "lentry \<Rightarrow> bool" where
  "untouched e \<longleftrightarrow> eStopState e = EntryPending \<and> \<not> eLegacyStarted e"

definition shutdowns :: "lentry list \<Rightarrow> levent list" where
  "shutdowns es = map (\<lambda>e. EvShutdown (eID e))
     (filter (\<lambda>e. eStarted e \<and> cShutdown (eComponent e) \<noteq> NoShutdown) es)"

lemma shutdowns_simps [simp]:
  "shutdowns [] = []"
  "shutdowns (e # es) = (if eStarted e \<and> cShutdown (eComponent e) \<noteq> NoShutdown
     then EvShutdown (eID e) # shutdowns es else shutdowns es)"
  by (simp_all add: shutdowns_def)

lemma stopRound_fresh:
  assumes "stopRound again here e w = ((r, True, e'), w')" and "eStopState e = EntryPending"
  shows "wTrace w' = wTrace w @ [EvShutdown (eID e)]"
proof -
  obtain c w1 where c: "ctxErr w = (c, w1)" by fastforce
  obtain x w2 where x: "waitLifecycleStopAttempt (startLifecycleStopAttempt (eID e) w1) = (x, w2)" by fastforce
  obtain err dn k where xx: "x = (err, dn, k)" by (cases x)
  show ?thesis
    using assms c x xx ctxErr_eq [OF c] wait_eq [OF x]
    by (cases c; cases err; cases dn) (auto simp: stopRound_def Let_def split: if_splits)
qed

lemma stopStrictEntry_fresh:
  assumes "stopStrictEntry e w = ((r, True, e'), w')" and "untouched e"
  shows "wTrace w' = wTrace w @ (if cShutdown (eComponent e) = NoShutdown then [] else [EvShutdown (eID e)])"
proof (cases "cShutdown (eComponent e)")
  case ContextShutdowner
  then have "stopRound (stopRounds 1) False e w = ((r, True, e'), w')"
    using assms by (simp add: stopStrictEntry_def numeral_2_eq_2)
  then show ?thesis using stopRound_fresh assms(2) ContextShutdowner by (simp add: untouched_def)
next
  case NoShutdown
  then show ?thesis using assms by (auto simp: stopStrictEntry_def)
next
  case Shutdowner
  obtain c w1 where c: "ctxErr w = (c, w1)" by fastforce
  obtain x w2 where x: "waitLifecycleStopAttempt (startLifecycleStopAttempt (eID e) w1) = (x, w2)" by fastforce
  obtain err dn k where xx: "x = (err, dn, k)" by (cases x)
  show ?thesis
    using assms Shutdowner c x xx ctxErr_eq [OF c] wait_eq [OF x]
    by (cases c; cases err; cases dn) (auto simp: stopStrictEntry_def untouched_def Let_def)
qed

lemma stopEntries_exact:
  assumes "stopEntries es w = ((errs, True, es'), w')" and "\<forall>e \<in> set es. eStarted e \<longrightarrow> untouched e"
  shows "wTrace w' = wTrace w @ shutdowns es"
  using assms
proof (induction es arbitrary: w errs es')
  case (Cons e es)
  show ?case
  proof (cases "eStarted e")
    case False
    then show ?thesis using Cons by (auto split: prod.splits)
  next
    case True
    then have f: "untouched e" "\<not> stopTerminal e" using Cons.prems(2) by (auto simp: untouched_def stopTerminal_def)
    obtain w1 where c: "ctxErr w = (None, w1)"
      using Cons.prems(1) True f by (cases "ctxErr w") (auto split: option.splits)
    obtain q e1 w2 where q: "stopStrictEntry e w1 = ((q, True, e1), w2)"
      using Cons.prems(1) True f c by (auto simp: Let_def split: prod.splits if_splits)
    obtain errs1 es1 where rest: "stopEntries es w2 = ((errs1, True, es1), w')"
      using Cons.prems(1) True f c q by (auto simp: Let_def split: prod.splits)
    show ?thesis
      using Cons.IH [OF rest] Cons.prems(2) stopStrictEntry_fresh [OF q f(1)] ctxErr_eq [OF c] True by simp
  qed
qed simp

lemma stopStrictEntries_exact:
  assumes "stopStrictEntries w = ((r, complete), w')"
  shows "lc w' = (lc w)\<lparr>lComponents := lComponents (lc w')\<rparr>"
    "map frame (lComponents (lc w')) = map frame (lComponents (lc w))"
    "\<exists>ids. wTrace w' = wTrace w @ map EvShutdown ids \<and>
       subseq ids (map eID (filter pending (rev (lComponents (lc w)))))"
    "complete \<Longrightarrow> \<forall>e \<in> set (lComponents (lc w')). \<not> pending e"
    "complete \<Longrightarrow> \<forall>e \<in> set (lComponents (lc w)). eStarted e \<longrightarrow> untouched e \<Longrightarrow>
       wTrace w' = wTrace w @ shutdowns (rev (lComponents (lc w)))"
proof -
  obtain errs es w1 where s: "stopEntries (rev (lComponents (lc w))) w = ((errs, complete, es), w1)"
      and w': "w' = w1\<lparr>lc := (lc w1)\<lparr>lComponents := rev es\<rparr>\<rparr>"
    using assms by (auto simp: stopStrictEntries_def split: prod.splits)
  note t = stopEntries_step [OF s]
  show "lc w' = (lc w)\<lparr>lComponents := lComponents (lc w')\<rparr>" using t w' by simp
  show "map frame (lComponents (lc w')) = map frame (lComponents (lc w))"
    using t w' by (simp add: rev_map [symmetric])
  show "\<exists>ids. wTrace w' = wTrace w @ map EvShutdown ids \<and>
       subseq ids (map eID (filter pending (rev (lComponents (lc w)))))" using t w' by simp
  show "complete \<Longrightarrow> \<forall>e \<in> set (lComponents (lc w')). \<not> pending e" using t w' by simp
  show "wTrace w' = wTrace w @ shutdowns (rev (lComponents (lc w)))"
    if "complete" "\<forall>e \<in> set (lComponents (lc w)). eStarted e \<longrightarrow> untouched e"
    using stopEntries_exact [of "rev (lComponents (lc w))" w errs es w1] s that w' by simp
qed

section \<open>Start and stop in the strict mode\<close>

lemma startStrict_new:
  "lStrict (lc w) \<Longrightarrow> lState (lc w) = LifecycleNew \<Longrightarrow>
   Start w = startStrictComponents (w\<lparr>lc := (lc w)\<lparr>lState := LifecycleStarting, lStartRetryable := False\<rparr>\<rparr>)"
  by (simp add: Start_def startStrict_def startStrict_loop.simps)

lemma stopStrict_started:
  "lStrict (lc w) \<Longrightarrow> lState (lc w) = LifecycleStarted \<or> lState (lc w) = LifecycleNew \<Longrightarrow>
   Stop w = (case stopStrictEntries (w\<lparr>lc := (lc w)\<lparr>lState := LifecycleStopping\<rparr>\<rparr>) of
                ((err, complete), w) \<Rightarrow>
                  (let terminal = strictTerminalStopError (lc w) in
                   if complete
                   then (terminal, w\<lparr>lc := (markStoppedLocked (lc w))\<lparr>lStopErr := terminal\<rparr>\<rparr>)
                   else (err, w\<lparr>lc := (lc w)\<lparr>lState := LifecycleStarted, lStopErr := None\<rparr>\<rparr>)))"
  by (auto simp: Stop_def stopStrict_def stopStrict_loop.simps)

text \<open>C24: A strict start that succeeds has called the initializer of every active component exactly once,
  in registration order, and leaves the lifecycle started.\<close>

theorem strict_start_in_order:
  assumes "lStrict (lc w)" and "lState (lc w) = LifecycleNew" and "Start w = (None, w')"
  shows "lState (lc w') = LifecycleStarted \<and>
    wTrace w' = wTrace w @ map (\<lambda>e. EvInit (eID e))
      (filter (\<lambda>e. eActive e \<and> cInitializer (eComponent e)) (lComponents (lc w))) \<and>
    (\<forall>e \<in> set (lComponents (lc w')). eActive e \<longrightarrow> eStarted e \<and> eStopState e = EntryPending)"
proof -
  let ?w = "w\<lparr>lc := (lc w)\<lparr>lState := LifecycleStarting, lStartRetryable := False\<rparr>\<rparr>"
  obtain r es w1 where s: "startEntries (lComponents (lc w)) ?w = ((r, es), w1)" by (metis prod.exhaust)
  have "rollbackStrictStart e x \<noteq> (None, w')" for e x
    by (auto simp: rollbackStrictStart_def Let_def split: prod.splits option.splits)
  then have r: "r = None" and w': "w' = w1\<lparr>lc := (lc w1)\<lparr>lComponents := es, lState := LifecycleStarted,
      lStartErr := None, lStartRetryable := False\<rparr>\<rparr>"
    using assms(3) s by (auto simp: startStrict_new [OF assms(1,2)] startStrictComponents_def Let_def
        split: option.splits)
  then have "es = map begun (lComponents (lc w))" "wTrace w1 = wTrace w @ inits (lComponents (lc w))"
    using startEntries_cases [OF s] by simp_all
  then show ?thesis using w' by (auto simp: inits_def begun_def beginEntry_def)
qed


definition lc_world :: "lifecycle \<Rightarrow> lworld" where
  "lc_world l = \<lparr>lc = l, wInits = [], wWaits = [], wCtx = [], wOthers = [], wTrace = []\<rparr>"

definition demo_lifecycle :: lifecycle where
  "demo_lifecycle = Add (Some (demo_component ''*x.B'' 2)) (Add (Some (demo_component ''*x.A'' 1))
     (newLifecycleWithMode True))"

definition demo_started :: lworld where
  "demo_started = snd (Start (lc_world demo_lifecycle))"

theorem strict_start_in_order_witness:
  "wTrace demo_started = [EvInit 0, EvInit 1] \<and> lState (lc demo_started) = LifecycleStarted"
proof -
  have s: "fst (Start (lc_world demo_lifecycle)) = None" by code_simp
  have c: "lStrict (lc (lc_world demo_lifecycle))" "lState (lc (lc_world demo_lifecycle)) = LifecycleNew"
      "map (\<lambda>e. EvInit (eID e)) (filter (\<lambda>e. eActive e \<and> cInitializer (eComponent e))
         (lComponents (lc (lc_world demo_lifecycle)))) = [EvInit 0, EvInit 1]"
      "wTrace (lc_world demo_lifecycle) = []"
    by code_simp+
  have "Start (lc_world demo_lifecycle) = (None, demo_started)"
    using s unfolding demo_started_def by (metis prod.collapse)
  from strict_start_in_order [OF c(1,2) this] c(3,4) show ?thesis by simp
qed


lemma startEntries_split:
  assumes "startEntries es w = ((Some err, es'), w')"
  obtains xs ys where "es = xs @ ys" "es' = map begun xs @ ys" "wTrace w' = wTrace w @ inits xs"
proof -
  obtain xs e ys where x: "es = xs @ e # ys" and "es' = map begun xs @ e # ys \<and> wTrace w' = wTrace w @ inits xs \<or>
      es' = map begun xs @ begun e # ys \<and> eActive e \<and> cInitializer (eComponent e) \<and>
      wTrace w' = wTrace w @ inits xs @ [EvInit (eID e)]"
    using startEntries_cases [OF assms] by auto
  then show thesis
  proof (elim disjE)
    assume "es' = map begun xs @ e # ys \<and> wTrace w' = wTrace w @ inits xs"
    then show thesis using that [of xs "e # ys"] x by simp
  next
    assume "es' = map begun xs @ begun e # ys \<and> eActive e \<and> cInitializer (eComponent e) \<and>
      wTrace w' = wTrace w @ inits xs @ [EvInit (eID e)]"
    then show thesis using that [of "xs @ [e]" ys] x by (simp add: inits_def)
  qed
qed

lemma shutdowns_none: "(\<And>e. e \<in> set ys \<Longrightarrow> \<not> eStarted e) \<Longrightarrow> shutdowns (rev ys @ xs) = shutdowns xs"
  by (simp add: shutdowns_def filter_empty_conv)

lemma frame_unstarted: "\<not> eStarted e \<Longrightarrow> frame (e\<lparr>eStarted := False\<rparr>) = frame e"
  by (simp add: frame_def)

lemma begun_frame: "\<not> eStarted e \<Longrightarrow> frame (begun e\<lparr>eStarted := False\<rparr>) = frame e"
  by (simp add: frame_def begun_def beginEntry_def)

lemma reset_ext:
  assumes "map frame es = map frame es'"
    and "\<And>e. e \<in> set es \<Longrightarrow> e = resetEntry e" and "\<And>e. e \<in> set es' \<Longrightarrow> e = resetEntry e"
  shows "es = es'"
proof (rule nth_equalityI)
  show len: "length es = length es'" using assms(1) by (rule map_eq_imp_length_eq)
  fix i assume i: "i < length es"
  have "frame (es ! i) = frame (es' ! i)" using arg_cong [OF assms(1), of "\<lambda>l. l ! i"] i len by simp
  then have "resetEntry (es ! i) = resetEntry (es' ! i)"
    by (cases "es ! i"; cases "es' ! i") (simp add: frame_def resetEntry_def)
  then show "es ! i = es' ! i" using assms(2,3) i len by (metis nth_mem)
qed

text \<open>Rounds of a stop beyond the second change nothing: the second waits for the attempt it started.\<close>

lemma stopRound_last: "eStopState e \<noteq> EntryStopping \<Longrightarrow> stopRound f here e w = stopRound g here e w"
  by (auto simp: stopRound_def Let_def split: prod.split option.split bool.split)

lemma stopRound_cong:
  assumes "\<And>e w. eStopState e = EntryRetryPending \<Longrightarrow> f False e w = g False e w"
  shows "stopRound f False e w = stopRound g False e w"
proof (cases "eStopState e = EntryStopping")
  case True
  obtain err dn k w2 where x: "waitLifecycleStopAttempt w = ((err, dn, k), w2)" by (metis prod.exhaust)
  show ?thesis
    using assms [of "e\<lparr>eStopAttempt := False, eStopState := EntryRetryPending\<rparr>"] True x
    by (cases dn; cases err) (auto simp: stopRound_def Let_def split: prod.split option.split)
qed (rule stopRound_last)

lemma stopRounds_enough: "stopRounds (n + 2) False = stopRounds 2 False"
proof -
  have "stopRound (stopRounds (Suc n)) False e w = stopRound (stopRounds (Suc 0)) False e w" for e w
    by (rule stopRound_cong) (simp, rule stopRound_last, simp)
  then show ?thesis unfolding add_2_eq_Suc' numeral_2_eq_2 stopRounds.simps(2) [of "Suc n"] stopRounds.simps(2) [of "Suc 0"]
    by (intro ext) simp
qed

definition demo_failing :: lworld where
  "demo_failing = (lc_world demo_lifecycle)\<lparr>wInits := [Returns None, Returns (Some (errorf ''boom''))]\<rparr>"

lemma rollback_started:
  assumes "rollbackStrictStart err w = (r, w')" and "\<forall>e \<in> set (lComponents (lc w)). eStarted e \<longrightarrow> untouched e"
  shows "\<exists>ids. wTrace w' = wTrace w @ map EvShutdown ids \<and>
      subseq ids (map eID (filter eStarted (rev (lComponents (lc w)))))"
    and "lState (lc w') = LifecycleNew \<Longrightarrow>
      wTrace w' = wTrace w @ shutdowns (rev (lComponents (lc w))) \<and>
      map frame (lComponents (lc w')) = map (\<lambda>e. frame (e\<lparr>eStarted := False\<rparr>)) (lComponents (lc w)) \<and>
      (\<forall>e \<in> set (lComponents (lc w')). e = resetEntry e) \<and> lStartRetryable (lc w') \<and>
      lStrict (lc w') = lStrict (lc w)"
proof -
  let ?w = "w\<lparr>lc := (lc w)\<lparr>lState := LifecycleStopping, lStartErr := Some err\<rparr>\<rparr>"
  obtain re complete w1 where s: "stopStrictEntries ?w = ((re, complete), w1)" by (metis prod.exhaust)
  note x = stopStrictEntries_exact [OF s]
  have tr: "wTrace w' = wTrace w1"
    using assms(1) s by (auto simp: rollbackStrictStart_def Let_def split: if_splits)
  have pe: "filter pending (rev (lComponents (lc w))) = filter eStarted (rev (lComponents (lc w)))"
    by (rule filter_cong) (use assms(2) in \<open>auto simp: pending_def untouched_def stopTerminal_def\<close>)
  show "\<exists>ids. wTrace w' = wTrace w @ map EvShutdown ids \<and>
      subseq ids (map eID (filter eStarted (rev (lComponents (lc w)))))"
    using x(3) pe tr by simp
  assume new: "lState (lc w') = LifecycleNew"
  have c: complete and lc': "lc w' = (resetStrictEntriesForRetryLocked (lc w1))\<lparr>lState := LifecycleNew,
      lStartRetryable := True, lStopErr := None\<rparr>"
    using assms(1) s new by (auto simp: rollbackStrictStart_def Let_def markStoppedLocked_def split: if_splits)
  have "map frame (lComponents (lc w')) = map (\<lambda>e. frame (e\<lparr>eStarted := False\<rparr>)) (lComponents (lc w1))"
    by (simp add: lc' resetStrictEntriesForRetryLocked_def resetEntry_def frame_def comp_def)
  also have "\<dots> = map (\<lambda>(i, c, g, a, p, s). (i, c, g, a, p, False)) (map frame (lComponents (lc w1)))"
    by (simp add: frame_def comp_def)
  also have "\<dots> = map (\<lambda>(i, c, g, a, p, s). (i, c, g, a, p, False)) (map frame (lComponents (lc w)))"
    using x(2) by simp
  also have "\<dots> = map (\<lambda>e. frame (e\<lparr>eStarted := False\<rparr>)) (lComponents (lc w))"
    by (simp add: frame_def comp_def)
  finally have fr: "map frame (lComponents (lc w')) = map (\<lambda>e. frame (e\<lparr>eStarted := False\<rparr>)) (lComponents (lc w))" .
  have "lStrict (lc w1) = lStrict (lc w)" using arg_cong [OF x(1), of lStrict] by simp
  then show "wTrace w' = wTrace w @ shutdowns (rev (lComponents (lc w))) \<and>
      map frame (lComponents (lc w')) = map (\<lambda>e. frame (e\<lparr>eStarted := False\<rparr>)) (lComponents (lc w)) \<and>
      (\<forall>e \<in> set (lComponents (lc w')). e = resetEntry e) \<and> lStartRetryable (lc w') \<and>
      lStrict (lc w') = lStrict (lc w)"
    using x(5) [OF c] assms(2) tr fr by (auto simp: lc' resetStrictEntriesForRetryLocked_def resetEntry_def)
qed



end
