(* ===== verification/BeanContainer.thy ===== *)
theory BeanContainer
  imports GoStrings Lifecycle Registry "HOL-Library.AList" "HOL-Library.List_Lexorder" "HOL-Library.Char_ord"
begin

text \<open>
  The bean container (\<open>pkg/bear/ioc.go\<close>): registration by type with the strict mode's duplicate check,
  atomic batches, removal, lookup and strict resolution. A \<open>reflect.Type\<close> is the string that identifies
  it, and what \<open>reflect\<close> tells about types is the parameter \<open>tenv\<close>. Go maps are association lists with
  distinct keys; the order of the list stands for the order a \<open>range\<close> happens to take. The receiver is
  a factory that is not nil.
\<close>

section \<open>Types and beans\<close>

datatype rkind = KStruct | KPtr | KInterface | KMap | KSlice | KFunc | KChan | KBasic

record sfield =
  sfName :: string
  sfType :: string
  sfPkgPath :: string
  sfInject :: "string option"
  sfValue :: "string option"

record tenv =
  tKind :: "string \<Rightarrow> rkind"
  tComparable :: "string \<Rightarrow> bool"
  tMethods :: "string \<Rightarrow> string list"
  tString :: "string \<Rightarrow> string"
  tPkgPath :: "string \<Rightarrow> string"
  tName :: "string \<Rightarrow> string"
  tElem :: "string \<Rightarrow> string"
  tFields :: "string \<Rightarrow> sfield list"

text \<open>\<open>t.Implements(i)\<close>: every method of the interface is a method of the type.\<close>

definition Implements :: "tenv \<Rightarrow> string \<Rightarrow> string \<Rightarrow> bool" where
  "Implements T t i \<longleftrightarrow> list_all (\<lambda>m. m \<in> set (tMethods T t)) (tMethods T i)"

text \<open>
  A bean: its dynamic type, its identity (the address of a reference, a code of the value
  otherwise), whether a reference is nil, its \<open>Name()\<close> when it has one, and the configuration map
  behind a \<open>*SysConfig\<close> (\<open>None\<close> for a nil map).
\<close>

record bean =
  bType :: string
  bIdent :: nat
  bNil :: bool
  bName :: "string option"
  bConfig :: "(string \<times> string) list option"

definition isNilBean :: "tenv \<Rightarrow> bean \<Rightarrow> bool" where
  "isNilBean T b \<longleftrightarrow>
     (case tKind T (bType b) of
        KChan \<Rightarrow> bNil b | KFunc \<Rightarrow> bNil b | KInterface \<Rightarrow> bNil b | KMap \<Rightarrow> bNil b
      | KPtr \<Rightarrow> bNil b | KSlice \<Rightarrow> bNil b | KStruct \<Rightarrow> False | KBasic \<Rightarrow> False)"

definition sameBeanInstance :: "tenv \<Rightarrow> bean \<Rightarrow> bean \<Rightarrow> bool" where
  "sameBeanInstance T left right \<longleftrightarrow>
     (if bType left \<noteq> bType right then False
      else if tComparable T (bType left) then bIdent left = bIdent right
      else (tKind T (bType left) = KMap \<or> tKind T (bType left) = KSlice) \<and> bIdent left = bIdent right)"

datatype bkind = ErrBeanMissing | ErrBeanAmbiguous | ErrBeanDuplicate | OfLifecycle lkind

type_synonym berr = "bkind goerr"

definition bean_missing :: "string \<Rightarrow> berr" where
  "bean_missing txt = sentinel ErrBeanMissing (''bean missing: '' @ txt)"

definition bean_ambiguous :: "string \<Rightarrow> berr" where
  "bean_ambiguous txt = sentinel ErrBeanAmbiguous (''bean ambiguous: '' @ txt)"

definition bean_duplicate :: "string \<Rightarrow> berr" where
  "bean_duplicate txt = sentinel ErrBeanDuplicate (''bean duplicate: '' @ txt)"

section \<open>The factory\<close>

text \<open>
  The callbacks tell the owner of the container (with a state of type \<open>'l\<close>) of a registration: the
  result is the owner's error, in which case the container's \<open>commit\<close> has not run, or none, in which
  case it has; \<open>None\<close> is a panic.
\<close>

type_synonym 'l told = "(berr option \<times> 'l) option"

record 'l factory =
  beans :: "(string \<times> bean) list"
  order :: "string list"
  concrete :: "(string \<times> bean) list"
  conflicts :: "string list"
  fstrict :: bool
  onSet :: "(string \<Rightarrow> bean \<Rightarrow> 'l \<Rightarrow> 'l told) option"
  onBatchSet :: "((string \<times> bean) list \<Rightarrow> 'l \<Rightarrow> 'l told) option"
  onRemove :: "(string \<Rightarrow> 'l \<Rightarrow> 'l told) option"

definition NewBeanFactory :: "'l factory" where
  "NewBeanFactory = \<lparr>beans = [], order = [], concrete = [], conflicts = [], fstrict = False,
     onSet = None, onBatchSet = None, onRemove = None\<rparr>"

type_synonym 'l outcome = "(berr option \<times> 'l factory \<times> 'l) option"

text \<open>Tell the owner, if there is one, and keep the committed factory \<open>f'\<close> unless the owner refuses.\<close>

definition committing :: "('l \<Rightarrow> 'l told) option \<Rightarrow> 'l factory \<Rightarrow> 'l factory \<Rightarrow> 'l \<Rightarrow> 'l outcome" where
  "committing tell f' f l =
     (case tell of
        None \<Rightarrow> Some (None, f', l)
      | Some h \<Rightarrow>
          (case h l of
             None \<Rightarrow> None
           | Some (None, l') \<Rightarrow> Some (None, f', l')
           | Some (Some e, l') \<Rightarrow> Some (Some e, f, l')))"

section \<open>Registration\<close>

definition clash :: "tenv \<Rightarrow> bean \<Rightarrow> 'l factory \<Rightarrow> bool" where
  "clash T b f \<longleftrightarrow>
     (case map_of (concrete f) (bType b) of None \<Rightarrow> False | Some p \<Rightarrow> \<not> sameBeanInstance T p b)"

definition commit_bean :: "tenv \<Rightarrow> string \<Rightarrow> bean \<Rightarrow> 'l factory \<Rightarrow> 'l factory" where
  "commit_bean T t b f = f\<lparr>
     order := (if map_of (beans f) t = None then order f @ [t] else order f),
     beans := AList.update t b (beans f),
     concrete := AList.update (bType b) b (concrete f),
     conflicts := (if clash T b f then List.insert (bType b) (conflicts f) else conflicts f)\<rparr>"

definition registerLocked :: "tenv \<Rightarrow> string \<Rightarrow> bean \<Rightarrow> bool \<Rightarrow> 'l factory \<Rightarrow> 'l \<Rightarrow> 'l outcome" where
  "registerLocked T t b enforceStrict f l =
     (if (case map_of (beans f) t of None \<Rightarrow> False | Some current \<Rightarrow> sameBeanInstance T current b)
      then Some (None, f, l)
      else if clash T b f \<and> enforceStrict \<and> fstrict f
      then Some (Some (bean_duplicate (''concrete bean type '' @ tString T (bType b))), f, l)
      else committing (case onSet f of None \<Rightarrow> None | Some h \<Rightarrow> Some (h t b)) (commit_bean T t b f) f l)"

definition Set :: "tenv \<Rightarrow> bean option \<Rightarrow> 'l factory \<Rightarrow> 'l \<Rightarrow> 'l outcome" where
  "Set T bean f l = (case bean of
     None \<Rightarrow> Some (None, f, l)
   | Some b \<Rightarrow> map_option (\<lambda>(_, fl). (None, fl)) (registerLocked T (bType b) b False f l))"

definition TrySet :: "tenv \<Rightarrow> bean option \<Rightarrow> 'l factory \<Rightarrow> 'l \<Rightarrow> 'l outcome" where
  "TrySet T bean f l = (case bean of
     None \<Rightarrow> Some (Some (errorf ''bean must not be nil''), f, l)
   | Some b \<Rightarrow> (if isNilBean T b then Some (Some (errorf ''bean must not be nil''), f, l)
               else registerLocked T (bType b) b True f l))"

text \<open>\<open>TrySetWithInterface\<close>: the first argument is a value of the type \<open>ip\<close>, or the nil interface.\<close>

definition TrySetWithInterface :: "tenv \<Rightarrow> string option \<Rightarrow> bean option \<Rightarrow> 'l factory \<Rightarrow> 'l \<Rightarrow> 'l outcome" where
  "TrySetWithInterface T ip bean f l =
     (case ip of
        None \<Rightarrow> Some (Some (errorf ''ifacePtr must be a pointer to an interface''), f, l)
      | Some p \<Rightarrow>
          (if tKind T p \<noteq> KPtr \<or> tKind T (tElem T p) \<noteq> KInterface
           then Some (Some (errorf ''ifacePtr must be a pointer to an interface''), f, l)
           else case bean of
             None \<Rightarrow> Some (Some (errorf ''bean must not be nil''), f, l)
           | Some b \<Rightarrow>
               (if isNilBean T b then Some (Some (errorf ''bean must not be nil''), f, l)
                else if \<not> Implements T (bType b) (tElem T p)
                then Some (Some (errorf (''bean type '' @ tString T (bType b) @ '' does not implement interface '' @
                       tString T (tElem T p))), f, l)
                else registerLocked T (tElem T p) b True f l)))"

definition SetWithInterface :: "tenv \<Rightarrow> string option \<Rightarrow> bean option \<Rightarrow> 'l factory \<Rightarrow> 'l \<Rightarrow> 'l outcome" where
  "SetWithInterface T ip bean f l = map_option (\<lambda>(_, fl). (None, fl)) (TrySetWithInterface T ip bean f l)"

section \<open>Batches\<close>

text \<open>The index of the first item that is nil.\<close>

fun nil_item :: "tenv \<Rightarrow> nat \<Rightarrow> bean option list \<Rightarrow> nat option" where
  "nil_item T i [] = None"
| "nil_item T i (b # bs) =
     (if (case b of None \<Rightarrow> True | Some x \<Rightarrow> isNilBean T x) then Some i else nil_item T (Suc i) bs)"

text \<open>The planning loop: the registrations to make, in order, or the duplicate.\<close>

fun plan_batch :: "tenv \<Rightarrow> bean list \<Rightarrow> (string \<times> bean) list \<Rightarrow> (string \<times> bean) list \<Rightarrow>
    berr + (string \<times> bean) list" where
  "plan_batch T [] planned plannedConcrete = Inr []"
| "plan_batch T (b # bs) planned plannedConcrete =
     (let t = bType b;
          dup = Inl (bean_duplicate (''concrete bean type '' @ tString T t)) in
      case map_of planned t of
        Some current \<Rightarrow>
          (if sameBeanInstance T current b then plan_batch T bs planned plannedConcrete else dup)
      | None \<Rightarrow>
          (if (case map_of plannedConcrete t of None \<Rightarrow> False | Some c \<Rightarrow> \<not> sameBeanInstance T c b) then dup
           else case plan_batch T bs (AList.update t b planned) (AList.update t b plannedConcrete) of
             Inl e \<Rightarrow> Inl e
           | Inr regs \<Rightarrow> Inr ((t, b) # regs)))"

definition commit_one :: "string \<times> bean \<Rightarrow> 'l factory \<Rightarrow> 'l factory" where
  "commit_one r f = f\<lparr>order := order f @ [fst r], beans := AList.update (fst r) (snd r) (beans f),
     concrete := AList.update (fst r) (snd r) (concrete f)\<rparr>"

definition commit_batch :: "(string \<times> bean) list \<Rightarrow> 'l factory \<Rightarrow> 'l factory" where
  "commit_batch regs f = fold commit_one regs f"

definition trySetBatchStrict :: "tenv \<Rightarrow> bean option list \<Rightarrow> 'l factory \<Rightarrow> 'l \<Rightarrow> 'l outcome" where
  "trySetBatchStrict T items f l =
     (case nil_item T 0 items of
        Some i \<Rightarrow> Some (Some (errorf (''strict bean batch item '' @ Itoa i @ '' must not be nil'')), f, l)
      | None \<Rightarrow>
          (case plan_batch T (List.map_filter id items) (beans f) (concrete f) of
             Inl e \<Rightarrow> Some (Some e, f, l)
           | Inr regs \<Rightarrow>
               (case onBatchSet f of
                  Some h \<Rightarrow> committing (Some (h regs)) (commit_batch regs f) f l
                | None \<Rightarrow>
                    (if onSet f \<noteq> None
                     then Some (Some (errorf ''strict batch registration requires an atomic lifecycle callback''), f, l)
                     else Some (None, commit_batch regs f, l)))))"

section \<open>Removal\<close>

definition index_step :: "tenv \<Rightarrow> (string \<times> bean) list \<Rightarrow> string \<Rightarrow>
    (string \<times> bean) list \<times> string list \<Rightarrow> (string \<times> bean) list \<times> string list" where
  "index_step T bs t acc =
     (case map_of bs t of
        None \<Rightarrow> acc
      | Some b \<Rightarrow>
          (AList.update (bType b) b (fst acc),
           if (case map_of (fst acc) (bType b) of None \<Rightarrow> False | Some c \<Rightarrow> \<not> sameBeanInstance T c b)
           then List.insert (bType b) (snd acc) else snd acc))"

definition rebuildConcreteIndexesLocked :: "tenv \<Rightarrow> 'l factory \<Rightarrow> 'l factory" where
  "rebuildConcreteIndexesLocked T f =
     (let acc = fold (index_step T (beans f)) (order f) ([], []) in
      f\<lparr>concrete := fst acc, conflicts := snd acc\<rparr>)"

definition TryRemove :: "tenv \<Rightarrow> string \<Rightarrow> 'l factory \<Rightarrow> 'l \<Rightarrow> 'l outcome" where
  "TryRemove T t f l =
     committing (case onRemove f of None \<Rightarrow> None | Some h \<Rightarrow> Some (h t))
       (rebuildConcreteIndexesLocked T (f\<lparr>beans := AList.delete t (beans f), order := remove1 t (order f)\<rparr>)) f l"

definition Remove :: "tenv \<Rightarrow> string \<Rightarrow> 'l factory \<Rightarrow> 'l \<Rightarrow> 'l outcome" where
  "Remove T t f l = map_option (\<lambda>(_, fl). (None, fl)) (TryRemove T t f l)"

section \<open>Lookup\<close>

definition implementing :: "tenv \<Rightarrow> 'l factory \<Rightarrow> string \<Rightarrow> string \<Rightarrow> bool" where
  "implementing T f t r \<longleftrightarrow>
     (case map_of (beans f) r of None \<Rightarrow> False | Some b \<Rightarrow> Implements T (bType b) t)"

definition Get :: "tenv \<Rightarrow> string \<Rightarrow> 'l factory \<Rightarrow> bean option" where
  "Get T t f =
     (case map_of (beans f) t of
        Some b \<Rightarrow> Some b
      | None \<Rightarrow>
          (if tKind T t = KInterface
           then (case List.find (implementing T f t) (order f) of None \<Rightarrow> None | Some r \<Rightarrow> map_of (beans f) r)
           else None))"

text \<open>\<open>Resolve[T]\<close>: the lookup followed by the assertion to \<open>T\<close>; \<open>None\<close> is the zero value.\<close>

definition asserts :: "tenv \<Rightarrow> string \<Rightarrow> bean \<Rightarrow> bool" where
  "asserts T t b \<longleftrightarrow> (if tKind T t = KInterface then Implements T (bType b) t else bType b = t)"

definition Resolve :: "tenv \<Rightarrow> string \<Rightarrow> 'l factory \<Rightarrow> bean option" where
  "Resolve T t f = (case Get T t f of None \<Rightarrow> None | Some b \<Rightarrow> if asserts T t b then Some b else None)"

definition candidate_step :: "tenv \<Rightarrow> string \<Rightarrow> string \<times> bean \<Rightarrow> (string \<times> bean) list \<Rightarrow> (string \<times> bean) list" where
  "candidate_step T t rb cands =
     (if tKind T (fst rb) = KInterface then cands
      else if Implements T (bType (snd rb)) t then AList.update (bType (snd rb)) (snd rb) cands
      else cands)"

definition resolveE :: "tenv \<Rightarrow> string \<Rightarrow> 'l factory \<Rightarrow> berr + bean" where
  "resolveE T t f =
     (case map_of (beans f) t of
        Some b \<Rightarrow> Inr b
      | None \<Rightarrow>
          (if tKind T t \<noteq> KInterface then Inl (bean_missing (''dependency '' @ tString T t))
           else case fold (candidate_step T t) (beans f) [] of
             [] \<Rightarrow> Inl (bean_missing (''dependency '' @ tString T t))
           | [c] \<Rightarrow> Inr (snd c)
           | cs \<Rightarrow> Inl (bean_ambiguous (''dependency '' @ tString T t @ '' has '' @ Itoa (length cs) @
                      '' implicit implementations''))))"

definition ResolveE :: "tenv \<Rightarrow> string \<Rightarrow> 'l factory \<Rightarrow> berr + bean" where
  "ResolveE T t f =
     (case resolveE T t f of
        Inl e \<Rightarrow> Inl e
      | Inr b \<Rightarrow> (if asserts T t b then Inr b else Inl (bean_missing (''dependency '' @ tString T t))))"

definition strictConflictError :: "tenv \<Rightarrow> 'l factory \<Rightarrow> berr option" where
  "strictConflictError T f =
     (if conflicts f = [] then None
      else Some (bean_duplicate (''concrete bean types '' @ JoinStr '', '' (sort (map (tString T) (conflicts f))))))"

definition GetBeanMapper :: "'l factory \<Rightarrow> (string \<times> bean) list" where
  "GetBeanMapper f = fold (\<lambda>kv m. AList.update (fst kv) (snd kv) m) (beans f) []"

definition ordered_step :: "tenv \<Rightarrow> (string \<times> bean) list \<Rightarrow> string \<Rightarrow> bean list \<Rightarrow> bean list" where
  "ordered_step T bs t acc =
     (case map_of bs t of
        None \<Rightarrow> acc
      | Some b \<Rightarrow> (if list_ex (\<lambda>x. sameBeanInstance T x b) acc then acc else acc @ [b]))"

definition orderedBeans :: "tenv \<Rightarrow> 'l factory \<Rightarrow> bean list" where
  "orderedBeans T f = fold (ordered_step T (beans f)) (order f) []"

section \<open>The container of a runtime\<close>

text \<open>
  \<open>newRuntime\<close> wires the container to its lifecycle: every registration and removal is a registration
  or removal of the bean as a component. The lifecycle asks for the framework's interfaces.
\<close>

definition component_of :: "tenv \<Rightarrow> bean \<Rightarrow> component" where
  "component_of T b =
     (let t = bType b; k = tKind T t in
      \<lparr>cType = t, cBeanName = (if Implements T t ''bear.Bean'' then bName b else None),
       cIdent = (if tComparable T t \<or> k = KChan \<or> k = KFunc \<or> k = KMap \<or> k = KPtr \<or> k = KSlice
                 then Some (bIdent b) else None),
       cInitializer = Implements T t ''bear.Initializer'',
       cShutdown = (if Implements T t ''bear.ContextShutdowner'' then ContextShutdowner
                    else if Implements T t ''bear.Shutdowner'' then Shutdowner else NoShutdown),
       cPrestarted = Implements T t ''bear.lifecyclePrestarted''\<rparr>)"

definition of_lifecycle :: "lresult \<Rightarrow> lifecycle told" where
  "of_lifecycle = map_option (\<lambda>(e, l). (map_option (map_goerr OfLifecycle) e, l))"

definition tell_set :: "tenv \<Rightarrow> string \<Rightarrow> bean \<Rightarrow> lifecycle \<Rightarrow> lifecycle told" where
  "tell_set T t b l = of_lifecycle (registerBean t (Some (component_of T b)) l)"

definition tell_batch :: "tenv \<Rightarrow> (string \<times> bean) list \<Rightarrow> lifecycle \<Rightarrow> lifecycle told" where
  "tell_batch T regs l = of_lifecycle (registerBeans (map (\<lambda>(t, b). (t, component_of T b)) regs) l)"

definition tell_remove :: "string \<Rightarrow> lifecycle \<Rightarrow> lifecycle told" where
  "tell_remove t l = of_lifecycle (Some (removeBean t l))"

definition runtimeContainer :: "tenv \<Rightarrow> bool \<Rightarrow> lifecycle factory \<times> lifecycle" where
  "runtimeContainer T strict =
     (NewBeanFactory\<lparr>fstrict := strict, onSet := Some (tell_set T), onBatchSet := Some (tell_batch T),
        onRemove := Some tell_remove\<rparr>, newLifecycleWithMode strict)"

end
