(* ===== verification/BeanInjection.thy ===== *)
theory BeanInjection
  imports BeanContainer
begin

text \<open>
  Dependency injection (the second half of \<open>pkg/bear/ioc.go\<close>): the registries of generated injectors and
  their lookup keys, the legacy \<open>Apply\<close> with its fallback to reflection, the strict \<open>ApplyE\<close>, and the
  values of the configuration. A target is the object behind an \<open>any\<close>: its dynamic type and, for a
  struct or a pointer to one, the values of the struct's fields.
\<close>

section \<open>Targets\<close>

datatype fval = FZero | FBean bean | FValue string string string | FOther

record target =
  gType :: string
  gNil :: bool
  gFields :: "fval list"

text \<open>A nil pointer in a field: the zero value, or a bean that is a nil reference.\<close>

definition isZero :: "fval \<Rightarrow> bool" where
  "isZero v \<longleftrightarrow> (case v of FZero \<Rightarrow> True | FBean b \<Rightarrow> bNil b | _ \<Rightarrow> False)"

definition structType :: "tenv \<Rightarrow> target \<Rightarrow> string" where
  "structType T g = (if tKind T (gType g) = KPtr then tElem T (gType g) else gType g)"

definition of_resolved :: "bean option \<Rightarrow> fval" where
  "of_resolved r = (case r of None \<Rightarrow> FZero | Some b \<Rightarrow> FBean b)"

text \<open>The fields of a struct of known type, by name.\<close>

fun field_named :: "sfield list \<Rightarrow> fval list \<Rightarrow> string \<Rightarrow> fval" where
  "field_named (d # ds) (v # vs) n = (if sfName d = n then v else field_named ds vs n)"
| "field_named _ _ n = FZero"

fun put_field :: "sfield list \<Rightarrow> fval list \<Rightarrow> string \<Rightarrow> fval \<Rightarrow> fval list" where
  "put_field (d # ds) (v # vs) n x = (if sfName d = n then x # vs else v # put_field ds vs n x)"
| "put_field _ vs n x = vs"

definition field_of :: "tenv \<Rightarrow> target \<Rightarrow> string \<Rightarrow> fval" where
  "field_of T g n = field_named (tFields T (structType T g)) (gFields g) n"

definition set_field :: "tenv \<Rightarrow> string \<Rightarrow> fval \<Rightarrow> target \<Rightarrow> target" where
  "set_field T n x g = g\<lparr>gFields := put_field (tFields T (structType T g)) (gFields g) n x\<rparr>"

section \<open>Generated injectors\<close>

record 'l injectors =
  staticInjectors :: "(string \<times> (target \<Rightarrow> target)) list"
  runtimeStaticInjectors :: "(string \<times> ('l factory \<Rightarrow> target \<Rightarrow> target)) list"
  runtimeStaticInjectorsE :: "(string \<times> ('l factory \<Rightarrow> target \<Rightarrow> berr option \<times> target)) list"

definition RegisterStaticInjector :: "string \<Rightarrow> (target \<Rightarrow> target) \<Rightarrow> 'l injectors \<Rightarrow> 'l injectors" where
  "RegisterStaticInjector name h I = I\<lparr>staticInjectors := AList.update name h (staticInjectors I)\<rparr>"

definition RegisterRuntimeStaticInjector ::
    "string \<Rightarrow> ('l factory \<Rightarrow> target \<Rightarrow> target) \<Rightarrow> 'l injectors \<Rightarrow> 'l injectors" where
  "RegisterRuntimeStaticInjector name h I =
     I\<lparr>runtimeStaticInjectors := AList.update name h (runtimeStaticInjectors I)\<rparr>"

definition RegisterRuntimeStaticInjectorE ::
    "string \<Rightarrow> ('l factory \<Rightarrow> target \<Rightarrow> berr option \<times> target) \<Rightarrow> 'l injectors \<Rightarrow> 'l injectors" where
  "RegisterRuntimeStaticInjectorE key h I =
     I\<lparr>runtimeStaticInjectorsE := AList.update key h (runtimeStaticInjectorsE I)\<rparr>"

text \<open>The loop through pointers, bounded by the length of the type's name: a pointer type is a star
  before its element.\<close>

fun strip_pointers :: "tenv \<Rightarrow> nat \<Rightarrow> string \<Rightarrow> string" where
  "strip_pointers T 0 t = t"
| "strip_pointers T (Suc n) t = (if tKind T t = KPtr then strip_pointers T n (tElem T t) else t)"

definition runtimeStaticInjectorKey :: "tenv \<Rightarrow> string \<Rightarrow> string" where
  "runtimeStaticInjectorKey T t =
     (let s = strip_pointers T (length t) t in tPkgPath T s @ CHR ''.'' # tName T s)"

definition staticInjectorLookupKeys :: "tenv \<Rightarrow> string \<Rightarrow> string list" where
  "staticInjectorLookupKeys T t =
     (let qualified = runtimeStaticInjectorKey T t in
      (if qualified \<noteq> [] then [qualified] else []) @ (if tName T t \<noteq> [] then [tName T t] else []))"

fun lookupInjector :: "string list \<Rightarrow> (string \<times> 'h) list \<Rightarrow> 'h option" where
  "lookupInjector [] m = None"
| "lookupInjector (k # ks) m = (case map_of m k of Some h \<Rightarrow> Some h | None \<Rightarrow> lookupInjector ks m)"

text \<open>The framework's own injectors (registered by \<open>init\<close>).\<close>

definition injectAuthTokenManager :: "tenv \<Rightarrow> 'l factory \<Rightarrow> target \<Rightarrow> target" where
  "injectAuthTokenManager T f g =
     (if gType g \<noteq> ''*bear.AuthTokenManager'' then g
      else let g = (if isZero (field_of T g ''JWTUtil'')
                    then set_field T ''JWTUtil'' (of_resolved (Resolve T ''*bear.JWTUtil'' f)) g else g) in
           if isZero (field_of T g ''Redis'')
           then set_field T ''Redis'' (of_resolved (Resolve T ''*bear.RedisAdapter'' f)) g else g)"

definition injectAuthFairing :: "tenv \<Rightarrow> 'l factory \<Rightarrow> target \<Rightarrow> target" where
  "injectAuthFairing T f g =
     (if gType g \<noteq> ''*bear.AuthFairing'' then g
      else let hasExplicitJWTUtil = (\<not> isZero (field_of T g ''JWTUtil''));
               g = (if isZero (field_of T g ''JWTUtil'') \<and> isZero (field_of T g ''TokenManager'')
                    then set_field T ''JWTUtil'' (of_resolved (Resolve T ''*bear.JWTUtil'' f)) g else g) in
           if isZero (field_of T g ''TokenManager'') \<and> \<not> hasExplicitJWTUtil
           then set_field T ''TokenManager'' (of_resolved (Resolve T ''*bear.AuthTokenManager'' f)) g else g)"

definition wrong_target :: "string \<Rightarrow> target \<Rightarrow> berr" where
  "wrong_target want g = errorf (''strict static injector received '' @ gType g @ '', want '' @ want)"

definition injectAuthTokenManagerE :: "tenv \<Rightarrow> 'l factory \<Rightarrow> target \<Rightarrow> berr option \<times> target" where
  "injectAuthTokenManagerE T f g =
     (if gType g \<noteq> ''*bear.AuthTokenManager'' then (Some (wrong_target ''*bear.AuthTokenManager'' g), g)
      else case ResolveE T ''*bear.JWTUtil'' f of
        Inl e \<Rightarrow> (Some (wrapf ''resolve JWT utility: '' e), g)
      | Inr jwt \<Rightarrow>
          (let g = (if isZero (field_of T g ''JWTUtil'') then set_field T ''JWTUtil'' (FBean jwt) g else g) in
           if isZero (field_of T g ''Redis'')
           then (case ResolveE T ''*bear.RedisAdapter'' f of
                   Inr redis \<Rightarrow> (None, set_field T ''Redis'' (FBean redis) g)
                 | Inl e \<Rightarrow> (if \<not> errors_is e ErrBeanMissing
                            then (Some (wrapf ''resolve optional Redis token revocation store: '' e), g)
                            else (None, g)))
           else (None, g)))"

definition injectAuthFairingE :: "tenv \<Rightarrow> 'l factory \<Rightarrow> target \<Rightarrow> berr option \<times> target" where
  "injectAuthFairingE T f g =
     (if gType g \<noteq> ''*bear.AuthFairing'' then (Some (wrong_target ''*bear.AuthFairing'' g), g)
      else let hasExplicitJWTUtil = (\<not> isZero (field_of T g ''JWTUtil'')) in
      case ResolveE T ''*bear.JWTUtil'' f of
        Inl e \<Rightarrow> (Some (wrapf ''resolve JWT utility: '' e), g)
      | Inr jwt \<Rightarrow>
          (let g = (if isZero (field_of T g ''JWTUtil'') \<and> isZero (field_of T g ''TokenManager'')
                    then set_field T ''JWTUtil'' (FBean jwt) g else g) in
           if isZero (field_of T g ''TokenManager'') \<and> \<not> hasExplicitJWTUtil
           then (case ResolveE T ''*bear.AuthTokenManager'' f of
                   Inr manager \<Rightarrow> (None, set_field T ''TokenManager'' (FBean manager) g)
                 | Inl e \<Rightarrow> (if \<not> errors_is e ErrBeanMissing
                            then (Some (wrapf ''resolve optional authentication token manager: '' e), g)
                            else (None, g)))
           else (None, g)))"

section \<open>Configuration values\<close>

definition valueParts :: "string \<Rightarrow> string \<times> string" where
  "valueParts valueTag =
     (let parts = Split (CHR ''.'') valueTag in
      if length parts = 1 then ([], valueTag) else (hd parts, Join (CHR ''.'') (tl parts)))"

definition fullKey :: "string \<Rightarrow> string" where
  "fullKey valueTag =
     (case valueParts valueTag of (pre, key) \<Rightarrow> if pre \<noteq> [] then pre @ CHR ''.'' # key else key)"

text \<open>\<open>injectValue\<close>: the new value of the field, \<open>None\<close> when setting it panics.\<close>

definition injectValue :: "'l factory \<Rightarrow> bool \<Rightarrow> string \<Rightarrow> fval \<Rightarrow> fval option" where
  "injectValue f settable valueTag v =
     (case map_of (beans f) ''bear.SysConfig'' of
        None \<Rightarrow> Some v
      | Some config \<Rightarrow>
          (if bType config \<noteq> ''*bear.SysConfig'' \<or> bNil config then Some v
           else case bConfig config of
             None \<Rightarrow> Some v
           | Some m \<Rightarrow>
               (case map_of m (fullKey valueTag) of
                  None \<Rightarrow> Some v
                | Some x \<Rightarrow> (if settable then Some (FValue (fst (valueParts valueTag)) (snd (valueParts valueTag)) x)
                            else None))))"

definition valueE :: "tenv \<Rightarrow> 'l factory \<Rightarrow> string \<Rightarrow> string \<Rightarrow> string \<Rightarrow> berr + fval" where
  "valueE T f owner fieldName valueTag =
     (let place = tString T owner @ CHR ''.'' # fieldName in
      if valueTag = [] then Inl (errorf (''strict Value injection field '' @ place @ '' has an empty value tag''))
      else case map_of (beans f) ''*bear.SysConfig'' of
        None \<Rightarrow> Inl (bean_missing (''configuration value '' @ fullKey valueTag @ '' for field '' @ place))
      | Some config \<Rightarrow>
          (if bType config \<noteq> ''*bear.SysConfig'' \<or> bNil config
           then Inl (errorf (''strict Value injection cannot read configuration for field '' @ place))
           else case bConfig config of
             None \<Rightarrow> Inl (errorf (''strict Value injection cannot read configuration for field '' @ place))
           | Some m \<Rightarrow>
               (case map_of m (fullKey valueTag) of
                  None \<Rightarrow> Inl (bean_missing (''configuration value '' @ fullKey valueTag @ '' for field '' @ place))
                | Some stored \<Rightarrow> Inr (FValue (fst (valueParts valueTag)) (snd (valueParts valueTag)) stored))))"

section \<open>Legacy injection\<close>

text \<open>The reflective loop; the fields it warns about are the second part of the result, \<open>None\<close> is the
  panic on a field that cannot be set. \<open>addressable\<close>: the target is a pointer.\<close>

fun apply_fields :: "tenv \<Rightarrow> 'l factory \<Rightarrow> bool \<Rightarrow> sfield list \<Rightarrow> fval list \<Rightarrow> (fval list \<times> string list) option" where
  "apply_fields T f addressable (d # ds) (v # vs) =
     (let settable = (addressable \<and> sfPkgPath d = []);
          continue = (\<lambda>v warned. case apply_fields T f addressable ds vs of
             None \<Rightarrow> None | Some (vs', ws) \<Rightarrow> Some (v # vs', warned @ ws)) in
      case (if sfType d = ''*bear.Value'' then sfValue d else None) of
        Some (c # cs) \<Rightarrow>
          (case injectValue f settable (c # cs) v of None \<Rightarrow> None | Some v' \<Rightarrow> continue v' [])
      | _ \<Rightarrow>
          (if sfInject d \<noteq> Some ''-'' \<and> sfInject d \<noteq> Some [] then continue v []
           else case Get T (sfType d) f of
             None \<Rightarrow> continue v [sfName d]
           | Some b \<Rightarrow> (if settable \<and> asserts T (sfType d) b then continue (FBean b) [] else None)))"
| "apply_fields T f addressable _ vs = Some (vs, [])"

text \<open>\<open>isDefault\<close>: the process-wide facade names this very factory.\<close>

definition Apply :: "tenv \<Rightarrow> 'l injectors \<Rightarrow> bool \<Rightarrow> 'l factory \<Rightarrow> target \<Rightarrow> (target \<times> string list) option" where
  "Apply T I isDefault f g =
     (let st = structType T g; addressable = (tKind T (gType g) = KPtr) in
      if addressable \<and> gNil g \<or> tKind T st \<noteq> KStruct then Some (g, [])
      else let keys = staticInjectorLookupKeys T st in
      case lookupInjector keys (runtimeStaticInjectors I) of
        Some h \<Rightarrow> Some (h f g, [])
      | None \<Rightarrow>
          (case (if isDefault then lookupInjector keys (staticInjectors I) else None) of
             Some h \<Rightarrow> Some (h g, [])
           | None \<Rightarrow>
               (case apply_fields T f addressable (tFields T st) (gFields g) of
                  None \<Rightarrow> None
                | Some (vs, ws) \<Rightarrow> Some (g\<lparr>gFields := vs\<rparr>, ws))))"

section \<open>Strict injection\<close>

text \<open>The loop of \<open>applyEReflect\<close>: the error that ends it, and the fields as it leaves them.\<close>

fun apply_fieldsE :: "tenv \<Rightarrow> 'l factory \<Rightarrow> string \<Rightarrow> sfield list \<Rightarrow> fval list \<Rightarrow> berr option \<times> fval list" where
  "apply_fieldsE T f st (d # ds) (v # vs) =
     (let place = tString T st @ CHR ''.'' # sfName d;
          typed = '' ('' @ tString T (sfType d) @ '')'';
          stop = (\<lambda>e. (Some e, v # vs));
          continue = (\<lambda>v. case apply_fieldsE T f st ds vs of (r, vs') \<Rightarrow> (r, v # vs')) in
      if sfInject d = None \<and> sfValue d = None then continue v
      else if sfPkgPath d \<noteq> [] then stop (errorf (''strict injection cannot set unexported field '' @ place @ typed))
      else case sfValue d of
        Some tag \<Rightarrow>
          (if sfType d \<noteq> ''*bear.Value''
           then stop (errorf (''strict Value injection field '' @ place @ '' must have type *bear.Value, got '' @
                  tString T (sfType d)))
           else case valueE T f st (sfName d) tag of Inl e \<Rightarrow> stop e | Inr x \<Rightarrow> continue x)
      | None \<Rightarrow>
          (case resolveE T (sfType d) f of
             Inl e \<Rightarrow> stop (wrapf (''strict injection field '' @ place @ typed @ '': '') e)
           | Inr b \<Rightarrow>
               (if asserts T (sfType d) b then continue (FBean b)
                else stop (bean_missing (''strict injection field '' @ place @ typed)))))"
| "apply_fieldsE T f st _ vs = (None, vs)"

definition ApplyE :: "tenv \<Rightarrow> 'l injectors \<Rightarrow> 'l factory \<Rightarrow> target \<Rightarrow> berr option \<times> target" where
  "ApplyE T I f g =
     (if tKind T (gType g) \<noteq> KPtr \<or> gNil g \<or> tKind T (tElem T (gType g)) \<noteq> KStruct
      then (Some (errorf (''strict injection requires a non-nil pointer to struct, got '' @ gType g)), g)
      else let st = tElem T (gType g) in
      case map_of (runtimeStaticInjectorsE I) (runtimeStaticInjectorKey T st) of
        Some h \<Rightarrow>
          (case h f g of
             (Some e, g') \<Rightarrow> (Some (wrapf (''strict static injection for '' @ tString T st @ '': '') e), g')
           | (None, g') \<Rightarrow> (None, g'))
      | None \<Rightarrow>
          (case apply_fieldsE T f st (tFields T st) (gFields g) of
             (r, vs) \<Rightarrow> (r, g\<lparr>gFields := vs\<rparr>)))"

text \<open>\<open>StaticApply\<close>: set a field by name if there is one that can be set; \<open>None\<close> is the panic on a value
  that is not assignable to it.\<close>

definition StaticApply :: "tenv \<Rightarrow> target \<Rightarrow> string \<Rightarrow> bean \<Rightarrow> target option" where
  "StaticApply T g fieldName b =
     (let addressable = (tKind T (gType g) = KPtr) in
      case List.find (\<lambda>d. sfName d = fieldName) (tFields T (structType T g)) of
        None \<Rightarrow> Some g
      | Some d \<Rightarrow>
          (if addressable \<and> sfPkgPath d = []
           then (if asserts T (sfType d) b then Some (set_field T fieldName (FBean b) g) else None)
           else Some g))"

end
