(* ===== verification/BeanContainerProps.thy ===== *)
theory BeanContainerProps
  imports BeanContainer LifecycleProps
begin

text \<open>
  The container's invariant under every sequence of calls, with any owner behind its callbacks; what
  strict resolution answers; and the agreement of a runtime's container with its lifecycle.
\<close>

section \<open>Association lists\<close>

lemma map_of_update [simp]: "map_of (AList.update k v m) j = (if j = k then Some v else map_of m j)"
  by (simp add: AList.update_conv)

lemma map_of_delete [simp]: "map_of (AList.delete k m) j = (if j = k then None else map_of m j)"
  by (simp add: AList.delete_conv)

lemma map_of_keys: "t \<in> fst ` set m \<longleftrightarrow> map_of m t \<noteq> None"
  by (simp add: map_of_eq_None_iff)

lemma delete_dom: "fst ` set (AList.delete k m) = fst ` set m - {k}"
  by (force simp: AList.delete_eq)

lemma restrict_dom: "(\<lambda>u. if u \<in> fst ` set m then map_of m u else None) = map_of m"
  by (auto simp: fun_eq_iff map_of_keys)

section \<open>Instances\<close>

lemma same_type: "sameBeanInstance T a b \<Longrightarrow> bType a = bType b"
  by (simp add: sameBeanInstance_def split: if_splits)

lemma same_sym: "sameBeanInstance T a b \<Longrightarrow> sameBeanInstance T b a"
  by (auto simp: sameBeanInstance_def split: if_splits)

lemma same_trans: "sameBeanInstance T a b \<Longrightarrow> sameBeanInstance T b c \<Longrightarrow> sameBeanInstance T a c"
  by (auto simp: sameBeanInstance_def split: if_splits)

section \<open>The invariant\<close>

text \<open>
  \<open>agrees\<close>: two registrations of one concrete type hold one instance, and the one that \<open>concrete\<close>
  has, unless the type is marked as conflicting.
\<close>

definition agrees :: "tenv \<Rightarrow> (string \<Rightarrow> bean option) \<Rightarrow> (string \<Rightarrow> bean option) \<Rightarrow> string set \<Rightarrow> bool" where
  "agrees T bs con conf \<longleftrightarrow>
     (\<forall>t b. bs t = Some b \<longrightarrow> (\<exists>p. con (bType b) = Some p \<and> (b = p \<or> sameBeanInstance T b p \<or> bType b \<in> conf))) \<and>
     (\<forall>t1 t2 b1 b2. t1 \<noteq> t2 \<longrightarrow> bs t1 = Some b1 \<longrightarrow> bs t2 = Some b2 \<longrightarrow> bType b1 = bType b2 \<longrightarrow>
        sameBeanInstance T b1 b2 \<or> bType b1 \<in> conf)"

definition container_ok :: "tenv \<Rightarrow> 'l factory \<Rightarrow> bool" where
  "container_ok T f \<longleftrightarrow> distinct (order f) \<and> distinct (map fst (beans f)) \<and> set (order f) = fst ` set (beans f) \<and>
     (\<forall>t b. map_of (beans f) t = Some b \<longrightarrow> tKind T (bType b) \<noteq> KInterface \<and>
        (t = bType b \<or> tKind T t = KInterface \<and> Implements T (bType b) t)) \<and>
     agrees T (map_of (beans f)) (map_of (concrete f)) (set (conflicts f))"

lemma container_okD:
  assumes "container_ok T f"
  shows "distinct (order f)" "distinct (map fst (beans f))" "set (order f) = fst ` set (beans f)"
    "agrees T (map_of (beans f)) (map_of (concrete f)) (set (conflicts f))"
    "map_of (beans f) t = Some b \<Longrightarrow> tKind T (bType b) \<noteq> KInterface"
    "map_of (beans f) t = Some b \<Longrightarrow> t = bType b \<or> tKind T t = KInterface \<and> Implements T (bType b) t"
proof -
  note c = assms [unfolded container_ok_def]
  show "distinct (order f)" using c by (elim conjE)
  show "distinct (map fst (beans f))" using c by (elim conjE)
  show "set (order f) = fst ` set (beans f)" using c by (elim conjE)
  show "agrees T (map_of (beans f)) (map_of (concrete f)) (set (conflicts f))" using c by (elim conjE)
  have a: "\<forall>t b. map_of (beans f) t = Some b \<longrightarrow> tKind T (bType b) \<noteq> KInterface \<and>
        (t = bType b \<or> tKind T t = KInterface \<and> Implements T (bType b) t)"
    using c by (elim conjE)
  show "tKind T (bType b) \<noteq> KInterface"
      "t = bType b \<or> tKind T t = KInterface \<and> Implements T (bType b) t" if "map_of (beans f) t = Some b"
    using a that by auto
qed

text \<open>Recording one more bean under a key, as every commit and the rebuilding loop do.\<close>

lemma agrees_step:
  assumes ag: "agrees T bs con conf"
    and conf': "(case con (bType b) of None \<Rightarrow> False | Some p \<Rightarrow> \<not> sameBeanInstance T p b) \<Longrightarrow> bType b \<in> conf'"
    and sub: "conf \<subseteq> conf'"
  shows "agrees T (bs(t \<mapsto> b)) (con(bType b \<mapsto> b)) conf'"
proof -
  note ag1 = conjunct1 [OF ag [unfolded agrees_def], rule_format]
    and ag2 = conjunct2 [OF ag [unfolded agrees_def], rule_format]
  have other: "sameBeanInstance T x b \<or> bType x \<in> conf'" if u: "bs u = Some x" and "bType x = bType b" for u x
  proof -
    obtain p where p: "con (bType x) = Some p" "x = p \<or> sameBeanInstance T x p \<or> bType x \<in> conf"
      using ag1 [OF u] by blast
    show ?thesis
    proof (cases "bType b \<in> conf'")
      case False
      then have "sameBeanInstance T p b" using conf' p(1) that(2) by auto
      then show ?thesis using p(2) sub same_trans [of T x p b] by auto
    qed (use that in simp)
  qed
  have one: "\<exists>p. (con(bType b \<mapsto> b)) (bType x) = Some p \<and> (x = p \<or> sameBeanInstance T x p \<or> bType x \<in> conf')"
    if "(bs(t \<mapsto> b)) u = Some x" for u x
  proof (cases "bType x = bType b")
    case True
    have "x = b \<or> sameBeanInstance T x b \<or> bType x \<in> conf'"
    proof (cases "u = t")
      case False
      then show ?thesis using that other [of u x] True by simp
    qed (use that in simp)
    then show ?thesis using True by simp
  next
    case False
    then have u: "bs u = Some x" using that by (auto split: if_splits)
    obtain p where "con (bType x) = Some p" "x = p \<or> sameBeanInstance T x p \<or> bType x \<in> conf"
      using ag1 [OF u] by blast
    then show ?thesis using sub False by auto
  qed
  have two: "sameBeanInstance T x y \<or> bType x \<in> conf'"
    if "u \<noteq> v" "(bs(t \<mapsto> b)) u = Some x" "(bs(t \<mapsto> b)) v = Some y" "bType x = bType y" for u v x y
  proof (cases "u = t \<or> v = t")
    case True
    then show ?thesis using that other [of u x] other [of v y] same_sym by (auto split: if_splits)
  next
    case False
    then have "bs u = Some x" "bs v = Some y" using that(2,3) by auto
    then have "sameBeanInstance T x y \<or> bType x \<in> conf" using ag2 that(1,4) by blast
    then show ?thesis using sub by blast
  qed
  show ?thesis unfolding agrees_def by (intro conjI allI impI one two; assumption)
qed

lemma commit_keys:
  assumes "container_ok T f"
  shows "distinct (if map_of (beans f) t = None then order f @ [t] else order f)"
    "set (if map_of (beans f) t = None then order f @ [t] else order f) = fst ` set (AList.update t b (beans f))"
  using container_okD(1,3) [OF assms] by (auto simp: AList.dom_update map_of_eq_None_iff)

lemma commit_bean_ok:
  assumes "container_ok T f" and "tKind T (bType b) \<noteq> KInterface"
    and "t = bType b \<or> tKind T t = KInterface \<and> Implements T (bType b) t"
  shows "container_ok T (commit_bean T t b f)"
proof -
  have "agrees T ((map_of (beans f))(t \<mapsto> b)) ((map_of (concrete f))(bType b \<mapsto> b))
      (set (if clash T b f then List.insert (bType b) (conflicts f) else conflicts f))"
    using container_okD(4) [OF assms(1)] by (rule agrees_step) (auto simp: clash_def)
  then show ?thesis
    using commit_keys [OF assms(1), of t] container_okD [OF assms(1)] assms(2,3)
    by (simp add: container_ok_def commit_bean_def AList.distinct_update AList.update_conv')
qed

lemma commit_one_ok:
  assumes "container_ok T f" and "tKind T (bType b) \<noteq> KInterface" and "map_of (beans f) (bType b) = None"
    and "(case map_of (concrete f) (bType b) of None \<Rightarrow> False | Some p \<Rightarrow> \<not> sameBeanInstance T p b) = False"
  shows "container_ok T (commit_one (bType b, b) f)"
proof -
  have "commit_one (bType b, b) f = commit_bean T (bType b) b f"
    using assms(3,4) by (simp add: commit_one_def commit_bean_def clash_def)
  then show ?thesis using commit_bean_ok [OF assms(1,2)] by simp
qed

lemma commit_batch_simps [simp]:
  "commit_batch [] f = f" "commit_batch (r # rs) f = commit_batch rs (commit_one r f)"
  by (simp_all add: commit_batch_def)

lemma plan_batch_ok:
  assumes "plan_batch T bs (beans f) (concrete f) = Inr regs" and "container_ok T f"
    and "\<forall>b \<in> set bs. tKind T (bType b) \<noteq> KInterface"
  shows "container_ok T (commit_batch regs f) \<and> conflicts (commit_batch regs f) = conflicts f"
  using assms
proof (induction bs arbitrary: f regs)
  case (Cons b bs)
  let ?clash = "case map_of (concrete f) (bType b) of None \<Rightarrow> False | Some c \<Rightarrow> \<not> sameBeanInstance T c b"
  show ?case
  proof (cases "map_of (beans f) (bType b)")
    case (Some cur)
    then have "plan_batch T bs (beans f) (concrete f) = Inr regs"
      using Cons.prems(1) by (auto simp: Let_def split: if_splits)
    then show ?thesis using Cons.IH Cons.prems by simp
  next
    case None
    then have cl: "?clash = False" and "plan_batch T (b # bs) (beans f) (concrete f) =
        (case plan_batch T bs (beans (commit_one (bType b, b) f)) (concrete (commit_one (bType b, b) f)) of
           Inl e \<Rightarrow> Inl e | Inr regs \<Rightarrow> Inr ((bType b, b) # regs))"
      using Cons.prems(1) by (auto simp: Let_def commit_one_def split: if_splits)
    then obtain regs' where r: "regs = (bType b, b) # regs'"
        "plan_batch T bs (beans (commit_one (bType b, b) f)) (concrete (commit_one (bType b, b) f)) = Inr regs'"
      using Cons.prems(1) by (auto split: sum.splits)
    have "container_ok T (commit_one (bType b, b) f)"
      using commit_one_ok [OF Cons.prems(2) _ None cl] Cons.prems(3) by simp
    then show ?thesis using Cons.IH [OF r(2)] Cons.prems(3) r(1) by (simp add: commit_one_def)
  qed
qed simp

text \<open>The rebuilding loop over a prefix of the order.\<close>

lemma index_step_loop:
  assumes "distinct ts"
    and "agrees T (\<lambda>t. if t \<in> S then bs t else None) (map_of con) (set conf)" and "S \<inter> set ts = {}"
    and "map_of m = bs"
    and "\<And>ct c. map_of con ct = Some c \<Longrightarrow> \<exists>u \<in> S. bs u = Some c \<and> bType c = ct"
  shows "case fold (index_step T m) ts (con, conf) of (con', conf') \<Rightarrow>
    agrees T (\<lambda>t. if t \<in> S \<union> set ts then bs t else None) (map_of con') (set conf') \<and>
    ((\<forall>t1 t2 b1 b2. t1 \<noteq> t2 \<longrightarrow> bs t1 = Some b1 \<longrightarrow> bs t2 = Some b2 \<longrightarrow> bType b1 = bType b2 \<longrightarrow>
       sameBeanInstance T b1 b2) \<longrightarrow> conf' = conf)"
  using assms
proof (induction ts arbitrary: con conf S)
  case (Cons t ts)
  show ?case
  proof (cases "bs t")
    case None
    have "(\<lambda>u. if u \<in> insert t S then bs u else None) = (\<lambda>u. if u \<in> S then bs u else None)"
      using None by auto
    moreover have "index_step T m t (con, conf) = (con, conf)" using None Cons.prems(4) by (simp add: index_step_def)
    ultimately show ?thesis
      using Cons.IH [of "insert t S" con conf] Cons.prems by (simp add: insert_commute)
  next
    case (Some b)
    let ?cl = "case map_of con (bType b) of None \<Rightarrow> False | Some c \<Rightarrow> \<not> sameBeanInstance T c b"
    define conf1 where "conf1 = (if ?cl then List.insert (bType b) conf else conf)"
    have step: "index_step T m t (con, conf) = (AList.update (bType b) b con, conf1)"
      using Some Cons.prems(4) by (simp add: index_step_def conf1_def)
    have eq: "(\<lambda>u. if u \<in> insert t S then bs u else None) = (\<lambda>u. if u \<in> S then bs u else None)(t \<mapsto> b)"
      using Some by auto
    have "agrees T ((\<lambda>u. if u \<in> S then bs u else None)(t \<mapsto> b)) ((map_of con)(bType b \<mapsto> b)) (set conf1)"
      using Cons.prems(2) by (rule agrees_step) (auto simp: conf1_def)
    then have ag: "agrees T (\<lambda>u. if u \<in> insert t S then bs u else None) (map_of (AList.update (bType b) b con)) (set conf1)"
      by (simp only: eq AList.update_conv')
    have src: "\<exists>u \<in> insert t S. bs u = Some c \<and> bType c = ct"
      if "map_of (AList.update (bType b) b con) ct = Some c" for ct c
      using that Cons.prems(5) Some by (auto split: if_splits)
    have "conf1 = conf" if all: "\<forall>t1 t2 b1 b2. t1 \<noteq> t2 \<longrightarrow> bs t1 = Some b1 \<longrightarrow> bs t2 = Some b2 \<longrightarrow>
        bType b1 = bType b2 \<longrightarrow> sameBeanInstance T b1 b2"
    proof -
      have "sameBeanInstance T c b" if c: "map_of con (bType b) = Some c" for c
      proof -
        obtain u where u: "u \<in> S" "bs u = Some c" "bType c = bType b" using Cons.prems(5) [OF c] by blast
        then have "u \<noteq> t" using Cons.prems(3) by auto
        then show ?thesis using all u Some by blast
      qed
      then show ?thesis by (auto simp: conf1_def split: option.split)
    qed
    moreover have "case fold (index_step T m) ts (AList.update (bType b) b con, conf1) of (con', conf') \<Rightarrow>
        agrees T (\<lambda>u. if u \<in> insert t S \<union> set ts then bs u else None) (map_of con') (set conf') \<and>
        ((\<forall>t1 t2 b1 b2. t1 \<noteq> t2 \<longrightarrow> bs t1 = Some b1 \<longrightarrow> bs t2 = Some b2 \<longrightarrow> bType b1 = bType b2 \<longrightarrow>
           sameBeanInstance T b1 b2) \<longrightarrow> conf' = conf1)"
      using Cons.prems by (intro Cons.IH ag src) auto
    ultimately show ?thesis by (simp add: step)
  qed
qed simp

text \<open>The factory after a removal.\<close>

definition removed :: "tenv \<Rightarrow> string \<Rightarrow> 'l factory \<Rightarrow> 'l factory" where
  "removed T t f = rebuildConcreteIndexesLocked T (f\<lparr>beans := AList.delete t (beans f), order := remove1 t (order f)\<rparr>)"

definition one_instance :: "tenv \<Rightarrow> 'l factory \<Rightarrow> bool" where
  "one_instance T f \<longleftrightarrow> (\<forall>t1 t2 b1 b2. t1 \<noteq> t2 \<longrightarrow> map_of (beans f) t1 = Some b1 \<longrightarrow> map_of (beans f) t2 = Some b2 \<longrightarrow>
     bType b1 = bType b2 \<longrightarrow> sameBeanInstance T b1 b2)"

lemma one_instance: "container_ok T f \<Longrightarrow> conflicts f = [] \<Longrightarrow> one_instance T f"
  using container_okD(4) [of T f] unfolding one_instance_def agrees_def by auto

lemma removed_ok:
  assumes "container_ok T f"
  shows "container_ok T (removed T t f)" "conflicts f = [] \<Longrightarrow> conflicts (removed T t f) = []"
    "map_of (beans (removed T t f)) = (map_of (beans f))(t := None)"
proof -
  let ?m = "AList.delete t (beans f)" and ?ts = "remove1 t (order f)"
  note ok = container_okD [OF assms]
  obtain con' conf' where r: "fold (index_step T ?m) ?ts ([], []) = (con', conf')" by fastforce
  have dom: "set ?ts = fst ` set ?m"
    using ok(1,3) by (simp add: delete_dom)
  have "agrees T (\<lambda>u. if u \<in> {} then map_of ?m u else None) (map_of []) (set [])"
    by (simp add: agrees_def)
  from index_step_loop [OF _ this _ refl, of ?ts] ok(1) r
  have x: "agrees T (\<lambda>u. if u \<in> set ?ts then map_of ?m u else None) (map_of con') (set conf')"
      "(\<forall>t1 t2 b1 b2. t1 \<noteq> t2 \<longrightarrow> map_of ?m t1 = Some b1 \<longrightarrow> map_of ?m t2 = Some b2 \<longrightarrow>
         bType b1 = bType b2 \<longrightarrow> sameBeanInstance T b1 b2) \<Longrightarrow> conf' = []"
    by (simp_all del: set_remove1_eq)
  have "(\<lambda>u. if u \<in> set ?ts then map_of ?m u else None) = map_of ?m"
    unfolding dom by (rule restrict_dom)
  then have ag: "agrees T (map_of ?m) (map_of con') (set conf')" using x(1) by simp
  have f': "removed T t f = f\<lparr>beans := ?m, order := ?ts, concrete := con', conflicts := conf'\<rparr>"
    using r by (simp add: removed_def rebuildConcreteIndexesLocked_def)
  show "map_of (beans (removed T t f)) = (map_of (beans f))(t := None)"
    by (simp add: f' AList.delete_conv')
  show "container_ok T (removed T t f)"
    unfolding container_ok_def f'
    using ok(1) dom ag ok(5,6) by (auto simp: AList.distinct_delete [OF ok(2)] split: if_splits)
  show "conflicts (removed T t f) = []" if "conflicts f = []"
    using x(2) one_instance [OF assms that] by (auto simp: f' one_instance_def)
qed

section \<open>Calls\<close>

text \<open>The calls on a container, and what its owner does in between.\<close>

datatype 'l container_call = CSet "bean option" | CTrySet "bean option"
  | CTrySetWithInterface "string option" "bean option" | CBatch "bean option list" | CRemove string
  | COwner "'l \<Rightarrow> 'l"

fun run_call :: "tenv \<Rightarrow> 'l container_call \<Rightarrow> 'l factory \<Rightarrow> 'l \<Rightarrow> 'l outcome" where
  "run_call T (CSet b) f l = Set T b f l"
| "run_call T (CTrySet b) f l = TrySet T b f l"
| "run_call T (CTrySetWithInterface ip b) f l = TrySetWithInterface T ip b f l"
| "run_call T (CBatch bs) f l = trySetBatchStrict T bs f l"
| "run_call T (CRemove t) f l = TryRemove T t f l"
| "run_call T (COwner g) f l = Some (None, f, g l)"

fun run_calls :: "tenv \<Rightarrow> 'l container_call list \<Rightarrow> 'l factory \<Rightarrow> 'l \<Rightarrow> ('l factory \<times> 'l) option" where
  "run_calls T [] f l = Some (f, l)"
| "run_calls T (c # cs) f l =
     (case run_call T c f l of None \<Rightarrow> None | Some (_, f', l') \<Rightarrow> run_calls T cs f' l')"

fun call_beans :: "'l container_call \<Rightarrow> bean list" where
  "call_beans (CSet b) = List.map_filter id [b]"
| "call_beans (CTrySet b) = List.map_filter id [b]"
| "call_beans (CTrySetWithInterface ip b) = List.map_filter id [b]"
| "call_beans (CBatch bs) = List.map_filter id bs"
| "call_beans (CRemove t) = []"
| "call_beans (COwner g) = []"

text \<open>The dynamic type of a value is never an interface type.\<close>

definition call_proper :: "tenv \<Rightarrow> 'l container_call \<Rightarrow> bool" where
  "call_proper T c \<longleftrightarrow> list_all (\<lambda>b. tKind T (bType b) \<noteq> KInterface) (call_beans c)"

lemma committing_cases:
  assumes "committing tell f' f l = Some (e, f1, l')"
  shows "f1 = f \<and> e \<noteq> None \<and> (\<exists>h. tell = Some h \<and> h l = Some (e, l')) \<or>
    f1 = f' \<and> e = None \<and> (tell = None \<and> l' = l \<or> (\<exists>h. tell = Some h \<and> h l = Some (None, l')))"
  using assms by (auto simp: committing_def split: option.splits)

text \<open>What one call does to the factory: nothing, one commit, a batch of commits, or a removal.\<close>

lemma registerLocked_cases:
  assumes "registerLocked T t b enf f l = Some (e, f', l')"
  obtains "f' = f" "l' = l" "e = None"
  | "f' = f" "e \<noteq> None" "l' = l \<or> (\<exists>h. onSet f = Some h \<and> h t b l = Some (e, l'))"
  | "f' = commit_bean T t b f" "e = None" "\<not> (clash T b f \<and> enf \<and> fstrict f)"
    "onSet f = None \<and> l' = l \<or> (\<exists>h. onSet f = Some h \<and> h t b l = Some (None, l'))"
proof -
  consider "f' = f" "l' = l" "e = None" | "f' = f" "l' = l" "e \<noteq> None"
    | "\<not> (clash T b f \<and> enf \<and> fstrict f)"
      "committing (case onSet f of None \<Rightarrow> None | Some h \<Rightarrow> Some (h t b)) (commit_bean T t b f) f l = Some (e, f', l')"
    using assms unfolding registerLocked_def by (fastforce split: if_splits)
  then show thesis
  proof cases
    case 3
    show thesis
      using committing_cases [OF 3(2)] 3(1) that(2,3) by (cases "onSet f") auto
  qed (use that in auto)
qed

definition hooks :: "'l factory \<Rightarrow> _" where
  "hooks f = (fstrict f, onSet f, onBatchSet f, onRemove f)"

lemma hooks_keep [simp]:
  "hooks (commit_bean T t b f) = hooks f" "hooks (commit_one r f) = hooks f" "hooks (removed T t f) = hooks f"
  by (simp_all add: hooks_def commit_bean_def commit_one_def removed_def rebuildConcreteIndexesLocked_def Let_def)

lemma hooks_batch [simp]: "hooks (commit_batch regs f) = hooks f"
  by (induction regs arbitrary: f) simp_all

text \<open>The owner has refused: it may have changed its own state, not the container's.\<close>

definition refused :: "'l factory \<Rightarrow> 'l \<Rightarrow> 'l \<Rightarrow> bool" where
  "refused f l l' \<longleftrightarrow> (\<exists>h t b e. onSet f = Some h \<and> h t b l = Some (Some e, l')) \<or>
     (\<exists>h regs e. onBatchSet f = Some h \<and> h regs l = Some (Some e, l')) \<or>
     (\<exists>h t e. onRemove f = Some h \<and> h t l = Some (Some e, l'))"

text \<open>The steps of a container: what a call can do to the factory and its owner.\<close>

inductive container_step :: "tenv \<Rightarrow> bool \<Rightarrow> 'l factory \<Rightarrow> 'l \<Rightarrow> 'l factory \<Rightarrow> 'l \<Rightarrow> bool" for T :: tenv and lax :: bool where
  same: "l' = l \<or> refused f l l' \<Longrightarrow> container_step T lax f l f l'"
| commit: "tKind T (bType b) \<noteq> KInterface \<Longrightarrow>
    t = bType b \<or> tKind T t = KInterface \<and> Implements T (bType b) t \<Longrightarrow>
    \<not> (clash T b f \<and> fstrict f) \<or> lax \<Longrightarrow>
    (onSet f = None \<and> l' = l \<or> (\<exists>h. onSet f = Some h \<and> h t b l = Some (None, l'))) \<Longrightarrow>
    container_step T lax f l (commit_bean T t b f) l'"
| batch: "plan_batch T bs (beans f) (concrete f) = Inr regs \<Longrightarrow>
    \<forall>b \<in> set bs. tKind T (bType b) \<noteq> KInterface \<Longrightarrow>
    (onBatchSet f = None \<and> l' = l \<or> (\<exists>h. onBatchSet f = Some h \<and> h regs l = Some (None, l'))) \<Longrightarrow>
    container_step T lax f l (commit_batch regs f) l'"
| remove: "(onRemove f = None \<and> l' = l \<or> (\<exists>h. onRemove f = Some h \<and> h t l = Some (None, l'))) \<Longrightarrow>
    container_step T lax f l (removed T t f) l'"

lemma registerLocked_step:
  assumes "registerLocked T t b enf f l = Some (e, f', l')" and "tKind T (bType b) \<noteq> KInterface"
    and "t = bType b \<or> tKind T t = KInterface \<and> Implements T (bType b) t" and "enf \<or> lax"
  shows "container_step T lax f l f' l'"
  using assms(1)
proof (cases rule: registerLocked_cases)
  case 2
  then have "l' = l \<or> refused f l l'" unfolding refused_def by auto
  then show ?thesis using 2(1) by (simp add: container_step.same)
next
  case 3
  have "\<not> (clash T b f \<and> fstrict f) \<or> lax" using 3(3) assms(4) by auto
  then show ?thesis unfolding 3(1) by (rule container_step.commit [OF assms(2,3) _ 3(4)])
qed (simp add: container_step.same)

lemma proper_items:
  "list_all (\<lambda>b. tKind T (bType b) \<noteq> KInterface) (List.map_filter id bs) \<Longrightarrow>
   \<forall>b \<in> set (List.map_filter id bs). tKind T (bType b) \<noteq> KInterface"
  by (simp add: list_all_iff)

lemma map_outcome: "map_option (\<lambda>(_, fl). (None, fl)) r = Some (e, f, l) \<Longrightarrow> \<exists>e'. r = Some (e', f, l)"
  by auto

lemma TrySetWithInterface_step:
  assumes "TrySetWithInterface T ip bean f l = Some (e, f', l')"
    and "\<And>b. bean = Some b \<Longrightarrow> tKind T (bType b) \<noteq> KInterface"
  shows "container_step T lax f l f' l'"
proof (cases "f' = f \<and> l' = l")
  case False
  then obtain p b where "ip = Some p" "bean = Some b" "tKind T (tElem T p) = KInterface"
      "Implements T (bType b) (tElem T p)" "registerLocked T (tElem T p) b True f l = Some (e, f', l')"
    using assms(1) by (auto simp: TrySetWithInterface_def split: option.splits if_splits)
  then show ?thesis using assms(2) by (intro registerLocked_step) auto
qed (simp add: container_step.same)

lemma TrySet_step:
  assumes "TrySet T bean f l = Some (e, f', l')" and "\<And>b. bean = Some b \<Longrightarrow> tKind T (bType b) \<noteq> KInterface"
  shows "container_step T lax f l f' l'"
proof (cases "f' = f \<and> l' = l")
  case False
  then obtain b where "bean = Some b" "registerLocked T (bType b) b True f l = Some (e, f', l')"
    using assms(1) by (auto simp: TrySet_def split: option.splits if_splits)
  then show ?thesis using assms(2) by (intro registerLocked_step) auto
qed (simp add: container_step.same)

lemma Set_step:
  assumes "Set T bean f l = Some (e, f', l')" and "\<And>b. bean = Some b \<Longrightarrow> tKind T (bType b) \<noteq> KInterface"
  shows "container_step T True f l f' l'"
proof (cases bean)
  case (Some b)
  then obtain e' where "registerLocked T (bType b) b False f l = Some (e', f', l')"
    using assms(1) map_outcome by (fastforce simp: Set_def)
  then show ?thesis using assms(2) Some by (intro registerLocked_step) auto
qed (use assms in \<open>simp add: Set_def container_step.same\<close>)

lemma batch_step:
  assumes "trySetBatchStrict T items f l = Some (e, f', l')"
    and "\<forall>b \<in> set (List.map_filter id items). tKind T (bType b) \<noteq> KInterface"
  shows "container_step T lax f l f' l'"
proof (cases "f' = f \<and> l' = l")
  case False
  then obtain regs where p: "plan_batch T (List.map_filter id items) (beans f) (concrete f) = Inr regs"
      and r: "(case onBatchSet f of Some h \<Rightarrow> committing (Some (h regs)) (commit_batch regs f) f l
                | None \<Rightarrow> Some (None, commit_batch regs f, l)) = Some (e, f', l')"
    using assms(1) by (auto simp: trySetBatchStrict_def split: option.splits sum.splits if_splits)
  show ?thesis
  proof (cases "onBatchSet f")
    case None
    then show ?thesis using container_step.batch [OF p assms(2)] r by auto
  next
    case (Some h)
    then have "committing (Some (h regs)) (commit_batch regs f) f l = Some (e, f', l')" using r by simp
    from committing_cases [OF this] show ?thesis
    proof (elim disjE conjE exE)
      fix h' assume "f' = f" "e \<noteq> None" "Some (h regs) = Some h'" "h' l = Some (e, l')"
      then have "refused f l l'" using Some unfolding refused_def by auto
      then show ?thesis using \<open>f' = f\<close> by (simp add: container_step.same)
    qed (use Some container_step.batch [OF p assms(2)] in auto)
  qed
qed (simp add: container_step.same)

lemma TryRemove_step:
  assumes "TryRemove T t f l = Some (e, f', l')"
  shows "container_step T lax f l f' l'"
proof -
  have "committing (case onRemove f of None \<Rightarrow> None | Some h \<Rightarrow> Some (h t)) (removed T t f) f l = Some (e, f', l')"
    using assms by (simp add: TryRemove_def removed_def)
  from committing_cases [OF this] show ?thesis
  proof (elim disjE conjE exE)
    fix h' assume "f' = f" "e \<noteq> None" "(case onRemove f of None \<Rightarrow> None | Some h \<Rightarrow> Some (h t)) = Some h'" "h' l = Some (e, l')"
    then have "refused f l l'" unfolding refused_def by (auto split: option.splits)
    then show ?thesis using \<open>f' = f\<close> by (simp add: container_step.same)
  qed (auto split: option.splits intro: container_step.remove)
qed

lemma run_call_step:
  assumes "run_call T c f l = Some (e, f', l')" and "call_proper T c" and "\<And>b. c = CSet b \<Longrightarrow> lax"
  shows "container_step T lax f l f' l' \<or> (\<exists>g. c = COwner g \<and> f' = f \<and> l' = g l)"
proof (cases c)
  case (CSet b)
  then show ?thesis using Set_step [of T b f l e f' l'] assms
    by (cases b) (auto simp: call_proper_def List.map_filter_simps)
next
  case (CTrySet b)
  then show ?thesis using TrySet_step [of T b f l e f' l' lax] assms
    by (cases b) (auto simp: call_proper_def List.map_filter_simps)
next
  case (CTrySetWithInterface ip b)
  then show ?thesis using TrySetWithInterface_step [of T ip b f l e f' l' lax] assms
    by (cases b) (auto simp: call_proper_def List.map_filter_simps)
next
  case (CBatch items)
  then show ?thesis using batch_step [of T items f l e f' l' lax] assms proper_items by (auto simp: call_proper_def)
next
  case (CRemove t)
  then show ?thesis using TryRemove_step [of T t f l e f' l' lax] assms by auto
next
  case (COwner g)
  then show ?thesis using assms by simp
qed

lemma container_step_ok:
  assumes "container_step T lax f l f' l'" and "container_ok T f"
  shows "container_ok T f'" "hooks f' = hooks f" "fstrict f \<Longrightarrow> \<not> lax \<Longrightarrow> conflicts f = [] \<Longrightarrow> conflicts f' = []"
proof -
  show "container_ok T f'"
    using assms by cases (simp_all add: commit_bean_ok plan_batch_ok removed_ok)
  show "hooks f' = hooks f"
    using assms by cases simp_all
  show "conflicts f' = []" if "fstrict f" "\<not> lax" "conflicts f = []"
    using assms that by cases (simp_all add: plan_batch_ok removed_ok commit_bean_def)
qed

lemma run_calls_ok:
  assumes "run_calls T cs f l = Some (f', l')" and "container_ok T f" and "\<forall>c \<in> set cs. call_proper T c"
    and "\<forall>b. CSet b \<in> set cs \<longrightarrow> lax"
  shows "container_ok T f' \<and> hooks f' = hooks f \<and>
    (fstrict f \<longrightarrow> \<not> lax \<longrightarrow> conflicts f = [] \<longrightarrow> conflicts f' = [])"
  using assms
proof (induction cs arbitrary: f l)
  case (Cons c cs)
  then obtain e f1 l1 where r: "run_call T c f l = Some (e, f1, l1)" "run_calls T cs f1 l1 = Some (f', l')"
    by (auto split: option.splits)
  have step: "container_step T lax f l f1 l1 \<or> (\<exists>g. c = COwner g \<and> f1 = f \<and> l1 = g l)"
    using Cons.prems(3,4) by (intro run_call_step [OF r(1)]) auto
  then have one: "container_ok T f1" "hooks f1 = hooks f"
      "fstrict f \<Longrightarrow> \<not> lax \<Longrightarrow> conflicts f = [] \<Longrightarrow> conflicts f1 = []"
    using container_step_ok [of T lax f l f1 l1] Cons.prems(2) by auto
  have "fstrict f1 = fstrict f" using one(2) by (simp add: hooks_def)
  then show ?case using Cons.IH [OF r(2) one(1)] Cons.prems(3,4) one by auto
qed simp

lemma container_ok_new [simp]: "container_ok T (NewBeanFactory\<lparr>fstrict := s, onSet := a, onBatchSet := b, onRemove := c\<rparr>)"
  by (simp add: container_ok_def NewBeanFactory_def agrees_def)


definition demo_types :: tenv where
  "demo_types = \<lparr>tKind = (\<lambda>t. if t = ''app.Store'' then KInterface else KPtr), tComparable = (\<lambda>t. True),
     tMethods = (\<lambda>t. if t = ''bear.Initializer'' then [''Init''] else if t = ''bear.Bean'' then [''Name'']
        else if t = ''bear.Shutdowner'' then [''Shutdown''] else if t = ''bear.ContextShutdowner'' then [''ShutdownContext'']
        else if t = ''bear.lifecyclePrestarted'' then [''lifecyclePrestarted''] else [''Get'']),
     tString = (\<lambda>t. t), tPkgPath = (\<lambda>t. []), tName = (\<lambda>t. []), tElem = (\<lambda>t. drop 1 t),
     tFields = (\<lambda>t. [])\<rparr>"

definition demo_bean :: "string \<Rightarrow> nat \<Rightarrow> bean" where
  "demo_bean t i = \<lparr>bType = t, bIdent = i, bNil = False, bName = None, bConfig = None\<rparr>"

definition demo_calls :: "lifecycle container_call list" where
  "demo_calls = [CTrySet (Some (demo_bean ''*app.Mem'' 1)), CTrySetWithInterface (Some ''*app.Store'') (Some (demo_bean ''*app.Mem'' 1)),
     CTrySet (Some (demo_bean ''*app.Mem'' 2)), CBatch [Some (demo_bean ''*app.Disk'' 3)], CRemove ''*app.Disk'']"


section \<open>Strict resolution\<close>

definition is_candidate :: "tenv \<Rightarrow> string \<Rightarrow> string \<times> bean \<Rightarrow> bool" where
  "is_candidate T t rb \<longleftrightarrow> tKind T (fst rb) \<noteq> KInterface \<and> Implements T (bType (snd rb)) t"

lemma update_new: "map_of m k = None \<Longrightarrow> AList.update k v m = m @ [(k, v)]"
  by (induction m) auto

lemma candidates_filter:
  assumes "distinct (map fst bs)" and "\<forall>(r, b) \<in> set bs. tKind T r \<noteq> KInterface \<longrightarrow> bType b = r"
    and "\<forall>(r, b) \<in> set bs. map_of acc r = None"
  shows "fold (candidate_step T t) bs acc = acc @ filter (is_candidate T t) bs"
  using assms
proof (induction bs arbitrary: acc)
  case (Cons rb bs)
  obtain r b where rb: "rb = (r, b)" by fastforce
  show ?case
  proof (cases "is_candidate T t rb")
    case True
    then have k: "bType b = r" using Cons.prems(2) rb by (simp add: is_candidate_def)
    have "map_of acc r = None" using Cons.prems(3) rb by simp
    then have "candidate_step T t rb acc = acc @ [rb]"
      using True rb k update_new by (simp add: candidate_step_def is_candidate_def)
    moreover have "\<forall>(r', b') \<in> set bs. map_of (acc @ [rb]) r' = None"
      using Cons.prems(1,3) rb by (force simp: map_add_def split: option.splits)
    ultimately show ?thesis using Cons.IH [of "acc @ [rb]"] Cons.prems True by simp
  next
    case False
    then have "candidate_step T t rb acc = acc" by (auto simp: candidate_step_def is_candidate_def)
    then show ?thesis using Cons.IH [of acc] Cons.prems False by simp
  qed
qed simp

text \<open>The beans a strict resolution may answer with when the type itself is not registered.\<close>

definition implicit :: "tenv \<Rightarrow> string \<Rightarrow> 'l factory \<Rightarrow> (string \<times> bean) set" where
  "implicit T t f = {(r, b). map_of (beans f) r = Some b \<and> tKind T r \<noteq> KInterface \<and> Implements T (bType b) t}"

lemma implicit_filter:
  assumes "container_ok T f"
  shows "implicit T t f = set (filter (is_candidate T t) (beans f))" "distinct (filter (is_candidate T t) (beans f))"
    "fold (candidate_step T t) (beans f) [] = filter (is_candidate T t) (beans f)"
proof -
  note ok = container_okD [OF assms]
  have mem: "(r, b) \<in> set (beans f) \<longleftrightarrow> map_of (beans f) r = Some b" for r b using ok(2) by simp
  show "implicit T t f = set (filter (is_candidate T t) (beans f))"
    by (auto simp: implicit_def is_candidate_def mem)
  show "distinct (filter (is_candidate T t) (beans f))" using ok(2) distinct_map distinct_filter by blast
  have "\<forall>(r, b) \<in> set (beans f). tKind T r \<noteq> KInterface \<longrightarrow> bType b = r" using mem ok(6) by fastforce
  then show "fold (candidate_step T t) (beans f) [] = filter (is_candidate T t) (beans f)"
    using candidates_filter [OF ok(2), of T "[]" t] by simp
qed

text \<open>C28: Strict resolution never chooses. It answers with the bean registered under the very type, or, for
  an interface, with the only registered bean of a concrete type that implements it; with no such
  bean the error is that it is missing, with several that it is ambiguous. The order in which the
  map is walked does not matter.\<close>

theorem strict_resolution_never_chooses:
  assumes "container_ok T f"
  shows "resolveE T t f =
    (if map_of (beans f) t \<noteq> None then Inr (the (map_of (beans f) t))
     else if tKind T t \<noteq> KInterface \<or> card (implicit T t f) = 0
     then Inl (bean_missing (''dependency '' @ tString T t))
     else if card (implicit T t f) = 1 then Inr (snd (the_elem (implicit T t f)))
     else Inl (bean_ambiguous (''dependency '' @ tString T t @ '' has '' @ Itoa (card (implicit T t f)) @
            '' implicit implementations'')))"
proof -
  let ?c = "filter (is_candidate T t) (beans f)"
  note x = implicit_filter [OF assms, of t]
  have n: "card (implicit T t f) = length ?c" using x(1,2) distinct_card by metis
  show ?thesis
  proof (cases "map_of (beans f) t")
    case None
    show ?thesis
    proof (cases ?c)
      case Nil
      then show ?thesis using None n x(3) by (simp add: resolveE_def)
    next
      case (Cons c cs)
      then have "implicit T t f = insert c (set cs)" using x(1) by simp
      then show ?thesis using None n x(3) Cons by (cases cs) (simp_all add: resolveE_def)
    qed
  qed (simp add: resolveE_def)
qed

theorem strict_resolution_never_chooses_witness:
  "\<exists>e. resolveE demo_types ''app.Store'' (NewBeanFactory\<lparr>fstrict := True, beans := [(''*app.Mem'', demo_bean ''*app.Mem'' 1),
      (''*app.Disk'', demo_bean ''*app.Disk'' 2)], order := [''*app.Mem'', ''*app.Disk''],
      concrete := [(''*app.Mem'', demo_bean ''*app.Mem'' 1), (''*app.Disk'', demo_bean ''*app.Disk'' 2)]\<rparr> :: unit factory)
     = Inl e \<and> errors_is e ErrBeanAmbiguous"
proof -
  let ?f = "NewBeanFactory\<lparr>fstrict := True, beans := [(''*app.Mem'', demo_bean ''*app.Mem'' 1),
      (''*app.Disk'', demo_bean ''*app.Disk'' 2)], order := [''*app.Mem'', ''*app.Disk''],
      concrete := [(''*app.Mem'', demo_bean ''*app.Mem'' 1), (''*app.Disk'', demo_bean ''*app.Disk'' 2)]\<rparr> :: unit factory"
  have ok: "container_ok demo_types ?f"
    by (simp add: container_ok_def NewBeanFactory_def agrees_def demo_types_def demo_bean_def)
  have i: "implicit demo_types ''app.Store'' ?f = {(''*app.Mem'', demo_bean ''*app.Mem'' 1), (''*app.Disk'', demo_bean ''*app.Disk'' 2)}"
    by (auto simp: implicit_def NewBeanFactory_def demo_types_def demo_bean_def Implements_def split: if_splits)
  have "card (implicit demo_types ''app.Store'' ?f) = 2" unfolding i by (simp add: demo_bean_def)
  moreover have "map_of (beans ?f) ''app.Store'' = None" "tKind demo_types ''app.Store'' = KInterface"
    by (simp_all add: NewBeanFactory_def demo_types_def)
  ultimately show ?thesis
    using strict_resolution_never_chooses [OF ok, of "''app.Store''"] by (simp add: bean_ambiguous_def)
qed

section \<open>The container and the lifecycle of a runtime\<close>

definition wired :: "tenv \<Rightarrow> lifecycle factory \<Rightarrow> bool" where
  "wired T f \<longleftrightarrow> onSet f = Some (tell_set T) \<and> onBatchSet f = Some (tell_batch T) \<and> onRemove f = Some tell_remove"

definition in_step :: "tenv \<Rightarrow> lifecycle factory \<Rightarrow> lifecycle \<Rightarrow> bool" where
  "in_step T f l \<longleftrightarrow> registry_ok l \<and>
     (\<forall>t. case map_of (beans f) t of
            None \<Rightarrow> beanOf l t = None
          | Some b \<Rightarrow> (\<exists>c. beanOf l t = Some c \<and> sameBean c (component_of T b)))"

lemma in_stepI:
  assumes "registry_ok l" and "\<And>t. map_of (beans f) t = None \<Longrightarrow> beanOf l t = None"
    and "\<And>t b. map_of (beans f) t = Some b \<Longrightarrow> \<exists>c. beanOf l t = Some c \<and> sameBean c (component_of T b)"
  shows "in_step T f l"
  using assms unfolding in_step_def by (auto split: option.split)

lemma in_stepD:
  assumes "in_step T f l"
  shows "registry_ok l" "map_of (beans f) t = None \<Longrightarrow> beanOf l t = None"
    "map_of (beans f) t = Some b \<Longrightarrow> \<exists>c. beanOf l t = Some c \<and> sameBean c (component_of T b)"
proof -
  note c = conjunct2 [OF assms [unfolded in_step_def], rule_format, of t]
  show "registry_ok l" using assms unfolding in_step_def by (rule conjunct1)
  show "map_of (beans f) t = None \<Longrightarrow> beanOf l t = None"
      "map_of (beans f) t = Some b \<Longrightarrow> \<exists>c. beanOf l t = Some c \<and> sameBean c (component_of T b)"
    using c by auto
qed

lemma of_lifecycle_None: "of_lifecycle r = Some (None, l') \<Longrightarrow> r = Some (None, l')"
  by (auto simp: of_lifecycle_def)

lemma tell_set_ok:
  assumes "tell_set T t b l = Some (None, l')"
  shows "lopen l" "setBeanLocked t (component_of T b) l = Some l'"
  using of_lifecycle_None [OF assms [unfolded tell_set_def]]
  by (auto simp: registerBean_def open_of_registration split: if_splits)

lemma tell_batch_ok:
  assumes "tell_batch T regs l = Some (None, l')"
  shows "lopen l" "beans.put_all (map (\<lambda>(t, b). (t, component_of T b)) regs) l = Some l'"
  using of_lifecycle_None [OF assms [unfolded tell_batch_def]]
  by (auto simp: registerBeans_def open_of_registration put_all_eq split: if_splits)

lemma tell_remove_ok:
  assumes "tell_remove t l = Some (None, l')"
  shows "lopen l" "l' = unregister t l"
proof -
  have r: "removeBean t l = (None, l')" using of_lifecycle_None [OF assms [unfolded tell_remove_def]] by simp
  have o: "\<not> registrationClosed l" using r by (auto simp: removeBean_def)
  show "lopen l" using o by (rule open_of_registration)
  show "l' = unregister t l" using r removeBean_unregister [OF o] by simp
qed

lemma told_refusal:
  assumes "wired T f" and "refused f l l'"
  shows "l' = l"
  using assms unfolding wired_def refused_def
  by (auto simp: tell_set_def tell_batch_def tell_remove_def of_lifecycle_def registerBean_def registerBeans_def
      removeBean_def split: if_splits option.splits)

lemma commit_bean_beans [simp]: "map_of (beans (commit_bean T t b f)) = (map_of (beans f))(t \<mapsto> b)"
  by (simp add: commit_bean_def AList.update_conv')

lemma plan_batch_keys:
  assumes "plan_batch T bs m con = Inr regs"
  shows "distinct (map fst regs) \<and> (\<forall>(t, b) \<in> set regs. map_of m t = None)"
  using assms
proof (induction T bs m con arbitrary: regs rule: plan_batch.induct)
  case (2 T b bs m con)
  show ?case
  proof (cases "map_of m (bType b)")
    case (Some cur)
    then have "plan_batch T bs m con = Inr regs" "sameBeanInstance T cur b"
      using 2(3) by (auto simp: Let_def split: if_splits)
    then show ?thesis using 2(2) [OF refl refl Some] by simp
  next
    case None
    let ?clash = "case map_of con (bType b) of None \<Rightarrow> False | Some c \<Rightarrow> \<not> sameBeanInstance T c b"
    have n: "\<not> ?clash" using 2(3) None by (auto simp: Let_def split: if_splits)
    then obtain regs' where r: "regs = (bType b, b) # regs'"
        "plan_batch T bs (AList.update (bType b) b m) (AList.update (bType b) b con) = Inr regs'"
      using 2(3) None by (auto simp: Let_def split: sum.splits)
    show ?thesis using 2(1) [OF refl refl None n r(2)] None r(1) by (fastforce split: if_splits)
  qed
qed simp

lemma commit_batch_beans:
  "distinct (map fst regs) \<Longrightarrow> map_of (beans (commit_batch regs f)) = map_of (beans f) ++ map_of regs"
proof (induction regs arbitrary: f)
  case (Cons r regs)
  have "map_of regs (fst r) = None" using Cons.prems by (simp add: map_of_eq_None_iff)
  then show ?case
    using Cons by (cases r) (auto simp: commit_one_def AList.update_conv' map_add_def fun_eq_iff split: option.splits)
qed simp

text \<open>One step of the wired container.\<close>

lemma wired_step:
  assumes "container_step T lax f l f' l'" and "wired T f" and "in_step T f l"
  shows "in_step T f' l'"
  using assms(1)
proof cases
  case same
  then show ?thesis using told_refusal [OF assms(2)] assms(3) by auto
next
  case (commit b t)
  then have put: "tell_set T t b l = Some (None, l')" using assms(2) by (auto simp: wired_def)
  have ok: "registry_ok l \<and> lopen l" using in_stepD(1) [OF assms(3)] tell_set_ok(1) [OF put] by simp
  note p = tell_set_ok(2) [OF put]
  show ?thesis
  proof (rule in_stepI)
    show "registry_ok l'" using beans.put_ok [OF ok p] by simp
    fix u
    show "beanOf l' u = None" if "map_of (beans f') u = None"
      using that commit(1) beans.look_put_other [OF ok p, of u] in_stepD(2) [OF assms(3), of u]
      by (auto split: if_splits)
    show "\<exists>c. beanOf l' u = Some c \<and> sameBean c (component_of T x)" if "map_of (beans f') u = Some x" for x
      using that commit(1) beans.look_put_other [OF ok p, of u] beans.look_put [OF ok p] in_stepD(3) [OF assms(3), of u x]
      by (cases "u = t") auto
  qed
next
  case (batch bs regs)
  then have put: "tell_batch T regs l = Some (None, l')" using assms(2) by (auto simp: wired_def)
  let ?regs = "map (\<lambda>(t, b). (t, component_of T b)) regs"
  have ok: "registry_ok l \<and> lopen l" using in_stepD(1) [OF assms(3)] tell_batch_ok(1) [OF put] by simp
  note p = tell_batch_ok(2) [OF put]
  have d: "distinct (map fst regs)" using plan_batch_keys [OF batch(2)] by simp
  have keys: "map fst ?regs = map fst regs" by (simp add: comp_def split_beta)
  have dk: "distinct (map fst ?regs)" using d keys by metis
  have fk: "fst ` set ?regs = fst ` set regs" using keys by (metis list.set_map)
  have b': "map_of (beans f') = map_of (beans f) ++ map_of regs" using commit_batch_beans [OF d] batch(1) by simp
  show ?thesis
  proof (rule in_stepI)
    show "registry_ok l'" using beans.put_all_ok [OF ok p] by simp
    fix u
    show "beanOf l' u = None" if "map_of (beans f') u = None"
    proof -
      have "map_of regs u = None" "map_of (beans f) u = None" using that by (auto simp: b' map_add_def split: option.splits)
      then have "u \<notin> fst ` set ?regs" unfolding fk by (simp add: map_of_eq_None_iff)
      then show ?thesis using beans.put_all_other [OF ok p] in_stepD(2) [OF assms(3), of u] \<open>map_of (beans f) u = None\<close> by simp
    qed
    show "\<exists>c. beanOf l' u = Some c \<and> sameBean c (component_of T x)" if x: "map_of (beans f') u = Some x" for x
    proof (cases "map_of regs u")
      case None
      then have "u \<notin> fst ` set ?regs" unfolding fk by (simp add: map_of_eq_None_iff)
      moreover have "map_of (beans f) u = Some x" using x None by (simp add: b' map_add_def)
      ultimately show ?thesis using beans.put_all_other [OF ok p] in_stepD(3) [OF assms(3), of u x] by simp
    next
      case (Some y)
      then have "(u, component_of T x) \<in> set ?regs" using x map_of_SomeD [of regs u y] by (force simp: b')
      then show ?thesis using beans.put_all_found [OF ok dk p] by blast
    qed
  qed
next
  case (remove t)
  then have r: "tell_remove t l = Some (None, l')" using assms(2) by (auto simp: wired_def)
  have ok: "registry_ok l \<and> lopen l" using in_stepD(1) [OF assms(3)] tell_remove_ok(1) [OF r] by simp
  note l' = tell_remove_ok(2) [OF r]
  have bs: "map_of (beans f') u = (if u = t then None else map_of (beans f) u)" for u
    unfolding remove(1) removed_def rebuildConcreteIndexesLocked_def by (simp add: Let_def)
  show ?thesis
  proof (rule in_stepI)
    show "registry_ok l'" using beans.del_ok [OF ok] l' by simp
    fix u
    show "beanOf l' u = None" if "map_of (beans f') u = None"
      using that beans.look_del [OF ok] beans.look_del_other [OF ok, of u t] in_stepD(2) [OF assms(3), of u]
      by (cases "u = t") (auto simp: bs l')
    show "\<exists>c. beanOf l' u = Some c \<and> sameBean c (component_of T x)" if "map_of (beans f') u = Some x" for x
      using that beans.look_del_other [OF ok, of u t] in_stepD(3) [OF assms(3), of u x] by (auto simp: bs l' split: if_splits)
  qed
qed

lemma hooks_wired: "hooks f' = hooks f \<Longrightarrow> wired T f' = wired T f"
  by (simp add: hooks_def wired_def)

lemma sealed_find: "findEntry i (l\<lparr>lSealed := True\<rparr>) = findEntry i l"
  by (simp add: findEntry_def)

lemma sealed [simp]: "beanOf (sealRegistration l) = beanOf l" "registry_ok (sealRegistration l) = registry_ok l"
  by (simp_all add: fun_eq_iff beanOf_def sealRegistration_def currentEntry_def registry_ok_def sealed_find cong: option.case_cong)

lemma sealed_in_step: "in_step T f l \<Longrightarrow> in_step T f (sealRegistration l)"
  unfolding in_step_def sealed .

text \<open>C29: The container of a runtime and its lifecycle never drift apart: after every sequence of calls and
  the sealing of registrations at any point, a type is registered in the one exactly if it is in the
  other, with the same component.\<close>

theorem container_and_lifecycle_agree:
  assumes "\<forall>c \<in> set cs. call_proper T c \<and> (\<forall>g. c = COwner g \<longrightarrow> g = sealRegistration)"
    and "run_calls T cs (fst (runtimeContainer T strict)) (snd (runtimeContainer T strict)) = Some (f, l)"
  shows "(map_of (beans f) t = None \<longleftrightarrow> beanOf l t = None) \<and>
    (\<forall>b. map_of (beans f) t = Some b \<longrightarrow> (\<exists>c. beanOf l t = Some c \<and>
       (c = component_of T b \<or> sameLifecycleComponent c (component_of T b))))"
proof -
  have gen: "in_step T f l"
    if "run_calls T cs f0 l0 = Some (f, l)" "\<forall>c \<in> set cs. call_proper T c \<and> (\<forall>g. c = COwner g \<longrightarrow> g = sealRegistration)"
      "wired T f0" "in_step T f0 l0" for f0 l0
    using that
  proof (induction cs arbitrary: f0 l0)
    case (Cons c cs)
    then obtain e f1 l1 where r: "run_call T c f0 l0 = Some (e, f1, l1)" "run_calls T cs f1 l1 = Some (f, l)"
      by (auto split: option.splits)
    have "container_step T True f0 l0 f1 l1 \<or> (\<exists>g. c = COwner g \<and> f1 = f0 \<and> l1 = g l0)"
      using Cons.prems(2) by (intro run_call_step [OF r(1)]) auto
    then have "wired T f1 \<and> in_step T f1 l1"
    proof (elim disjE exE conjE)
      assume st: "container_step T True f0 l0 f1 l1"
      then have "hooks f1 = hooks f0" by cases simp_all
      then have "wired T f1" using Cons.prems(3) hooks_wired by metis
      then show ?thesis using wired_step [OF st Cons.prems(3,4)] by simp
    next
      fix g assume g: "c = COwner g" "f1 = f0" "l1 = g l0"
      have "g = sealRegistration" using Cons.prems(2) g(1) by simp
      then show ?thesis using Cons.prems(3) sealed_in_step [OF Cons.prems(4)] g by simp
    qed
    then show ?case using Cons.IH [OF r(2)] Cons.prems(2) by simp
  qed simp
  have "wired T (fst (runtimeContainer T strict))" by (simp add: wired_def runtimeContainer_def)
  moreover have "in_step T (fst (runtimeContainer T strict)) (snd (runtimeContainer T strict))"
    using registry_ok_new [of strict]
    by (intro in_stepI) (simp_all add: runtimeContainer_def NewBeanFactory_def beanOf_def currentEntry_def newLifecycleWithMode_def)
  ultimately have "in_step T f l" using gen [OF assms(2,1)] by simp
  from in_stepD(2) [OF this, of t] in_stepD(3) [OF this, of t] show ?thesis by (cases "map_of (beans f) t") (auto simp: sameBean_def)
qed

theorem container_and_lifecycle_agree_witness:
  "\<exists>f l. run_calls demo_types (demo_calls @ [COwner sealRegistration, CTrySet (Some (demo_bean ''*app.Disk'' 4))])
      (fst (runtimeContainer demo_types True)) (snd (runtimeContainer demo_types True)) = Some (f, l) \<and>
     beanOf l ''*app.Mem'' \<noteq> None \<and> beanOf l ''*app.Disk'' = None"
proof -
  let ?c = "runtimeContainer demo_types True"
  let ?calls = "demo_calls @ [COwner sealRegistration, CTrySet (Some (demo_bean ''*app.Disk'' 4))]"
  have "case run_calls demo_types ?calls (fst ?c) (snd ?c) of None \<Rightarrow> False
      | Some (f, l) \<Rightarrow> map_of (beans f) ''*app.Mem'' \<noteq> None \<and> map_of (beans f) ''*app.Disk'' = None"
    by code_simp
  then obtain f l where r: "run_calls demo_types ?calls (fst ?c) (snd ?c) = Some (f, l)"
      and b: "map_of (beans f) ''*app.Mem'' \<noteq> None" "map_of (beans f) ''*app.Disk'' = None"
    by (auto split: option.splits)
  have proper: "\<forall>c \<in> set ?calls. call_proper demo_types c \<and> (\<forall>g. c = COwner g \<longrightarrow> g = sealRegistration)"
    by (auto simp: demo_calls_def call_proper_def demo_types_def demo_bean_def List.map_filter_simps)
  show ?thesis
    using container_and_lifecycle_agree [OF proper r, of "''*app.Mem''"]
      container_and_lifecycle_agree [OF proper r, of "''*app.Disk''"] b r by (intro exI [of _ f] exI [of _ l]) simp
qed

text \<open>A registration that is replaced stays in the way: when the binding of an interface has moved from an
  instance of one type to a bean of another, the strict mode still refuses any other instance of the
  first type as a duplicate, although no instance of it is registered.\<close>

theorem replaced_binding_still_blocks:
  assumes "container_ok T f" and "fstrict f" and "tKind T i = KInterface" and "tKind T (bType a) \<noteq> KInterface"
    and "map_of (beans f) i = None" and "map_of (concrete f) (bType a) = None" and "map_of (concrete f) (bType b) = None"
    and "bType b \<noteq> bType a" and "bType a' = bType a" and "\<not> sameBeanInstance T a a'"
    and "registerLocked T i a True f l = Some (None, f1, l1)" and "registerLocked T i b True f1 l1 = Some (None, f2, l2)"
  shows "(\<forall>t x. map_of (beans f2) t = Some x \<longrightarrow> bType x \<noteq> bType a') \<and>
    (\<exists>e. registerLocked T (bType a') a' True f2 l2 = Some (Some e, f2, l2) \<and> errors_is e ErrBeanDuplicate)"
proof -
  have none: "bType x \<noteq> bType a" if x: "map_of (beans f) t = Some x" for t x
  proof -
    have "map_of (concrete f) (bType x) \<noteq> None"
      using container_okD(4) [OF assms(1)] x unfolding agrees_def by blast
    then show ?thesis using assms(6) by auto
  qed
  have f1: "f1 = commit_bean T i a f"
    using assms(5,6,11) by (auto simp: registerLocked_def clash_def dest!: committing_cases)
  have c1: "map_of (beans f1) i = Some a" "\<not> clash T b f1"
    using assms(7,8) by (simp_all add: f1 commit_bean_def clash_def)
  have "\<not> sameBeanInstance T a b" using same_type assms(8) by metis
  then have f2: "f2 = commit_bean T i b f1"
    using assms(12) c1 by (auto simp: registerLocked_def dest!: committing_cases)
  have b2: "map_of (beans f2) = (map_of (beans f))(i \<mapsto> b)" by (simp add: f2 f1)
  have gone: "bType x \<noteq> bType a" if "map_of (beans f2) t = Some x" for t x
    using that none assms(8) by (auto simp: b2 split: if_splits)
  have "map_of (beans f2) (bType a) = None"
  proof (cases "map_of (beans f2) (bType a)")
    case (Some x)
    then have x: "map_of (beans f) (bType a) = Some x" using assms(3,4) by (auto simp: b2 split: if_splits)
    then show ?thesis using container_okD(6) [OF assms(1) x] none [OF x] assms(4) by simp
  qed
  moreover have "clash T a' f2" "fstrict f2"
    using assms(2,8,9,10) by (simp_all add: f2 f1 commit_bean_def clash_def)
  ultimately have "registerLocked T (bType a') a' True f2 l2 =
      Some (Some (bean_duplicate (''concrete bean type '' @ tString T (bType a'))), f2, l2)"
    using assms(9) by (simp add: registerLocked_def)
  then show ?thesis using gone assms(9) by (simp add: bean_duplicate_def)
qed

theorem replaced_binding_still_blocks_witness:
  "\<exists>f1 f2. registerLocked demo_types ''app.Store'' (demo_bean ''*app.Mem'' 1) True (NewBeanFactory\<lparr>fstrict := True\<rparr>) () = Some (None, f1, ()) \<and>
     registerLocked demo_types ''app.Store'' (demo_bean ''*app.Disk'' 2) True f1 () = Some (None, f2, ()) \<and>
     (\<exists>e. registerLocked demo_types ''*app.Mem'' (demo_bean ''*app.Mem'' 3) True f2 () = Some (Some e, f2, ()) \<and>
        errors_is e ErrBeanDuplicate)"
proof -
  let ?f = "NewBeanFactory\<lparr>fstrict := True\<rparr> :: unit factory"
  let ?a = "demo_bean ''*app.Mem'' 1" and ?b = "demo_bean ''*app.Disk'' 2" and ?a' = "demo_bean ''*app.Mem'' 3"
  define f1 where "f1 = commit_bean demo_types ''app.Store'' ?a ?f"
  define f2 where "f2 = commit_bean demo_types ''app.Store'' ?b f1"
  have ok: "container_ok demo_types ?f" by (simp add: container_ok_def NewBeanFactory_def agrees_def)
  have r1: "registerLocked demo_types ''app.Store'' ?a True ?f () = Some (None, f1, ())"
    by (simp add: registerLocked_def NewBeanFactory_def clash_def committing_def f1_def)
  have r2: "registerLocked demo_types ''app.Store'' ?b True f1 () = Some (None, f2, ())"
    by (simp add: registerLocked_def NewBeanFactory_def clash_def committing_def f2_def f1_def commit_bean_def
        demo_bean_def sameBeanInstance_def)
  have k: "fstrict ?f" "tKind demo_types ''app.Store'' = KInterface" "tKind demo_types (bType ?a) \<noteq> KInterface"
      "map_of (beans ?f) ''app.Store'' = None" "map_of (concrete ?f) (bType ?a) = None"
      "map_of (concrete ?f) (bType ?b) = None" "bType ?b \<noteq> bType ?a" "bType ?a' = bType ?a"
      "\<not> sameBeanInstance demo_types ?a ?a'"
    by (simp_all add: demo_types_def demo_bean_def NewBeanFactory_def sameBeanInstance_def)
  have "bType ?a' = ''*app.Mem''" by (simp add: demo_bean_def)
  then show ?thesis using replaced_binding_still_blocks [OF ok k r1 r2] r1 r2 by auto
qed

end
