(* ===== verification/BeanInjectionProps.thy ===== *)
theory BeanInjectionProps
  imports BeanInjection BeanContainerProps
begin

text \<open>
  What strict injection leaves in the fields, the key a \<open>value\<close> tag names, and the legacy \<open>value\<close> tag
  that never has an effect.
\<close>

lemma fullKey_split:
  assumes "Split (CHR ''.'') tag = w # v # ws"
  shows "fullKey tag = (if w = [] then Join (CHR ''.'') (v # ws) else tag)"
proof -
  have "w @ CHR ''.'' # Join (CHR ''.'') (v # ws) = tag"
    using Join_Split [of "CHR ''.''" tag] assms by simp
  then show ?thesis using assms by (simp add: fullKey_def valueParts_def)
qed

text \<open>Taking a \<open>value\<close> tag apart into a prefix and a key and putting it together again gives the tag
  back, except for a leading dot, which is lost.\<close>

theorem value_tag_roundtrip:
  "fullKey tag = (if tag \<noteq> [] \<and> hd tag = CHR ''.'' then tl tag else tag)"
proof (cases "Split (CHR ''.'') tag")
  case Nil
  then show ?thesis by simp
next
  case (Cons w ws)
  have tag: "Join (CHR ''.'') (w # ws) = tag" using Join_Split [of "CHR ''.''" tag] Cons by simp
  show ?thesis
  proof (cases ws)
    case Nil
    then have "fullKey tag = tag" using Cons by (simp add: fullKey_def valueParts_def)
    moreover have "CHR ''.'' \<notin> set tag" using tag Nil Split_parts [of w "CHR ''.''" tag] Cons by simp
    ultimately show ?thesis by (cases tag) auto
  next
    case (Cons v vs)
    have split: "Split (CHR ''.'') tag = w # v # vs" using \<open>Split (CHR ''.'') tag = w # ws\<close> Cons by simp
    note k = fullKey_split [OF split]
    have join: "tag = w @ CHR ''.'' # Join (CHR ''.'') (v # vs)" using tag Cons by simp
    show ?thesis
    proof (cases w)
      case Nil
      then show ?thesis using k join by simp
    next
      case (Cons c cs)
      then have "c \<noteq> CHR ''.''" using Split_parts [of w "CHR ''.''" tag] split by auto
      then show ?thesis using k join Cons by simp
    qed
  qed
qed

section \<open>The legacy loop\<close>

lemma injectValue_idle:
  assumes "container_ok T f" and "tKind T ''bear.SysConfig'' \<noteq> KInterface"
  shows "injectValue f settable tag v = Some v"
proof (cases "map_of (beans f) ''bear.SysConfig''")
  case (Some b)
  then have "bType b = ''bear.SysConfig''" using container_okD(6) [OF assms(1) Some] assms(2) by simp
  then show ?thesis using Some by (simp add: injectValue_def)
qed (simp add: injectValue_def)

text \<open>A field the loop handles by its \<open>value\<close> tag.\<close>

definition value_field :: "sfield \<Rightarrow> bool" where
  "value_field d \<longleftrightarrow> sfType d = ''*bear.Value'' \<and> sfValue d \<noteq> None \<and> sfValue d \<noteq> Some []"

lemma apply_fields_step:
  assumes "apply_fields T f addressable (d # ds) (v # vs) = Some (vs', ws)"
  obtains x vs1 ws1 where "apply_fields T f addressable ds vs = Some (vs1, ws1)" "vs' = x # vs1"
    "value_field d \<Longrightarrow> injectValue f (addressable \<and> sfPkgPath d = []) (the (sfValue d)) v = Some x"
  using assms by (auto simp: Let_def value_field_def split: option.splits list.splits if_splits)

lemma apply_fields_values:
  assumes "container_ok T f" and "tKind T ''bear.SysConfig'' \<noteq> KInterface"
    and "apply_fields T f addressable ds vs = Some (vs', ws)"
    and "i < length ds" and "i < length vs" and "value_field (ds ! i)"
  shows "vs' ! i = vs ! i"
  using assms(3-)
proof (induction ds arbitrary: vs vs' ws i)
  case (Cons d ds)
  then obtain v vs2 where vs: "vs = v # vs2" by (cases vs) auto
  obtain x vs1 ws1 where st: "apply_fields T f addressable ds vs2 = Some (vs1, ws1)" "vs' = x # vs1"
      "value_field d \<Longrightarrow> injectValue f (addressable \<and> sfPkgPath d = []) (the (sfValue d)) v = Some x"
    using apply_fields_step [OF Cons.prems(1) [unfolded vs]] by metis
  show ?case
  proof (cases i)
    case 0
    then show ?thesis using st(2,3) Cons.prems(4) injectValue_idle [OF assms(1,2)] vs by simp
  next
    case (Suc j)
    then show ?thesis using Cons.IH [OF st(1), of j] Cons.prems vs st(2) by simp
  qed
qed simp

text \<open>The legacy \<open>value\<close> tag never has an effect. The loop asks for the configuration under the struct
  type, but a container only ever holds it under the pointer type, so a field of type \<open>*Value\<close> keeps
  the value it had, whatever is configured.\<close>

theorem legacy_value_tag_is_inert:
  assumes "container_ok T f" and "tKind T ''bear.SysConfig'' = KStruct"
    and "Apply T I isDefault f g = Some (g', warned)"
    and "lookupInjector (staticInjectorLookupKeys T (structType T g)) (runtimeStaticInjectors I) = None"
    and "lookupInjector (staticInjectorLookupKeys T (structType T g)) (staticInjectors I) = None"
    and "i < length (tFields T (structType T g))" and "i < length (gFields g)"
    and "sfType (tFields T (structType T g) ! i) = ''*bear.Value''"
    and "sfValue (tFields T (structType T g) ! i) = Some tag" and "tag \<noteq> []"
  shows "gFields g' ! i = gFields g ! i"
proof (cases "g' = g")
  case False
  obtain vs where "apply_fields T f (tKind T (gType g) = KPtr) (tFields T (structType T g)) (gFields g) = Some (vs, warned)"
      "g' = g\<lparr>gFields := vs\<rparr>"
    using assms(3,4,5) False by (auto simp: Apply_def Let_def split: if_splits option.splits)
  then show ?thesis using apply_fields_values [OF assms(1)] assms(2,6-10) by (simp add: value_field_def)
qed simp

section \<open>Strict injection\<close>

text \<open>What one field holds after it was injected: an untagged field is left alone; a tagged one is exported
  and holds what strict resolution, or the configuration, answers.\<close>

definition injected :: "tenv \<Rightarrow> 'l factory \<Rightarrow> string \<Rightarrow> sfield \<Rightarrow> fval \<Rightarrow> fval \<Rightarrow> bool" where
  "injected T f st d v v' \<longleftrightarrow>
     (if sfInject d = None \<and> sfValue d = None then v' = v
      else sfPkgPath d = [] \<and>
        (case sfValue d of
           Some tag \<Rightarrow> sfType d = ''*bear.Value'' \<and> valueE T f st (sfName d) tag = Inr v'
         | None \<Rightarrow> (\<exists>b. resolveE T (sfType d) f = Inr b \<and> asserts T (sfType d) b \<and> v' = FBean b)))"

lemma apply_fieldsE_step:
  assumes "apply_fieldsE T f st (d # ds) (v # vs) = (r, vs')"
  shows "(\<exists>x vs1. injected T f st d v x \<and> apply_fieldsE T f st ds vs = (r, vs1) \<and> vs' = x # vs1) \<or>
    (r \<noteq> None \<and> vs' = v # vs \<and> (\<forall>x. \<not> injected T f st d v x))"
proof -
  obtain r1 vs1 where rest: "apply_fieldsE T f st ds vs = (r1, vs1)" by fastforce
  show ?thesis
  proof (cases "sfInject d = None \<and> sfValue d = None")
    case True
    then show ?thesis using assms rest by (simp add: injected_def)
  next
    case False
    show ?thesis
    proof (cases "sfValue d")
      case None
      then show ?thesis
        using assms rest False by (auto simp: injected_def Let_def split: sum.splits if_splits)
    next
      case (Some tag)
      then show ?thesis
        using assms rest by (auto simp: injected_def Let_def split: sum.splits if_splits)
    qed
  qed
qed

lemma apply_fieldsE_exact:
  assumes "apply_fieldsE T f st ds vs = (r, vs')" and "length ds = length vs"
  shows "length vs' = length vs \<and> (\<exists>k \<le> length vs.
    (\<forall>i < k. injected T f st (ds ! i) (vs ! i) (vs' ! i)) \<and>
    (\<forall>i. k \<le> i \<and> i < length vs \<longrightarrow> vs' ! i = vs ! i) \<and>
    (if r = None then k = length vs else k < length vs \<and> (\<forall>x. \<not> injected T f st (ds ! k) (vs ! k) x)))"
  using assms
proof (induction ds arbitrary: vs vs')
  case (Cons d ds)
  then obtain v vs2 where vs: "vs = v # vs2" by (cases vs) auto
  from apply_fieldsE_step [OF Cons.prems(1) [unfolded vs]] show ?case
  proof (elim disjE exE conjE)
    fix x vs1 assume x: "injected T f st d v x" "apply_fieldsE T f st ds vs2 = (r, vs1)" "vs' = x # vs1"
    obtain k where k: "length vs1 = length vs2" "k \<le> length vs2" "\<forall>i < k. injected T f st (ds ! i) (vs2 ! i) (vs1 ! i)"
        "\<forall>i. k \<le> i \<and> i < length vs2 \<longrightarrow> vs1 ! i = vs2 ! i"
        "if r = None then k = length vs2 else k < length vs2 \<and> (\<forall>x. \<not> injected T f st (ds ! k) (vs2 ! k) x)"
      using Cons.IH [OF x(2)] Cons.prems(2) vs by auto
    have "\<forall>i < Suc k. injected T f st ((d # ds) ! i) (vs ! i) (vs' ! i)"
      using k(3) x(1,3) vs by (auto simp: less_Suc_eq_0_disj)
    moreover have "\<forall>i. Suc k \<le> i \<and> i < length vs \<longrightarrow> vs' ! i = vs ! i"
      using k(4) x(3) vs by (auto simp: nth_Cons split: nat.split)
    ultimately show ?thesis
      using k(1,2,5) vs x(3) by (intro conjI exI [of _ "Suc k"]) (auto split: if_splits)
  next
    assume "r \<noteq> None" "vs' = v # vs2" "\<forall>x. \<not> injected T f st d v x"
    then show ?thesis using vs by (intro conjI exI [of _ 0]) auto
  qed
qed simp

text \<open>C30: Strict injection through reflection is exact: it succeeds only with every field injected, and when it
  fails it has injected the fields before the offending one and touched none from there on.\<close>

theorem strict_injection_exact:
  assumes "ApplyE T I f g = (r, g')" and "tKind T (gType g) = KPtr" and "\<not> gNil g"
    and "tKind T (tElem T (gType g)) = KStruct"
    and "map_of (runtimeStaticInjectorsE I) (runtimeStaticInjectorKey T (tElem T (gType g))) = None"
    and "length (gFields g) = length (tFields T (tElem T (gType g)))"
  shows "\<exists>k \<le> length (gFields g).
    (\<forall>i < k. injected T f (tElem T (gType g)) (tFields T (tElem T (gType g)) ! i) (gFields g ! i) (gFields g' ! i)) \<and>
    (\<forall>i. k \<le> i \<and> i < length (gFields g) \<longrightarrow> gFields g' ! i = gFields g ! i) \<and>
    (r = None \<longleftrightarrow> k = length (gFields g)) \<and>
    (r \<noteq> None \<longrightarrow> (\<forall>x. \<not> injected T f (tElem T (gType g)) (tFields T (tElem T (gType g)) ! k) (gFields g ! k) x))"
proof -
  let ?st = "tElem T (gType g)"
  obtain vs where a: "apply_fieldsE T f ?st (tFields T ?st) (gFields g) = (r, vs)" and g': "g' = g\<lparr>gFields := vs\<rparr>"
    using assms(1-5) by (auto simp: ApplyE_def Let_def split: prod.splits)
  then have vs: "gFields g' = vs" by simp
  obtain k where k: "k \<le> length (gFields g)"
      "\<forall>i < k. injected T f ?st (tFields T ?st ! i) (gFields g ! i) (vs ! i)"
      "\<forall>i. k \<le> i \<and> i < length (gFields g) \<longrightarrow> vs ! i = gFields g ! i"
      "if r = None then k = length (gFields g)
       else k < length (gFields g) \<and> (\<forall>x. \<not> injected T f ?st (tFields T ?st ! k) (gFields g ! k) x)"
    using apply_fieldsE_exact [OF a assms(6) [symmetric]] by auto
  then show ?thesis unfolding vs by (intro exI [of _ k]) (cases r; simp)
qed

definition demo_struct :: tenv where
  "demo_struct = demo_types\<lparr>tKind := (\<lambda>t. if t = ''app.Handler'' \<or> t = ''bear.SysConfig'' then KStruct else KPtr),
     tFields := (\<lambda>t. if t = ''app.Handler''
        then [\<lparr>sfName = ''Port'', sfType = ''*bear.Value'', sfPkgPath = [], sfInject = None, sfValue = Some ''server.port''\<rparr>,
              \<lparr>sfName = ''Store'', sfType = ''*app.Mem'', sfPkgPath = [], sfInject = Some [], sfValue = None\<rparr>,
              \<lparr>sfName = ''Cache'', sfType = ''*app.Disk'', sfPkgPath = [], sfInject = Some [], sfValue = None\<rparr>]
        else [])\<rparr>"

definition demo_factory :: "unit factory" where
  "demo_factory = commit_bean demo_struct ''*app.Mem'' (demo_bean ''*app.Mem'' 1)
     (commit_bean demo_struct ''*bear.SysConfig''
        ((demo_bean ''*bear.SysConfig'' 9)\<lparr>bConfig := Some [(''server.port'', ''8080'')]\<rparr>) NewBeanFactory)"

definition demo_target :: target where
  "demo_target = \<lparr>gType = ''*app.Handler'', gNil = False, gFields = [FZero, FZero, FOther]\<rparr>"

definition no_injectors :: "unit injectors" where
  "no_injectors = \<lparr>staticInjectors = [], runtimeStaticInjectors = [], runtimeStaticInjectorsE = []\<rparr>"

lemma demo_factory_ok: "container_ok demo_struct demo_factory" "tKind demo_struct ''bear.SysConfig'' = KStruct"
proof -
  have new: "container_ok demo_struct (NewBeanFactory :: unit factory)"
    by (simp add: container_ok_def NewBeanFactory_def agrees_def)
  show "container_ok demo_struct demo_factory"
    unfolding demo_factory_def
    by (rule commit_bean_ok, rule commit_bean_ok [OF new])
      (simp_all add: demo_struct_def demo_types_def demo_bean_def)
qed (simp add: demo_struct_def)

lemma demo_target_simps:
  "structType demo_struct demo_target = ''app.Handler''" "tElem demo_struct (gType demo_target) = ''app.Handler''"
  "tKind demo_struct (gType demo_target) = KPtr" "tKind demo_struct ''app.Handler'' = KStruct"
  "length (tFields demo_struct ''app.Handler'') = 3" "length (gFields demo_target) = 3" "\<not> gNil demo_target"
  "sfType (tFields demo_struct ''app.Handler'' ! 0) = ''*bear.Value''"
  "sfValue (tFields demo_struct ''app.Handler'' ! 0) = Some ''server.port''"
  by (simp_all add: structType_def demo_target_def demo_struct_def demo_types_def)

theorem legacy_value_tag_is_inert_witness:
  "\<exists>g' warned. Apply demo_struct no_injectors False demo_factory demo_target = Some (g', warned) \<and> gFields g' ! 0 = FZero"
proof -
  have "Apply demo_struct no_injectors False demo_factory demo_target \<noteq> None" by code_simp
  then obtain g' warned where a: "Apply demo_struct no_injectors False demo_factory demo_target = Some (g', warned)"
    by auto
  have none: "lookupInjector ks [] = None" for ks :: "string list" by (induction ks) auto
  have l: "lookupInjector (staticInjectorLookupKeys demo_struct (structType demo_struct demo_target)) (runtimeStaticInjectors no_injectors) = None"
      "lookupInjector (staticInjectorLookupKeys demo_struct (structType demo_struct demo_target)) (staticInjectors no_injectors) = None"
    by (simp_all add: no_injectors_def none)
  have "gFields g' ! 0 = gFields demo_target ! 0"
    by (rule legacy_value_tag_is_inert [OF demo_factory_ok a l, where tag = "''server.port''"])
      (simp_all add: demo_target_simps)
  then show ?thesis using a by (simp add: demo_target_def)
qed

theorem strict_injection_exact_witness:
  "\<exists>e g'. ApplyE demo_struct no_injectors demo_factory demo_target = (Some e, g') \<and> gFields g' ! 2 = FOther \<and>
     gFields g' ! 0 = FValue ''server'' ''port'' ''8080''"
proof -
  obtain r g' where a: "ApplyE demo_struct no_injectors demo_factory demo_target = (r, g')" by fastforce
  have v: "fst (ApplyE demo_struct no_injectors demo_factory demo_target) \<noteq> None"
      "gFields (snd (ApplyE demo_struct no_injectors demo_factory demo_target)) ! 0 = FValue ''server'' ''port'' ''8080''"
      "gFields (snd (ApplyE demo_struct no_injectors demo_factory demo_target)) ! 2 = FOther"
    by code_simp+
  have i: "map_of (runtimeStaticInjectorsE no_injectors)
      (runtimeStaticInjectorKey demo_struct (tElem demo_struct (gType demo_target))) = None"
    by (simp add: no_injectors_def)
  have "\<exists>k \<le> length (gFields demo_target). \<forall>j. k \<le> j \<and> j < length (gFields demo_target) \<longrightarrow> gFields g' ! j = gFields demo_target ! j"
    using strict_injection_exact [OF a _ _ _ i] by (auto simp: demo_target_simps)
  then show ?thesis using v a by auto
qed

end
