(* ===== verification/PluginDispatch.thy ===== *)
theory PluginDispatch
  imports GoStrings "HOL-Library.AList" "HOL-Library.List_Lexorder"
begin

text \<open>
  Dynamic routes and plugin registration (\<open>pkg/bear/plugin.go\<close>): the dispatcher with its routes by method,
  the match of a request path, the barrier that ends registration when the application starts, and the
  check of a plugin's path. Handlers are of any type \<open>'h\<close>. Go maps are association lists with distinct
  keys; the dispatcher and the barrier are those behind pointers that are not nil.
\<close>

datatype plugin_err_kind = ErrPluginHotReloadUnsupported | ErrPluginRouteConflict | PluginCtx

type_synonym plugin_err = "plugin_err_kind goerr"

section \<open>Paths\<close>

definition splitPluginPath :: "string \<Rightarrow> string list" where
  "splitPluginPath path = Split (CHR ''/'') (TrimPrefix path ''/'')"

definition normalizePluginPath :: "string \<Rightarrow> string" where
  "normalizePluginPath path =
     (let p = CHR ''/'' # TrimChar (CHR ''/'') (TrimSpace path) in
      if p = ''/'' then p else TrimSuffix p ''/'')"

text \<open>A parameter \<open>:name\<close>, a wildcard \<open>*name\<close>, or a literal segment.\<close>

definition is_param :: "string \<Rightarrow> bool" where
  "is_param segment \<longleftrightarrow> length segment > 1 \<and> hd segment = CHR '':''"

definition is_wild :: "string \<Rightarrow> bool" where
  "is_wild segment \<longleftrightarrow> length segment > 1 \<and> hd segment = CHR ''*''"

definition segmentShape :: "string \<Rightarrow> string" where
  "segmentShape segment = (if is_param segment \<or> is_wild segment then take 1 segment else segment)"

definition pluginRouteShape :: "string \<Rightarrow> string" where
  "pluginRouteShape path = Join (CHR ''/'') (map segmentShape (splitPluginPath path))"

section \<open>Routes\<close>

record 'h proute =
  prHandler :: 'h
  prSegments :: "string list"
  prDynamic :: bool

record 'h method_routes =
  mrRoutes :: "(string \<times> 'h proute) list"
  mrShapes :: "(string \<times> string) list"
  mrOrder :: "string list"

type_synonym 'h dispatcher = "(string \<times> 'h method_routes) list"

definition newPluginDispatcher :: "'h dispatcher" where
  "newPluginDispatcher = []"

definition newPluginRoute :: "string \<Rightarrow> 'h \<Rightarrow> 'h proute" where
  "newPluginRoute path handler =
     (let segments = splitPluginPath path in
      \<lparr>prHandler = handler, prSegments = segments,
       prDynamic = list_ex (\<lambda>segment. is_param segment \<or> is_wild segment) segments\<rparr>)"

definition empty_routes :: "'h method_routes" where
  "empty_routes = \<lparr>mrRoutes = [], mrShapes = [], mrOrder = []\<rparr>"

definition methodRoutes :: "string \<Rightarrow> 'h dispatcher \<Rightarrow> 'h method_routes" where
  "methodRoutes method d = (case map_of d method of None \<Rightarrow> empty_routes | Some routes \<Rightarrow> routes)"

definition conflictError :: "string \<Rightarrow> string \<Rightarrow> string \<Rightarrow> plugin_err" where
  "conflictError method path registeredPath =
     sentinel ErrPluginRouteConflict (''plugin route conflicts with an existing dynamic route: '' @ method @ '' '' @ path @
       '' conflicts with '' @ registeredPath)"

definition addRoute :: "string \<Rightarrow> 'h \<Rightarrow> 'h method_routes \<Rightarrow> 'h method_routes" where
  "addRoute path h routes = routes\<lparr>
     mrOrder := (if map_of (mrRoutes routes) path = None then mrOrder routes @ [path] else mrOrder routes),
     mrRoutes := AList.update path (newPluginRoute path h) (mrRoutes routes),
     mrShapes := AList.update (pluginRouteShape path) path (mrShapes routes)\<rparr>"

definition RegisterE :: "string \<Rightarrow> string \<Rightarrow> 'h option \<Rightarrow> 'h dispatcher \<Rightarrow> plugin_err option \<times> 'h dispatcher" where
  "RegisterE method0 path0 handler d =
     (case handler of
        None \<Rightarrow> (Some (errorf ''plugin route handler must not be nil''), d)
      | Some h \<Rightarrow>
          (let method = ToUpper (TrimSpace method0);
               path = normalizePluginPath path0;
               shape = pluginRouteShape path;
               routes = methodRoutes method d;
               d1 = AList.update method routes d in
           case map_of (mrShapes routes) shape of
             Some registeredPath \<Rightarrow>
               (if registeredPath \<noteq> path then (Some (conflictError method path registeredPath), d1)
                else (None, AList.update method (addRoute path h routes) d1))
           | None \<Rightarrow> (None, AList.update method (addRoute path h routes) d1)))"

text \<open>\<open>Register\<close> logs the error and drops it.\<close>

definition Register :: "string \<Rightarrow> string \<Rightarrow> 'h option \<Rightarrow> 'h dispatcher \<Rightarrow> 'h dispatcher" where
  "Register method path handler d = snd (RegisterE method path handler d)"

definition Unregister :: "string \<Rightarrow> string \<Rightarrow> 'h dispatcher \<Rightarrow> 'h dispatcher" where
  "Unregister method0 path0 d =
     (let method = ToUpper (TrimSpace method0); path = normalizePluginPath path0 in
      case map_of d method of
        None \<Rightarrow> d
      | Some routes \<Rightarrow> AList.update method (routes\<lparr>
          mrShapes := (if map_of (mrRoutes routes) path \<noteq> None
             then AList.delete (pluginRouteShape path) (mrShapes routes) else mrShapes routes),
          mrRoutes := AList.delete path (mrRoutes routes)\<rparr>) d)"

section \<open>Matching\<close>

definition segmentSpecificity :: "string \<Rightarrow> nat" where
  "segmentSpecificity segment = (if is_wild segment then 0 else if is_param segment then 1 else 2)"

definition specificity :: "'h proute \<Rightarrow> nat list" where
  "specificity r = map segmentSpecificity (prSegments r)"

fun pluginRouteMoreSpecific :: "nat list \<Rightarrow> nat list \<Rightarrow> bool" where
  "pluginRouteMoreSpecific (c # cs) (d # ds) = (if c \<noteq> d then c > d else pluginRouteMoreSpecific cs ds)"
| "pluginRouteMoreSpecific cs ds = (length cs > length ds)"

type_synonym params = "(string \<times> string) list"

text \<open>The loop of \<open>match\<close> over the segments that are left, of the route and of the path.\<close>

fun matchSegments :: "params \<Rightarrow> string list \<Rightarrow> string list \<Rightarrow> params option" where
  "matchSegments ps [] path = (if path = [] then Some ps else None)"
| "matchSegments ps (segment # segments) path =
     (if is_wild segment
      then (if segments \<noteq> [] \<or> path = [] then None
            else Some (ps @ [(tl segment, CHR ''/'' # Join (CHR ''/'') path)]))
      else case path of
        [] \<Rightarrow> None
      | s # rest \<Rightarrow>
          (if is_param segment
           then (if s = [] then None else matchSegments (ps @ [(tl segment, s)]) segments rest)
           else if segment \<noteq> s then None
           else matchSegments ps segments rest))"

definition route_match :: "'h proute \<Rightarrow> string list \<Rightarrow> params option" where
  "route_match r pathSegments = matchSegments [] (prSegments r) pathSegments"

text \<open>The loop over the registered paths, with the best route so far.\<close>

fun bestRoute :: "(string \<times> 'h proute) list \<Rightarrow> string list \<Rightarrow> string list \<Rightarrow> (nat list \<times> 'h \<times> params) option \<Rightarrow>
    (nat list \<times> 'h \<times> params) option" where
  "bestRoute routes pathSegments [] best = best"
| "bestRoute routes pathSegments (registeredPath # rest) best =
     bestRoute routes pathSegments rest
       (case map_of routes registeredPath of
          None \<Rightarrow> best
        | Some route \<Rightarrow>
            (if \<not> prDynamic route then best
             else case route_match route pathSegments of
               None \<Rightarrow> best
             | Some params \<Rightarrow>
                 (let candidate = (specificity route, prHandler route, params) in
                  case best of
                    None \<Rightarrow> Some candidate
                  | Some (current, _, _) \<Rightarrow>
                      (if pluginRouteMoreSpecific (specificity route) current then Some candidate else best))))"

definition pmatch :: "string \<Rightarrow> string \<Rightarrow> 'h dispatcher \<Rightarrow> ('h \<times> params) option" where
  "pmatch method path d =
     (case map_of d method of
        None \<Rightarrow> None
      | Some routes \<Rightarrow>
          (case (case map_of (mrRoutes routes) path of
                   None \<Rightarrow> None | Some route \<Rightarrow> if prDynamic route then None else Some route) of
             Some route \<Rightarrow> Some (prHandler route, [])
           | None \<Rightarrow> map_option snd (bestRoute (mrRoutes routes) (splitPluginPath path) (mrOrder routes) None)))"

text \<open>What the middleware does with a request: the next handler of the chain, or the plugin's handler with
  its parameters and no other after it.\<close>

datatype 'h dispatched = Next | Handled 'h params

definition dispatch :: "bool \<Rightarrow> string \<Rightarrow> string \<Rightarrow> string \<Rightarrow> 'h dispatcher \<Rightarrow> 'h dispatched" where
  "dispatch fallbackOnly fullPath method path d =
     (if fallbackOnly \<and> fullPath \<noteq> [] then Next
      else case pmatch method path d of
        Some (handler, params) \<Rightarrow> Handled handler params
      | None \<Rightarrow> Next)"

section \<open>The registration barrier\<close>

text \<open>
  Each call is cut where it holds the lock. \<open>transition\<close> is whether a call of \<open>close\<close> is waiting for
  the running registrations; \<open>committed\<close> counts the commits such calls have run.
\<close>

record barrier =
  registrations :: nat
  blocked :: bool
  transition :: bool
  committed :: nat

definition newPluginRegistrationBarrier :: barrier where
  "newPluginRegistrationBarrier = \<lparr>registrations = 0, blocked = False, transition = False, committed = 0\<rparr>"

definition barrier_begin :: "barrier \<Rightarrow> plugin_err option \<times> barrier" where
  "barrier_begin b =
     (if blocked b
      then (Some (sentinel ErrPluginHotReloadUnsupported
             ''plugin hot reload unsupported after application startup begins; use rolling replacement''), b)
      else (None, b\<lparr>registrations := registrations b + 1\<rparr>))"

definition barrier_end :: "barrier \<Rightarrow> barrier" where
  "barrier_end b = (if registrations b > 0 then b\<lparr>registrations := registrations b - 1\<rparr> else b)"

text \<open>What \<open>closeWithCommit\<close> does when it gets the lock at the top of its loop: return, wait for the
  transition of another call, or begin one and wait for the registrations.\<close>

datatype close_state = Returned | WaitsForTransition | WaitsForRegistrations

definition close_enter :: "barrier \<Rightarrow> close_state \<times> barrier" where
  "close_enter b =
     (if blocked b then (if transition b then WaitsForTransition else Returned, b)
      else (WaitsForRegistrations, b\<lparr>blocked := True, transition := True\<rparr>))"

text \<open>What a call that waits for the registrations does when it has the lock: go on waiting, or commit; and
  when its context is done.\<close>

definition close_proceed :: "bool \<Rightarrow> barrier \<Rightarrow> close_state \<times> barrier" where
  "close_proceed commit b =
     (if registrations b > 0 then (WaitsForRegistrations, b)
      else (Returned, b\<lparr>transition := False, committed := committed b + (if commit then 1 else 0)\<rparr>))"

definition close_cancel :: "barrier \<Rightarrow> barrier" where
  "close_cancel b = b\<lparr>blocked := False, transition := False\<rparr>"

text \<open>The system: the barrier, how many registrations run (their calls of \<open>begin\<close> have succeeded, those of
  \<open>end\<close> are to come), and whether a call of \<open>close\<close> waits for them.\<close>

record barrier_system =
  bar :: barrier
  running :: nat
  closer :: bool

inductive barrier_step :: "barrier_system \<Rightarrow> barrier_system \<Rightarrow> bool" where
  begun: "barrier_begin (bar s) = (None, b) \<Longrightarrow> barrier_step s (s\<lparr>bar := b, running := running s + 1\<rparr>)"
| refused: "barrier_begin (bar s) = (Some e, b) \<Longrightarrow> barrier_step s (s\<lparr>bar := b\<rparr>)"
| finish: "running s > 0 \<Longrightarrow> barrier_step s (s\<lparr>bar := barrier_end (bar s), running := running s - 1\<rparr>)"
| enter: "close_enter (bar s) = (WaitsForRegistrations, b) \<Longrightarrow> barrier_step s (s\<lparr>bar := b, closer := True\<rparr>)"
| await: "close_enter (bar s) = (WaitsForTransition, b) \<Longrightarrow> barrier_step s (s\<lparr>bar := b\<rparr>)"
| already: "close_enter (bar s) = (Returned, b) \<Longrightarrow> barrier_step s (s\<lparr>bar := b\<rparr>)"
| proceed: "closer s \<Longrightarrow> close_proceed commit (bar s) = (Returned, b) \<Longrightarrow> barrier_step s (s\<lparr>bar := b, closer := False\<rparr>)"
| cancel: "closer s \<Longrightarrow> barrier_step s (s\<lparr>bar := close_cancel (bar s), closer := False\<rparr>)"

code_pred barrier_step .

definition barrier_start :: barrier_system where
  "barrier_start = \<lparr>bar = newPluginRegistrationBarrier, running = 0, closer = False\<rparr>"

text \<open>\<open>withRegistration\<close>: the registration runs between \<open>begin\<close> and \<open>end\<close>.\<close>

definition withRegistration :: "('w \<Rightarrow> plugin_err option \<times> 'w) \<Rightarrow> barrier \<Rightarrow> 'w \<Rightarrow> plugin_err option \<times> barrier \<times> 'w" where
  "withRegistration register b w =
     (case barrier_begin b of
        (Some e, b) \<Rightarrow> (Some e, b, w)
      | (None, b) \<Rightarrow> (case register w of (r, w') \<Rightarrow> (r, barrier_end b, w')))"

section \<open>The path of a plugin\<close>

text \<open>
  \<open>filepath.Abs\<close> and \<open>filepath.EvalSymlinks\<close> depend on the working directory and the file system and are
  inputs; both return clean absolute paths. \<open>filepath.Rel\<close> of two such paths goes up to their common
  part and down again.
\<close>

datatype resolved = Resolved string | NotExist | Fails plugin_err

fun strip_common :: "string list \<Rightarrow> string list \<Rightarrow> string list \<times> string list" where
  "strip_common (a # as) (b # bs) = (if a = b then strip_common as bs else (a # as, b # bs))"
| "strip_common as bs = (as, bs)"

definition path_parts :: "string \<Rightarrow> string list" where
  "path_parts p = (let q = TrimPrefix p ''/'' in if q = [] then [] else Split (CHR ''/'') q)"

definition filepath_Rel :: "string \<Rightarrow> string \<Rightarrow> string" where
  "filepath_Rel base targ =
     (case strip_common (path_parts base) (path_parts targ) of
        (up, down) \<Rightarrow> (if up = [] \<and> down = [] then ''.''
                      else Join (CHR ''/'') (replicate (length up) ''..'' @ down)))"

definition stringsHasPathTraversal :: "string \<Rightarrow> bool" where
  "stringsHasPathTraversal rel \<longleftrightarrow> rel = ''..'' \<or> HasPrefix rel ''../''"

record plugins_config =
  plEnabled :: bool
  plAllowedDirs :: "string list"

record file_system =
  fsAbs :: "string \<Rightarrow> plugin_err + string"
  fsEvalSymlinks :: "string \<Rightarrow> resolved"

text \<open>The clean path of a name, or the error.\<close>

definition clean_path :: "file_system \<Rightarrow> string \<Rightarrow> string \<Rightarrow> plugin_err + string" where
  "clean_path fs what name =
     (case fsAbs fs name of
        Inl e \<Rightarrow> Inl (wrapf (what @ name @ '': '') e)
      | Inr absolute \<Rightarrow>
          (case fsEvalSymlinks fs absolute of
             Resolved p \<Rightarrow> Inr p
           | NotExist \<Rightarrow> Inr absolute
           | Fails e \<Rightarrow> Inl (wrapf (what @ name @ '': '') e)))"

fun allowed_in :: "file_system \<Rightarrow> string \<Rightarrow> string \<Rightarrow> string list \<Rightarrow> plugin_err option" where
  "allowed_in fs path cleanPath [] = Some (errorf (''plugin path '' @ path @ '' is not allowed''))"
| "allowed_in fs path cleanPath (dir # dirs) =
     (case clean_path fs ''invalid plugin directory '' dir of
        Inl e \<Rightarrow> Some e
      | Inr cleanDir \<Rightarrow>
          (if cleanPath = cleanDir then Some (errorf (''plugin path '' @ path @ '' is not a file''))
           else let rel = filepath_Rel cleanDir cleanPath in
           if rel \<noteq> ''.'' \<and> \<not> stringsHasPathTraversal rel then None
           else allowed_in fs path cleanPath dirs))"

definition validatePluginPathForConfig :: "file_system \<Rightarrow> string \<Rightarrow> plugins_config option \<Rightarrow> plugin_err option" where
  "validatePluginPathForConfig fs path config =
     (case config of
        None \<Rightarrow> Some (errorf ''dynamic plugin loading is disabled'')
      | Some c \<Rightarrow>
          (if \<not> plEnabled c then Some (errorf ''dynamic plugin loading is disabled'')
           else if plAllowedDirs c = []
           then Some (errorf ''dynamic plugin loading requires allowed plugin directories'')
           else case clean_path fs ''invalid plugin path '' path of
             Inl e \<Rightarrow> Some e
           | Inr cleanPath \<Rightarrow> allowed_in fs path cleanPath (plAllowedDirs c)))"

end
