(* ===== verification/PluginDispatchProps.thy ===== *)
theory PluginDispatchProps
  imports PluginDispatch
begin

text \<open>
  The dispatcher picks the most specific route whatever the order of registration, its parameters rebuild
  the path; the barrier, once closed, stays closed with nothing running; an accepted plugin lies inside an
  allowed directory.
\<close>

section \<open>The dispatcher's invariant\<close>

lemma plugin_update [simp]: "map_of (AList.update k v m) j = (if j = k then Some v else map_of m j)"
  by (simp add: AList.update_conv)

lemma plugin_delete [simp]: "map_of (AList.delete k m) j = (if j = k then None else map_of m j)"
  by (simp add: AList.delete_conv)

definition routes_ok :: "'h method_routes \<Rightarrow> bool" where
  "routes_ok m \<longleftrightarrow> (\<forall>p r. map_of (mrRoutes m) p = Some r \<longrightarrow>
     p \<in> set (mrOrder m) \<and> map_of (mrShapes m) (pluginRouteShape p) = Some p \<and> r = newPluginRoute p (prHandler r))"

definition dispatcher_ok :: "'h dispatcher \<Rightarrow> bool" where
  "dispatcher_ok d \<longleftrightarrow> (\<forall>method m. map_of d method = Some m \<longrightarrow> routes_ok m)"

lemma routes_okD:
  "routes_ok m \<Longrightarrow> map_of (mrRoutes m) p = Some r \<Longrightarrow>
   p \<in> set (mrOrder m) \<and> map_of (mrShapes m) (pluginRouteShape p) = Some p \<and> r = newPluginRoute p (prHandler r)"
  by (simp add: routes_ok_def)

lemma routes_okI:
  "(\<And>p r. map_of (mrRoutes m) p = Some r \<Longrightarrow>
     p \<in> set (mrOrder m) \<and> map_of (mrShapes m) (pluginRouteShape p) = Some p \<and> r = newPluginRoute p (prHandler r)) \<Longrightarrow>
   routes_ok m"
  by (simp add: routes_ok_def)

lemma routes_ok_empty [simp]: "routes_ok empty_routes"
  by (simp add: routes_ok_def empty_routes_def)

lemma newPluginRoute_simps [simp]:
  "prHandler (newPluginRoute p h) = h" "prSegments (newPluginRoute p h) = splitPluginPath p"
  by (simp_all add: newPluginRoute_def Let_def)

lemma routes_ok_segments: "routes_ok m \<Longrightarrow> map_of (mrRoutes m) p = Some r \<Longrightarrow> prSegments r = splitPluginPath p"
  using routes_okD newPluginRoute_simps(2) by metis

lemma routes_ok_add:
  assumes "routes_ok m" and "map_of (mrShapes m) (pluginRouteShape path) = None \<or>
      map_of (mrShapes m) (pluginRouteShape path) = Some path"
  shows "routes_ok (addRoute path h m)"
proof (rule routes_okI)
  fix p r assume p: "map_of (mrRoutes (addRoute path h m)) p = Some r"
  show "p \<in> set (mrOrder (addRoute path h m)) \<and>
      map_of (mrShapes (addRoute path h m)) (pluginRouteShape p) = Some p \<and> r = newPluginRoute p (prHandler r)"
  proof (cases "p = path")
    case True
    then show ?thesis using p routes_okD [OF assms(1), of path] by (auto simp: addRoute_def)
  next
    case False
    then have "map_of (mrRoutes m) p = Some r" using p by (simp add: addRoute_def)
    then show ?thesis using routes_okD [OF assms(1)] assms(2) False by (fastforce simp: addRoute_def)
  qed
qed

lemma dispatcher_ok_update: "dispatcher_ok d \<Longrightarrow> routes_ok m \<Longrightarrow> dispatcher_ok (AList.update method m d)"
  by (simp add: dispatcher_ok_def)

lemma dispatcher_okD: "dispatcher_ok d \<Longrightarrow> map_of d method = Some m \<Longrightarrow> routes_ok m"
  by (simp add: dispatcher_ok_def)

lemma RegisterE_ok:
  assumes "dispatcher_ok d"
  shows "dispatcher_ok (snd (RegisterE method path h d))"
proof -
  let ?m = "methodRoutes (ToUpper (TrimSpace method)) d"
  have m: "routes_ok ?m"
    using assms unfolding dispatcher_ok_def methodRoutes_def by (auto split: option.split)
  show ?thesis
    using assms m routes_ok_add [OF m] unfolding RegisterE_def
    by (auto simp: Let_def dispatcher_ok_update split: option.split)
qed

lemma Unregister_ok:
  assumes "dispatcher_ok d"
  shows "dispatcher_ok (Unregister method path d)"
proof -
  let ?p = "normalizePluginPath path"
  have "routes_ok (m\<lparr>mrShapes := (if map_of (mrRoutes m) ?p \<noteq> None
             then AList.delete (pluginRouteShape ?p) (mrShapes m) else mrShapes m),
          mrRoutes := AList.delete ?p (mrRoutes m)\<rparr>)" (is "routes_ok ?m")
    if ok: "routes_ok m" for m :: "'a method_routes"
  proof (rule routes_okI)
    fix p r assume "map_of (mrRoutes ?m) p = Some r"
    then have p: "map_of (mrRoutes m) p = Some r" "p \<noteq> ?p" by (auto split: if_splits)
    have "pluginRouteShape p \<noteq> pluginRouteShape ?p" if "map_of (mrRoutes m) ?p = Some r'" for r'
      using routes_okD [OF ok p(1)] routes_okD [OF ok that] p(2) by auto
    then show "p \<in> set (mrOrder ?m) \<and> map_of (mrShapes ?m) (pluginRouteShape p) = Some p \<and> r = newPluginRoute p (prHandler r)"
      using routes_okD [OF ok p(1)] by (cases "map_of (mrRoutes m) ?p") auto
  qed
  then show ?thesis
    using assms by (cases "map_of d (ToUpper (TrimSpace method))")
      (simp_all add: Unregister_def Let_def dispatcher_ok_update dispatcher_okD del: not_None_eq)
qed

text \<open>The dispatchers that calls can build.\<close>

datatype 'h plugin_call = PRegister string string "'h option" | PUnregister string string

fun do_call :: "'h plugin_call \<Rightarrow> 'h dispatcher \<Rightarrow> 'h dispatcher" where
  "do_call (PRegister method path h) d = snd (RegisterE method path h d)"
| "do_call (PUnregister method path) d = Unregister method path d"

definition built :: "'h plugin_call list \<Rightarrow> 'h dispatcher" where
  "built cs = fold do_call cs newPluginDispatcher"

lemma do_call_ok: "dispatcher_ok d \<Longrightarrow> dispatcher_ok (do_call c d)"
  by (cases c) (simp_all add: RegisterE_ok Unregister_ok)

lemma built_ok: "dispatcher_ok (built cs)"
proof -
  have "dispatcher_ok d \<Longrightarrow> dispatcher_ok (fold do_call cs d)" for d
    by (induction cs arbitrary: d) (simp_all add: do_call_ok)
  moreover have "dispatcher_ok newPluginDispatcher" by (simp add: newPluginDispatcher_def dispatcher_ok_def)
  ultimately show ?thesis by (simp add: built_def)
qed

section \<open>The most specific route\<close>

lemma Nil_less_iff: "[] < (cs :: nat list) \<longleftrightarrow> cs \<noteq> []"
  by (cases cs) auto

lemma more_specific_less: "pluginRouteMoreSpecific cs ds \<longleftrightarrow> ds < cs"
  by (induction cs ds rule: pluginRouteMoreSpecific.induct) (auto simp: Nil_less_iff)

lemma same_shapes:
  assumes "matchSegments ps xs path = Some q" and "matchSegments ps' ys path = Some q'"
    and "map segmentSpecificity xs = map segmentSpecificity ys"
  shows "map segmentShape xs = map segmentShape ys"
  using assms
proof (induction xs arbitrary: ys path ps ps')
  case (Cons x xs)
  then obtain y ys' where ys: "ys = y # ys'" by (cases ys) auto
  have kind: "is_wild x = is_wild y" "\<not> is_wild x \<Longrightarrow> is_param x = is_param y"
    using Cons.prems(3) ys by (auto simp: segmentSpecificity_def split: if_splits)
  have rest: "map segmentSpecificity xs = map segmentSpecificity ys'" using Cons.prems(3) ys by simp
  show ?case
  proof (cases "is_wild x")
    case True
    then have "xs = []" "ys' = []" using Cons.prems(1,2) kind ys by (auto split: if_splits)
    moreover have "segmentShape x = segmentShape y"
      using True kind(1) unfolding segmentShape_def is_wild_def by (cases x; cases y) auto
    ultimately show ?thesis using ys by simp
  next
    case False
    then obtain s path' where path: "path = s # path'"
      using Cons.prems(1) by (cases path) auto
    have IH: "map segmentShape xs = map segmentShape ys'"
    proof (cases "is_param x")
      case True
      then show ?thesis
        using Cons.IH [of _ path' _ ys'] Cons.prems(1,2) False kind rest ys path by (auto split: if_splits)
    next
      case False
      then show ?thesis
        using Cons.IH [of _ path' _ ys'] Cons.prems(1,2) \<open>\<not> is_wild x\<close> kind rest ys path by (auto split: if_splits)
    qed
    have "segmentShape x = segmentShape y"
    proof (cases "is_param x")
      case True
      then show ?thesis using kind False unfolding segmentShape_def is_param_def by (cases x; cases y) auto
    next
      case False
      then have "x = s" "y = s" using Cons.prems(1,2) \<open>\<not> is_wild x\<close> kind ys path by (auto split: if_splits)
      then show ?thesis by simp
    qed
    then show ?thesis using IH ys by simp
  qed
qed auto

text \<open>A route as a candidate for a path.\<close>

definition candidate :: "(string \<times> 'h proute) list \<Rightarrow> string list \<Rightarrow> string \<Rightarrow> (nat list \<times> 'h \<times> params) option" where
  "candidate routes segs p =
     (case map_of routes p of
        None \<Rightarrow> None
      | Some r \<Rightarrow> (if prDynamic r then map_option (\<lambda>ps. (specificity r, prHandler r, ps)) (route_match r segs) else None))"

fun better :: "('a :: linorder \<times> 'b) option \<Rightarrow> ('a \<times> 'b) option \<Rightarrow> ('a \<times> 'b) option" where
  "better best None = best"
| "better None (Some c) = Some c"
| "better (Some b) (Some c) = (if fst b < fst c then Some c else Some b)"

lemma bestRoute_fold: "bestRoute routes segs ps best = foldl better best (map (candidate routes segs) ps)"
proof (induction ps arbitrary: best)
  case (Cons p ps)
  have "bestRoute routes segs (p # ps) best = bestRoute routes segs ps (better best (candidate routes segs p))"
    by (cases best) (auto simp: candidate_def Let_def more_specific_less split: option.split)
  then show ?case using Cons by simp
qed simp

lemma better_cases:
  "better best c = None \<longleftrightarrow> best = None \<and> c = None"
  "better best c = Some z \<Longrightarrow> (best = Some z \<or> c = Some z) \<and> (\<forall>y. best = Some y \<or> c = Some y \<longrightarrow> fst y \<le> fst z)"
proof -
  show "better best c = None \<longleftrightarrow> best = None \<and> c = None"
    by (cases best; cases c) simp_all
  show "(best = Some z \<or> c = Some z) \<and> (\<forall>y. best = Some y \<or> c = Some y \<longrightarrow> fst y \<le> fst z)" if "better best c = Some z"
    using that by (cases best; cases c) (auto split: if_splits)
qed

lemma foldl_better_None: "foldl better best cs = None \<Longrightarrow> best = None \<and> (\<forall>c \<in> set cs. c = None)"
proof (induction cs arbitrary: best)
  case (Cons c cs)
  have "better best c = None \<and> (\<forall>c \<in> set cs. c = None)" using Cons.IH [of "better best c"] Cons.prems by simp
  then show ?case by (simp add: better_cases(1))
qed simp

lemma foldl_better_Some:
  "foldl better best cs = Some x \<Longrightarrow>
   (best = Some x \<or> Some x \<in> set cs) \<and> (\<forall>y. best = Some y \<or> Some y \<in> set cs \<longrightarrow> fst y \<le> fst x)"
proof (induction cs arbitrary: best)
  case (Cons c cs)
  have p: "foldl better (better best c) cs = Some x" using Cons.prems by simp
  note IH = conjunct1 [OF Cons.IH [OF p]] conjunct2 [OF Cons.IH [OF p], rule_format]
  show ?case
  proof (cases "better best c")
    case None
    then show ?thesis using IH by (auto simp: better_cases(1))
  next
    case (Some z)
    note z = better_cases(2) [OF Some]
    have "fst z \<le> fst x" using IH(2) Some by simp
    moreover have "best = Some x \<or> Some x \<in> set (c # cs)" using IH(1) Some z by auto
    ultimately show ?thesis using z IH(2) by (metis order_trans set_ConsD)
  qed
qed auto

lemma candidate_iff:
  "candidate routes segs p = Some (sp, h, qs) \<longleftrightarrow>
   (\<exists>r. map_of routes p = Some r \<and> prDynamic r \<and> prHandler r = h \<and> route_match r segs = Some qs \<and> sp = specificity r)"
  by (auto simp: candidate_def split: option.splits)

lemma candidate_route:
  assumes "candidate routes segs p = Some c"
  obtains r q where "map_of routes p = Some r" "route_match r segs = Some q" "fst c = specificity r"
  using assms by (cases c) (auto simp: candidate_iff)

text \<open>Two registered candidates of the same specificity are one route.\<close>

lemma candidate_unique:
  assumes ok: "routes_ok m" and c: "candidate (mrRoutes m) segs p = Some c" "candidate (mrRoutes m) segs p' = Some c'"
    and eq: "fst c = fst c'"
  shows "p = p'"
proof -
  obtain r q where r: "map_of (mrRoutes m) p = Some r" "route_match r segs = Some q" "fst c = specificity r"
    using candidate_route [OF c(1)] .
  obtain r' q' where r': "map_of (mrRoutes m) p' = Some r'" "route_match r' segs = Some q'" "fst c' = specificity r'"
    using candidate_route [OF c(2)] .
  have "map segmentShape (prSegments r) = map segmentShape (prSegments r')"
    using same_shapes [of "[]" "prSegments r" segs q "[]" "prSegments r'" q'] r r' eq
    by (simp add: route_match_def specificity_def)
  then have eqs: "pluginRouteShape p = pluginRouteShape p'"
    unfolding pluginRouteShape_def routes_ok_segments [OF ok r(1)] routes_ok_segments [OF ok r'(1)]
    by (rule arg_cong)
  have "Some p = map_of (mrShapes m) (pluginRouteShape p)" using routes_okD [OF ok r(1)] by (elim conjE) (rule sym)
  also have "\<dots> = map_of (mrShapes m) (pluginRouteShape p')" by (simp only: eqs)
  also have "\<dots> = Some p'" using routes_okD [OF ok r'(1)] by (elim conjE)
  finally show ?thesis by simp
qed

lemma candidate_listed: "routes_ok m \<Longrightarrow> candidate (mrRoutes m) segs p = Some c \<Longrightarrow>
    Some c \<in> set (map (candidate (mrRoutes m) segs) (mrOrder m))"
proof -
  assume ok: "routes_ok m" and c: "candidate (mrRoutes m) segs p = Some c"
  have "p \<in> set (mrOrder m)" using c routes_okD [OF ok, of p] by (auto simp: candidate_def split: option.splits)
  then have "candidate (mrRoutes m) segs p \<in> set (map (candidate (mrRoutes m) segs) (mrOrder m))" by simp
  then show ?thesis unfolding c .
qed

lemma best_candidate:
  assumes ok: "routes_ok m"
  shows "foldl better None (map (candidate (mrRoutes m) segs) (mrOrder m)) = Some x \<longleftrightarrow>
    (\<exists>p. candidate (mrRoutes m) segs p = Some x \<and>
       (\<forall>p' c'. candidate (mrRoutes m) segs p' = Some c' \<and> p' \<noteq> p \<longrightarrow> fst c' < fst x))"
    (is "?best = Some x \<longleftrightarrow> (\<exists>p. ?top p x)")
proof
  have some: "\<exists>p. ?top p y" if y: "?best = Some y" for y
  proof -
    note best = foldl_better_Some [OF y]
    obtain p where p: "candidate (mrRoutes m) segs p = Some y" using best by auto
    have "fst c' < fst y" if c: "candidate (mrRoutes m) segs p' = Some c'" "p' \<noteq> p" for p' c'
    proof -
      have "fst c' \<le> fst y" using best candidate_listed [OF ok c(1)] by blast
      then show ?thesis using candidate_unique [OF ok p c(1)] c(2) by force
    qed
    then show ?thesis using p by blast
  qed
  show "\<exists>p. ?top p x" if "?best = Some x" using some [OF that] .
  assume "\<exists>p. ?top p x"
  then obtain p where p: "?top p x" by blast
  show "?best = Some x"
  proof (cases ?best)
    case None
    have "Some x \<in> set (map (candidate (mrRoutes m) segs) (mrOrder m))" using candidate_listed [OF ok] p by blast
    then show ?thesis using foldl_better_None [OF None] by blast
  next
    case (Some y)
    obtain p' where p': "?top p' y" using some [OF Some] by blast
    have "p' = p" using p p' by (metis less_asym)
    then show ?thesis using Some p p' by simp
  qed
qed

lemma others_less:
  "(\<forall>p' c'. candidate routes segs p' = Some c' \<and> p' \<noteq> p \<longrightarrow> fst c' < sp) \<longleftrightarrow>
   (\<forall>p' r'. map_of routes p' = Some r' \<and> prDynamic r' \<and> route_match r' segs \<noteq> None \<and> p' \<noteq> p \<longrightarrow> specificity r' < sp)"
  (is "?cands \<longleftrightarrow> ?routes")
proof (intro iffI allI impI)
  fix p' r' assume all: ?cands
    and r': "map_of routes p' = Some r' \<and> prDynamic r' \<and> route_match r' segs \<noteq> None \<and> p' \<noteq> p"
  then obtain q where "candidate routes segs p' = Some (specificity r', prHandler r', q)" by (auto simp: candidate_def)
  then show "specificity r' < sp" using all r' by fastforce
next
  fix p' c' assume all: ?routes and c': "candidate routes segs p' = Some c' \<and> p' \<noteq> p"
  obtain sp' h' q' where e: "c' = (sp', h', q')" by (cases c')
  then obtain r' where r': "map_of routes p' = Some r'" "prDynamic r'" "route_match r' segs = Some q'" "sp' = specificity r'"
    using c' unfolding e candidate_iff by blast
  then have "specificity r' < sp" using all c' by blast
  then show "fst c' < sp" using e r'(4) by simp
qed

text \<open>C31: The dispatcher picks by specificity alone: unless a literal route has the very path, it answers with
  the route that matches and is more specific than every other registered route that matches, and with
  none exactly if none matches. The order of registration and removal does not matter.\<close>

theorem dispatch_is_most_specific:
  assumes "map_of (built cs) method = Some m"
    and "\<forall>r. map_of (mrRoutes m) path = Some r \<longrightarrow> prDynamic r"
  shows "pmatch method path (built cs) = Some (h, ps) \<longleftrightarrow>
    (\<exists>p r. map_of (mrRoutes m) p = Some r \<and> prDynamic r \<and> prHandler r = h \<and>
       route_match r (splitPluginPath path) = Some ps \<and>
       (\<forall>p' r'. map_of (mrRoutes m) p' = Some r' \<and> prDynamic r' \<and> route_match r' (splitPluginPath path) \<noteq> None \<and> p' \<noteq> p \<longrightarrow>
          pluginRouteMoreSpecific (specificity r) (specificity r')))"
proof -
  let ?segs = "splitPluginPath path"
  let ?cand = "candidate (mrRoutes m) ?segs"
  have ok: "routes_ok m" using built_ok [of cs] assms(1) by (simp add: dispatcher_ok_def)
  have "pmatch method path (built cs) = map_option snd (foldl better None (map ?cand (mrOrder m)))"
    using assms(1,2) by (auto simp: pmatch_def bestRoute_fold split: option.split)
  then have "pmatch method path (built cs) = Some (h, ps) \<longleftrightarrow>
      (\<exists>sp. foldl better None (map ?cand (mrOrder m)) = Some (sp, h, ps))"
    by auto
  also have "\<dots> \<longleftrightarrow> (\<exists>sp p. ?cand p = Some (sp, h, ps) \<and> (\<forall>p' c'. ?cand p' = Some c' \<and> p' \<noteq> p \<longrightarrow> fst c' < sp))"
    unfolding best_candidate [OF ok] by simp
  finally show ?thesis unfolding others_less candidate_iff more_specific_less by blast
qed

theorem dispatch_is_most_specific_witness:
  "pmatch ''GET'' ''/users/me'' (built [PRegister '' get'' ''/:kind/*rest'' (Some (1 :: nat)),
     PRegister ''GET'' ''users/:id/'' (Some 2)]) = Some (2, [(''id'', ''me'')])"
proof -
  let ?cs = "[PRegister '' get'' ''/:kind/*rest'' (Some (1 :: nat)), PRegister ''GET'' ''users/:id/'' (Some 2)]"
  let ?m = "methodRoutes ''GET'' (built ?cs)"
  have m: "map_of (built ?cs) ''GET'' = Some ?m" by code_simp
  have keys: "mrRoutes ?m = [(''/:kind/*rest'', newPluginRoute ''/:kind/*rest'' 1), (''/users/:id'', newPluginRoute ''/users/:id'' 2)]"
    by code_simp
  have v: "prDynamic (newPluginRoute ''/users/:id'' (2 :: nat))"
      "route_match (newPluginRoute ''/users/:id'' (2 :: nat)) (splitPluginPath ''/users/me'') = Some [(''id'', ''me'')]"
      "pluginRouteMoreSpecific (specificity (newPluginRoute ''/users/:id'' (2 :: nat))) (specificity (newPluginRoute ''/:kind/*rest'' (1 :: nat)))"
    by code_simp+
  have "\<forall>r. map_of (mrRoutes ?m) ''/users/me'' = Some r \<longrightarrow> prDynamic r" unfolding keys by simp
  from dispatch_is_most_specific [OF m this, of 2 "[(''id'', ''me'')]"] show ?thesis
    using v unfolding keys by (auto split: if_splits)
qed

section \<open>Parameters\<close>

text \<open>The path again: each parameter and the wildcard replaced by its value.\<close>

fun fill :: "string list \<Rightarrow> params \<Rightarrow> string list" where
  "fill [] ps = []"
| "fill (s # ss) ps =
     (if is_wild s then [tl (snd (hd ps))]
      else if is_param s then snd (hd ps) # fill ss (tl ps)
      else s # fill ss ps)"

lemma matchSegments_fill:
  "matchSegments acc segs path = Some ps \<Longrightarrow>
   \<exists>qs. ps = acc @ qs \<and> Join (CHR ''/'') (fill segs qs) = Join (CHR ''/'') path \<and>
     (path = [] \<longleftrightarrow> fill segs qs = []) \<and> map fst qs = map tl (filter (\<lambda>s. is_param s \<or> is_wild s) segs)"
proof (induction segs arbitrary: acc path)
  case (Cons x xs)
  show ?case
  proof (cases "is_wild x")
    case True
    then show ?thesis using Cons.prems by (auto split: if_splits)
  next
    case False
    then obtain s rest where path: "path = s # rest" using Cons.prems by (cases path) auto
    define acc' where "acc' = (if is_param x then acc @ [(tl x, s)] else acc)"
    have m: "matchSegments acc' xs rest = Some ps" and lit: "\<not> is_param x \<Longrightarrow> x = s"
      using Cons.prems False path by (auto simp: acc'_def split: if_splits)
    obtain qs where q: "ps = acc' @ qs" "Join (CHR ''/'') (fill xs qs) = Join (CHR ''/'') rest"
        "rest = [] \<longleftrightarrow> fill xs qs = []" "map fst qs = map tl (filter (\<lambda>s. is_param s \<or> is_wild s) xs)"
      using Cons.IH [OF m] by blast
    have join: "Join (CHR ''/'') (s # fill xs qs) = Join (CHR ''/'') (s # rest)"
      using q(2,3) by (cases "fill xs qs"; cases rest) auto
    show ?thesis
    proof (cases "is_param x")
      case True
      then show ?thesis using q join False path by (intro exI [of _ "(tl x, s) # qs"]) (simp add: acc'_def)
    next
      case False
      then show ?thesis using q join \<open>\<not> is_wild x\<close> path lit by (intro exI [of _ qs]) (simp add: acc'_def)
    qed
  qed
qed (auto split: if_splits)

text \<open>C32: The parameters of a match are the path: put in the place of their segments they give back the
  path that was requested, and each named segment of the route has its value, in order.\<close>

theorem params_rebuild_path:
  assumes "route_match r (splitPluginPath path) = Some ps" and "HasPrefix path ''/''"
  shows "CHR ''/'' # Join (CHR ''/'') (fill (prSegments r) ps) = path \<and>
    map fst ps = map tl (filter (\<lambda>s. is_param s \<or> is_wild s) (prSegments r))"
proof -
  obtain q where "path = CHR ''/'' # q" using assms(2) by (cases path) auto
  then have "Join (CHR ''/'') (splitPluginPath path) = tl path" "path = CHR ''/'' # tl path"
    by (simp_all add: splitPluginPath_def TrimPrefix_def Join_Split)
  then show ?thesis using matchSegments_fill [of "[]" "prSegments r" "splitPluginPath path" ps] assms(1)
    by (auto simp: route_match_def)
qed

theorem params_rebuild_path_witness:
  "CHR ''/'' # Join (CHR ''/'') (fill (prSegments (newPluginRoute ''/a/:id/*rest'' ())) [(''id'', ''7''), (''rest'', ''/x/y'')])
     = ''/a/7/x/y''"
proof -
  have "route_match (newPluginRoute ''/a/:id/*rest'' ()) (splitPluginPath ''/a/7/x/y'') = Some [(''id'', ''7''), (''rest'', ''/x/y'')]"
    by code_simp
  from params_rebuild_path [OF this] show ?thesis by simp
qed

section \<open>The barrier\<close>

definition barrier_ok :: "barrier_system \<Rightarrow> bool" where
  "barrier_ok s \<longleftrightarrow> registrations (bar s) = running s \<and> (closer s \<longleftrightarrow> transition (bar s)) \<and>
     (transition (bar s) \<longrightarrow> blocked (bar s)) \<and> (blocked (bar s) \<and> \<not> transition (bar s) \<longrightarrow> running s = 0) \<and>
     (blocked (bar s) \<and> \<not> transition (bar s) \<or> committed (bar s) = 0)"

definition closed :: "barrier_system \<Rightarrow> bool" where
  "closed s \<longleftrightarrow> blocked (bar s) \<and> \<not> transition (bar s)"

lemmas barrier_defs = barrier_begin_def barrier_end_def close_enter_def close_proceed_def close_cancel_def

lemma barrier_step_ok: "barrier_step s s' \<Longrightarrow> barrier_ok s \<Longrightarrow> barrier_ok s'"
  by (induction rule: barrier_step.induct) (auto simp: barrier_ok_def barrier_defs split: if_splits)

lemma barrier_step_closed:
  "barrier_step s s' \<Longrightarrow> barrier_ok s \<Longrightarrow> closed s \<Longrightarrow> closed s' \<and> committed (bar s') = committed (bar s)"
  by (induction rule: barrier_step.induct) (auto simp: barrier_ok_def closed_def barrier_defs split: if_splits)

lemma barrier_reachable: "barrier_step\<^sup>*\<^sup>* s s' \<Longrightarrow> barrier_ok s \<Longrightarrow> barrier_ok s'"
  by (induction rule: rtranclp_induct) (auto intro: barrier_step_ok)

lemma barrier_committed:
  "barrier_step\<^sup>*\<^sup>* s s' \<Longrightarrow> barrier_ok s \<Longrightarrow> committed (bar s) \<le> 1 \<Longrightarrow> committed (bar s') \<le> 1"
proof (induction rule: rtranclp_induct)
  case (step y z)
  have ok: "barrier_ok y" using barrier_reachable step by blast
  have y: "committed (bar y) \<le> 1" using step by simp
  show ?case
    using step(2) ok y by cases (auto simp: barrier_ok_def barrier_defs split: if_splits)
qed

text \<open>C33: Once the barrier is closed it stays closed: at that moment and ever after no registration runs, every
  new one is refused, and the commit that closed it was the only one.\<close>

theorem closed_barrier_stays_closed:
  assumes "barrier_step\<^sup>*\<^sup>* barrier_start s" and "blocked (bar s)" and "\<not> transition (bar s)" and "barrier_step\<^sup>*\<^sup>* s s'"
  shows "running s' = 0 \<and> registrations (bar s') = 0 \<and> fst (barrier_begin (bar s')) \<noteq> None \<and>
    committed (bar s') = committed (bar s) \<and> committed (bar s) \<le> 1"
proof -
  have start: "barrier_ok barrier_start" by (simp add: barrier_ok_def barrier_start_def newPluginRegistrationBarrier_def)
  have ok: "barrier_ok s" using barrier_reachable [OF assms(1) start] .
  have "closed s' \<and> committed (bar s') = committed (bar s)"
    using assms(4)
  proof (induction rule: rtranclp_induct)
    case base
    then show ?case using assms(2,3) by (simp add: closed_def)
  next
    case (step y z)
    then show ?case using barrier_step_closed [OF step(2)] barrier_reachable [OF step(1) ok] by simp
  qed
  moreover have "barrier_ok s'" using barrier_reachable [OF assms(4) ok] .
  moreover have "committed (bar s) \<le> 1"
    using barrier_committed [OF assms(1) start] by (simp add: barrier_start_def newPluginRegistrationBarrier_def)
  ultimately show ?thesis by (auto simp: closed_def barrier_ok_def barrier_begin_def)
qed

theorem closed_barrier_stays_closed_witness:
  "fst (barrier_begin \<lparr>registrations = 0, blocked = True, transition = False, committed = 1\<rparr>) \<noteq> None"
proof -
  let ?b0 = newPluginRegistrationBarrier
  let ?s0 = "\<lparr>bar = ?b0, running = 0, closer = False\<rparr>"
  let ?s1 = "\<lparr>bar = ?b0\<lparr>blocked := True, transition := True\<rparr>, running = 0, closer = True\<rparr>"
  let ?s2 = "\<lparr>bar = \<lparr>registrations = 0, blocked = True, transition = False, committed = 1\<rparr>, running = 0, closer = False\<rparr>"
  have "barrier_step ?s0 ?s1"
    using barrier_step.enter [of ?s0] by (simp add: close_enter_def newPluginRegistrationBarrier_def)
  moreover have "barrier_step ?s1 ?s2"
    using barrier_step.proceed [of ?s1 True] by (simp add: close_proceed_def newPluginRegistrationBarrier_def)
  ultimately have "barrier_step\<^sup>*\<^sup>* barrier_start ?s2" unfolding barrier_start_def by simp
  from closed_barrier_stays_closed [OF this, of ?s2] show ?thesis by simp
qed

section \<open>Plugin paths\<close>

lemma strip_common_eq:
  "strip_common as bs = (up, down) \<Longrightarrow> \<exists>c. as = c @ up \<and> bs = c @ down"
proof (induction as bs rule: strip_common.induct)
  case (1 a as b bs)
  show ?case
  proof (cases "a = b")
    case True
    then obtain c where "as = c @ up" "bs = c @ down" using 1 by auto
    then show ?thesis using True by (intro exI [of _ "a # c"]) simp
  next
    case False
    then show ?thesis using 1(2) by auto
  qed
qed auto

lemma Rel_inside:
  assumes "filepath_Rel base targ \<noteq> ''.''" and "\<not> stringsHasPathTraversal (filepath_Rel base targ)"
  shows "\<exists>down. down \<noteq> [] \<and> path_parts targ = path_parts base @ down"
proof -
  obtain up down where s: "strip_common (path_parts base) (path_parts targ) = (up, down)" by fastforce
  note e = strip_common_eq [OF s]
  have "up = []"
  proof (cases up)
    case (Cons u us)
    then have "stringsHasPathTraversal (filepath_Rel base targ)"
      using s by (cases "replicate (length us) ''..'' @ down")
        (simp_all add: filepath_Rel_def stringsHasPathTraversal_def Join_Cons HasPrefix_def)
    then show ?thesis using assms(2) by simp
  qed simp
  then show ?thesis using e s assms(1) by (auto simp: filepath_Rel_def)
qed

lemma allowed_in_inside:
  "allowed_in fs path cleanPath dirs = None \<Longrightarrow>
   \<exists>dir \<in> set dirs. \<exists>cleanDir down. clean_path fs ''invalid plugin directory '' dir = Inr cleanDir \<and> down \<noteq> [] \<and>
     path_parts cleanPath = path_parts cleanDir @ down"
proof (induction dirs)
  case (Cons dir dirs)
  then obtain cleanDir where c: "clean_path fs ''invalid plugin directory '' dir = Inr cleanDir"
    by (cases "clean_path fs ''invalid plugin directory '' dir") auto
  show ?case
  proof (cases "filepath_Rel cleanDir cleanPath \<noteq> ''.'' \<and> \<not> stringsHasPathTraversal (filepath_Rel cleanDir cleanPath)")
    case True
    then show ?thesis using Rel_inside c by (meson list.set_intros(1))
  next
    case False
    then have "allowed_in fs path cleanPath dirs = None" using Cons.prems c by (auto simp: Let_def split: if_splits)
    then show ?thesis using Cons.IH by auto
  qed
qed simp

text \<open>A plugin whose path is accepted lies strictly inside one of the allowed directories, after the
  symbolic links of both are resolved, and plugins are enabled.\<close>

theorem accepted_plugin_is_inside:
  assumes "validatePluginPathForConfig fs path config = None"
  shows "\<exists>c cleanPath. config = Some c \<and> plEnabled c \<and> clean_path fs ''invalid plugin path '' path = Inr cleanPath \<and>
    (\<exists>dir \<in> set (plAllowedDirs c). \<exists>cleanDir down. clean_path fs ''invalid plugin directory '' dir = Inr cleanDir \<and>
       down \<noteq> [] \<and> path_parts cleanPath = path_parts cleanDir @ down)"
proof -
  obtain c cleanPath where c: "config = Some c" "plEnabled c" "clean_path fs ''invalid plugin path '' path = Inr cleanPath"
      "allowed_in fs path cleanPath (plAllowedDirs c) = None"
    using assms by (auto simp: validatePluginPathForConfig_def split: option.splits if_splits sum.splits)
  then show ?thesis using allowed_in_inside [OF c(4)] by blast
qed

theorem accepted_plugin_is_inside_witness:
  "\<exists>down. path_parts ''/srv/plugins/a.so'' = path_parts ''/srv/plugins'' @ down"
proof -
  let ?fs = "\<lparr>fsAbs = Inr, fsEvalSymlinks = Resolved\<rparr>"
  let ?c = "\<lparr>plEnabled = True, plAllowedDirs = [''/srv/plugins'']\<rparr>"
  have "validatePluginPathForConfig ?fs ''/srv/plugins/a.so'' (Some ?c) = None" by code_simp
  from accepted_plugin_is_inside [OF this] show ?thesis by (auto simp: clean_path_def)
qed

end
