(* ===== verification/Migration.thy ===== *)
theory Migration
  imports DbWorld "HOL-Library.AList" "HOL-Library.List_Lexorder" "HOL-Library.Char_ord" "HOL-Library.Product_Lexorder"
begin

text \<open>
  The migration runner (\<open>pkg/bear/migration.go\<close>) on the shared database of DbWorld: loading the migration
  files, the history and lock tables, \<open>Up\<close>, \<open>Down\<close>, \<open>ForceUnlock\<close> and \<open>ForceMigrationState\<close>. What the SQL
  of a migration does is the parameter \<open>ddl\<close>, a function on the rest of the database (the schema of
  type \<open>'s\<close>), which may change it and still fail. A runner has one history and one lock table; the
  statements the framework generates are modelled by their effect on them, after the text of the
  statement was rebound for the dialect. A driver that cannot report the rows affected is a fault of
  the statement itself, and the random source does not fail. The runner and its database are not nil.
\<close>

datatype mkind = ErrMigrationLockOwnerMismatch | ErrDirtyMigration | MigrationNoRows | MigrationDb

type_synonym merr = "mkind goerr"

section \<open>Dialects\<close>

datatype MigrationDialect = SQLite | MySQL | PostgreSQL | OtherDialect string

fun rebind_from :: "nat \<Rightarrow> string \<Rightarrow> string" where
  "rebind_from n [] = []"
| "rebind_from n (c # cs) =
     (if c \<noteq> CHR ''?'' then c # rebind_from n cs else CHR ''$'' # Itoa n @ rebind_from (Suc n) cs)"

definition Rebind :: "MigrationDialect \<Rightarrow> string \<Rightarrow> merr + string" where
  "Rebind d query =
     (case d of
        SQLite \<Rightarrow> Inr query | MySQL \<Rightarrow> Inr query
      | PostgreSQL \<Rightarrow> Inr (rebind_from 1 query)
      | OtherDialect name \<Rightarrow> Inl (errorf (''unsupported migration dialect '' @ Quote name)))"

definition validateMigrationDialect :: "MigrationDialect \<Rightarrow> merr option" where
  "validateMigrationDialect d = (case Rebind d [] of Inl e \<Rightarrow> Some e | Inr _ \<Rightarrow> None)"

text \<open>The dialect of a driver from its type: package path and name.\<close>

definition inferMigrationDialect :: "string \<Rightarrow> merr + MigrationDialect" where
  "inferMigrationDialect driver =
     (let identity = ToLower driver in
      if Contains identity ''mysql'' then Inr MySQL
      else if Contains identity ''postgres'' \<or> Contains identity ''pgx'' \<or> Contains identity ''lib/pq'' then Inr PostgreSQL
      else if Contains identity ''sqlite'' then Inr SQLite
      else Inl (errorf (''cannot infer migration dialect from driver '' @ driver @ ''; use NewMigrationRunnerWithDialect'')))"

section \<open>Migration files\<close>

record migration =
  Version :: string
  Name :: string
  UpSQL :: string
  DownSQL :: string

definition parseMigrationFileName :: "string \<Rightarrow> (string \<times> string \<times> string) option" where
  "parseMigrationFileName name =
     (if \<not> HasSuffix name ''.sql'' then None
      else case Split (CHR ''.'') (TrimSuffix name ''.sql'') of
        [base, direction] \<Rightarrow>
          (if direction \<noteq> ''up'' \<and> direction \<noteq> ''down'' then None
           else case Cut (CHR ''_'') base of
             (version, migrationName, found) \<Rightarrow>
               (if \<not> found \<or> version = [] \<or> migrationName = [] then None
                else Some (version, migrationName, direction)))
      | _ \<Rightarrow> None)"

text \<open>An entry of a directory: its name, whether it is a directory, and what reading it gives.\<close>

type_synonym dir_entry = "string \<times> bool \<times> (merr + string)"

definition set_direction :: "string \<Rightarrow> string \<Rightarrow> migration \<Rightarrow> migration" where
  "set_direction direction content m =
     (if direction = ''up'' then m\<lparr>UpSQL := content\<rparr>
      else if direction = ''down'' then m\<lparr>DownSQL := content\<rparr> else m)"

fun load_entries :: "dir_entry list \<Rightarrow> (string \<times> migration) list \<Rightarrow> (string \<times> string) list \<Rightarrow>
    merr + (string \<times> migration) list" where
  "load_entries [] byKey nameByVersion = Inr byKey"
| "load_entries ((name, isDir, content) # es) byKey nameByVersion =
     (if isDir then load_entries es byKey nameByVersion
      else case parseMigrationFileName name of
        None \<Rightarrow> load_entries es byKey nameByVersion
      | Some (version, migrationName, direction) \<Rightarrow>
          (case (case map_of nameByVersion version of
                   None \<Rightarrow> None | Some x \<Rightarrow> if x \<noteq> migrationName then Some x else None) of
             Some existingName \<Rightarrow>
               Inl (errorf (''duplicate migration version '' @ Quote version @ '' for '' @ Quote existingName @ '' and '' @
                 Quote migrationName @ ''; use a unique version for each migration''))
           | None \<Rightarrow>
               (case content of
                  Inl e \<Rightarrow> Inl e
                | Inr txt \<Rightarrow>
                    (let key = version @ CHR ''_'' # migrationName;
                         m = (case map_of byKey key of
                                None \<Rightarrow> \<lparr>Version = version, Name = migrationName, UpSQL = [], DownSQL = []\<rparr>
                              | Some m \<Rightarrow> m) in
                     load_entries es (AList.update key (set_direction direction txt m) byKey)
                       (AList.update version migrationName nameByVersion)))))"

definition LoadSQLMigrations :: "merr + dir_entry list \<Rightarrow> merr + migration list" where
  "LoadSQLMigrations dir =
     (case dir of
        Inl e \<Rightarrow> Inl e
      | Inr entries \<Rightarrow>
          (case load_entries entries [] [] of
             Inl e \<Rightarrow> Inl e
           | Inr byKey \<Rightarrow>
               Inr (sort_key (\<lambda>m. (Version m, Name m)) (filter (\<lambda>m. TrimSpace (UpSQL m) \<noteq> []) (map snd byKey)))))"

text \<open>The first line that is not blank decides.\<close>

definition newline :: char where
  "newline = CHR 0x0A"

definition MigrationNonTransactionalDirective :: string where
  "MigrationNonTransactionalDirective = ''-- gin-bear:non-transactional''"

definition migrationSQLIsNonTransactional :: "string \<Rightarrow> bool" where
  "migrationSQLIsNonTransactional statement =
     (case filter (\<lambda>line. line \<noteq> []) (map TrimSpace (Split newline statement)) of
        [] \<Rightarrow> False
      | line # _ \<Rightarrow> line = MigrationNonTransactionalDirective)"

section \<open>The database\<close>

record hrow =
  hVersion :: string
  hName :: string
  hDirty :: bool

record lrow =
  lkName :: string
  lkOwner :: string

text \<open>\<open>None\<close> is a table that does not exist; the two flags are the columns a newer version has added.\<close>

record 's mdb =
  mHistory :: "hrow list option"
  mDirtyColumn :: bool
  mLocks :: "lrow list option"
  mOwnerColumn :: bool
  mSchema :: 's

type_synonym ('s, 'a) mop = "(mkind, 's mdb, 'a) dbop"
type_synonym ('s, 'a) msql = "(mkind, 's mdb, 'a) sql"
type_synonym 's ddl = "string \<Rightarrow> 's \<Rightarrow> merr option \<times> 's"

definition no_table :: merr where
  "no_table = sentinel MigrationDb ''no such table''"

definition sql_history :: "(hrow list \<Rightarrow> (merr + 'a) \<times> hrow list) \<Rightarrow> ('s, 'a) msql" where
  "sql_history f d =
     (case mHistory d of
        None \<Rightarrow> (Inl no_table, d)
      | Some rows \<Rightarrow> (if \<not> mDirtyColumn d then (Inl (sentinel MigrationDb ''no such column: dirty''), d)
                     else case f rows of (r, rows') \<Rightarrow> (r, d\<lparr>mHistory := Some rows'\<rparr>)))"

definition sql_locks :: "(lrow list \<Rightarrow> (merr + 'a) \<times> lrow list) \<Rightarrow> ('s, 'a) msql" where
  "sql_locks f d =
     (case mLocks d of
        None \<Rightarrow> (Inl no_table, d)
      | Some rows \<Rightarrow> (if \<not> mOwnerColumn d then (Inl (sentinel MigrationDb ''no such column: owner''), d)
                     else case f rows of (r, rows') \<Rightarrow> (r, d\<lparr>mLocks := Some rows'\<rparr>)))"

definition sql_create_history :: "('s, unit) msql" where
  "sql_create_history d =
     (case mHistory d of
        None \<Rightarrow> (Inr (), d\<lparr>mHistory := Some [], mDirtyColumn := True\<rparr>)
      | Some rows \<Rightarrow> (Inr (), d))"

definition sql_probe_dirty :: "('s, unit) msql" where
  "sql_probe_dirty d =
     (if mHistory d \<noteq> None \<and> mDirtyColumn d then (Inr (), d) else (Inl (sentinel MigrationDb ''no such column: dirty''), d))"

definition sql_add_dirty :: "('s, unit) msql" where
  "sql_add_dirty d =
     (case mHistory d of
        None \<Rightarrow> (Inl no_table, d)
      | Some rows \<Rightarrow> (if mDirtyColumn d then (Inl (sentinel MigrationDb ''duplicate column name: dirty''), d)
                     else (Inr (), d\<lparr>mHistory := Some (map (\<lambda>r. r\<lparr>hDirty := False\<rparr>) rows), mDirtyColumn := True\<rparr>)))"

definition sql_create_locks :: "('s, unit) msql" where
  "sql_create_locks d =
     (case mLocks d of
        None \<Rightarrow> (Inr (), d\<lparr>mLocks := Some [], mOwnerColumn := True\<rparr>)
      | Some rows \<Rightarrow> (Inr (), d))"

definition sql_probe_owner :: "('s, unit) msql" where
  "sql_probe_owner d =
     (if mLocks d \<noteq> None \<and> mOwnerColumn d then (Inr (), d) else (Inl (sentinel MigrationDb ''no such column: owner''), d))"

definition legacyMigrationLockOwner :: string where
  "legacyMigrationLockOwner = ''legacy-unowned''"

definition sql_add_owner :: "('s, unit) msql" where
  "sql_add_owner d =
     (case mLocks d of
        None \<Rightarrow> (Inl no_table, d)
      | Some rows \<Rightarrow> (if mOwnerColumn d then (Inl (sentinel MigrationDb ''duplicate column name: owner''), d)
                     else (Inr (), d\<lparr>mLocks := Some (map (\<lambda>r. r\<lparr>lkOwner := legacyMigrationLockOwner\<rparr>) rows), mOwnerColumn := True\<rparr>)))"

definition sql_insert_history :: "string \<Rightarrow> string \<Rightarrow> bool \<Rightarrow> ('s, unit) msql" where
  "sql_insert_history version name dirty = sql_history (\<lambda>rows.
     if list_ex (\<lambda>r. hVersion r = version) rows then (Inl (sentinel MigrationDb ''UNIQUE constraint failed''), rows)
     else (Inr (), rows @ [\<lparr>hVersion = version, hName = name, hDirty = dirty\<rparr>]))"

text \<open>Updates and deletions of rows with a version and a dirty flag; the result is the rows affected.\<close>

definition hist_is :: "string \<Rightarrow> bool \<Rightarrow> hrow \<Rightarrow> bool" where
  "hist_is version dirty r \<longleftrightarrow> hVersion r = version \<and> hDirty r = dirty"

definition sql_set_dirty :: "string \<Rightarrow> bool \<Rightarrow> bool \<Rightarrow> ('s, nat) msql" where
  "sql_set_dirty version old new = sql_history (\<lambda>rows.
     (Inr (count_where (hist_is version old) rows), upd_where (hist_is version old) (\<lambda>r. r\<lparr>hDirty := new\<rparr>) rows))"

definition sql_delete_history :: "string \<Rightarrow> bool \<Rightarrow> ('s, nat) msql" where
  "sql_delete_history version dirty = sql_history (\<lambda>rows.
     (Inr (count_where (hist_is version dirty) rows), filter (\<lambda>r. \<not> hist_is version dirty r) rows))"

definition mnoRows :: merr where
  "mnoRows = sentinel MigrationNoRows ''sql: no rows in result set''"

definition sql_row_of :: "string \<Rightarrow> ('s, hrow) msql" where
  "sql_row_of version = sql_history (\<lambda>rows.
     (case List.find (\<lambda>r. hVersion r = version) rows of None \<Rightarrow> Inl mnoRows | Some r \<Rightarrow> Inr r, rows))"

definition sql_first_dirty :: "('s, hrow) msql" where
  "sql_first_dirty = sql_history (\<lambda>rows.
     (case sort_key hVersion (filter hDirty rows) of [] \<Rightarrow> Inl mnoRows | r # _ \<Rightarrow> Inr r, rows))"

definition sql_latest :: "nat \<Rightarrow> ('s, hrow list) msql" where
  "sql_latest steps = sql_history (\<lambda>rows.
     (Inr (take steps (rev (sort_key hVersion (filter (\<lambda>r. \<not> hDirty r) rows)))), rows))"

definition sql_insert_lock :: "string \<Rightarrow> string \<Rightarrow> ('s, unit) msql" where
  "sql_insert_lock name owner = sql_locks (\<lambda>rows.
     if list_ex (\<lambda>r. lkName r = name) rows then (Inl (sentinel MigrationDb ''UNIQUE constraint failed''), rows)
     else (Inr (), rows @ [\<lparr>lkName = name, lkOwner = owner\<rparr>]))"

definition lock_is :: "string \<Rightarrow> string \<Rightarrow> lrow \<Rightarrow> bool" where
  "lock_is name owner r \<longleftrightarrow> lkName r = name \<and> lkOwner r = owner"

definition sql_delete_lock :: "string \<Rightarrow> string \<Rightarrow> ('s, nat) msql" where
  "sql_delete_lock name owner = sql_locks (\<lambda>rows.
     (Inr (count_where (lock_is name owner) rows), filter (\<lambda>r. \<not> lock_is name owner r) rows))"

definition sql_lock_owner :: "string \<Rightarrow> ('s, string) msql" where
  "sql_lock_owner name = sql_locks (\<lambda>rows.
     (case List.find (\<lambda>r. lkName r = name) rows of None \<Rightarrow> Inl mnoRows | Some r \<Rightarrow> Inr (lkOwner r), rows))"

text \<open>The SQL of a migration, verbatim.\<close>

definition sql_migration :: "'s ddl \<Rightarrow> string \<Rightarrow> ('s, unit) msql" where
  "sql_migration ddl txt d =
     (case ddl txt (mSchema d) of
        (None, s) \<Rightarrow> (Inr (), d\<lparr>mSchema := s\<rparr>)
      | (Some e, s) \<Rightarrow> (Inl e, d\<lparr>mSchema := s\<rparr>))"

section \<open>The runner\<close>

record runner =
  rTable :: string
  rLockTable :: string

definition defaultMigrationTable :: string where
  "defaultMigrationTable = ''schema_migrations''"

definition defaultMigrationLockTable :: string where
  "defaultMigrationLockTable = ''schema_migration_locks''"

definition defaultMigrationLockName :: string where
  "defaultMigrationLockName = ''global''"

definition NewMigrationRunner :: runner where
  "NewMigrationRunner = \<lparr>rTable = defaultMigrationTable, rLockTable = defaultMigrationLockTable\<rparr>"

definition ConfigureTables :: "string \<Rightarrow> string \<Rightarrow> runner \<Rightarrow> runner" where
  "ConfigureTables historyTable lockTable r = r\<lparr>rTable := historyTable, rLockTable := lockTable\<rparr>"

definition letters :: string where
  "letters = upper_letters @ lower_letters"

definition digits :: string where
  "digits = ''0123456789''"

definition validateMigrationTableName :: "string \<Rightarrow> merr option" where
  "validateMigrationTableName name =
     (let bad = Some (errorf (''invalid migration table name '' @ Quote name)) in
      case name of
        [] \<Rightarrow> bad
      | c # cs \<Rightarrow>
          (if \<not> (c = CHR ''_'' \<or> c \<in> set letters) then bad
           else if list_ex (\<lambda>x. \<not> (x = CHR ''_'' \<or> x \<in> set letters \<or> x \<in> set digits)) cs then bad
           else None))"

definition lockTable :: "runner \<Rightarrow> string" where
  "lockTable r = (if rLockTable r \<noteq> [] then rLockTable r else defaultMigrationLockTable)"

definition historyTable :: "runner \<Rightarrow> string" where
  "historyTable r = (if rTable r = [] then defaultMigrationTable else rTable r)"

definition failing :: "merr option \<Rightarrow> ('s, unit) mop" where
  "failing e = (case e of None \<Rightarrow> returnE () | Some x \<Rightarrow> throwE x)"

definition wrapping :: "string \<Rightarrow> ('s, 'a) mop \<Rightarrow> ('s, 'a) mop" where
  "wrapping what m = bindE (attemptE m) (\<lambda>r. case r of Inl e \<Rightarrow> throwE (wrapf what e) | Inr x \<Rightarrow> returnE x)"

definition wrapping_advice :: "string \<Rightarrow> string \<Rightarrow> ('s, 'a) mop \<Rightarrow> ('s, 'a) mop" where
  "wrapping_advice what advice m =
     bindE (attemptE m) (\<lambda>r. case r of
       Inl e \<Rightarrow> throwE (GoErr (err_kinds e) (what @ err_text e @ ''; '' @ advice)) | Inr x \<Rightarrow> returnE x)"

text \<open>Rebind a generated statement, then go on.\<close>

definition rebound :: "MigrationDialect \<Rightarrow> string \<Rightarrow> ('s, 'a) mop \<Rightarrow> ('s, 'a) mop" where
  "rebound d query m = (case Rebind d query of Inl e \<Rightarrow> throwE e | Inr _ \<Rightarrow> m)"

definition migrationTableHasDirty :: "('s, bool) mop" where
  "migrationTableHasDirty = bindE (attemptE (stmt sql_probe_dirty)) (\<lambda>r. returnE (case r of Inl _ \<Rightarrow> False | Inr _ \<Rightarrow> True))"

definition ensureTable :: "('s, unit) mop" where
  "ensureTable =
     bindE (stmt sql_create_history) (\<lambda>_.
     bindE migrationTableHasDirty (\<lambda>has.
       if has then returnE ()
       else bindE (attemptE (stmt sql_add_dirty)) (\<lambda>alterErr.
            bindE migrationTableHasDirty (\<lambda>has.
              if has then returnE ()
              else case alterErr of
                Inl e \<Rightarrow> throwE (wrapf ''add migration dirty column: '' e)
              | Inr _ \<Rightarrow> throwE (errorf ''add migration dirty column: dirty column is unavailable'')))))"

definition lockTableHasOwner :: "('s, bool) mop" where
  "lockTableHasOwner = bindE (attemptE (stmt sql_probe_owner)) (\<lambda>r. returnE (case r of Inl _ \<Rightarrow> False | Inr _ \<Rightarrow> True))"

definition ensureLockTable :: "('s, unit) mop" where
  "ensureLockTable =
     bindE (stmt sql_create_locks) (\<lambda>_.
     bindE lockTableHasOwner (\<lambda>has.
       if has then returnE ()
       else bindE (attemptE (stmt sql_add_owner)) (\<lambda>alterErr.
            bindE lockTableHasOwner (\<lambda>has.
              if has then returnE ()
              else case alterErr of
                Inl e \<Rightarrow> throwE (wrapf ''add migration lock owner column: '' e)
              | Inr _ \<Rightarrow> throwE (errorf ''add migration lock owner column: owner column is unavailable'')))))"

text \<open>32 random bytes in hexadecimal.\<close>

definition newMigrationLockOwner :: "('s, string) mop" where
  "newMigrationLockOwner = bindE draw (\<lambda>n. returnE (hex_string 64 n))"

definition acquireLock :: "string \<Rightarrow> MigrationDialect \<Rightarrow> ('s, string) mop" where
  "acquireLock table d =
     bindE newMigrationLockOwner (\<lambda>owner.
     rebound d (''INSERT INTO '' @ table @ '' (name, owner) VALUES (?, ?)'')
       (bindE (wrapping ''migration lock is already held: '' (stmt (sql_insert_lock defaultMigrationLockName owner)))
         (\<lambda>_. returnE owner)))"

definition releaseLock :: "string \<Rightarrow> string \<Rightarrow> MigrationDialect \<Rightarrow> ('s, unit) mop" where
  "releaseLock table owner d =
     rebound d (''DELETE FROM '' @ table @ '' WHERE name = ? AND owner = ?'')
       (bindE (wrapping ''release migration lock: '' (stmt (sql_delete_lock defaultMigrationLockName owner))) (\<lambda>released.
        if released \<noteq> 1
        then throwE (sentinel ErrMigrationLockOwnerMismatch (''migration lock owner mismatch: lock '' @
               Quote defaultMigrationLockName @ '' is not owned by '' @ Quote owner))
        else returnE ()))"

text \<open>The deferred release: it runs after the body, and its error counts when the body had none.\<close>

definition holding_lock :: "string \<Rightarrow> MigrationDialect \<Rightarrow> ('s, unit) mop \<Rightarrow> ('s, unit) mop" where
  "holding_lock table d body =
     bindE (acquireLock table d) (\<lambda>owner.
     bindE (attemptE body) (\<lambda>result.
     bindE (attemptE (releaseLock table owner d)) (\<lambda>released.
       case result of
         Inl e \<Rightarrow> throwE e
       | Inr _ \<Rightarrow> (case released of Inl e \<Rightarrow> throwE e | Inr _ \<Rightarrow> returnE ()))))"

text \<open>What \<open>up\<close>, \<open>down\<close> and \<open>forceMigrationState\<close> do before they take the lock.\<close>

definition prepare_tables :: "runner \<Rightarrow> ('s, unit) mop" where
  "prepare_tables r =
     bindE (failing (validateMigrationTableName (historyTable r))) (\<lambda>_.
     bindE ensureTable (\<lambda>_.
     bindE (failing (validateMigrationTableName (lockTable r))) (\<lambda>_.
     ensureLockTable)))"

definition migration_label :: "string \<Rightarrow> string \<Rightarrow> string" where
  "migration_label version name = version @ CHR ''_'' # name"

definition isApplied :: "string \<Rightarrow> migration \<Rightarrow> MigrationDialect \<Rightarrow> ('s, bool) mop" where
  "isApplied table m d =
     rebound d (''SELECT name, dirty FROM '' @ table @ '' WHERE version = ?'')
       (bindE (attemptE (stmt (sql_row_of (Version m)))) (\<lambda>row. case row of
          Inr r \<Rightarrow>
            (if hDirty r then throwE (sentinel ErrDirtyMigration (''dirty migration state: version '' @ Version m))
             else if hName r \<noteq> Name m
             then throwE (errorf (''migration version '' @ Version m @ '' is already applied as '' @ Quote (hName r) @
                    '' and cannot be applied as '' @ Quote (Name m)))
             else returnE True)
        | Inl e \<Rightarrow> (if errors_is e MigrationNoRows then returnE False else throwE e)))"

definition rejectDirtyMigration :: "('s, unit) mop" where
  "rejectDirtyMigration =
     bindE (attemptE (stmt sql_first_dirty)) (\<lambda>row. case row of
       Inl e \<Rightarrow> (if errors_is e MigrationNoRows then returnE ()
                else throwE (wrapf ''check dirty migration state: '' e))
     | Inr r \<Rightarrow> throwE (sentinel ErrDirtyMigration (''dirty migration state: dirty migration '' @
                  migration_label (hVersion r) (hName r) @
                  '' blocks Up/Down; inspect the schema, then call ForceMigrationState'')))"

definition nonTransactional :: "MigrationDialect \<Rightarrow> string \<Rightarrow> bool" where
  "nonTransactional d txt \<longleftrightarrow> d = MySQL \<or> d = PostgreSQL \<and> migrationSQLIsNonTransactional txt"

definition applyUpNonTransactional :: "'s ddl \<Rightarrow> string \<Rightarrow> migration \<Rightarrow> MigrationDialect \<Rightarrow> ('s, unit) mop" where
  "applyUpNonTransactional ddl table m d =
     (let label = migration_label (Version m) (Name m) in
      rebound d (''INSERT INTO '' @ table @ '' (version, name, dirty) VALUES (?, ?, TRUE)'')
       (bindE (wrapping (''mark migration '' @ label @ '' dirty: '') (stmt (sql_insert_history (Version m) (Name m) True))) (\<lambda>_.
        bindE (wrapping (''apply migration '' @ label @ '': '') (stmt (sql_migration ddl (UpSQL m)))) (\<lambda>_.
        rebound d (''UPDATE '' @ table @ '' SET dirty = FALSE, applied_at = CURRENT_TIMESTAMP WHERE version = ? AND dirty = TRUE'')
         (bindE (wrapping (''clear migration '' @ label @ '' dirty state: '') (stmt (sql_set_dirty (Version m) True False))) (\<lambda>changed.
          if changed \<noteq> 1
          then throwE (errorf (''clear migration '' @ label @ '' dirty state: history row changed concurrently''))
          else returnE ()))))))"

definition applyUp :: "'s ddl \<Rightarrow> string \<Rightarrow> migration \<Rightarrow> MigrationDialect \<Rightarrow> ('s, unit) mop" where
  "applyUp ddl table m d =
     (let label = migration_label (Version m) (Name m) in
      if nonTransactional d (UpSQL m) then applyUpNonTransactional ddl table m d
      else transaction
        (bindE (wrapping (''apply migration '' @ label @ '': '') (tx_stmt (sql_migration ddl (UpSQL m)))) (\<lambda>_.
         rebound d (''INSERT INTO '' @ table @ '' (version, name, dirty) VALUES (?, ?, FALSE)'')
          (wrapping (''record migration '' @ label @ '': '') (tx_stmt (sql_insert_history (Version m) (Name m) False))))))"

definition applyDownNonTransactional :: "'s ddl \<Rightarrow> string \<Rightarrow> migration \<Rightarrow> MigrationDialect \<Rightarrow> ('s, unit) mop" where
  "applyDownNonTransactional ddl table m d =
     (let label = migration_label (Version m) (Name m);
          partly = ''Down SQL may have partially executed, inspect the schema, then call ForceMigrationState(ctx, '' @
            Quote (Version m) @ '', applied) with applied true or false'';
          advice = ''Down completed, inspect the schema and call ForceMigrationState(ctx, '' @ Quote (Version m) @
            '', false) to remove the dirty record'' in
      rebound d (''UPDATE '' @ table @ '' SET dirty = TRUE WHERE version = ? AND dirty = FALSE'')
       (bindE (wrapping (''mark rollback migration '' @ label @ '' dirty: '') (stmt (sql_set_dirty (Version m) False True))) (\<lambda>changed.
        if changed \<noteq> 1
        then throwE (errorf (''mark rollback migration '' @ label @ '' dirty: clean history row not found''))
        else
        bindE (wrapping_advice (''rollback migration '' @ label @ '': '') partly (stmt (sql_migration ddl (DownSQL m)))) (\<lambda>_.
        rebound d (''DELETE FROM '' @ table @ '' WHERE version = ? AND dirty = TRUE'')
         (bindE (wrapping_advice (''remove rollback migration '' @ label @ '' dirty record: '') advice (stmt (sql_delete_history (Version m) True))) (\<lambda>changed.
          if changed \<noteq> 1
          then throwE (errorf (''remove rollback migration '' @ label @ '' dirty record: history row changed concurrently; '' @ advice))
          else returnE ()))))))"

definition applyDown :: "'s ddl \<Rightarrow> string \<Rightarrow> migration \<Rightarrow> MigrationDialect \<Rightarrow> ('s, unit) mop" where
  "applyDown ddl table m d =
     (let label = migration_label (Version m) (Name m) in
      if nonTransactional d (DownSQL m) then applyDownNonTransactional ddl table m d
      else transaction
        (bindE (wrapping (''rollback migration '' @ label @ '': '') (tx_stmt (sql_migration ddl (DownSQL m)))) (\<lambda>_.
         rebound d (''DELETE FROM '' @ table @ '' WHERE version = ? AND dirty = FALSE'')
          (bindE (wrapping (''remove migration record '' @ label @ '': '') (tx_stmt (sql_delete_history (Version m) False)))
            (\<lambda>_. returnE ())))))"

section \<open>Up and Down\<close>

fun up_loop :: "'s ddl \<Rightarrow> string \<Rightarrow> MigrationDialect \<Rightarrow> migration list \<Rightarrow> ('s, unit) mop" where
  "up_loop ddl table d [] = returnE ()"
| "up_loop ddl table d (m # ms) =
     bindE (isApplied table m d) (\<lambda>applied.
       if applied then up_loop ddl table d ms
       else bindE (applyUp ddl table m d) (\<lambda>_. up_loop ddl table d ms))"

definition up_locked :: "'s ddl \<Rightarrow> runner \<Rightarrow> MigrationDialect \<Rightarrow> migration list \<Rightarrow> ('s, unit) mop" where
  "up_locked ddl r d ms = bindE rejectDirtyMigration (\<lambda>_. up_loop ddl (historyTable r) d ms)"

definition up :: "'s ddl \<Rightarrow> runner \<Rightarrow> migration list \<Rightarrow> MigrationDialect \<Rightarrow> ('s, unit) mop" where
  "up ddl r ms d =
     bindE (failing (validateMigrationDialect d)) (\<lambda>_.
     bindE (prepare_tables r) (\<lambda>_.
     holding_lock (lockTable r) d (up_locked ddl r d ms)))"

definition Up :: "'s ddl \<Rightarrow> string \<Rightarrow> runner \<Rightarrow> migration list \<Rightarrow> ('s, unit) mop" where
  "Up ddl driver r ms = (case inferMigrationDialect driver of Inl e \<Rightarrow> throwE e | Inr d \<Rightarrow> up ddl r ms d)"

definition latestApplied :: "string \<Rightarrow> nat \<Rightarrow> MigrationDialect \<Rightarrow> ('s, hrow list) mop" where
  "latestApplied table steps d =
     rebound d (''SELECT version, name FROM '' @ table @ '' WHERE dirty = FALSE ORDER BY version DESC LIMIT ?'')
       (stmt (sql_latest steps))"

text \<open>The rollback plan; a version in \<open>ms\<close> more than once stands for its last migration.\<close>

fun rollback_plan :: "migration list \<Rightarrow> hrow list \<Rightarrow> merr + migration list" where
  "rollback_plan ms [] = Inr []"
| "rollback_plan ms (a # as) =
     (let label = migration_label (hVersion a) (hName a) in
      case map_of (rev (map (\<lambda>m. (Version m, m)) ms)) (hVersion a) of
        None \<Rightarrow> Inl (errorf (''rollback migration '' @ label @ '': migration file not loaded''))
      | Some m \<Rightarrow>
          (if Name m \<noteq> hName a
           then Inl (errorf (''rollback migration '' @ label @ '': loaded migration name '' @ Quote (Name m) @
                  '' does not match applied name '' @ Quote (hName a)))
           else if TrimSpace (DownSQL m) = []
           then Inl (errorf (''rollback migration '' @ label @ '': down sql is empty''))
           else case rollback_plan ms as of Inl e \<Rightarrow> Inl e | Inr plan \<Rightarrow> Inr (m # plan)))"

fun down_loop :: "'s ddl \<Rightarrow> string \<Rightarrow> MigrationDialect \<Rightarrow> migration list \<Rightarrow> ('s, unit) mop" where
  "down_loop ddl table d [] = returnE ()"
| "down_loop ddl table d (m # ms) = bindE (applyDown ddl table m d) (\<lambda>_. down_loop ddl table d ms)"

definition down_locked :: "'s ddl \<Rightarrow> runner \<Rightarrow> MigrationDialect \<Rightarrow> migration list \<Rightarrow> nat \<Rightarrow> ('s, unit) mop" where
  "down_locked ddl r d ms steps =
     bindE rejectDirtyMigration (\<lambda>_.
     bindE (latestApplied (historyTable r) steps d) (\<lambda>latest.
       case rollback_plan ms latest of
         Inl e \<Rightarrow> throwE e
       | Inr plan \<Rightarrow> down_loop ddl (historyTable r) d plan))"

definition down :: "'s ddl \<Rightarrow> runner \<Rightarrow> migration list \<Rightarrow> int \<Rightarrow> MigrationDialect \<Rightarrow> ('s, unit) mop" where
  "down ddl r ms steps d =
     bindE (failing (validateMigrationDialect d)) (\<lambda>_.
       if steps \<le> 0 then returnE ()
       else bindE (prepare_tables r) (\<lambda>_.
            holding_lock (lockTable r) d (down_locked ddl r d ms (nat steps))))"

definition Down :: "'s ddl \<Rightarrow> string \<Rightarrow> runner \<Rightarrow> migration list \<Rightarrow> int \<Rightarrow> ('s, unit) mop" where
  "Down ddl driver r ms steps =
     (case inferMigrationDialect driver of Inl e \<Rightarrow> throwE e | Inr d \<Rightarrow> down ddl r ms steps d)"

section \<open>Recovery\<close>

definition forceUnlock :: "runner \<Rightarrow> MigrationDialect \<Rightarrow> ('s, unit) mop" where
  "forceUnlock r d =
     bindE (failing (validateMigrationDialect d)) (\<lambda>_.
     bindE (failing (validateMigrationTableName (lockTable r))) (\<lambda>_.
     bindE ensureLockTable (\<lambda>_.
     rebound d (''SELECT owner FROM '' @ lockTable r @ '' WHERE name = ?'')
      (bindE (attemptE (stmt (sql_lock_owner defaultMigrationLockName))) (\<lambda>owner. case owner of
         Inl e \<Rightarrow> (if errors_is e MigrationNoRows then returnE () else throwE (wrapf ''read migration lock owner: '' e))
       | Inr owner \<Rightarrow> wrapping ''force unlock migration lock: '' (releaseLock (lockTable r) owner d))))))"

definition ForceUnlock :: "string \<Rightarrow> runner \<Rightarrow> ('s, unit) mop" where
  "ForceUnlock driver r = (case inferMigrationDialect driver of Inl e \<Rightarrow> throwE e | Inr d \<Rightarrow> forceUnlock r d)"

definition force_state_locked :: "runner \<Rightarrow> string \<Rightarrow> bool \<Rightarrow> MigrationDialect \<Rightarrow> ('s, unit) mop" where
  "force_state_locked r version applied d =
     (let table = historyTable r in
      rebound d (if applied
                 then ''UPDATE '' @ table @ '' SET dirty = FALSE, applied_at = CURRENT_TIMESTAMP WHERE version = ? AND dirty = TRUE''
                 else ''DELETE FROM '' @ table @ '' WHERE version = ? AND dirty = TRUE'')
       (bindE (wrapping (''force migration '' @ version @ '' state: '')
                (stmt (if applied then sql_set_dirty version True False else sql_delete_history version True))) (\<lambda>changed.
        if changed \<noteq> 1
        then throwE (errorf (''force migration '' @ version @ '' state: dirty migration not found''))
        else returnE ())))"

definition forceMigrationState :: "runner \<Rightarrow> string \<Rightarrow> bool \<Rightarrow> MigrationDialect \<Rightarrow> ('s, unit) mop" where
  "forceMigrationState r version applied d =
     (if TrimSpace version = [] then throwE (errorf ''force migration state requires a version'')
      else bindE (failing (validateMigrationDialect d)) (\<lambda>_.
           bindE (prepare_tables r) (\<lambda>_.
           holding_lock (lockTable r) d (force_state_locked r version applied d))))"

end
