(* ===== verification/MigrationProps.thy ===== *)
theory MigrationProps
  imports Migration
begin

text \<open>
  The migration runner against a simple specification when nothing interferes, its lock against a process
  that holds it, and a migration that is interrupted under every fault of the driver.
\<close>

section \<open>An undisturbed world\<close>

lemma stmt_quiet: "script w = [] \<Longrightarrow> stmt f w = (fst (f (db w)), w\<lparr>db := snd (f (db w))\<rparr>)"
  by (simp add: stmt_def split: prod.split)

lemma tx_stmt_quiet: "script w = [] \<Longrightarrow> tx_stmt f w = (fst (f (db w)), w\<lparr>db := snd (f (db w))\<rparr>)"
  by (simp add: tx_stmt_def split: prod.split)

lemma bindE_run: "bindE m f w = (case m w of (Inl e, w') \<Rightarrow> (Inl e, w') | (Inr x, w') \<Rightarrow> f x w')"
  by (simp add: bindE_def)

lemmas eff_run = bindE_run returnE_def throwE_def attemptE_def

lemma wrapping_run: "wrapping what m w = (case m w of (r, w') \<Rightarrow> (case r of Inl e \<Rightarrow> Inl (wrapf what e) | Inr x \<Rightarrow> Inr x, w'))"
  by (simp add: wrapping_def eff_run split: prod.split sum.split)

lemma wrapping_advice_run:
  "wrapping_advice what advice m w =
     (case m w of (r, w') \<Rightarrow>
        (case r of Inl e \<Rightarrow> Inl (GoErr (err_kinds e) (what @ err_text e @ ''; '' @ advice)) | Inr x \<Rightarrow> Inr x, w'))"
  by (simp add: wrapping_advice_def eff_run split: prod.split sum.split)

text \<open>The dialects the runner supports.\<close>

lemma rebound_ok: "validateMigrationDialect d = None \<Longrightarrow> rebound d q m = m"
  by (cases d) (simp_all add: validateMigrationDialect_def rebound_def Rebind_def)

text \<open>The tables as \<open>ensureTable\<close> and \<open>ensureLockTable\<close> leave them, with their primary keys.\<close>

definition ready :: "'s mdb \<Rightarrow> bool" where
  "ready d \<longleftrightarrow> mDirtyColumn d \<and> mOwnerColumn d \<and>
     (\<exists>hist. mHistory d = Some hist \<and> distinct (map hVersion hist)) \<and>
     (\<exists>locks. mLocks d = Some locks \<and> distinct (map lkName locks))"

lemma ready_sql [simp]:
  assumes "ready d"
  shows "sql_create_history d = (Inr (), d)" "sql_probe_dirty d = (Inr (), d)"
    "sql_create_locks d = (Inr (), d)" "sql_probe_owner d = (Inr (), d)"
  using assms by (auto simp: ready_def sql_create_history_def sql_probe_dirty_def sql_create_locks_def sql_probe_owner_def)

lemma prepare_quiet:
  assumes "script w = []" and "ready (db w)" and "validateMigrationTableName (historyTable r) = None"
    and "validateMigrationTableName (lockTable r) = None"
  shows "prepare_tables r w = (Inr (), w)"
  using assms by (simp add: prepare_tables_def failing_def eff_run ensureTable_def migrationTableHasDirty_def
      ensureLockTable_def lockTableHasOwner_def stmt_quiet)

text \<open>What \<open>Up\<close> is for: the migrations that are not recorded yet, in order, until one fails. The first part
  of the result is whether all went well.\<close>

fun migrate :: "'s ddl \<Rightarrow> MigrationDialect \<Rightarrow> migration list \<Rightarrow> hrow list \<Rightarrow> 's \<Rightarrow> bool \<times> hrow list \<times> 's" where
  "migrate ddl d [] hist s = (True, hist, s)"
| "migrate ddl d (m # ms) hist s =
     (case List.find (\<lambda>r. hVersion r = Version m) hist of
        Some r \<Rightarrow> (if hDirty r \<or> hName r \<noteq> Name m then (False, hist, s) else migrate ddl d ms hist s)
      | None \<Rightarrow>
          (case ddl (UpSQL m) s of
             (None, s') \<Rightarrow> migrate ddl d ms (hist @ [\<lparr>hVersion = Version m, hName = Name m, hDirty = False\<rparr>]) s'
           | (Some e, s') \<Rightarrow>
               (if nonTransactional d (UpSQL m)
                then (False, hist @ [\<lparr>hVersion = Version m, hName = Name m, hDirty = True\<rparr>], s')
                else (False, hist, s))))"

definition with_data :: "hrow list \<Rightarrow> 's \<Rightarrow> (mkind, 's mdb) world \<Rightarrow> (mkind, 's mdb) world" where
  "with_data hist s w = w\<lparr>db := (db w)\<lparr>mHistory := Some hist, mSchema := s\<rparr>\<rparr>"

definition succeeds :: "'e + 'a \<Rightarrow> bool" where
  "succeeds r = (case r of Inl _ \<Rightarrow> False | Inr _ \<Rightarrow> True)"

lemma succeeds_simps [simp]: "succeeds (Inr x)" "\<not> succeeds (Inl e)"
  by (simp_all add: succeeds_def)

definition settled :: "hrow list \<Rightarrow> (mkind, 's mdb) world \<Rightarrow> bool" where
  "settled hist w \<longleftrightarrow> script w = [] \<and> ready (db w) \<and> mHistory (db w) = Some hist"

lemma settledD:
  "settled hist w \<Longrightarrow> script w = []" "settled hist w \<Longrightarrow> ready (db w)" "settled hist w \<Longrightarrow> mHistory (db w) = Some hist"
  "settled hist w \<Longrightarrow> mDirtyColumn (db w)"
  by (auto simp: settled_def ready_def)

lemma settled_distinct:
  assumes "settled hist w"
  shows "distinct (map hVersion hist)"
proof -
  obtain h where "mHistory (db w) = Some h" "distinct (map hVersion h)" using assms unfolding settled_def ready_def by blast
  then show ?thesis using settledD(3) [OF assms] by simp
qed

lemma settled_with:
  "settled hist w \<Longrightarrow> distinct (map hVersion h) \<Longrightarrow> settled h (with_data h s w)"
  by (auto simp: settled_def with_data_def ready_def)

lemma with_data_with [simp]: "with_data h s (with_data h' s' w) = with_data h s w"
  by (simp add: with_data_def)

lemma with_data_self: "settled hist w \<Longrightarrow> with_data hist (mSchema (db w)) w = w"
  by (simp add: settled_def with_data_def)

lemma mSchema_with [simp]: "mSchema (db (with_data h s w)) = s"
  by (simp add: with_data_def)

lemma insert_quiet:
  assumes "settled hist w" and "List.find (\<lambda>r. hVersion r = v) hist = None"
  shows "sql_insert_history v n dirty (db w) =
    (Inr (), (db w)\<lparr>mHistory := Some (hist @ [\<lparr>hVersion = v, hName = n, hDirty = dirty\<rparr>])\<rparr>)"
proof -
  have "\<not> list_ex (\<lambda>r. hVersion r = v) hist" using assms(2) by (auto simp: find_None_iff list_ex_iff)
  then show ?thesis using settledD [OF assms(1)] by (simp add: sql_insert_history_def sql_history_def)
qed

text \<open>Clearing the flag of the row that was just added.\<close>

lemma clear_last:
  assumes "List.find (\<lambda>r. hVersion r = v) hist = None"
  shows "upd_where (hist_is v True) (\<lambda>r. r\<lparr>hDirty := False\<rparr>) (hist @ [\<lparr>hVersion = v, hName = n, hDirty = True\<rparr>]) =
      hist @ [\<lparr>hVersion = v, hName = n, hDirty = False\<rparr>]"
    "count_where (hist_is v True) (hist @ [\<lparr>hVersion = v, hName = n, hDirty = True\<rparr>]) = 1"
proof -
  have "\<And>r. r \<in> set hist \<Longrightarrow> \<not> hist_is v True r" using assms by (auto simp: find_None_iff hist_is_def)
  then show "upd_where (hist_is v True) (\<lambda>r. r\<lparr>hDirty := False\<rparr>) (hist @ [\<lparr>hVersion = v, hName = n, hDirty = True\<rparr>]) =
      hist @ [\<lparr>hVersion = v, hName = n, hDirty = False\<rparr>]"
    "count_where (hist_is v True) (hist @ [\<lparr>hVersion = v, hName = n, hDirty = True\<rparr>]) = 1"
    using upd_where_none [of hist "hist_is v True"] by (auto simp: upd_where_def count_where_def hist_is_def)
qed

lemma transaction_quiet:
  assumes "script w = []" and "body w = (r, w')" and "script w' = []"
  shows "transaction body w = (case r of Inl e \<Rightarrow> (Inl e, w'\<lparr>db := db w\<rparr>) | Inr x \<Rightarrow> (Inr x, w'))"
proof -
  have "stmt (\<lambda>d. (Inr (), d)) w = (Inr (), w)" by (simp add: stmt_def assms(1))
  then show ?thesis using assms(2,3) by (simp add: transaction_def bindE_run split: sum.split)
qed

lemma applyUp_quiet:
  assumes w: "settled hist w" and new: "List.find (\<lambda>r. hVersion r = Version m) hist = None"
    and d: "validateMigrationDialect d = None"
  shows "\<exists>r. applyUp ddl t m d w =
      (case ddl (UpSQL m) (mSchema (db w)) of
         (None, s') \<Rightarrow> (Inr (), with_data (hist @ [\<lparr>hVersion = Version m, hName = Name m, hDirty = False\<rparr>]) s' w)
       | (Some e, s') \<Rightarrow> (Inl r, if nonTransactional d (UpSQL m)
           then with_data (hist @ [\<lparr>hVersion = Version m, hName = Name m, hDirty = True\<rparr>]) s' w else w))"
proof -
  obtain e s' where x: "ddl (UpSQL m) (mSchema (db w)) = (e, s')" by fastforce
  note q = settledD [OF w]
  note ins = insert_quiet [OF w new]
  let ?wd = "w\<lparr>db := (db w)\<lparr>mSchema := s'\<rparr>\<rparr>"
  have wd: "settled hist ?wd" using w by (auto simp: settled_def ready_def)
  note insd = insert_quiet [OF wd new]
  show ?thesis
  proof (cases "nonTransactional d (UpSQL m)")
    case True
    then show ?thesis
      using q x ins clear_last [OF new]
      by (cases e) (simp_all add: applyUp_def applyUpNonTransactional_def Let_def rebound_ok [OF d] eff_run wrapping_run
          stmt_quiet sql_migration_def sql_set_dirty_def sql_history_def with_data_def)
  next
    case False
    show ?thesis
    proof (cases e)
      case None
      then have "applyUp ddl t m d w = (Inr (), with_data (hist @ [\<lparr>hVersion = Version m, hName = Name m, hDirty = False\<rparr>]) s' w)"
        using q x insd False
        by (simp add: applyUp_def Let_def rebound_ok [OF d] transaction_def stmt_quiet eff_run wrapping_run
            tx_stmt_quiet sql_migration_def with_data_def)
      then show ?thesis using x None by simp
    next
      case (Some err)
      then show ?thesis
        using q x False
        by (simp add: applyUp_def Let_def rebound_ok [OF d] transaction_def stmt_quiet eff_run wrapping_run
            tx_stmt_quiet sql_migration_def)
    qed
  qed
qed

lemma isApplied_quiet:
  assumes w: "settled hist w" and d: "validateMigrationDialect d = None"
  shows "case List.find (\<lambda>r. hVersion r = Version m) hist of
     None \<Rightarrow> isApplied t m d w = (Inr False, w)
   | Some r \<Rightarrow> (if hDirty r \<or> hName r \<noteq> Name m then (\<exists>e. isApplied t m d w = (Inl e, w))
               else isApplied t m d w = (Inr True, w))"
  using settledD [OF w]
  by (simp add: isApplied_def rebound_ok [OF d] eff_run stmt_quiet sql_row_of_def sql_history_def mnoRows_def split: option.split)

lemma up_loop_quiet:
  assumes "settled hist w" and "validateMigrationDialect d = None"
    and "migrate ddl d ms hist (mSchema (db w)) = (ok, hist', s')"
  shows "\<exists>r. up_loop ddl t d ms w = (r, with_data hist' s' w) \<and> (succeeds r \<longleftrightarrow> ok)"
  using assms(1,3)
proof (induction ms arbitrary: hist w)
  case Nil
  then show ?case using with_data_self [OF Nil(1)] by (auto simp: eff_run)
next
  case (Cons m ms)
  note app = isApplied_quiet [OF Cons.prems(1) assms(2), where m = m and t = t]
  note self = with_data_self [OF Cons.prems(1)]
  show ?case
  proof (cases "List.find (\<lambda>r. hVersion r = Version m) hist")
    case (Some r)
    show ?thesis
    proof (cases "hDirty r \<or> hName r \<noteq> Name m")
      case True
      then have "ok = False" "with_data hist' s' w = w" using Cons.prems(2) Some self by auto
      then show ?thesis using app Some True by (auto simp: eff_run)
    next
      case False
      then have "migrate ddl d ms hist (mSchema (db w)) = (ok, hist', s')" using Cons.prems(2) Some by simp
      then show ?thesis using Cons.IH [OF Cons.prems(1)] app Some False by (auto simp: eff_run)
    qed
  next
    case None
    obtain e s1 where x: "ddl (UpSQL m) (mSchema (db w)) = (e, s1)" by fastforce
    obtain r where up: "applyUp ddl t m d w =
      (case ddl (UpSQL m) (mSchema (db w)) of
         (None, s') \<Rightarrow> (Inr (), with_data (hist @ [\<lparr>hVersion = Version m, hName = Name m, hDirty = False\<rparr>]) s' w)
       | (Some e, s') \<Rightarrow> (Inl r, if nonTransactional d (UpSQL m)
           then with_data (hist @ [\<lparr>hVersion = Version m, hName = Name m, hDirty = True\<rparr>]) s' w else w))"
      using applyUp_quiet [OF Cons.prems(1) None assms(2)] by blast
    show ?thesis
    proof (cases e)
      case (Some err)
      then show ?thesis
        using Cons.prems(2) None x up app self by (auto simp: eff_run split: if_splits)
    next
      case ok: None
      let ?h = "hist @ [\<lparr>hVersion = Version m, hName = Name m, hDirty = False\<rparr>]"
      have "distinct (map hVersion ?h)"
        using settled_distinct [OF Cons.prems(1)] None by (auto simp: find_None_iff)
      then have st: "settled ?h (with_data ?h s1 w)" using settled_with [OF Cons.prems(1)] by blast
      have "migrate ddl d ms ?h (mSchema (db (with_data ?h s1 w))) = (ok, hist', s')"
        using Cons.prems(2) None x ok by simp
      from Cons.IH [OF st this] show ?thesis using None x ok up app by (auto simp: eff_run)
    qed
  qed
qed

lemma reject_quiet:
  assumes "settled hist w"
  shows "if list_ex hDirty hist then \<exists>e. rejectDirtyMigration w = (Inl e, w) \<and> errors_is e ErrDirtyMigration
    else rejectDirtyMigration w = (Inr (), w)"
proof -
  have "sort_key hVersion (filter hDirty hist) = [] \<longleftrightarrow> \<not> list_ex hDirty hist"
    by (metis (no_types, lifting) filter_empty_conv list_ex_iff set_empty set_sort)
  then show ?thesis
    using settledD [OF assms]
    by (auto simp: rejectDirtyMigration_def eff_run stmt_quiet sql_first_dirty_def sql_history_def mnoRows_def split: list.split)
qed

text \<open>The section under the lock: the lock row is there while the body runs and gone afterwards.\<close>

lemma holding_lock_quiet:
  assumes w: "settled hist w" and d: "validateMigrationDialect d = None"
    and free: "mLocks (db w) = Some locks" "\<forall>l \<in> set locks. lkName l \<noteq> defaultMigrationLockName"
    and body: "\<And>w. settled hist w \<Longrightarrow> P w \<Longrightarrow> \<exists>r. body w = (r, with_data hist' s' w) \<and> Q r"
    and P: "\<And>locks e. P (w\<lparr>db := (db w)\<lparr>mLocks := Some locks\<rparr>, entropy := e\<rparr>)"
  shows "\<exists>r w'. holding_lock t d body w = (r, w') \<and> db w' = db (with_data hist' s' w) \<and> script w' = [] \<and> Q r"
proof -
  define e where "e = tl (entropy w)"
  obtain n where dr: "draw w = (Inr n, w\<lparr>entropy := e\<rparr>)"
    unfolding e_def by (cases w; cases "entropy w") (auto simp: draw_def)
  let ?o = "hex_string 64 n"
  let ?l = "locks @ [\<lparr>lkName = defaultMigrationLockName, lkOwner = ?o\<rparr>]"
  let ?w2 = "w\<lparr>db := (db w)\<lparr>mLocks := Some ?l\<rparr>, entropy := e\<rparr>"
  have q: "script w = []" "mOwnerColumn (db w)" "distinct (map lkName locks)"
    using w free(1) by (auto simp: settled_def ready_def)
  have nex: "\<not> list_ex (\<lambda>r. lkName r = defaultMigrationLockName) locks" using free(2) by (auto simp: list_ex_iff)
  have acq: "acquireLock t d w = (Inr ?o, ?w2)"
    using dr q free(1) nex
    by (simp add: acquireLock_def newMigrationLockOwner_def eff_run rebound_ok [OF d] wrapping_run stmt_quiet
        sql_insert_lock_def sql_locks_def)
  have "defaultMigrationLockName \<notin> lkName ` set locks" using free(2) by auto
  then have "settled hist ?w2" using w q by (auto simp: settled_def ready_def)
  then obtain r where b: "body ?w2 = (r, with_data hist' s' ?w2)" "Q r" using body P by blast
  have fl: "filter (\<lambda>r. \<not> lock_is defaultMigrationLockName ?o r) ?l = locks"
      "count_where (lock_is defaultMigrationLockName ?o) ?l = 1"
    using free(2) by (auto simp: lock_is_def count_where_def filter_id_conv filter_empty_conv)
  have rel: "releaseLock t ?o d (with_data hist' s' ?w2) = (Inr (), (with_data hist' s' w)\<lparr>entropy := e\<rparr>)"
    using q fl free(1)
    by (simp add: releaseLock_def rebound_ok [OF d] eff_run wrapping_run stmt_quiet with_data_def
        sql_delete_lock_def sql_locks_def)
  have "holding_lock t d body w = (case r of Inl e \<Rightarrow> Inl e | Inr x \<Rightarrow> Inr (), (with_data hist' s' w)\<lparr>entropy := e\<rparr>)"
    using acq b rel by (simp add: holding_lock_def eff_run split: sum.split)
  moreover have "(case r of Inl e \<Rightarrow> Inl e | Inr x \<Rightarrow> Inr ()) = r" by (cases r) auto
  ultimately show ?thesis using b(2) q by (simp add: with_data_def)
qed

text \<open>C34: Undisturbed, \<open>Up\<close> is its specification: with a dirty migration on record it reports that and leaves
  the database as it was; otherwise it applies the unrecorded migrations in order until one fails,
  which is recorded as dirty if it runs outside a transaction and leaves no trace otherwise; the lock
  is free again and the result is an error exactly if not all went well.\<close>

theorem up_is_exact:
  assumes "settled hist w" and "mLocks (db w) = Some locks" and "\<forall>l \<in> set locks. lkName l \<noteq> defaultMigrationLockName"
    and "validateMigrationDialect d = None" and "validateMigrationTableName (historyTable r) = None"
    and "validateMigrationTableName (lockTable r) = None"
    and "migrate ddl d ms hist (mSchema (db w)) = (ok, hist', s')"
  shows "\<exists>res w'. up ddl r ms d w = (res, w') \<and>
    (if list_ex hDirty hist then db w' = db w \<and> (\<exists>e. res = Inl e \<and> errors_is e ErrDirtyMigration)
     else db w' = (db w)\<lparr>mHistory := Some hist', mSchema := s'\<rparr> \<and> (succeeds res \<longleftrightarrow> ok))"
proof -
  have up: "up ddl r ms d w = holding_lock (lockTable r) d (up_locked ddl r d ms) w"
    using prepare_quiet [OF settledD(1,2) [OF assms(1)] assms(5,6)] assms(4)
    by (simp add: up_def failing_def eff_run)
  show ?thesis
  proof (cases "list_ex hDirty hist")
    case True
    have "\<exists>res w'. holding_lock (lockTable r) d (up_locked ddl r d ms) w = (res, w') \<and>
        db w' = db (with_data hist (mSchema (db w)) w) \<and> script w' = [] \<and> (\<exists>e. res = Inl e \<and> errors_is e ErrDirtyMigration)"
    proof (rule holding_lock_quiet [OF assms(1,4,2,3), where P = "\<lambda>v. mSchema (db v) = mSchema (db w)"])
      fix v :: "(mkind, 'a mdb) world" assume v: "settled hist v" "mSchema (db v) = mSchema (db w)"
      then show "\<exists>res. up_locked ddl r d ms v = (res, with_data hist (mSchema (db w)) v) \<and>
          (\<exists>e. res = Inl e \<and> errors_is e ErrDirtyMigration)"
        using reject_quiet [OF v(1)] True with_data_self [OF v(1)] by (auto simp: up_locked_def eff_run)
    qed simp
    then show ?thesis using True up with_data_self [OF assms(1)] by auto
  next
    case False
    have "\<exists>res w'. holding_lock (lockTable r) d (up_locked ddl r d ms) w = (res, w') \<and>
        db w' = db (with_data hist' s' w) \<and> script w' = [] \<and> (succeeds res \<longleftrightarrow> ok)"
    proof (rule holding_lock_quiet [OF assms(1,4,2,3), where P = "\<lambda>v. mSchema (db v) = mSchema (db w)"])
      fix v :: "(mkind, 'a mdb) world" assume v: "settled hist v" "mSchema (db v) = mSchema (db w)"
      then show "\<exists>res. up_locked ddl r d ms v = (res, with_data hist' s' v) \<and> (succeeds res \<longleftrightarrow> ok)"
        using reject_quiet [OF v(1)] False up_loop_quiet [OF v(1) assms(4)] assms(7)
        by (simp add: up_locked_def eff_run)
    qed simp
    then show ?thesis using False up by (auto simp: with_data_def)
  qed
qed

text \<open>A runner on an empty database, with one migration that works and one that fails half way.\<close>

definition demo_ddl :: "string list ddl" where
  "demo_ddl stmts s = (if stmts = ''bad'' then (Some (errorf ''syntax error''), s @ [''half'']) else (None, s @ [stmts]))"

definition demo_migrations :: "migration list" where
  "demo_migrations =
     [\<lparr>Version = ''1'', Name = ''a'', UpSQL = ''good'', DownSQL = []\<rparr>, \<lparr>Version = ''2'', Name = ''b'', UpSQL = ''bad'', DownSQL = []\<rparr>]"

definition demo_mworld :: "lrow list \<Rightarrow> (mkind fault \<times> (string list mdb \<Rightarrow> string list mdb)) list \<Rightarrow> (mkind, string list mdb) world" where
  "demo_mworld locks faults =
     \<lparr>db = \<lparr>mHistory = Some [], mDirtyColumn = True, mLocks = Some locks, mOwnerColumn = True, mSchema = []\<rparr>,
      script = faults, clock = 0, ticks = [], entropy = [7], ctx_errs = []\<rparr>"

lemma demo_tables:
  "validateMigrationTableName (historyTable NewMigrationRunner) = None"
  "validateMigrationTableName (lockTable NewMigrationRunner) = None"
  by code_simp+

theorem up_is_exact_witness:
  "\<exists>res w'. up demo_ddl NewMigrationRunner demo_migrations MySQL (demo_mworld [] []) = (res, w') \<and> \<not> succeeds res \<and>
     mSchema (db w') = [''good'', ''half''] \<and>
     mHistory (db w') = Some [\<lparr>hVersion = ''1'', hName = ''a'', hDirty = False\<rparr>, \<lparr>hVersion = ''2'', hName = ''b'', hDirty = True\<rparr>]"
proof -
  have "settled [] (demo_mworld [] [])" by (simp add: settled_def ready_def demo_mworld_def)
  moreover have "mLocks (db (demo_mworld [] [])) = Some []" by (simp add: demo_mworld_def)
  moreover have "validateMigrationDialect MySQL = None" by (simp add: validateMigrationDialect_def Rebind_def)
  moreover have "migrate demo_ddl MySQL demo_migrations [] (mSchema (db (demo_mworld [] []))) =
      (False, [\<lparr>hVersion = ''1'', hName = ''a'', hDirty = False\<rparr>, \<lparr>hVersion = ''2'', hName = ''b'', hDirty = True\<rparr>], [''good'', ''half''])"
    by (simp add: demo_mworld_def demo_migrations_def demo_ddl_def nonTransactional_def)
  ultimately show ?thesis
    using up_is_exact [of "[]" "demo_mworld [] []" "[]" MySQL NewMigrationRunner demo_ddl demo_migrations] demo_tables
    by fastforce
qed

section \<open>The lock of another process\<close>

definition held :: "string \<Rightarrow> 's mdb \<Rightarrow> bool" where
  "held owner d \<longleftrightarrow> ready d \<and>
     (\<exists>locks l. mLocks d = Some locks \<and> l \<in> set locks \<and> lkName l = defaultMigrationLockName \<and> lkOwner l = owner)"

text \<open>The other processes keep the owner's lock in place; the owner itself may do what it likes.\<close>

definition others_keep :: "string \<Rightarrow> (mkind, 's mdb) world \<Rightarrow> bool" where
  "others_keep owner w \<longleftrightarrow> (\<forall>(flt, env) \<in> set (script w). \<forall>d. held owner d \<longrightarrow> held owner (env d))"

text \<open>What the others did during the first \<open>n\<close> statements.\<close>

definition only_others :: "(mkind, 's mdb) world \<Rightarrow> (mkind, 's mdb) world \<Rightarrow> bool" where
  "only_others w w' \<longleftrightarrow> (\<exists>n. script w' = drop n (script w) \<and> db w' = fold snd (take n (script w)) (db w))"

lemma only_others_refl: "script w' = script w \<Longrightarrow> db w' = db w \<Longrightarrow> only_others w w'"
  unfolding only_others_def by (rule exI [of _ 0]) simp

lemma only_others_trans:
  assumes "only_others w w1" and "only_others w1 w2"
  shows "only_others w w2"
proof -
  obtain n k where n: "script w1 = drop n (script w)" "db w1 = fold snd (take n (script w)) (db w)"
      and k: "script w2 = drop k (script w1)" "db w2 = fold snd (take k (script w1)) (db w1)"
    using assms unfolding only_others_def by blast
  have "script w2 = drop (n + k) (script w)" using n(1) k(1) by (simp add: add.commute)
  moreover have "db w2 = fold snd (take (n + k) (script w)) (db w)" using n k by (simp add: take_add)
  ultimately show ?thesis unfolding only_others_def by blast
qed

lemma only_others_held:
  assumes "only_others w w'" and "held owner (db w)" and "others_keep owner w"
  shows "held owner (db w') \<and> others_keep owner w'"
proof -
  obtain n where n: "script w' = drop n (script w)" "db w' = fold snd (take n (script w)) (db w)"
    using assms(1) unfolding only_others_def by blast
  have "held owner (fold snd es d)" if "set es \<subseteq> set (script w)" "held owner d" for es d
    using that assms(3) by (induction es arbitrary: d) (auto simp: others_keep_def)
  then have "held owner (db w')" using n(2) assms(2) set_take_subset by metis
  moreover have "others_keep owner w'" using assms(3) n(1) set_drop_subset unfolding others_keep_def by fastforce
  ultimately show ?thesis by simp
qed

text \<open>A computation that leaves the database alone while the lock is held, with what its result is like.\<close>

definition idle :: "string \<Rightarrow> ('s, 'a) mop \<Rightarrow> (merr + 'a \<Rightarrow> bool) \<Rightarrow> bool" where
  "idle owner m Q \<longleftrightarrow> (\<forall>w. held owner (db w) \<and> others_keep owner w \<longrightarrow> wp m (\<lambda>r w'. only_others w w' \<and> Q r) w)"

lemma idle_bind:
  fixes m :: "('s, 'a) mop"
  assumes m: "idle owner m Q" and f: "\<And>x. Q (Inr x) \<Longrightarrow> idle owner (f x) R" and e: "\<And>e. Q (Inl e) \<Longrightarrow> R (Inl e)"
  shows "idle owner (bindE m f) R"
  unfolding idle_def
proof (intro allI impI)
  fix w :: "(mkind, 's mdb) world" assume w: "held owner (db w) \<and> others_keep owner w"
  show "wp (bindE m f) (\<lambda>r w'. only_others w w' \<and> R r) w"
  proof (rule wp_bindI)
    show "wp m (\<lambda>r w'. only_others w w' \<and> Q r) w" using m w by (simp add: idle_def)
    show "only_others w w' \<and> R (Inl x)" if "only_others w w' \<and> Q (Inl x)" for x and w' :: "(mkind, 's mdb) world" using that e by simp
    fix x and w' :: "(mkind, 's mdb) world" assume x: "only_others w w' \<and> Q (Inr x)"
    then have "wp (f x) (\<lambda>r w''. only_others w' w'' \<and> R r) w'"
      using f only_others_held w unfolding idle_def by blast
    then show "wp (f x) (\<lambda>r w''. only_others w w'' \<and> R r) w'"
      using x only_others_trans by (auto elim!: wp_mono)
  qed
qed

lemma idle_any: "idle owner m Q \<Longrightarrow> (\<And>r. Q r \<Longrightarrow> R r) \<Longrightarrow> idle owner m R"
  unfolding idle_def by (auto elim!: wp_mono)

lemma idle_return: "Q (Inr x) \<Longrightarrow> idle owner (returnE x) Q"
  by (simp add: idle_def wp_simps only_others_refl)

lemma idle_throw: "Q (Inl e) \<Longrightarrow> idle owner (throwE e) Q"
  by (simp add: idle_def wp_simps only_others_refl)

lemma idle_attempt: "idle owner m (\<lambda>r. Q (Inr r)) \<Longrightarrow> idle owner (attemptE m) Q"
  by (simp add: idle_def wp_simps)

lemma idle_draw: "(\<And>n. Q (Inr n)) \<Longrightarrow> idle owner draw Q"
  by (auto simp: idle_def wp_def draw_def split: list.split intro!: only_others_refl)

lemma idle_stmt:
  fixes f :: "('s, 'a) msql"
  assumes f: "\<And>d. held owner d \<Longrightarrow> snd (f d) = d \<and> Q (fst (f d))" and e: "\<And>e. Q (Inl e)"
  shows "idle owner (stmt f) Q"
  unfolding idle_def
proof (intro allI impI)
  fix w :: "(mkind, 's mdb) world" assume w: "held owner (db w) \<and> others_keep owner w"
  show "wp (stmt f) (\<lambda>r w'. only_others w w' \<and> Q r) w"
  proof (cases "script w")
    case Nil
    then show ?thesis
      using stmt_quiet [OF Nil, of f] f [of "db w"] w only_others_refl [of "w" w] by (simp add: wp_def)
  next
    case (Cons a rest)
    obtain flt env where a: "a = (flt, env)" by (cases a)
    have h: "held owner (env (db w))" using w Cons a by (auto simp: others_keep_def)
    have "only_others w (w\<lparr>db := env (db w), script := rest\<rparr>)"
      unfolding only_others_def by (rule exI [of _ 1]) (simp add: Cons a)
    then show ?thesis
      using f [OF h] e Cons a by (cases flt; cases "f (env (db w))") (auto simp: wp_def stmt_def run_sql_def)
  qed
qed

lemma idle_failing: "idle owner (failing x) (\<lambda>_. True)"
  by (cases x) (simp_all add: failing_def idle_return idle_throw)

lemma held_ready: "held owner d \<Longrightarrow> ready d"
  by (simp add: held_def)

lemma idle_top:
  "idle owner m (\<lambda>_. True) \<Longrightarrow> (\<And>x. idle owner (f x) (\<lambda>_. True)) \<Longrightarrow> idle owner (bindE m f) (\<lambda>_. True)"
  by (rule idle_bind) auto

lemma idle_if: "(b \<Longrightarrow> idle owner m Q) \<Longrightarrow> (\<not> b \<Longrightarrow> idle owner n Q) \<Longrightarrow> idle owner (if b then m else n) Q"
  by simp

lemma idle_sum:
  "(\<And>e. r = Inl e \<Longrightarrow> idle owner (f e) Q) \<Longrightarrow> (\<And>x. r = Inr x \<Longrightarrow> idle owner (g x) Q) \<Longrightarrow>
   idle owner (case r of Inl e \<Rightarrow> f e | Inr x \<Rightarrow> g x) Q"
  by (cases r) auto

lemma idle_sql:
  "idle owner (stmt sql_create_history) (\<lambda>_. True)" "idle owner (stmt sql_probe_dirty) (\<lambda>_. True)"
  "idle owner (stmt sql_add_dirty) (\<lambda>_. True)" "idle owner (stmt sql_create_locks) (\<lambda>_. True)"
  "idle owner (stmt sql_probe_owner) (\<lambda>_. True)" "idle owner (stmt sql_add_owner) (\<lambda>_. True)"
  by (rule idle_stmt; auto dest!: held_ready simp: ready_def sql_create_history_def sql_probe_dirty_def sql_add_dirty_def
      sql_create_locks_def sql_probe_owner_def sql_add_owner_def)+

lemmas idle_intros = idle_top idle_failing idle_attempt idle_if idle_sum idle_sql idle_return idle_throw

lemma idle_prepare: "idle owner (prepare_tables r) (\<lambda>_. True)"
  unfolding prepare_tables_def ensureTable_def migrationTableHasDirty_def ensureLockTable_def lockTableHasOwner_def
  by (intro idle_intros TrueI)

text \<open>The insertion of a second lock row fails and changes nothing.\<close>

lemma insert_held:
  "held owner d \<Longrightarrow> \<exists>e. sql_insert_lock defaultMigrationLockName o' d = (Inl e, d)"
proof -
  assume "held owner d"
  then obtain locks where l: "mLocks d = Some locks" "mOwnerColumn d" "list_ex (\<lambda>r. lkName r = defaultMigrationLockName) locks"
    by (auto simp: held_def ready_def list_ex_iff)
  then show ?thesis by (simp add: sql_insert_lock_def sql_locks_def)
qed

lemma idle_acquire: "idle owner (acquireLock t d) (\<lambda>r. \<not> succeeds r)"
proof -
  have ins: "idle owner (stmt (sql_insert_lock defaultMigrationLockName o')) (\<lambda>r. \<not> succeeds r)" for o'
    by (rule idle_stmt) (auto dest!: insert_held [where o' = o'])
  have wrap: "idle owner (wrapping q (stmt (sql_insert_lock defaultMigrationLockName o'))) (\<lambda>r. \<not> succeeds r)" for q o'
    unfolding wrapping_def
    by (rule idle_bind [where Q = "\<lambda>r. case r of Inr x \<Rightarrow> \<not> succeeds x | Inl _ \<Rightarrow> True"])
      (auto intro!: idle_attempt ins idle_sum idle_throw idle_return)
  have reb: "idle owner (rebound d q (bindE (wrapping p (stmt (sql_insert_lock defaultMigrationLockName o')))
      (\<lambda>_. returnE o'))) (\<lambda>r. \<not> succeeds r)" for q p o'
    unfolding rebound_def by (auto intro!: idle_sum idle_throw idle_bind [OF wrap])
  have owner: "idle owner newMigrationLockOwner (\<lambda>_. True)"
    unfolding newMigrationLockOwner_def by (intro idle_top idle_draw idle_return TrueI)
  show ?thesis unfolding acquireLock_def by (rule idle_bind [OF owner reb]) simp
qed

lemma idle_locked:
  assumes "validateMigrationDialect d = None"
  shows "idle owner (bindE (prepare_tables r) (\<lambda>_. holding_lock t d body)) (\<lambda>r. \<not> succeeds r)"
proof (rule idle_bind [OF idle_prepare])
  show "idle owner (holding_lock t d body) (\<lambda>r. \<not> succeeds r)" if "True" for x :: unit
    unfolding holding_lock_def by (rule idle_bind [OF idle_acquire]) auto
qed auto

text \<open>C35: The lock excludes: while another process holds it, \<open>Up\<close>, \<open>Down\<close> and \<open>ForceMigrationState\<close> fail and
  change nothing, whatever the owner of the lock and the other processes do in between and however
  the driver fails: all that happens to the database is what the others do.\<close>

theorem migration_lock_excludes:
  assumes "held owner (db w)" and "others_keep owner w"
    and "m \<in> {up ddl r ms d, down ddl r ms steps d, forceMigrationState r version applied d}" and "0 < steps"
    and "m w = (res, w')"
  shows "(\<exists>e. res = Inl e) \<and> (\<exists>n. db w' = fold snd (take n (script w)) (db w))"
proof -
  have idle: "idle owner (bindE (failing (validateMigrationDialect d)) (\<lambda>_. bindE (prepare_tables r) (\<lambda>_. holding_lock t d body)))
      (\<lambda>r. \<not> succeeds r)" for t and body :: "('a, unit) mop"
  proof (cases "validateMigrationDialect d")
    case None
    then show ?thesis using idle_locked [OF None] by (simp add: failing_def bindE_def returnE_def)
  next
    case (Some e)
    then show ?thesis by (simp add: failing_def bindE_def throwE_def idle_def wp_def only_others_refl)
  qed
  have "idle owner m (\<lambda>r. \<not> succeeds r)"
    using assms(3,4) idle idle_throw [of "\<lambda>r. \<not> succeeds r"]
    by (auto simp: up_def down_def forceMigrationState_def)
  then have "only_others w w' \<and> \<not> succeeds res"
    using assms(1,2,5) unfolding idle_def by (metis (mono_tags, lifting) wp_run)
  then show ?thesis unfolding only_others_def by (cases res) auto
qed

theorem migration_lock_excludes_witness:
  "\<exists>e. fst (up demo_ddl NewMigrationRunner demo_migrations MySQL
     (demo_mworld [\<lparr>lkName = defaultMigrationLockName, lkOwner = ''other''\<rparr>] [(NoFault, \<lambda>d. d\<lparr>mSchema := [''x'']\<rparr>)])) = Inl e"
proof -
  let ?w = "demo_mworld [\<lparr>lkName = defaultMigrationLockName, lkOwner = ''other''\<rparr>] [(NoFault, \<lambda>d. d\<lparr>mSchema := [''x'']\<rparr>)]"
  have "held ''other'' (db ?w)" by (simp add: held_def ready_def demo_mworld_def)
  moreover have "others_keep ''other'' ?w" by (simp add: others_keep_def demo_mworld_def held_def ready_def)
  ultimately show ?thesis
    using migration_lock_excludes [of "''other''" ?w "up demo_ddl NewMigrationRunner demo_migrations MySQL" demo_ddl
        NewMigrationRunner demo_migrations MySQL 1 "[]" True "fst (up demo_ddl NewMigrationRunner demo_migrations MySQL ?w)"
        "snd (up demo_ddl NewMigrationRunner demo_migrations MySQL ?w)"]
    by simp
qed

end
