(* ===== verification/MigrationCrash.thy ===== *)
theory MigrationCrash
  imports MigrationProps "HOL-Library.Sublist"
begin

text \<open>
  What an \<open>Up\<close> leaves behind that a driver fault interrupts at any statement, in any transaction or
  commit: the schema is the result of the recorded migrations, up to one whose history row is dirty.
  The proof rules follow the part of the database that the lock protects, the view.
\<close>

section \<open>The view that the lock protects\<close>

datatype 's mview = View (vHistory: "hrow list option") (vDirtyColumn: bool) (vSchema: 's)

definition view :: "'s mdb \<Rightarrow> 's mview" where
  "view d = View (mHistory d) (mDirtyColumn d) (mSchema d)"

text \<open>The other processes leave the history and the schema alone; the lock table may change.\<close>

definition others_leave :: "(mkind, 's mdb) world \<Rightarrow> bool" where
  "others_leave w \<longleftrightarrow> (\<forall>(flt, env) \<in> set (script w). \<forall>d. view (env d) = view d)"

text \<open>
  \<open>traced P m Q\<close>: from a view with \<open>P\<close> the computation ends with \<open>Q\<close> of its result and the view,
  also when the result is an error.
\<close>

definition traced :: "('s mview \<Rightarrow> bool) \<Rightarrow> ('s, 'a) mop \<Rightarrow> (merr + 'a \<Rightarrow> 's mview \<Rightarrow> bool) \<Rightarrow> bool" where
  "traced P m Q \<longleftrightarrow> (\<forall>w. others_leave w \<and> P (view (db w)) \<longrightarrow>
     wp m (\<lambda>r w'. others_leave w' \<and> Q r (view (db w'))) w)"

lemma tracedD: "traced P m Q \<Longrightarrow> others_leave w \<Longrightarrow> P (view (db w)) \<Longrightarrow> m w = (r, w') \<Longrightarrow> Q r (view (db w'))"
  unfolding traced_def by (metis (mono_tags, lifting) wp_run)

lemma traced_bind:
  fixes m :: "('s, 'a) mop"
  assumes m: "traced P m R" and f: "\<And>x. traced (R (Inr x)) (f x) Q" and e: "\<And>e v. R (Inl e) v \<Longrightarrow> Q (Inl e) v"
  shows "traced P (bindE m f) Q"
  unfolding traced_def
proof (intro allI impI)
  fix w :: "(mkind, 's mdb) world" assume w: "others_leave w \<and> P (view (db w))"
  show "wp (bindE m f) (\<lambda>r w'. others_leave w' \<and> Q r (view (db w'))) w"
  proof (rule wp_bindI)
    show "wp m (\<lambda>r w'. others_leave w' \<and> R r (view (db w'))) w" using m w by (simp add: traced_def)
    show "others_leave w' \<and> Q (Inl x) (view (db w'))"
      if "others_leave w' \<and> R (Inl x) (view (db w'))" for x and w' :: "(mkind, 's mdb) world" using that e by simp
    show "wp (f x) (\<lambda>r w'. others_leave w' \<and> Q r (view (db w'))) w'"
      if "others_leave w' \<and> R (Inr x) (view (db w'))" for x and w' :: "(mkind, 's mdb) world"
      using that f [of x] by (simp add: traced_def)
  qed
qed

lemma traced_return: "(\<And>v. P v \<Longrightarrow> Q (Inr x) v) \<Longrightarrow> traced P (returnE x) Q"
  by (simp add: traced_def wp_simps)

lemma traced_throw: "(\<And>v. P v \<Longrightarrow> Q (Inl e) v) \<Longrightarrow> traced P (throwE e) Q"
  by (simp add: traced_def wp_simps)

lemma traced_attempt: "traced P m (\<lambda>r. Q (Inr r)) \<Longrightarrow> traced P (attemptE m) Q"
  by (simp add: traced_def wp_simps)

lemma traced_pre: "traced R m Q \<Longrightarrow> (\<And>v. P v \<Longrightarrow> R v) \<Longrightarrow> traced P m Q"
  by (simp add: traced_def)

lemma traced_post: "traced P m R \<Longrightarrow> (\<And>r v. R r v \<Longrightarrow> Q r v) \<Longrightarrow> traced P m Q"
  unfolding traced_def by (metis (mono_tags, lifting) wp_mono)

lemma traced_if: "(b \<Longrightarrow> traced P m Q) \<Longrightarrow> (\<not> b \<Longrightarrow> traced P n Q) \<Longrightarrow> traced P (if b then m else n) Q"
  by simp

lemma traced_sum:
  "(\<And>e. r = Inl e \<Longrightarrow> traced P (f e) Q) \<Longrightarrow> (\<And>x. r = Inr x \<Longrightarrow> traced P (g x) Q) \<Longrightarrow>
   traced P (case r of Inl e \<Rightarrow> f e | Inr x \<Rightarrow> g x) Q"
  by (cases r) auto

lemma traced_draw: "traced P draw (\<lambda>_. P)"
  by (auto simp: traced_def wp_def draw_def others_leave_def split: list.split)

text \<open>A statement: the outcome of its SQL, or an error before or after it.\<close>

definition sql_outcomes :: "('s mview \<Rightarrow> bool) \<Rightarrow> ('s, 'a) msql \<Rightarrow> (merr + 'a \<Rightarrow> 's mview \<Rightarrow> bool) \<Rightarrow> bool" where
  "sql_outcomes P f Q \<longleftrightarrow> (\<forall>d. P (view d) \<longrightarrow>
     (case f d of (r, d') \<Rightarrow> Q r (view d') \<and> (\<forall>e. Q (Inl e) (view d') \<and> Q (Inl e) (view d))))"

lemma sql_outcomesD:
  "sql_outcomes P f Q \<Longrightarrow> P (view d) \<Longrightarrow> Q (fst (run_sql flt f d)) (view (snd (run_sql flt f d)))"
  unfolding sql_outcomes_def run_sql_def by (cases flt; cases "f d") (auto split: prod.splits)

lemma others_leave_tail: "others_leave w \<Longrightarrow> script w = a # rest \<Longrightarrow> others_leave (w\<lparr>db := d, script := rest\<rparr>)"
  by (simp add: others_leave_def)

lemma others_leave_db: "others_leave (w\<lparr>db := d\<rparr>) = others_leave w"
  by (simp add: others_leave_def)

lemma run_sql_NoFault: "run_sql NoFault f d = f d"
  by (simp add: run_sql_def)

lemma traced_stmt:
  assumes "sql_outcomes P f Q"
  shows "traced P (stmt f) Q" and "traced P (tx_stmt f) Q"
proof -
  note out = sql_outcomesD [OF assms]
  have nofault: "Q (fst (f d)) (view (snd (f d)))" if "P (view d)" for d
    using out [OF that, of NoFault] by (simp add: run_sql_NoFault)
  have "wp (stmt f) (\<lambda>r w'. others_leave w' \<and> Q r (view (db w'))) w \<and>
      wp (tx_stmt f) (\<lambda>r w'. others_leave w' \<and> Q r (view (db w'))) w"
    if w: "others_leave w" "P (view (db w))" for w
  proof (cases "script w")
    case Nil
    then show ?thesis using w nofault [of "db w"] by (simp add: wp_def stmt_quiet tx_stmt_quiet others_leave_db)
  next
    case (Cons a rest)
    obtain flt env where a: "a = (flt, env)" by (cases a)
    have "view (env (db w)) = view (db w)" using w(1) Cons a by (auto simp: others_leave_def)
    then show ?thesis
      using out [of "env (db w)" flt] out [of "db w" flt] w Cons a
      by (auto simp: wp_def stmt_def tx_stmt_def others_leave_def case_prod_beta)
  qed
  then show "traced P (stmt f) Q" "traced P (tx_stmt f) Q" by (simp_all add: traced_def)
qed

text \<open>A transaction: an error leaves the view as it was, but a commit may also fail after it took effect.\<close>

lemma traced_transaction:
  fixes body :: "('s, 'a) mop"
  assumes body: "\<And>v. P v \<Longrightarrow> traced ((=) v) body R" and e: "\<And>v e. P v \<Longrightarrow> Q (Inl e) v"
    and ok: "\<And>v x. R (Inr x) v \<Longrightarrow> Q (Inr x) v \<and> (\<forall>e. Q (Inl e) v)"
  shows "traced P (transaction body) Q"
  unfolding transaction_def
proof (rule traced_bind [where R = "\<lambda>_. P"])
  show "traced P (stmt (\<lambda>d. (Inr (), d))) (\<lambda>_. P)" by (rule traced_stmt) (simp add: sql_outcomes_def)
  show "Q (Inl x) v" if "P v" for x v using that e by simp
  fix x :: unit
  show "traced P (\<lambda>w. case body w of (Inl e, w') \<Rightarrow> (Inl e, w'\<lparr>db := db w\<rparr>)
        | (Inr x, w') \<Rightarrow> (case script w' of [] \<Rightarrow> (Inr x, w')
            | (FaultBefore e, env) # rest \<Rightarrow> (Inl e, w'\<lparr>db := db w, script := rest\<rparr>)
            | (FaultAfter e, env) # rest \<Rightarrow> (Inl e, w'\<lparr>script := rest\<rparr>)
            | (NoFault, env) # rest \<Rightarrow> (Inr x, w'\<lparr>script := rest\<rparr>))) Q"
    unfolding traced_def
  proof (intro allI impI)
    fix w :: "(mkind, 's mdb) world" assume w: "others_leave w \<and> P (view (db w))"
    obtain r w' where b: "body w = (r, w')" by (cases "body w")
    have R: "others_leave w' \<and> R r (view (db w'))"
      using body [of "view (db w)"] w b unfolding traced_def wp_def by auto
    show "wp (\<lambda>w. case body w of (Inl e, w') \<Rightarrow> (Inl e, w'\<lparr>db := db w\<rparr>)
        | (Inr x, w') \<Rightarrow> (case script w' of [] \<Rightarrow> (Inr x, w')
            | (FaultBefore e, env) # rest \<Rightarrow> (Inl e, w'\<lparr>db := db w, script := rest\<rparr>)
            | (FaultAfter e, env) # rest \<Rightarrow> (Inl e, w'\<lparr>script := rest\<rparr>)
            | (NoFault, env) # rest \<Rightarrow> (Inr x, w'\<lparr>script := rest\<rparr>)))
        (\<lambda>r w'. others_leave w' \<and> Q r (view (db w'))) w"
    proof (cases r)
      case (Inl err)
      then show ?thesis using R w e b by (simp add: wp_def others_leave_def)
    next
      case (Inr y)
      then have Q: "Q (Inr y) (view (db w'))" "\<And>e. Q (Inl e) (view (db w'))" using R ok by auto
      show ?thesis
      proof (cases "script w'")
        case Nil
        then show ?thesis using R Inr Q b by (simp add: wp_def)
      next
        case (Cons a rest)
        obtain flt env where a: "a = (flt, env)" by (cases a)
        show ?thesis using R w e Inr Q b Cons a by (cases flt) (auto simp: wp_def others_leave_def)
      qed
    qed
  qed
qed

section \<open>Statements that keep the view\<close>

lemma traced_locks:
  assumes "\<And>r v. P v \<Longrightarrow> Q r v"
  shows "traced P (stmt (sql_locks f)) Q"
  by (rule traced_stmt)
    (auto simp: sql_outcomes_def sql_locks_def view_def assms split: option.split prod.split)

lemma traced_query:
  assumes "\<And>rows. snd (f rows) = rows" and "\<And>r v. P v \<Longrightarrow> Q r v"
  shows "traced P (stmt (sql_history f)) Q"
proof -
  have keep: "\<And>r rows rows'. f rows = (r, rows') \<Longrightarrow> rows' = rows" using assms(1) by (metis snd_conv)
  show ?thesis
    by (intro traced_stmt(1))
      (auto simp: sql_outcomes_def sql_history_def view_def assms(2) split: option.split prod.split dest!: keep)
qed

text \<open>The preparation of tables that exist already.\<close>

definition tables_exist :: "'s mview \<Rightarrow> bool" where
  "tables_exist v \<longleftrightarrow> vHistory v \<noteq> None \<and> vDirtyColumn v"

lemma traced_tables:
  assumes "\<And>v. P v \<Longrightarrow> tables_exist v" and "\<And>r v. P v \<Longrightarrow> Q r v"
  shows "traced P (stmt sql_create_history) (Q :: merr + unit \<Rightarrow> 's mview \<Rightarrow> bool)" "traced P (stmt sql_probe_dirty) Q"
    "traced P (stmt sql_add_dirty) Q" "traced P (stmt sql_create_locks) Q"
    "traced P (stmt sql_probe_owner) Q" "traced P (stmt sql_add_owner) Q"
proof -
  have no: "\<not> P (View None b s)" "\<not> P (View h False s)" for b s h using assms(1) by (force simp: tables_exist_def)+
  show "traced P (stmt sql_create_history) Q" "traced P (stmt sql_probe_dirty) Q"
    "traced P (stmt sql_add_dirty) Q" "traced P (stmt sql_create_locks) Q"
    "traced P (stmt sql_probe_owner) Q" "traced P (stmt sql_add_owner) Q"
    by (rule traced_stmt; auto simp: sql_outcomes_def view_def no assms(2) sql_create_history_def sql_probe_dirty_def
        sql_add_dirty_def sql_create_locks_def sql_probe_owner_def sql_add_owner_def split: option.split)+
qed

lemma traced_keep:
  fixes f :: "'a \<Rightarrow> ('s, 'b) mop"
  shows "traced P m (\<lambda>_. P) \<Longrightarrow> (\<And>x. traced P (f x) (\<lambda>_. P)) \<Longrightarrow> traced P (bindE m f) (\<lambda>_. P)"
  by (rule traced_bind)

lemma traced_failing: "traced P (failing x) (\<lambda>_. P)"
  by (cases x) (simp_all add: failing_def traced_return traced_throw)

lemma traced_wrapping:
  assumes "traced P m Q" and "\<And>e e' v. Q (Inl e) v \<Longrightarrow> Q (Inl e') v"
  shows "traced P (wrapping what m) Q"
  unfolding wrapping_def
  by (rule traced_bind [where R = "\<lambda>r v. case r of Inl e \<Rightarrow> False | Inr x \<Rightarrow> Q x v"])
    (auto intro!: traced_attempt traced_sum traced_throw traced_return intro: traced_post [OF assms(1)] assms(2))

lemma traced_rebound:
  "traced P m Q \<Longrightarrow> (\<And>e v. P v \<Longrightarrow> Q (Inl e) v) \<Longrightarrow> traced P (rebound d q m) Q"
  unfolding rebound_def by (auto intro!: traced_sum traced_throw)

section \<open>One migration\<close>

definition history_row :: "bool \<Rightarrow> migration \<Rightarrow> hrow" where
  "history_row dirty m = \<lparr>hVersion = Version m, hName = Name m, hDirty = dirty\<rparr>"

abbreviation rows_view :: "hrow list \<Rightarrow> 's \<Rightarrow> 's mview" where
  "rows_view hist s \<equiv> View (Some hist) True s"

text \<open>What a migration may leave: nothing, a dirty row and the schema before or after its SQL, or a clean
  row and the schema that its SQL completed.\<close>

definition after_up :: "'s ddl \<Rightarrow> hrow list \<Rightarrow> 's \<Rightarrow> migration \<Rightarrow> merr + 'a \<Rightarrow> 's mview \<Rightarrow> bool" where
  "after_up ddl hist s m r v \<longleftrightarrow>
     v = rows_view hist s \<and> \<not> succeeds r \<or>
     v \<in> rows_view (hist @ [history_row True m]) ` {s, snd (ddl (UpSQL m) s)} \<and> \<not> succeeds r \<or>
     (\<exists>s'. ddl (UpSQL m) s = (None, s') \<and> v = rows_view (hist @ [history_row False m]) s')"

lemma after_up_error: "after_up ddl hist s m r v \<Longrightarrow> after_up ddl hist s m (Inl e) v"
  by (auto simp: after_up_def)

lemma after_upI:
  "after_up ddl hist s m (Inl e) (rows_view hist s)"
  "s' \<in> {s, snd (ddl (UpSQL m) s)} \<Longrightarrow> after_up ddl hist s m (Inl e) (rows_view (hist @ [history_row True m]) s')"
  "ddl (UpSQL m) s = (None, s') \<Longrightarrow> after_up ddl hist s m r (rows_view (hist @ [history_row False m]) s')"
  by (auto simp: after_up_def)

text \<open>The three statements: recording, the SQL itself, clearing the flag.\<close>

definition inserted :: "bool \<Rightarrow> hrow list \<Rightarrow> 's \<Rightarrow> migration \<Rightarrow> merr + unit \<Rightarrow> 's mview \<Rightarrow> bool" where
  "inserted dirty hist s m r v \<longleftrightarrow>
     v = rows_view (hist @ [history_row dirty m]) s \<and> List.find (\<lambda>x. hVersion x = Version m) hist = None \<or>
     v = rows_view hist s \<and> \<not> succeeds r"

lemma rows_viewD:
  "rows_view hist s = view d \<Longrightarrow> mHistory d = Some hist \<and> mDirtyColumn d \<and> mSchema d = s"
  by (simp add: view_def)

lemma history_outcomes:
  assumes "f hist = (r, h)" and "Q r (rows_view h s)" and "\<And>e. Q (Inl e) (rows_view h s)" and "\<And>e. Q (Inl e) (rows_view hist s)"
  shows "sql_outcomes ((=) (rows_view hist s)) (sql_history f) Q"
  unfolding sql_outcomes_def
proof (intro allI impI)
  fix d assume "rows_view hist s = view d"
  note d = rows_viewD [OF this]
  then show "case sql_history f d of (r, d') \<Rightarrow> Q r (view d') \<and> (\<forall>e. Q (Inl e) (view d') \<and> Q (Inl e) (view d))"
    using assms by (simp add: sql_history_def view_def)
qed

lemma insert_outcomes:
  "sql_outcomes ((=) (rows_view hist s)) (sql_insert_history (Version m) (Name m) dirty) (inserted dirty hist s m)"
proof (cases "list_ex (\<lambda>r. hVersion r = Version m) hist")
  case True
  then show ?thesis unfolding sql_insert_history_def by (intro history_outcomes) (auto simp: inserted_def)
next
  case False
  then have "List.find (\<lambda>x. hVersion x = Version m) hist = None" by (auto simp: list_ex_iff find_None_iff)
  with False show ?thesis
    unfolding sql_insert_history_def by (intro history_outcomes) (auto simp: inserted_def history_row_def)
qed

definition sql_run :: "'s ddl \<Rightarrow> hrow list \<Rightarrow> 's \<Rightarrow> migration \<Rightarrow> merr + unit \<Rightarrow> 's mview \<Rightarrow> bool" where
  "sql_run ddl hist s m r v \<longleftrightarrow>
     (\<exists>s'. ddl (UpSQL m) s = (None, s') \<and> v = rows_view hist s') \<or>
     v \<in> rows_view hist ` {s, snd (ddl (UpSQL m) s)} \<and> \<not> succeeds r"

lemma run_outcomes:
  "sql_outcomes ((=) (rows_view hist s)) (sql_migration ddl (UpSQL m)) (sql_run ddl hist s m)"
  unfolding sql_outcomes_def
proof (intro allI impI)
  fix d assume "rows_view hist s = view d"
  note d = rows_viewD [OF this]
  obtain x s' where "ddl (UpSQL m) s = (x, s')" by fastforce
  with d show "case sql_migration ddl (UpSQL m) d of (r, d') \<Rightarrow> sql_run ddl hist s m r (view d') \<and>
      (\<forall>e. sql_run ddl hist s m (Inl e) (view d') \<and> sql_run ddl hist s m (Inl e) (view d))"
    by (cases x) (simp_all add: sql_migration_def view_def sql_run_def)
qed

lemma clear_outcomes:
  assumes "List.find (\<lambda>x. hVersion x = Version m) hist = None" and "ddl (UpSQL m) s = (None, s')"
  shows "sql_outcomes ((=) (rows_view (hist @ [history_row True m]) s')) (sql_set_dirty (Version m) True False)
    (after_up ddl hist s m)"
proof -
  note c = clear_last [OF assms(1), of "Name m"]
  have row: "\<lparr>hVersion = Version m, hName = Name m, hDirty = b\<rparr> = history_row b m" for b by (simp add: history_row_def)
  show ?thesis
    unfolding sql_set_dirty_def
    by (rule history_outcomes) (use c assms(2) in \<open>auto simp: row after_up_def\<close>)
qed

lemma traced_case: "(\<And>v. P v \<Longrightarrow> traced ((=) v) m Q) \<Longrightarrow> traced P m Q"
  by (auto simp: traced_def)

lemma inserted_error: "inserted dirty hist s m (Inl e) v \<Longrightarrow> inserted dirty hist s m (Inl e') v"
  by (auto simp: inserted_def)

lemma sql_run_error: "sql_run ddl hist s m (Inl e) v \<Longrightarrow> sql_run ddl hist s m (Inl e') v"
  by (auto simp: sql_run_def)

lemma traced_applyUpNonTransactional:
  "traced ((=) (rows_view hist s)) (applyUpNonTransactional ddl t m d) (after_up ddl hist s m)"
  unfolding applyUpNonTransactional_def Let_def
proof (rule traced_rebound, rule traced_bind [where R = "inserted True hist s m"])
  fix what :: string
  show "traced ((=) (rows_view hist s)) (wrapping what (stmt (sql_insert_history (Version m) (Name m) True)))
      (inserted True hist s m)"
    by (intro traced_wrapping traced_stmt insert_outcomes) (erule inserted_error)
next
  fix e v assume "inserted True hist s m (Inl e) v"
  then show "after_up ddl hist s m (Inl e) v" by (auto simp: inserted_def after_up_def)
next
  fix x :: unit and what q clear :: string
  let ?h = "hist @ [history_row True m]"
  show "traced (inserted True hist s m (Inr x))
      (bindE (wrapping what (stmt (sql_migration ddl (UpSQL m)))) (\<lambda>_.
       rebound d q (bindE (wrapping clear (stmt (sql_set_dirty (Version m) True False))) (\<lambda>changed.
         if changed \<noteq> 1 then throwE (errorf e) else returnE ()))))
      (after_up ddl hist s m)" for e
  proof (rule traced_case, rule traced_bind [where R = "sql_run ddl ?h s m"])
    fix v assume v: "inserted True hist s m (Inr x) v"
    then have new: "List.find (\<lambda>x. hVersion x = Version m) hist = None" and [simp]: "v = rows_view ?h s"
      by (auto simp: inserted_def)
    show "traced ((=) v) (wrapping what (stmt (sql_migration ddl (UpSQL m)))) (sql_run ddl ?h s m)"
      by (auto intro!: traced_wrapping traced_stmt run_outcomes elim: sql_run_error)
    show "after_up ddl hist s m (Inl e') w" if "sql_run ddl ?h s m (Inl e') w" for e' w
      using that by (auto simp: sql_run_def after_up_def)
    show "traced (sql_run ddl ?h s m (Inr y))
       (rebound d q (bindE (wrapping clear (stmt (sql_set_dirty (Version m) True False))) (\<lambda>changed.
         if changed \<noteq> 1 then throwE (errorf e) else returnE ())))
      (after_up ddl hist s m)" for y
    proof (rule traced_case)
      fix w assume "sql_run ddl ?h s m (Inr y) w"
      then obtain s' where s': "ddl (UpSQL m) s = (None, s')" "w = rows_view ?h s'" by (auto simp: sql_run_def)
      show "traced ((=) w) (rebound d q (bindE (wrapping clear (stmt (sql_set_dirty (Version m) True False))) (\<lambda>changed.
          if changed \<noteq> 1 then throwE (errorf e) else returnE ()))) (after_up ddl hist s m)"
      proof (rule traced_rebound, rule traced_bind [where R = "after_up ddl hist s m"])
        show "traced ((=) w) (wrapping clear (stmt (sql_set_dirty (Version m) True False))) (after_up ddl hist s m)"
          unfolding s'(2) by (intro traced_wrapping traced_stmt clear_outcomes new s'(1)) (erule after_up_error)
        show "traced (after_up ddl hist s m (Inr n)) (if n \<noteq> 1 then throwE (errorf e) else returnE ())
            (after_up ddl hist s m)" for n :: nat
          by (intro traced_if traced_throw traced_return) (auto simp: after_up_def)
      qed (auto simp: s' intro: after_upI after_up_error)
    qed
  qed
qed (auto intro: after_upI)

lemma traced_applyUp: "traced ((=) (rows_view hist s)) (applyUp ddl t m d) (after_up ddl hist s m)"
proof (cases "nonTransactional d (UpSQL m)")
  case True
  then show ?thesis by (simp add: applyUp_def traced_applyUpNonTransactional)
next
  case False
  let ?R = "\<lambda>r v. succeeds r \<longrightarrow> (\<exists>s'. ddl (UpSQL m) s = (None, s') \<and> v = rows_view (hist @ [history_row False m]) s')"
  have ins: "traced (sql_run ddl hist s m (Inr x)) (rebound d q (wrapping what
      (tx_stmt (sql_insert_history (Version m) (Name m) False)))) ?R" for x q what
  proof (rule traced_case)
    fix v assume "sql_run ddl hist s m (Inr x) v"
    then obtain s' where s': "ddl (UpSQL m) s = (None, s')" "v = rows_view hist s'" by (auto simp: sql_run_def)
    have "traced ((=) v) (wrapping what (tx_stmt (sql_insert_history (Version m) (Name m) False))) (inserted False hist s' m)"
      unfolding s'(2) by (intro traced_wrapping traced_stmt insert_outcomes) (erule inserted_error)
    then show "traced ((=) v) (rebound d q (wrapping what (tx_stmt (sql_insert_history (Version m) (Name m) False)))) ?R"
      by (intro traced_rebound) (auto elim!: traced_post simp: inserted_def s')
  qed
  have run: "traced ((=) (rows_view hist s)) (wrapping what (tx_stmt (sql_migration ddl (UpSQL m)))) (sql_run ddl hist s m)" for what
    by (intro traced_wrapping traced_stmt run_outcomes) (erule sql_run_error)
  show ?thesis
    unfolding applyUp_def Let_def using False
    by (simp, intro traced_transaction [where R = ?R])
      (auto intro!: traced_bind [OF run ins] intro: after_upI)
qed

section \<open>The loop and the lock\<close>

text \<open>The schema after some migrations that all completed.\<close>

primrec run_all :: "'s ddl \<Rightarrow> migration list \<Rightarrow> 's \<Rightarrow> 's option" where
  "run_all ddl [] s = Some s"
| "run_all ddl (m # ms) s = (case ddl (UpSQL m) s of (None, s') \<Rightarrow> run_all ddl ms s' | (Some e, s') \<Rightarrow> None)"

definition is_recorded :: "hrow list option \<Rightarrow> migration \<Rightarrow> bool" where
  "is_recorded hist m \<longleftrightarrow> (\<exists>rows. hist = Some rows \<and> history_row False m \<in> set rows)"

text \<open>
  What an \<open>Up\<close> of \<open>ms\<close> may leave: the rows and the schema of some of them, completed in order, and
  possibly one more with a dirty row; without an error every one is recorded and nothing is dirty that
  was not before.
\<close>

definition explained :: "'s ddl \<Rightarrow> migration list \<Rightarrow> hrow list \<Rightarrow> 's \<Rightarrow> merr + unit \<Rightarrow> 's mview \<Rightarrow> bool" where
  "explained ddl ms hist s r v \<longleftrightarrow> (\<exists>done s1. subseq done ms \<and> run_all ddl done s = Some s1 \<and>
     (let rows = hist @ map (history_row False) done in
      v = rows_view rows s1 \<or>
      \<not> succeeds r \<and> (\<exists>m \<in> set ms. v \<in> rows_view (rows @ [history_row True m]) ` {s1, snd (ddl (UpSQL m) s1)}))) \<and>
   (succeeds r \<longrightarrow> (\<forall>m \<in> set ms. is_recorded (vHistory v) m))"

lemma explained_error: "explained ddl ms hist s r v \<Longrightarrow> explained ddl ms hist s (Inl e) v"
  unfolding explained_def Let_def by auto

lemma explained_same: "explained ddl ms hist s (Inl e) (rows_view hist s)"
  unfolding explained_def by (auto intro!: exI [of _ "[]"] exI [of _ s])

lemma explained_tail:
  assumes "explained ddl ms (hist @ [history_row False m]) s' r v" and "ddl (UpSQL m) s = (None, s')"
  shows "explained ddl (m # ms) hist s r v"
proof -
  obtain "done" s1 where d: "subseq done ms" "run_all ddl done s' = Some s1"
    and v: "let rows = (hist @ [history_row False m]) @ map (history_row False) done in
      v = rows_view rows s1 \<or>
      \<not> succeeds r \<and> (\<exists>m \<in> set ms. v \<in> rows_view (rows @ [history_row True m]) ` {s1, snd (ddl (UpSQL m) s1)})"
    and ok: "succeeds r \<longrightarrow> (\<forall>m \<in> set ms. is_recorded (vHistory v) m)"
    using assms(1) unfolding explained_def by blast
  have "subseq (m # done) (m # ms)" "run_all ddl (m # done) s = Some s1" using d assms(2) by auto
  moreover have "let rows = hist @ map (history_row False) (m # done) in
      v = rows_view rows s1 \<or>
      \<not> succeeds r \<and> (\<exists>m \<in> set (m # ms). v \<in> rows_view (rows @ [history_row True m]) ` {s1, snd (ddl (UpSQL m) s1)})"
    using v unfolding Let_def by auto
  moreover have "is_recorded (vHistory v) m" if "succeeds r"
    using v that unfolding Let_def is_recorded_def by auto
  ultimately show ?thesis unfolding explained_def using ok by (metis set_ConsD)
qed

lemma explained_skip:
  assumes "explained ddl ms hist s r v" and "history_row False m \<in> set hist"
  shows "explained ddl (m # ms) hist s r v"
proof -
  have "is_recorded (vHistory v) m" if "succeeds r"
    using assms that unfolding explained_def Let_def is_recorded_def by auto
  then show ?thesis using assms(1) unfolding explained_def Let_def by (auto intro: list_emb_Cons)
qed

lemma explained_one:
  assumes "after_up ddl hist s m (Inl e) v"
  shows "explained ddl (m # ms) hist s (Inl e') v"
proof -
  consider "v = rows_view hist s"
    | "v \<in> rows_view (hist @ [history_row True m]) ` {s, snd (ddl (UpSQL m) s)}"
    | s' where "ddl (UpSQL m) s = (None, s')" "v = rows_view (hist @ [history_row False m]) s'"
    using assms unfolding after_up_def by blast
  then show ?thesis
  proof cases
    case 2
    then show ?thesis
      unfolding explained_def Let_def by (intro conjI exI [of _ "[]"] exI [of _ s]) auto
  next
    case 3
    have "explained ddl ms (hist @ [history_row False m]) s' (Inl e') (rows_view (hist @ [history_row False m]) s')"
      by (rule explained_same)
    then show ?thesis unfolding 3(2) using 3(1) by (rule explained_tail [where ddl = ddl and m = m and s = s and s' = s'])
  qed (simp add: explained_same)
qed

lemma traced_isApplied:
  "traced ((=) (rows_view hist s)) (isApplied t m d)
     (\<lambda>r v. v = rows_view hist s \<and> (r = Inr True \<longrightarrow> history_row False m \<in> set hist))"
proof -
  have row: "sql_outcomes ((=) (rows_view hist s)) (sql_row_of (Version m))
      (\<lambda>r v. v = rows_view hist s \<and> (\<forall>x. r = Inr x \<longrightarrow> x \<in> set hist \<and> hVersion x = Version m))"
    unfolding sql_row_of_def by (rule history_outcomes) (auto split: option.splits dest!: find_SomeD)
  have eq: "history_row False m \<in> set hist"
    if "hVersion x = Version m" "hName x = Name m" "\<not> hDirty x" "x \<in> set hist" for x
    using that by (cases x) (simp add: history_row_def)
  show ?thesis
    unfolding isApplied_def
  proof (rule traced_rebound, rule traced_bind [where R = "\<lambda>r v. \<exists>y. r = Inr y \<and> v = rows_view hist s \<and>
      (\<forall>x. y = Inr x \<longrightarrow> x \<in> set hist \<and> hVersion x = Version m)"])
    show "traced ((=) (rows_view hist s)) (attemptE (stmt (sql_row_of (Version m))))
        (\<lambda>r v. \<exists>y. r = Inr y \<and> v = rows_view hist s \<and> (\<forall>x. y = Inr x \<longrightarrow> x \<in> set hist \<and> hVersion x = Version m))"
      using traced_attempt [where Q = "\<lambda>r v. \<exists>y. r = Inr y \<and> v = rows_view hist s \<and>
        (\<forall>x. y = Inr x \<longrightarrow> x \<in> set hist \<and> hVersion x = Version m)", OF traced_post [OF traced_stmt(1) [OF row]]] by auto
  qed (auto intro!: traced_sum traced_if traced_throw traced_return eq)
qed

lemma traced_up_loop:
  "traced ((=) (rows_view hist s)) (up_loop ddl t d ms) (explained ddl ms hist s)"
proof (induction ms arbitrary: hist s)
  case Nil
  then show ?case by (auto intro!: traced_return exI [of _ s] simp: explained_def)
next
  case (Cons m ms)
  let ?app = "\<lambda>r v. v = rows_view hist s \<and> (r = Inr True \<longrightarrow> history_row False m \<in> set hist)"
  have rest: "traced (after_up ddl hist s m (Inr x)) (up_loop ddl t d ms) (explained ddl (m # ms) hist s)" for x :: unit
  proof (rule traced_case)
    fix v assume "after_up ddl hist s m (Inr x) v"
    then obtain s' where s': "ddl (UpSQL m) s = (None, s')" "v = rows_view (hist @ [history_row False m]) s'"
      by (auto simp: after_up_def)
    show "traced ((=) v) (up_loop ddl t d ms) (explained ddl (m # ms) hist s)"
      unfolding s'(2)
      by (rule traced_post [OF Cons.IH], rule explained_tail [where ddl = ddl and m = m and s = s and s' = s']) (simp_all add: s'(1))
  qed
  show ?case
    unfolding up_loop.simps
  proof (rule traced_bind [where R = ?app])
    show "traced ((=) (rows_view hist s)) (isApplied t m d) ?app" by (rule traced_isApplied)
    show "traced (?app (Inr applied)) (if applied then up_loop ddl t d ms
        else bindE (applyUp ddl t m d) (\<lambda>_. up_loop ddl t d ms)) (explained ddl (m # ms) hist s)" for applied
    proof (rule traced_case, rule traced_if)
      fix v assume v: "?app (Inr applied) v" and applied
      then have "history_row False m \<in> set hist" "v = rows_view hist s" by auto
      then show "traced ((=) v) (up_loop ddl t d ms) (explained ddl (m # ms) hist s)"
        using traced_post [OF Cons.IH [of hist s] explained_skip] by simp
    next
      fix v assume v: "?app (Inr applied) v" and "\<not> applied"
      then have [simp]: "v = rows_view hist s" by simp
      show "traced ((=) v) (bindE (applyUp ddl t m d) (\<lambda>_. up_loop ddl t d ms)) (explained ddl (m # ms) hist s)"
        by (rule traced_bind [where R = "after_up ddl hist s m"]) (simp_all add: traced_applyUp rest explained_one)
    qed
  qed (auto intro: explained_same)
qed

lemma traced_reject: "traced ((=) (rows_view hist s)) rejectDirtyMigration (\<lambda>_. (=) (rows_view hist s))"
  unfolding rejectDirtyMigration_def sql_first_dirty_def
  by (rule traced_bind [where R = "\<lambda>_. (=) (rows_view hist s)"])
    (auto intro!: traced_attempt traced_query traced_sum traced_if traced_throw traced_return split: list.split)

lemma traced_prepare: "traced ((=) (rows_view hist s)) (prepare_tables r) (\<lambda>_. (=) (rows_view hist s))"
  unfolding prepare_tables_def ensureTable_def migrationTableHasDirty_def ensureLockTable_def lockTableHasOwner_def
  by (intro traced_keep traced_failing traced_attempt traced_if traced_sum traced_tables traced_return traced_throw)
    (auto simp: tables_exist_def)

text \<open>The lock statements keep the view, and the error of a release replaces no other.\<close>

lemma traced_acquire: "traced P (acquireLock t d) (\<lambda>_. P)"
  unfolding acquireLock_def newMigrationLockOwner_def sql_insert_lock_def
  by (intro traced_keep traced_rebound traced_wrapping traced_locks traced_draw traced_return)

lemma traced_release: "traced P (releaseLock t owner d) (\<lambda>_. P)"
  unfolding releaseLock_def sql_delete_lock_def
  by (intro traced_keep traced_rebound traced_wrapping traced_locks traced_if traced_throw traced_return)

lemma traced_holding_lock:
  assumes body: "traced P body Q" and e: "\<And>e v. P v \<Longrightarrow> Q (Inl e) v" and err: "\<And>r e v. Q r v \<Longrightarrow> Q (Inl e) v"
  shows "traced P (holding_lock t d body) Q"
  unfolding holding_lock_def
proof (rule traced_bind [OF traced_acquire])
  show "traced P (bindE (attemptE body) (\<lambda>result. bindE (attemptE (releaseLock t owner d)) (\<lambda>released.
      case result of Inl e \<Rightarrow> throwE e | Inr _ \<Rightarrow> (case released of Inl e \<Rightarrow> throwE e | Inr _ \<Rightarrow> returnE ())))) Q" for owner
  proof (rule traced_bind [where R = "\<lambda>r v. \<exists>x. r = Inr x \<and> Q x v"])
    show "traced P (attemptE body) (\<lambda>r v. \<exists>x. r = Inr x \<and> Q x v)"
      by (rule traced_attempt, rule traced_post [OF body]) simp
    show "traced (\<lambda>v. \<exists>x. Inr result = Inr x \<and> Q x v) (bindE (attemptE (releaseLock t owner d)) (\<lambda>released.
      case result of Inl e \<Rightarrow> throwE e | Inr _ \<Rightarrow> (case released of Inl e \<Rightarrow> throwE e | Inr _ \<Rightarrow> returnE ()))) Q" for result
      by (rule traced_bind [where R = "\<lambda>_. Q result"])
        (auto intro!: traced_attempt traced_pre [OF traced_release] traced_sum traced_throw traced_return intro: err)
  qed auto
qed (rule e)

lemma traced_up:
  "traced ((=) (rows_view hist s)) (up ddl r ms d) (explained ddl ms hist s)"
proof -
  have "traced ((=) (rows_view hist s)) (up_locked ddl r d ms) (explained ddl ms hist s)"
    unfolding up_locked_def by (rule traced_bind [OF traced_reject traced_up_loop]) (auto intro: explained_same)
  note lock = traced_holding_lock [OF this]
  show ?thesis
    unfolding up_def
    by (rule traced_bind [OF traced_failing], rule traced_bind [OF traced_prepare], rule lock)
      (auto intro: explained_same explained_error)
qed

text \<open>C36: An \<open>Up\<close> that is interrupted at any point is on record: whatever faults the driver raises at any
  statement or commit, the schema is the result of the migrations that have a new history row, completed
  in order, except that a last one may have a dirty row; if \<open>Up\<close> reports no error, every migration has a
  clean row and no dirty row was added.\<close>

theorem interrupted_up_is_recorded:
  assumes "others_leave w" and "mHistory (db w) = Some hist" and "mDirtyColumn (db w)"
    and "up ddl r ms d w = (res, w')"
  shows "\<exists>done s1 rows. subseq done ms \<and> run_all ddl done (mSchema (db w)) = Some s1 \<and> mHistory (db w') = Some rows \<and>
    (rows = hist @ map (history_row False) done \<and> mSchema (db w') = s1 \<or>
     \<not> succeeds res \<and> (\<exists>m \<in> set ms. rows = hist @ map (history_row False) done @ [history_row True m] \<and>
       mSchema (db w') \<in> {s1, snd (ddl (UpSQL m) s1)})) \<and>
    (succeeds res \<longrightarrow> history_row False ` set ms \<subseteq> set rows)"
proof -
  have "rows_view hist (mSchema (db w)) = view (db w)" using assms(2,3) by (simp add: view_def)
  then have e: "explained ddl ms hist (mSchema (db w)) res (view (db w'))"
    using tracedD [OF traced_up assms(1) _ assms(4)] by blast
  then obtain "done" s1 where d: "subseq done ms" "run_all ddl done (mSchema (db w)) = Some s1"
    and v: "let rows = hist @ map (history_row False) done in
      view (db w') = rows_view rows s1 \<or>
      \<not> succeeds res \<and> (\<exists>m \<in> set ms. view (db w') \<in> rows_view (rows @ [history_row True m]) ` {s1, snd (ddl (UpSQL m) s1)})"
    and ok: "succeeds res \<longrightarrow> (\<forall>m \<in> set ms. is_recorded (mHistory (db w')) m)"
    unfolding explained_def view_def by auto
  obtain rows where rows: "mHistory (db w') = Some rows" using v unfolding Let_def view_def by auto
  show ?thesis
    by (rule exI [of _ "done"], rule exI [of _ s1], rule exI [of _ rows])
      (use d v ok rows in \<open>auto simp: Let_def view_def is_recorded_def\<close>)
qed

theorem interrupted_up_is_recorded_witness:
  "\<exists>rows. mHistory (db (snd (up demo_ddl NewMigrationRunner demo_migrations MySQL
      (demo_mworld [] (replicate 8 (NoFault, \<lambda>d. d) @ [(FaultAfter (errorf ''connection lost''), \<lambda>d. d)]))))) = Some rows"
proof -
  let ?w = "demo_mworld [] (replicate 8 (NoFault, \<lambda>d. d) @ [(FaultAfter (errorf ''connection lost''), \<lambda>d. d)])"
  have "others_leave ?w" by (simp add: others_leave_def demo_mworld_def)
  then show ?thesis
    using interrupted_up_is_recorded [of ?w "[]" demo_ddl NewMigrationRunner demo_migrations MySQL
        "fst (up demo_ddl NewMigrationRunner demo_migrations MySQL ?w)" "snd (up demo_ddl NewMigrationRunner demo_migrations MySQL ?w)"]
    by (auto simp: demo_mworld_def)
qed

end
