(* ===== verification/MigrationLoad.thy ===== *)
theory MigrationLoad
  imports Migration
begin

text \<open>
  Loading the migration files: the file names that are accepted, and the loaded migrations as a function
  of the directory, whatever the order of its entries.
\<close>

section \<open>File names\<close>

definition file_name :: "string \<Rightarrow> string \<Rightarrow> string \<Rightarrow> string" where
  "file_name v n direction = v @ CHR ''_'' # n @ CHR ''.'' # direction @ ''.sql''"

definition valid_parts :: "string \<Rightarrow> string \<Rightarrow> bool" where
  "valid_parts v n \<longleftrightarrow> v \<noteq> [] \<and> n \<noteq> [] \<and> CHR ''_'' \<notin> set v \<and> CHR ''.'' \<notin> set v \<and> CHR ''.'' \<notin> set n"

lemma HasSuffix_iff: "HasSuffix s p \<longleftrightarrow> (\<exists>u. s = u @ p)"
  by (auto simp: HasSuffix_def HasPrefix_prefix prefix_def) (metis rev_append rev_rev_ident)

lemma TrimSuffix_append: "TrimSuffix (u @ p) p = u"
  by (simp add: TrimSuffix_def HasSuffix_def)

lemma Split_two: "Split sep s = [a, b] \<longleftrightarrow> s = a @ sep # b \<and> sep \<notin> set a \<and> sep \<notin> set b"
proof
  assume "Split sep s = [a, b]"
  then show "s = a @ sep # b \<and> sep \<notin> set a \<and> sep \<notin> set b"
    using Join_Split [of sep s] Split_parts [of _ sep s] by auto
next
  assume "s = a @ sep # b \<and> sep \<notin> set a \<and> sep \<notin> set b"
  then show "Split sep s = [a, b]" by (simp add: Split_append_sep Split_no_sep)
qed

lemma parse_accepts:
  assumes "valid_parts v n" and "direction = ''up'' \<or> direction = ''down''"
  shows "parseMigrationFileName (file_name v n direction) = Some (v, n, direction)"
proof -
  let ?s = "(v @ CHR ''_'' # n) @ CHR ''.'' # direction"
  have name: "file_name v n direction = ?s @ ''.sql''" by (simp add: file_name_def)
  have "HasSuffix (?s @ ''.sql'') ''.sql''" by (auto simp: HasSuffix_iff)
  moreover have "Split (CHR ''.'') ?s = [v @ CHR ''_'' # n, direction]"
    using assms by (subst Split_two) (auto simp: valid_parts_def)
  moreover have "Cut (CHR ''_'') (v @ CHR ''_'' # n) = (v, n, True)"
    using assms(1) by (simp add: Cut_append valid_parts_def)
  ultimately show ?thesis
    using assms unfolding name parseMigrationFileName_def TrimSuffix_append by (auto simp: valid_parts_def)
qed

lemma parse_accepted:
  assumes "parseMigrationFileName name = Some (v, n, direction)"
  shows "name = file_name v n direction \<and> valid_parts v n \<and> (direction = ''up'' \<or> direction = ''down'')"
proof -
  obtain base where s: "HasSuffix name ''.sql''" "Split (CHR ''.'') (TrimSuffix name ''.sql'') = [base, direction]"
      "direction = ''up'' \<or> direction = ''down''" "Cut (CHR ''_'') base = (v, n, True)" "v \<noteq> []" "n \<noteq> []"
    using assms by (auto simp: parseMigrationFileName_def split: if_splits list.splits prod.splits)
  obtain u where u: "name = u @ ''.sql''" using s(1) by (auto simp: HasSuffix_iff)
  have "u = base @ CHR ''.'' # direction" "CHR ''.'' \<notin> set base"
    using s(2) unfolding u TrimSuffix_append Split_two by auto
  moreover have "base = v @ CHR ''_'' # n \<and> CHR ''_'' \<notin> set v" using Cut_found [OF s(4)] .
  ultimately show ?thesis using u s by (auto simp: file_name_def valid_parts_def)
qed

section \<open>The entries of a directory\<close>

text \<open>The text of a file; a directory entry of that name has none.\<close>

definition file_text :: "dir_entry list \<Rightarrow> string \<Rightarrow> string" where
  "file_text es name =
     (case List.find (\<lambda>(x, isDir, content). x = name \<and> \<not> isDir) es of
        Some (x, isDir, Inr txt) \<Rightarrow> txt | _ \<Rightarrow> [])"

definition get_migration :: "(string \<times> migration) list \<Rightarrow> string \<Rightarrow> string \<Rightarrow> migration" where
  "get_migration byKey v n = (case map_of byKey (v @ CHR ''_'' # n) of
     None \<Rightarrow> \<lparr>Version = v, Name = n, UpSQL = [], DownSQL = []\<rparr> | Some m \<Rightarrow> m)"

text \<open>The two tables of the loader while it runs.\<close>

definition tables_agree :: "(string \<times> migration) list \<Rightarrow> (string \<times> string) list \<Rightarrow> bool" where
  "tables_agree byKey nameByVersion \<longleftrightarrow> distinct (map fst byKey) \<and>
     (\<forall>(k, m) \<in> set byKey. k = Version m @ CHR ''_'' # Name m \<and> valid_parts (Version m) (Name m) \<and>
        map_of nameByVersion (Version m) = Some (Name m))"

lemma tables_agreeD:
  assumes "tables_agree byKey nbv" and "map_of byKey k = Some m"
  shows "k = Version m @ CHR ''_'' # Name m \<and> valid_parts (Version m) (Name m) \<and> map_of nbv (Version m) = Some (Name m)"
  using assms(1) bspec [OF _ map_of_SomeD [OF assms(2)]] unfolding tables_agree_def by blast

lemma key_inject:
  assumes "valid_parts v n" and "valid_parts v' n'"
  shows "v @ CHR ''_'' # n = v' @ CHR ''_'' # n' \<longleftrightarrow> v = v' \<and> n = n'"
proof
  assume "v @ CHR ''_'' # n = v' @ CHR ''_'' # n'"
  moreover have "Cut (CHR ''_'') (v @ CHR ''_'' # n) = (v, n, True)" "Cut (CHR ''_'') (v' @ CHR ''_'' # n') = (v', n', True)"
    using assms by (simp_all add: Cut_append valid_parts_def)
  ultimately have "(v, n, True) = (v', n', True)" by (simp only:)
  then show "v = v' \<and> n = n'" by simp
qed simp

lemma set_direction_simps [simp]:
  "Version (set_direction direction txt m) = Version m" "Name (set_direction direction txt m) = Name m"
  "UpSQL (set_direction direction txt m) = (if direction = ''up'' then txt else UpSQL m)"
  "DownSQL (set_direction direction txt m) = (if direction = ''down'' then txt else DownSQL m)"
  by (simp_all add: set_direction_def)

lemma get_migration_parts:
  assumes "tables_agree byKey nbv" and "valid_parts v n"
  shows "Version (get_migration byKey v n) = v \<and> Name (get_migration byKey v n) = n"
proof (cases "map_of byKey (v @ CHR ''_'' # n)")
  case (Some m)
  note m = tables_agreeD [OF assms(1) Some]
  then have "v = Version m \<and> n = Name m" using key_inject [OF assms(2), of "Version m" "Name m"] by blast
  then show ?thesis using Some by (simp add: get_migration_def)
qed (simp add: get_migration_def)

text \<open>One file more.\<close>

lemma tables_agree_update:
  assumes t: "tables_agree byKey nbv" and v: "valid_parts v n"
    and new: "map_of nbv v = None \<or> map_of nbv v = Some n" and m: "Version m = v" "Name m = n"
  shows "tables_agree (AList.update (v @ CHR ''_'' # n) m byKey) (AList.update v n nbv)"
proof -
  have d: "distinct (map fst (AList.update (v @ CHR ''_'' # n) m byKey))"
    using t by (simp add: tables_agree_def distinct_update)
  have "k = Version x @ CHR ''_'' # Name x \<and> valid_parts (Version x) (Name x) \<and>
      map_of (AList.update v n nbv) (Version x) = Some (Name x)"
    if "(k, x) \<in> set (AList.update (v @ CHR ''_'' # n) m byKey)" for k x
  proof -
    have "map_of (AList.update (v @ CHR ''_'' # n) m byKey) k = Some x" using d that by simp
    then have "(if k = v @ CHR ''_'' # n then Some m else map_of byKey k) = Some x"
      by (simp add: update_conv fun_upd_def)
    then consider "k = v @ CHR ''_'' # n" "x = m" | "map_of byKey k = Some x"
      by (cases "k = v @ CHR ''_'' # n") simp_all
    then show ?thesis
    proof cases
      case 2
      from tables_agreeD [OF t 2] show ?thesis using new by (auto simp: update_conv)
    qed (use v m in \<open>simp add: update_conv\<close>)
  qed
  then show ?thesis using d unfolding tables_agree_def by auto
qed

lemma get_update:
  assumes "valid_parts v n" and "valid_parts v' n'"
  shows "get_migration (AList.update (v' @ CHR ''_'' # n') m byKey) v n =
    (if v = v' \<and> n = n' then m else get_migration byKey v n)"
  using key_inject [OF assms] by (simp add: get_migration_def update_conv)

section \<open>The loaded migrations\<close>

definition has_file :: "dir_entry list \<Rightarrow> string \<Rightarrow> bool" where
  "has_file es name \<longleftrightarrow> (\<exists>content. (name, False, content) \<in> set es)"

definition text_or :: "dir_entry list \<Rightarrow> string \<Rightarrow> string \<Rightarrow> string" where
  "text_or es name old = (if has_file es name then file_text es name else old)"

lemma text_or_Nil: "text_or [] name old = old"
  by (simp add: text_or_def has_file_def)

lemma text_or_other:
  assumes "x \<noteq> name \<or> isDir"
  shows "text_or ((x, isDir, content) # es) name old = text_or es name old"
  using assms by (auto simp: text_or_def has_file_def file_text_def)

lemma text_or_same:
  assumes "name \<notin> fst ` set es"
  shows "text_or ((name, False, Inr s) # es) name old = text_or es name s"
  using assms by (force simp: text_or_def has_file_def file_text_def)

lemma text_or_is_text: "text_or es name [] = file_text es name"
  by (auto simp: text_or_def has_file_def file_text_def split: option.split sum.split dest!: find_SomeD)

lemma file_name_inject:
  assumes "valid_parts v n" and "valid_parts v' n'" and "d \<in> {''up'', ''down''}" and "d' \<in> {''up'', ''down''}"
  shows "file_name v n d = file_name v' n' d' \<longleftrightarrow> v = v' \<and> n = n' \<and> d = d'"
proof
  assume "file_name v n d = file_name v' n' d'"
  moreover have "parseMigrationFileName (file_name v n d) = Some (v, n, d)"
    "parseMigrationFileName (file_name v' n' d') = Some (v', n', d')"
    using parse_accepts assms by simp_all
  ultimately have "Some (v, n, d) = Some (v', n', d')" by (simp only:)
  then show "v = v' \<and> n = n' \<and> d = d'" by simp
qed simp

text \<open>What the loop makes of one migration's two texts.\<close>

lemma load_entries_text:
  assumes "load_entries es byKey nbv = Inr out" and "tables_agree byKey nbv" and "distinct (map fst es)"
  shows "(\<exists>nbv'. tables_agree out nbv') \<and> (\<forall>v n. valid_parts v n \<longrightarrow>
    UpSQL (get_migration out v n) = text_or es (file_name v n ''up'') (UpSQL (get_migration byKey v n)) \<and>
    DownSQL (get_migration out v n) = text_or es (file_name v n ''down'') (DownSQL (get_migration byKey v n)))"
  using assms
proof (induction es arbitrary: byKey nbv)
  case Nil
  then show ?case by (auto simp: text_or_Nil)
next
  case (Cons a es)
  obtain name isDir content where a: "a = (name, isDir, content)" by (cases a)
  have es: "distinct (map fst es)" "name \<notin> fst ` set es" using Cons.prems(3) a by auto
  consider (skip) "isDir \<or> parseMigrationFileName name = None"
    | (load) v' n' direction where "\<not> isDir" "parseMigrationFileName name = Some (v', n', direction)"
    by (cases "parseMigrationFileName name") auto
  then show ?case
  proof cases
    case skip
    have "text_or (a # es) (file_name v n direction) old = text_or es (file_name v n direction) old"
      if "valid_parts v n" "direction \<in> {''up'', ''down''}" for v n direction old
      unfolding a using skip parse_accepts [OF that(1), of direction] that(2) by (intro text_or_other) auto
    moreover have "load_entries es byKey nbv = Inr out" using Cons.prems(1) a skip by (auto split: if_splits)
    ultimately show ?thesis using Cons.IH [OF _ Cons.prems(2) es(1)] by simp
  next
    case load
    note p = parse_accepted [OF load(2)]
    then have v': "valid_parts v' n'" and name: "name = file_name v' n' direction" and dir: "direction \<in> {''up'', ''down''}" by auto
    let ?m = "\<lambda>s. set_direction direction s (get_migration byKey v' n')"
    obtain s where c: "content = Inr s" and nbv: "map_of nbv v' = None \<or> map_of nbv v' = Some n'"
      and rest: "load_entries es (AList.update (v' @ CHR ''_'' # n') (?m s) byKey) (AList.update v' n' nbv) = Inr out"
      using Cons.prems(1) a load by (auto simp: get_migration_def Let_def split: option.splits sum.splits if_splits)
    have t: "tables_agree (AList.update (v' @ CHR ''_'' # n') (?m s) byKey) (AList.update v' n' nbv)"
      using get_migration_parts [OF Cons.prems(2) v'] by (intro tables_agree_update [OF Cons.prems(2) v' nbv]) simp_all
    have "text_or (a # es) (file_name v n d) old =
        text_or es (file_name v n d) (if v = v' \<and> n = n' \<and> d = direction then s else old)"
      if "valid_parts v n" "d \<in> {''up'', ''down''}" for v n d old
      using file_name_inject [OF v' that(1) dir that(2)] text_or_other [of name "file_name v n d"]
        text_or_same [OF es(2)] load(1) by (auto simp: a c name)
    then show ?thesis
      using Cons.IH [OF rest t es(1)] get_update [OF _ v'] by simp
  qed
qed

lemma sorted_by_version:
  assumes "sorted (map (\<lambda>m. (Version m, Name m)) ms)" and "distinct (map Version ms)"
  shows "sorted_wrt (<) (map Version ms)"
  using assms by (induction ms) (auto simp: less_eq_prod_def order_less_le)

lemma versions_distinct:
  assumes "tables_agree byKey nbv"
  shows "distinct (map Version (map snd byKey))"
  using assms
proof (induction byKey)
  case (Cons a byKey)
  obtain k m where a: "a = (k, m)" by (cases a)
  have "Version m \<notin> set (map Version (map snd byKey))"
  proof
    assume "Version m \<in> set (map Version (map snd byKey))"
    then obtain k' m' where m': "(k', m') \<in> set byKey" "Version m' = Version m" by auto
    have "Some (Name m) = Some (Name m')" using Cons.prems m' a unfolding tables_agree_def by fastforce
    then have "k = k'" using Cons.prems m' a unfolding tables_agree_def by fastforce
    then have "k \<in> fst ` set byKey" using m'(1) by (metis fst_conv image_eqI)
    then show False using Cons.prems a unfolding tables_agree_def by auto
  qed
  moreover have "tables_agree byKey nbv" using Cons.prems unfolding tables_agree_def by auto
  ultimately show ?case using Cons.IH a by auto
qed simp

text \<open>C37: The migrations loaded from a directory are sorted by version with no version twice, and they are
  exactly those with an up file that is not blank: whatever the order of the entries, a migration has
  the text of its up file and of its down file, and the empty text where there is none.\<close>

theorem loaded_migrations_exact:
  assumes "LoadSQLMigrations (Inr es) = Inr ms" and "distinct (map fst es)"
  shows "sorted_wrt (<) (map Version ms) \<and>
    (\<forall>m. m \<in> set ms \<longleftrightarrow> valid_parts (Version m) (Name m) \<and>
       UpSQL m = file_text es (file_name (Version m) (Name m) ''up'') \<and>
       DownSQL m = file_text es (file_name (Version m) (Name m) ''down'') \<and> TrimSpace (UpSQL m) \<noteq> [])"
proof -
  obtain out where l: "load_entries es [] [] = Inr out"
    and ms: "ms = sort_key (\<lambda>m. (Version m, Name m)) (filter (\<lambda>m. TrimSpace (UpSQL m) \<noteq> []) (map snd out))"
    using assms(1) by (auto simp: LoadSQLMigrations_def split: sum.splits)
  obtain nbv where t: "tables_agree out nbv"
    and texts: "\<And>v n. valid_parts v n \<Longrightarrow> UpSQL (get_migration out v n) = file_text es (file_name v n ''up'') \<and>
      DownSQL (get_migration out v n) = file_text es (file_name v n ''down'')"
    using load_entries_text [OF l _ assms(2)] by (auto simp: tables_agree_def get_migration_def text_or_is_text)
  have blank: "TrimSpace [] = []" by code_simp
  have "distinct (map Version ms)"
    unfolding ms using versions_distinct [OF t] by (auto simp: distinct_map inj_on_def)
  then have "sorted_wrt (<) (map Version ms)" by (intro sorted_by_version) (simp_all add: ms)
  moreover have "m \<in> set (map snd out) \<longleftrightarrow> m = get_migration out (Version m) (Name m) \<and> valid_parts (Version m) (Name m)"
    if "TrimSpace (UpSQL m) \<noteq> []" for m
  proof
    assume "m \<in> set (map snd out)"
    then obtain k where "map_of out k = Some m" using t by (force simp: tables_agree_def)
    with tables_agreeD [OF t this] show "m = get_migration out (Version m) (Name m) \<and> valid_parts (Version m) (Name m)"
      by (simp add: get_migration_def)
  next
    assume m: "m = get_migration out (Version m) (Name m) \<and> valid_parts (Version m) (Name m)"
    have "map_of out (Version m @ CHR ''_'' # Name m) = Some m"
    proof (cases "map_of out (Version m @ CHR ''_'' # Name m)")
      case None
      then have "UpSQL m = []" using m by (metis (no_types, lifting) get_migration_def migration.select_convs(3) option.simps(4))
      then have "UpSQL m \<noteq> []" using that blank by auto
      with \<open>UpSQL m = []\<close> show ?thesis by simp
    qed (use m in \<open>simp add: get_migration_def\<close>)
    then show "m \<in> set (map snd out)" by (force dest: map_of_SomeD)
  qed
  moreover have "m = get_migration out (Version m) (Name m) \<longleftrightarrow>
      UpSQL m = UpSQL (get_migration out (Version m) (Name m)) \<and> DownSQL m = DownSQL (get_migration out (Version m) (Name m))"
    if "valid_parts (Version m) (Name m)" for m
    using get_migration_parts [OF t that] by (cases m; cases "get_migration out (Version m) (Name m)") auto
  ultimately show ?thesis unfolding ms using texts by auto
qed

definition demo_dir :: "dir_entry list" where
  "demo_dir = [(''002_b.up.sql'', False, Inr ''B''), (''README'', False, Inr ''x''), (''001_a.down.sql'', False, Inr ''drop''),
     (''old'', True, Inr []), (''001_a.up.sql'', False, Inr ''A'')]"

definition demo_loaded :: "migration list" where
  "demo_loaded = [\<lparr>Version = ''001'', Name = ''a'', UpSQL = ''A'', DownSQL = ''drop''\<rparr>,
     \<lparr>Version = ''002'', Name = ''b'', UpSQL = ''B'', DownSQL = []\<rparr>]"

theorem loaded_migrations_exact_witness:
  "sorted_wrt (<) (map Version demo_loaded) \<and> DownSQL (hd demo_loaded) = file_text demo_dir (file_name ''001'' ''a'' ''down'')"
proof -
  have "LoadSQLMigrations (Inr demo_dir) = Inr demo_loaded" by code_simp
  moreover have "distinct (map fst demo_dir)" by (simp add: demo_dir_def)
  ultimately have "sorted_wrt (<) (map Version demo_loaded) \<and>
    (\<forall>m. m \<in> set demo_loaded \<longleftrightarrow> valid_parts (Version m) (Name m) \<and>
       UpSQL m = file_text demo_dir (file_name (Version m) (Name m) ''up'') \<and>
       DownSQL m = file_text demo_dir (file_name (Version m) (Name m) ''down'') \<and> TrimSpace (UpSQL m) \<noteq> [])"
    by (rule loaded_migrations_exact)
  moreover have "hd demo_loaded \<in> set demo_loaded" "Version (hd demo_loaded) = ''001''" "Name (hd demo_loaded) = ''a''"
    by (simp_all add: demo_loaded_def)
  ultimately show ?thesis by metis
qed

end
