(* ===== verification/AgentSchema.thy ===== *)
theory AgentSchema
  imports GoStrings Complex_Main "HOL-Library.List_Lexorder" "HOL-Library.Char_ord"
begin

text \<open>
  The parameter contract of an agent tool (\<open>extensions/agent/schema.go\<close>): normalising a declared JSON Schema
  to the enforceable subset, checking decoded arguments against it, and rendering it for the vendor.

  The schema library is not part of the repository: what \<open>ToJSONSchema\<close> returns is a value of type
  \<open>jschema\<close>, whose keywords outside the fields the code reads are the list \<open>Keywords\<close>. A decoded
  number is the rational that its \<open>float64\<close> stands for. Go maps are association lists with distinct
  keys; the order of the list is the order of the iteration.
\<close>

datatype agent_kind = BudgetExhausted | CtxError

type_synonym aerr = "agent_kind goerr"

datatype json = JNull | JBool bool | JNum rat | JStr string | JArr "json list" | JObj "(string \<times> json) list"

section \<open>Declared schemas and their normal form\<close>

datatype jschema = NilSchema | Schema
  (sType: string) (sTypeEnhanced: "string list") (sDescription: string) (sConst: "json option")
  (sEnum: "json list") (sRequired: "string list") (sProperties: "(string \<times> jschema) list option")
  (sItems: "jschema option") (sKeywords: "string list")

datatype mirror = Mirror
  (mType: string) (mDesc: string) (mEnum: "string list") (mRequired: bool)
  (mSubParams: "(string \<times> mirror) list") (mElemInfo: "mirror option")

definition set_required :: "bool \<Rightarrow> mirror \<Rightarrow> mirror" where
  "set_required b m = Mirror (mType m) (mDesc m) (mEnum m) b (mSubParams m) (mElemInfo m)"

text \<open>The keywords that \<open>rejectCombinators\<close> looks for.\<close>

definition combinators :: "string list" where
  "combinators = [''$ref'', ''$dynamicRef'', ''$defs'', ''allOf'', ''anyOf'', ''oneOf'', ''not'', ''if'', ''then'', ''else'',
     ''dependentSchemas'', ''patternProperties'', ''propertyNames'', ''prefixItems'', ''contains'']"

definition rejectCombinators :: "jschema \<Rightarrow> string \<Rightarrow> aerr option" where
  "rejectCombinators s path =
     (if list_ex (\<lambda>k. k \<in> set combinators) (sKeywords s)
      then Some (errorf (''parameter '' @ Quote path @
        '' uses an unsupported schema combinator; express it with scalar, enum, object, or array shapes''))
      else None)"

definition known_types :: "string list" where
  "known_types = [''string'', ''number'', ''integer'', ''boolean'', ''array'', ''object'', ''null'']"

text \<open>The type of a schema that is not nil.\<close>

definition schema_type :: "jschema \<Rightarrow> string \<Rightarrow> aerr + string" where
  "schema_type s path =
     (if 1 < length (sTypeEnhanced s)
      then Inl (errorf (''parameter '' @ Quote path @ '' declares a type union, which is not enforceable''))
      else let dataType = (case sTypeEnhanced s of [t] \<Rightarrow> t | _ \<Rightarrow> sType s);
               normalized = ToLower (TrimSpace dataType) in
        if normalized = []
        then (if sProperties s = None then Inl (errorf (''parameter '' @ Quote path @ '' declares no type'')) else Inr ''object'')
        else if normalized \<in> set known_types then Inr normalized
        else Inl (errorf (''parameter '' @ Quote path @ '' declares unknown type '' @ Quote dataType)))"

fun string_options :: "json list \<Rightarrow> aerr \<Rightarrow> aerr + string list" where
  "string_options [] err = Inr []"
| "string_options (v # vs) err =
     (case v of
        JStr s \<Rightarrow> (case string_options vs err of Inl e \<Rightarrow> Inl e | Inr ss \<Rightarrow> Inr (s # ss))
      | _ \<Rightarrow> Inl err)"

text \<open>\<open>Const\<close> and \<open>Enum\<close> are collected into one list.\<close>

definition schema_enum :: "jschema \<Rightarrow> string \<Rightarrow> aerr + string list" where
  "schema_enum s path =
     (case (case sConst s of
              None \<Rightarrow> Inr []
            | Some (JStr t) \<Rightarrow> Inr [t]
            | Some v \<Rightarrow> Inl (errorf (''parameter '' @ Quote path @ '' uses a non-string const, which is not enforceable''))) of
        Inl e \<Rightarrow> Inl e
      | Inr c \<Rightarrow>
          (case string_options (sEnum s) (errorf (''parameter '' @ Quote path @ '' uses a non-string enum, which is not enforceable'')) of
             Inl e \<Rightarrow> Inl e | Inr es \<Rightarrow> Inr (c @ es)))"

lemma size_property:
  "s \<noteq> NilSchema \<Longrightarrow> sProperties s = Some ps \<Longrightarrow> size_list (size_prod (\<lambda>_. 0) size) ps < size s"
  "s \<noteq> NilSchema \<Longrightarrow> sItems s = Some i \<Longrightarrow> size i < size s"
  by (cases s; simp)+

function (sequential) mirrorFromJSONSchema :: "jschema \<Rightarrow> string \<Rightarrow> aerr + mirror"
  and mirrorProperties :: "(string \<times> jschema) list \<Rightarrow> string list \<Rightarrow> string \<Rightarrow> aerr + (string \<times> mirror) list" where
  "mirrorFromJSONSchema s path =
     (if s = NilSchema then Inl (errorf (''parameter '' @ Quote path @ '' declares no schema''))
      else case rejectCombinators s path of Some e \<Rightarrow> Inl e | None \<Rightarrow>
      case schema_type s path of Inl e \<Rightarrow> Inl e | Inr t \<Rightarrow>
      case schema_enum s path of Inl e \<Rightarrow> Inl e | Inr enum \<Rightarrow>
      case (case sProperties s of
              None \<Rightarrow> Inr []
            | Some ps \<Rightarrow> if t = ''object'' then mirrorProperties ps (sRequired s) (path @ ''.'') else Inr []) of
        Inl e \<Rightarrow> Inl e
      | Inr sub \<Rightarrow>
      case (case sItems s of
              None \<Rightarrow> Inr None
            | Some i \<Rightarrow> if t = ''array''
                       then (case mirrorFromJSONSchema i (path @ ''[]'') of Inl e \<Rightarrow> Inl e | Inr m \<Rightarrow> Inr (Some m))
                       else Inr None) of
        Inl e \<Rightarrow> Inl e
      | Inr elem \<Rightarrow> Inr (Mirror t (sDescription s) enum False sub elem))"
| "mirrorProperties [] required path = Inr []"
| "mirrorProperties ((k, s) # ps) required path =
     (case mirrorFromJSONSchema s (path @ k) of
        Inl e \<Rightarrow> Inl e
      | Inr m \<Rightarrow>
          (case mirrorProperties ps required path of
             Inl e \<Rightarrow> Inl e
           | Inr rest \<Rightarrow> Inr ((k, set_required (k \<in> set required) m) # rest)))"
  by pat_completeness auto
termination
  by (relation "measure (case_sum (\<lambda>(s, path). 2 * size s + 1) (\<lambda>(ps, r, path). 2 * size_list (size_prod (\<lambda>_. 0) size) ps))")
    (auto dest: size_property)

text \<open>The contract of a tool: what \<open>ToJSONSchema\<close> returns, and whether the tool declares parameters at all.\<close>

type_synonym tool_contract = "(aerr + jschema) option"

definition declaredParams :: "tool_contract \<Rightarrow> aerr + (string \<times> mirror) list option" where
  "declaredParams info =
     (case info of
        None \<Rightarrow> Inr None
      | Some (Inl e) \<Rightarrow> Inl (wrapf ''encode tool schema: '' e)
      | Some (Inr s) \<Rightarrow>
          (if s = NilSchema then Inr None
           else case rejectCombinators s ''tool'' of Some e \<Rightarrow> Inl e | None \<Rightarrow>
           case sProperties s of
             None \<Rightarrow>
               (let rootType = ToLower (TrimSpace (sType s)) in
                if rootType \<noteq> [] \<and> rootType \<noteq> ''object''
                then Inl (errorf (''tool declares non-object root type '' @ Quote (sType s) @ '', which tools cannot take''))
                else Inr None)
           | Some ps \<Rightarrow> (case mirrorProperties ps (sRequired s) [] of Inl e \<Rightarrow> Inl e | Inr params \<Rightarrow> Inr (Some params))))"

section \<open>Checking arguments\<close>

definition is_integral :: "rat \<Rightarrow> bool" where
  "is_integral x \<longleftrightarrow> of_int \<lfloor>x\<rfloor> = x"

lemma size_sub:
  "Suc (3 * size_list (size_prod (\<lambda>_. 0) size) (mSubParams m)) < 3 * size m"
  "mElemInfo m = Some e \<Longrightarrow> size e < size m"
  "size_list (size_prod (\<lambda>_. 0) size) (mSubParams m) < size m"
  by (cases m; simp)+

definition must_be :: "string \<Rightarrow> string \<Rightarrow> aerr option" where
  "must_be path what = Some (errorf (''parameter '' @ Quote path @ '' must be '' @ what))"

definition check_scalar :: "mirror \<Rightarrow> json \<Rightarrow> string \<Rightarrow> aerr option" where
  "check_scalar param v path =
     (let t = ToLower (mType param) in
      if t = [] \<or> t = ''string'' then
        (case v of
           JStr s \<Rightarrow> if mEnum param \<noteq> [] \<and> s \<notin> set (mEnum param)
                    then must_be path (''one of '' @ JoinStr '', '' (mEnum param)) else None
         | _ \<Rightarrow> must_be path ''a string'')
      else if t = ''number'' then (case v of JNum x \<Rightarrow> None | _ \<Rightarrow> must_be path ''a number'')
      else if t = ''integer'' then
        (case v of JNum x \<Rightarrow> if is_integral x then None else must_be path ''an integer'' | _ \<Rightarrow> must_be path ''an integer'')
      else if t = ''boolean'' then (case v of JBool b \<Rightarrow> None | _ \<Rightarrow> must_be path ''a boolean'')
      else if t = ''null'' then (if v \<noteq> JNull then must_be path ''null'' else None)
      else Some (errorf (''parameter '' @ Quote path @ '' declares unknown type '' @ Quote (mType param))))"

function (sequential) checkValue :: "mirror \<Rightarrow> json \<Rightarrow> string \<Rightarrow> aerr option"
  and checkItems :: "mirror \<Rightarrow> json list \<Rightarrow> nat \<Rightarrow> string \<Rightarrow> aerr option"
  and checkDeclared :: "(string \<times> mirror) list \<Rightarrow> (string \<times> json) list \<Rightarrow> string \<Rightarrow> aerr option"
  and checkParams :: "(string \<times> mirror) list \<Rightarrow> (string \<times> json) list \<Rightarrow> string \<Rightarrow> aerr option" where
  "checkValue param v path =
     (if ToLower (mType param) = ''array'' then
        (case v of
           JArr items \<Rightarrow> (case mElemInfo param of None \<Rightarrow> None | Some e \<Rightarrow> checkItems e items 0 path)
         | _ \<Rightarrow> must_be path ''an array'')
      else if ToLower (mType param) = ''object'' then
        (case v of
           JObj nested \<Rightarrow> if mSubParams param \<noteq> [] then checkParams (mSubParams param) nested (path @ ''.'') else None
         | _ \<Rightarrow> must_be path ''an object'')
      else check_scalar param v path)"
| "checkItems e [] i path = None"
| "checkItems e (v # vs) i path =
     (case checkValue e v (path @ ''['' @ Itoa i @ '']'') of Some err \<Rightarrow> Some err | None \<Rightarrow> checkItems e vs (Suc i) path)"
| "checkDeclared [] args prefx = None"
| "checkDeclared ((name, param) # params) args prefx =
     (case map_of args name of
        None \<Rightarrow> if mRequired param then Some (errorf (''missing required parameter '' @ Quote (prefx @ name)))
                else checkDeclared params args prefx
      | Some v \<Rightarrow> (case checkValue param v (prefx @ name) of Some err \<Rightarrow> Some err | None \<Rightarrow> checkDeclared params args prefx))"
| "checkParams params args prefx =
     (case checkDeclared params args prefx of
        Some err \<Rightarrow> Some err
      | None \<Rightarrow>
          (case List.find (\<lambda>(name, v). map_of params name = None) args of
             None \<Rightarrow> None
           | Some (name, v) \<Rightarrow> Some (errorf (''unknown parameter '' @ Quote (prefx @ name)))))"
  by pat_completeness auto
termination
  by (relation "measures [
      case_sum (case_sum (\<lambda>(m, v, p). 3 * size m) (\<lambda>(m, vs, i, p). 3 * size m + 1))
        (case_sum (\<lambda>(ps, as, p). 3 * size_list (size_prod (\<lambda>_. 0) size) ps)
          (\<lambda>(ps, as, p). 3 * size_list (size_prod (\<lambda>_. 0) size) ps + 1)),
      case_sum (case_sum (\<lambda>(m, v, p). 0) (\<lambda>(m, vs, i, p). length vs)) (\<lambda>_. 0)]")
    (auto simp: size_sub(1) dest: size_sub(2))

definition validateToolArgs :: "tool_contract \<Rightarrow> (string \<times> json) list \<Rightarrow> aerr option" where
  "validateToolArgs info args =
     (case declaredParams info of
        Inl e \<Rightarrow> Some e
      | Inr None \<Rightarrow> None
      | Inr (Some params) \<Rightarrow> checkParams params args [])"

declare mirrorFromJSONSchema.simps [simp del] checkValue.simps [simp del] checkParams.simps [simp del]

section \<open>The schema the vendor receives\<close>

definition vendorType :: "string \<Rightarrow> string" where
  "vendorType dataType =
     (let t = ToLower (TrimSpace dataType) in
      if t \<in> {''number'', ''integer'', ''boolean'', ''array'', ''object'', ''null''} then t else ''string'')"

definition sortedKeys :: "(string \<times> mirror) list \<Rightarrow> string list" where
  "sortedKeys params = sort (map fst params)"

definition requiredKeys :: "(string \<times> mirror) list \<Rightarrow> string list" where
  "requiredKeys params = filter (\<lambda>name. case map_of params name of None \<Rightarrow> False | Some m \<Rightarrow> mRequired m) (sortedKeys params)"

definition object_keywords :: "(string \<times> mirror) list \<Rightarrow> (string \<times> json) list \<Rightarrow> (string \<times> json) list" where
  "object_keywords params rendered =
     [(''properties'', JObj (sort_key fst rendered)), (''required'', JArr (map JStr (requiredKeys params))),
      (''additionalProperties'', JBool False)]"

function (sequential) renderProperties :: "(string \<times> mirror) list \<Rightarrow> (string \<times> json) list"
  and renderParamSchema :: "mirror \<Rightarrow> json" where
  "renderProperties [] = []"
| "renderProperties ((name, m) # params) = (name, renderParamSchema m) # renderProperties params"
| "renderParamSchema m =
     JObj ([(''type'', JStr (vendorType (mType m)))]
       @ (if mDesc m \<noteq> [] then [(''description'', JStr (mDesc m))] else [])
       @ (if mEnum m \<noteq> [] then [(''enum'', JArr (map JStr (mEnum m)))] else [])
       @ (if mSubParams m \<noteq> [] then object_keywords (mSubParams m) (renderProperties (mSubParams m)) else [])
       @ (case mElemInfo m of None \<Rightarrow> [] | Some e \<Rightarrow> [(''items'', renderParamSchema e)]))"
  by pat_completeness auto
termination
  by (relation "measure (case_sum (\<lambda>ps. 3 * size_list (size_prod (\<lambda>_. 0) size) ps) (\<lambda>m. 3 * size m))")
    (auto simp: size_sub(3) dest: size_sub(2))

declare renderParamSchema.simps [simp del]

definition renderObjectSchema :: "(string \<times> mirror) list \<Rightarrow> json" where
  "renderObjectSchema params = JObj ((''type'', JStr ''object'') # object_keywords params (renderProperties params))"

definition vendorParameters :: "tool_contract \<Rightarrow> aerr + json option" where
  "vendorParameters info =
     (case declaredParams info of
        Inl e \<Rightarrow> Inl e
      | Inr None \<Rightarrow> Inr None
      | Inr (Some params) \<Rightarrow> Inr (if params = [] then None else Some (renderObjectSchema params)))"

end
