(* ===== verification/AgentSchemaProps.thy ===== *)
theory AgentSchemaProps
  imports AgentSchema
begin

text \<open>
  The check of tool arguments against a reference semantics of JSON Schema: the arguments that pass are
  those that are valid for the schema the vendor receives.
\<close>

section \<open>A reference semantics\<close>

definition js_type :: "string \<Rightarrow> json \<Rightarrow> bool" where
  "js_type t v = (case v of
     JNull \<Rightarrow> t = ''null'' | JBool b \<Rightarrow> t = ''boolean'' | JStr s \<Rightarrow> t = ''string''
   | JNum x \<Rightarrow> t = ''number'' \<or> t = ''integer'' \<and> is_integral x
   | JArr vs \<Rightarrow> t = ''array'' | JObj fs \<Rightarrow> t = ''object'')"

definition js_required :: "json option \<Rightarrow> (string \<times> json) list \<Rightarrow> bool" where
  "js_required kw fields = (case kw of
     Some (JArr rs) \<Rightarrow> list_all (\<lambda>r. case r of JStr k \<Rightarrow> map_of fields k \<noteq> None | _ \<Rightarrow> True) rs | _ \<Rightarrow> True)"

definition js_properties :: "(string \<times> json) list \<Rightarrow> (string \<times> json) list" where
  "js_properties kws = (case map_of kws ''properties'' of Some (JObj ps) \<Rightarrow> ps | _ \<Rightarrow> [])"

text \<open>The keywords \<open>type\<close>, \<open>enum\<close>, \<open>properties\<close>, \<open>required\<close>, \<open>additionalProperties\<close> and \<open>items\<close> of JSON Schema.\<close>

function js_valid :: "json \<Rightarrow> json \<Rightarrow> bool" where
  "js_valid s v = (case s of
     JObj kws \<Rightarrow>
       (case map_of kws ''type'' of Some (JStr t) \<Rightarrow> js_type t v | _ \<Rightarrow> True) \<and>
       (case map_of kws ''enum'' of Some (JArr es) \<Rightarrow> v \<in> set es | _ \<Rightarrow> True) \<and>
       (case v of
          JObj fields \<Rightarrow>
            js_required (map_of kws ''required'') fields \<and>
            (\<forall>(k, s') \<in> set (js_properties kws). \<forall>x. map_of fields k = Some x \<longrightarrow> js_valid s' x) \<and>
            (map_of kws ''additionalProperties'' = Some (JBool False) \<longrightarrow>
              (\<forall>(k, x) \<in> set fields. k \<in> fst ` set (js_properties kws)))
        | JArr items \<Rightarrow> (case map_of kws ''items'' of Some s' \<Rightarrow> \<forall>x \<in> set items. js_valid s' x | _ \<Rightarrow> True)
        | _ \<Rightarrow> True)
   | _ \<Rightarrow> True)"
  by pat_completeness auto
termination
proof (relation "measure (\<lambda>(s, v). size v)", simp)
  fix fields :: "(string \<times> json) list" and k :: string and x v :: json and s s' :: json
  assume "v = JObj fields" and "map_of fields k = Some x"
  moreover have "size x < size (JObj fields)" if "(k, x) \<in> set fields"
    using that by (induction fields) auto
  ultimately show "((s', x), s, v) \<in> measure (\<lambda>(s, v). size v)" by (auto dest: map_of_SomeD)
next
  fix items :: "json list" and x v :: json and s s' :: json
  assume "v = JArr items" and "x \<in> set items"
  then show "((s', x), s, v) \<in> measure (\<lambda>(s, v). size v)" by (induction items arbitrary: v) auto
qed

declare js_valid.simps [simp del]

section \<open>Accepted contracts\<close>

text \<open>What normalising guarantees: known types in lower case, and the children where they belong.\<close>

inductive typed :: "mirror \<Rightarrow> bool" where
  typed: "t \<in> set known_types \<Longrightarrow> (sub \<noteq> [] \<longrightarrow> t = ''object'') \<Longrightarrow> (elem \<noteq> None \<longrightarrow> t = ''array'') \<Longrightarrow>
     (\<And>k m. (k, m) \<in> set sub \<Longrightarrow> typed m) \<Longrightarrow> (\<And>m. elem = Some m \<Longrightarrow> typed m) \<Longrightarrow>
     typed (Mirror t desc enum required sub elem)"

inductive_cases typedE: "typed (Mirror t desc enum required sub elem)"
inductive_simps typed_simps: "typed (Mirror t desc enum required sub elem)"

text \<open>String enums on strings only, and no name twice among the children.\<close>

inductive plain_enums :: "mirror \<Rightarrow> bool" where
  plain_enums: "(enum \<noteq> [] \<longrightarrow> t = ''string'') \<Longrightarrow> distinct (map fst sub) \<Longrightarrow> (\<And>k m. (k, m) \<in> set sub \<Longrightarrow> plain_enums m) \<Longrightarrow>
     (\<And>m. elem = Some m \<Longrightarrow> plain_enums m) \<Longrightarrow> plain_enums (Mirror t desc enum required sub elem)"

inductive_simps plain_enums_simps: "plain_enums (Mirror t desc enum required sub elem)"

lemma typed_parts:
  assumes "typed m"
  shows "mType m \<in> set known_types" "mSubParams m \<noteq> [] \<Longrightarrow> mType m = ''object''"
    "mElemInfo m \<noteq> None \<Longrightarrow> mType m = ''array''" "(k, x) \<in> set (mSubParams m) \<Longrightarrow> typed x"
    "mElemInfo m = Some e \<Longrightarrow> typed e"
  using assms by (cases m; auto simp: typed_simps)+

lemma plain_parts:
  assumes "plain_enums m"
  shows "mEnum m \<noteq> [] \<Longrightarrow> mType m = ''string''" "(k, x) \<in> set (mSubParams m) \<Longrightarrow> plain_enums x"
    "mElemInfo m = Some e \<Longrightarrow> plain_enums e" "distinct (map fst (mSubParams m))"
  using assms by (cases m; auto simp: plain_enums_simps)+

lemma typed_set_required: "typed (set_required b m) = typed m"
  by (cases m) (simp add: set_required_def typed_simps)

lemma schema_type_known: "schema_type s path = Inr t \<Longrightarrow> t \<in> set known_types"
  by (auto simp: schema_type_def Let_def known_types_def split: if_splits)

lemma normalised_is_typed:
  "mirrorFromJSONSchema s path = Inr m \<Longrightarrow> typed m"
  "mirrorProperties ps req path = Inr ms \<Longrightarrow> \<forall>(k, m) \<in> set ms. typed m"
proof (induction s path and ps req path arbitrary: m and ms rule: mirrorFromJSONSchema_mirrorProperties.induct)
  case (1 s path)
  obtain t enum sub elem where nil: "s \<noteq> NilSchema" and c: "rejectCombinators s path = None"
    and t: "schema_type s path = Inr t" and en: "schema_enum s path = Inr enum"
    and sub: "(case sProperties s of None \<Rightarrow> Inr []
        | Some ps \<Rightarrow> if t = ''object'' then mirrorProperties ps (sRequired s) (path @ ''.'') else Inr []) = Inr sub"
    and el: "(case sItems s of None \<Rightarrow> Inr None
        | Some i \<Rightarrow> if t = ''array'' then (case mirrorFromJSONSchema i (path @ ''[]'') of Inl e \<Rightarrow> Inl e | Inr m \<Rightarrow> Inr (Some m))
                   else Inr None) = Inr elem"
    and m: "m = Mirror t (sDescription s) enum False sub elem"
    using "1.prems" by (subst (asm) mirrorFromJSONSchema.simps) (simp split: if_splits option.split_asm sum.split_asm)
  have "sub \<noteq> [] \<longrightarrow> t = ''object''" "\<forall>(k, x) \<in> set sub. typed x"
    using sub "1.IH"(1) [OF nil c t en] by (auto split: option.splits if_splits)
  moreover have "elem \<noteq> None \<longrightarrow> t = ''array''" "\<And>x. elem = Some x \<Longrightarrow> typed x"
    using el "1.IH"(2) [OF nil c t en sub] by (auto split: option.splits if_splits sum.splits)
  ultimately show ?case unfolding m using schema_type_known [OF t] by (auto simp: typed_simps)
next
  case (3 k s ps req path)
  obtain m rest where "mirrorFromJSONSchema s (path @ k) = Inr m" "mirrorProperties ps req path = Inr rest"
      "ms = (k, set_required (k \<in> set req) m) # rest"
    using "3.prems" by (auto split: sum.splits)
  then show ?case using "3.IH"(1) [of m] "3.IH"(2) [of m rest] by (auto simp: typed_set_required)
qed simp

lemma declared_typed: "declaredParams info = Inr (Some params) \<Longrightarrow> (k, m) \<in> set params \<Longrightarrow> typed m"
  by (fastforce simp: declaredParams_def Let_def split: option.splits sum.splits if_splits dest: normalised_is_typed(2))

section \<open>The check and the vendor's schema\<close>

lemma known_type_names:
  assumes "t \<in> set known_types"
  shows "ToLower t = t" "vendorType t = t" "t \<noteq> []"
proof -
  have "\<forall>t \<in> set known_types. ToLower t = t \<and> vendorType t = t \<and> t \<noteq> []" by code_simp
  then show "ToLower t = t" "vendorType t = t" "t \<noteq> []" using assms by auto
qed

lemma rendered_keys: "map fst (renderProperties params) = map fst params"
  by (induction params) auto

lemma rendered_all: "(\<forall>(k, s) \<in> set (renderProperties params). P k s) \<longleftrightarrow> (\<forall>(k, m) \<in> set params. P k (renderParamSchema m))"
  by (induction params) auto

text \<open>The keywords of a rendered object, over any that come before.\<close>

lemma object_keywords_valid:
  assumes "map_of kws ''type'' = Some (JStr ''object'')" and "map_of kws ''enum'' = None"
    and "map_of kws ''required'' = Some (JArr (map JStr (requiredKeys params)))"
    and "map_of kws ''properties'' = Some (JObj (sort_key fst (renderProperties params)))"
    and "map_of kws ''additionalProperties'' = Some (JBool False)"
  shows "js_valid (JObj kws) v \<longleftrightarrow> (\<exists>fields. v = JObj fields \<and>
     (\<forall>k \<in> set (requiredKeys params). map_of fields k \<noteq> None) \<and>
     (\<forall>(k, m) \<in> set params. \<forall>x. map_of fields k = Some x \<longrightarrow> js_valid (renderParamSchema m) x) \<and>
     (\<forall>(k, x) \<in> set fields. k \<in> fst ` set params))"
proof -
  have keys: "fst ` set (renderProperties params) = fst ` set params"
    using rendered_keys [of params] by (metis list.set_map)
  show ?thesis
    unfolding js_valid.simps [of "JObj kws" v]
    using assms keys rendered_all [of params "\<lambda>k s. \<forall>x. map_of f k = Some x \<longrightarrow> js_valid s x" for f]
    by (cases v) (simp_all add: js_type_def js_required_def js_properties_def list_all_iff)
qed

lemma requiredKeys_iff:
  assumes "distinct (map fst params)"
  shows "k \<in> set (requiredKeys params) \<longleftrightarrow> (\<exists>m. (k, m) \<in> set params \<and> mRequired m)"
proof -
  have "(k, m) \<in> set params \<longleftrightarrow> map_of params k = Some m" for m using assms by simp
  then show ?thesis
    by (auto simp: requiredKeys_def sortedKeys_def split: option.splits) (metis fst_conv image_eqI map_of_SomeD)
qed

text \<open>The keywords of a rendered parameter.\<close>

lemma scalar_valid:
  assumes "typed m" and "plain_enums m" and "mType m \<noteq> ''object''" and "mType m \<noteq> ''array''"
  shows "check_scalar m v path = None \<longleftrightarrow> js_valid (renderParamSchema m) v"
proof -
  note t = known_type_names [OF typed_parts(1) [OF assms(1)]]
  have no: "mSubParams m = []" "mElemInfo m = None" using typed_parts(2,3) [OF assms(1)] assms(3,4) by blast+
  have known: "mType m \<in> {''string'', ''number'', ''integer'', ''boolean'', ''null''}"
    using typed_parts(1) [OF assms(1)] assms(3,4) by (simp add: known_types_def)
  have enum: "mEnum m \<noteq> [] \<Longrightarrow> mType m = ''string''" using plain_parts(1) [OF assms(2)] .
  show ?thesis
    unfolding js_valid.simps [of _ v] renderParamSchema.simps [of m] t(2) check_scalar_def Let_def t(1)
    using no known enum by (cases v) (auto simp: js_type_def must_be_def js_properties_def js_required_def)
qed

lemma array_valid:
  assumes "typed m" and "plain_enums m" and "mType m = ''array''"
  shows "js_valid (renderParamSchema m) v \<longleftrightarrow>
    (\<exists>items. v = JArr items \<and> (\<forall>e. mElemInfo m = Some e \<longrightarrow> (\<forall>x \<in> set items. js_valid (renderParamSchema e) x)))"
proof -
  note t = known_type_names [OF typed_parts(1) [OF assms(1)]]
  have no: "mSubParams m = []" "mEnum m = []" using typed_parts(2) [OF assms(1)] plain_parts(1) [OF assms(2)] assms(3) by auto
  show ?thesis
    unfolding js_valid.simps [of _ v] renderParamSchema.simps [of m] t(2)
    using no assms(3) by (cases v) (auto simp: js_type_def split: option.split)
qed

lemma object_valid:
  assumes "typed m" and "plain_enums m" and "mType m = ''object''"
  shows "js_valid (renderParamSchema m) v \<longleftrightarrow> (\<exists>fields. v = JObj fields \<and> (mSubParams m \<noteq> [] \<longrightarrow>
     (\<forall>k \<in> set (requiredKeys (mSubParams m)). map_of fields k \<noteq> None) \<and>
     (\<forall>(k, x) \<in> set (mSubParams m). \<forall>y. map_of fields k = Some y \<longrightarrow> js_valid (renderParamSchema x) y) \<and>
     (\<forall>(k, y) \<in> set fields. k \<in> fst ` set (mSubParams m))))"
proof -
  note t = known_type_names [OF typed_parts(1) [OF assms(1)]]
  have no: "mElemInfo m = None" "mEnum m = []" using typed_parts(3) [OF assms(1)] plain_parts(1) [OF assms(2)] assms(3) by force+
  show ?thesis
  proof (cases "mSubParams m = []")
    case True
    then show ?thesis
      unfolding js_valid.simps [of _ v] renderParamSchema.simps [of m] t(2)
      using no assms(3) by (cases v) (auto simp: js_type_def js_properties_def js_required_def)
  next
    case False
    then show ?thesis
      unfolding renderParamSchema.simps [of m] t(2)
      using no assms(3) by (subst object_keywords_valid [where params = "mSubParams m"]) (auto simp: object_keywords_def)
  qed
qed

text \<open>The declared parameters one by one, and the closed world.\<close>

definition declared_valid :: "(string \<times> mirror) list \<Rightarrow> (string \<times> json) list \<Rightarrow> bool" where
  "declared_valid params args \<longleftrightarrow> (\<forall>(k, m) \<in> set params.
     (case map_of args k of None \<Rightarrow> \<not> mRequired m | Some v \<Rightarrow> js_valid (renderParamSchema m) v))"

lemma declared_valid_iff:
  assumes "distinct (map fst params)"
  shows "declared_valid params args \<longleftrightarrow> (\<forall>k \<in> set (requiredKeys params). map_of args k \<noteq> None) \<and>
     (\<forall>(k, m) \<in> set params. \<forall>v. map_of args k = Some v \<longrightarrow> js_valid (renderParamSchema m) v)"
  unfolding declared_valid_def using requiredKeys_iff [OF assms] by (fastforce split: option.splits)

lemma find_unknown:
  "List.find (\<lambda>(name, v). map_of params name = None) args = None \<longleftrightarrow> (\<forall>(k, v) \<in> set args. k \<in> fst ` set params)"
  by (fastforce simp: find_None_iff map_of_eq_None_iff)

lemma check_is_valid:
  "typed param \<Longrightarrow> plain_enums param \<Longrightarrow> checkValue param v path = None \<longleftrightarrow> js_valid (renderParamSchema param) v"
  "typed e \<Longrightarrow> plain_enums e \<Longrightarrow> checkItems e vs i path = None \<longleftrightarrow> (\<forall>v \<in> set vs. js_valid (renderParamSchema e) v)"
  "\<forall>(k, m) \<in> set params. typed m \<and> plain_enums m \<Longrightarrow>
     checkDeclared params args prefx = None \<longleftrightarrow> declared_valid params args"
  "\<forall>(k, m) \<in> set params'. typed m \<and> plain_enums m \<Longrightarrow>
     checkParams params' args' prefx' = None \<longleftrightarrow> declared_valid params' args' \<and> (\<forall>(k, v) \<in> set args'. k \<in> fst ` set params')"
proof (induction param v path and e vs i path and params args prefx and params' args' prefx'
    rule: checkValue_checkItems_checkDeclared_checkParams.induct)
  case (1 param v path)
  note t = known_type_names [OF typed_parts(1) [OF "1.prems"(1)]]
  consider (array) "mType param = ''array''" | (object) "mType param = ''object''"
    | (scalar) "mType param \<noteq> ''array''" "mType param \<noteq> ''object''" by blast
  then show ?case
  proof cases
    case array
    then show ?thesis
      using "1.IH"(1) t(1) typed_parts(5) [OF "1.prems"(1)] plain_parts(3) [OF "1.prems"(2)]
      unfolding checkValue.simps [of param] array_valid [OF "1.prems" array]
      by (cases v) (auto simp: must_be_def split: option.split)
  next
    case object
    have "\<forall>(k, m) \<in> set (mSubParams param). typed m \<and> plain_enums m"
      using typed_parts(4) [OF "1.prems"(1)] plain_parts(2) [OF "1.prems"(2)] by blast
    then show ?thesis
      using "1.IH"(2) t(1) object declared_valid_iff [OF plain_parts(4) [OF "1.prems"(2)]]
      unfolding checkValue.simps [of param] object_valid [OF "1.prems" object]
      by (cases v) (auto simp: must_be_def)
  next
    case scalar
    then show ?thesis unfolding checkValue.simps [of param] t(1) by (simp add: scalar_valid [OF "1.prems"])
  qed
next
  case (3 e v vs i path)
  then show ?case by (auto split: option.split)
next
  case (5 name param params args prefx)
  have "declared_valid ((name, param) # params) args \<longleftrightarrow>
      (case map_of args name of None \<Rightarrow> \<not> mRequired param | Some v \<Rightarrow> js_valid (renderParamSchema param) v) \<and>
      declared_valid params args"
    by (simp add: declared_valid_def)
  then show ?case
    using 5 by (cases "map_of args name"; cases "checkValue param (the (map_of args name)) (prefx @ name)") auto
next
  case (6 params args prefx)
  then show ?case using find_unknown [of params args] by (auto simp: checkParams.simps split: option.split)
qed (auto simp: declared_valid_def)


definition demo_schema :: "jschema" where
  "demo_schema = Schema ''object'' [] [] None [] [''city''] (Some
     [(''city'', Schema ''string'' [] ''where'' None [JStr ''Bern'', JStr ''Rom''] [] None None []),
      (''days'', Schema '' Array '' [] [] None [] [] None (Some (Schema ''integer'' [] [] None [] [] None None [])) [])]) None []"

definition demo_params :: "(string \<times> mirror) list" where
  "demo_params = [(''city'', Mirror ''string'' ''where'' [''Bern'', ''Rom''] True [] None),
     (''days'', Mirror ''array'' [] [] False [] (Some (Mirror ''integer'' [] [] False [] None)))]"


text \<open>Where the two disagree: an enum on a parameter that is not a string is sent to the vendor, not checked.\<close>

lemma enum_on_number_unchecked:
  "checkValue (Mirror ''number'' [] [''a''] False [] None) (JNum 1) ''n'' = None \<and>
   \<not> js_valid (renderParamSchema (Mirror ''number'' [] [''a''] False [] None)) (JNum 1)"
  by (simp add: checkValue.simps check_scalar_def ToLower_def lower_char_def upper_letters_def lower_letters_def
      renderParamSchema.simps js_valid.simps)

text \<open>A constraint outside the enforceable subset that is accepted and dropped.\<close>

lemma maximum_is_dropped:
  "declaredParams (Some (Inr (Schema ''object'' [] [] None [] [] (Some
     [(''n'', Schema ''integer'' [] [] None [] [] None None [''maximum''])]) None []))) =
   Inr (Some [(''n'', Mirror ''integer'' [] [] False [] None)])"
  by code_simp

end
