(* ===== verification/AgentRunner.thy ===== *)
theory AgentRunner
  imports AgentSchema GoInt64 "HOL-Library.AList"
begin

text \<open>
  The agent runner (\<open>extensions/agent\<close>: \<open>tools.go\<close>, \<open>runner.go\<close>, \<open>audit.go\<close>, and the run loop and the \<open>Invoke\<close>
  handler of \<open>http.go\<close>): a model proposes tool calls, the runner authorizes and executes them under a
  budget. Tokens are 64 bit integers that wrap; the counters that stay below a configured limit, and the
  estimate of the size of messages that are in memory, are integers without bound.

  What is outside the repository is a parameter: the record \<open>env\<close> has the JSON decoder, the digest, the
  chat model and the state of the context; the \<open>Authorize\<close> and \<open>Execute\<close> of a tool belong to the
  application. All of them may change the world \<open>'w\<close> and answer as they like. Timestamps of audit
  records are left out.
\<close>

record Identity =
  UserID :: string
  TenantID :: string

record usage =
  TotalTokens :: int64
  PromptTokens :: int64
  CompletionTokens :: int64

record tool_call =
  callID :: string
  callName :: string
  callArguments :: string

datatype role = SystemRole | UserRole | AssistantRole | ToolRole

record message =
  Role :: role
  Content :: string
  ToolCalls :: "tool_call list"
  ToolCallID :: string
  MessageName :: string
  ResponseUsage :: "usage option"

type_synonym messages = "message option list"
type_synonym tool_args = "(string \<times> json) list"

section \<open>Tools and their registry\<close>

record 'w tool =
  Info :: "(string \<times> tool_contract) option"
  Authorize :: "Identity \<Rightarrow> tool_args \<Rightarrow> 'w \<Rightarrow> aerr option \<times> 'w"
  HasExecute :: bool
  Execute :: "Identity \<Rightarrow> tool_args \<Rightarrow> 'w \<Rightarrow> (aerr + string) \<times> 'w"
  MaxArgsBytes :: int

definition contract_of :: "'w tool \<Rightarrow> tool_contract" where
  "contract_of tool = (case Info tool of None \<Rightarrow> None | Some (name, contract) \<Rightarrow> contract)"

type_synonym 'w registry = "(string \<times> 'w tool) list"

fun NewRegistry_loop :: "'w tool option list \<Rightarrow> 'w registry \<Rightarrow> aerr + 'w registry" where
  "NewRegistry_loop [] reg = Inr reg"
| "NewRegistry_loop (t # ts) reg =
     (case t of None \<Rightarrow> Inl (errorf ''agent tool needs a name'')
      | Some tool \<Rightarrow>
     (case Info tool of None \<Rightarrow> Inl (errorf ''agent tool needs a name'')
      | Some (name, contract) \<Rightarrow>
        if TrimSpace name = [] then Inl (errorf ''agent tool needs a name'')
        else if \<not> HasExecute tool then Inl (errorf (''agent tool '' @ Quote name @ '' needs Execute''))
        else case declaredParams contract of
          Inl e \<Rightarrow> Inl (wrapf (''agent tool '' @ Quote name @ '' has an unsupported parameter schema: '') e)
        | Inr _ \<Rightarrow>
            if map_of reg name \<noteq> None then Inl (errorf (''duplicate agent tool '' @ Quote name))
            else NewRegistry_loop ts
              ((name, if MaxArgsBytes tool \<le> 0 then tool\<lparr>MaxArgsBytes := 4096\<rparr> else tool) # reg)))"

definition NewRegistry :: "'w tool option list \<Rightarrow> aerr + 'w registry" where
  "NewRegistry tools = NewRegistry_loop tools []"

definition Lookup :: "'w registry \<Rightarrow> string \<Rightarrow> 'w tool option" where
  "Lookup reg name = map_of reg name"

definition ToolInfos :: "'w registry \<Rightarrow> (string \<times> tool_contract) list" where
  "ToolInfos reg = map (\<lambda>(name, tool). case Info tool of None \<Rightarrow> (name, None) | Some i \<Rightarrow> i) reg"

text \<open>The parameters of the model.\<close>

record 'w env =
  Decode :: "string \<Rightarrow> aerr + tool_args"
  Digest :: "string \<Rightarrow> string"
  Generate :: "(string \<times> tool_contract) list \<Rightarrow> messages \<Rightarrow> int64 \<Rightarrow> 'w \<Rightarrow> (aerr + message option) \<times> 'w"
  Stream :: "(string \<times> tool_contract) list \<Rightarrow> messages \<Rightarrow> int64 \<Rightarrow> 'w \<Rightarrow> (aerr + (aerr + message option) list) \<times> 'w"
  CtxErr :: "'w \<Rightarrow> aerr option \<times> 'w"

definition decodeArgs :: "'w env \<Rightarrow> string \<Rightarrow> int \<Rightarrow> aerr + tool_args" where
  "decodeArgs env raw maxBytes =
     (if maxBytes < int (length raw)
      then Inl (errorf (''tool arguments exceed '' @ Itoa (nat maxBytes) @ '' bytes''))
      else if TrimSpace raw = [] then Inr []
      else case Decode env raw of
        Inl e \<Rightarrow> Inl (wrapf ''tool arguments are not a JSON object: '' e)
      | Inr args \<Rightarrow> Inr args)"

section \<open>Budget, ledger, gate\<close>

record budget =
  MaxRounds :: int
  MaxTokens :: int64
  ReserveTokens :: int64
  MaxOutputTokens :: int64
  TotalTimeout :: int64
  ToolTimeout :: int64
  MaxCallsPerTool :: int
  MaxConcurrent :: int
  MaxUserCalls :: int

definition withDefaults :: "budget \<Rightarrow> budget" where
  "withDefaults b = b
     \<lparr>MaxRounds := if MaxRounds b \<le> 0 then 8 else MaxRounds b,
      MaxTokens := if MaxTokens b \<le>s 0 then 20000 else MaxTokens b,
      ReserveTokens := if ReserveTokens b \<le>s 0 then 2000 else ReserveTokens b,
      MaxOutputTokens := if MaxOutputTokens b \<le>s 0 then 1024 else MaxOutputTokens b,
      TotalTimeout := if TotalTimeout b \<le>s 0 then 120000000000 else TotalTimeout b,
      ToolTimeout := if ToolTimeout b \<le>s 0 then 20000000000 else ToolTimeout b,
      MaxCallsPerTool := if MaxCallsPerTool b \<le> 0 then 10 else MaxCallsPerTool b,
      MaxConcurrent := if MaxConcurrent b \<le> 0 then 4 else MaxConcurrent b,
      MaxUserCalls := if MaxUserCalls b \<le> 0 then 100 else MaxUserCalls b\<rparr>"

record ledger =
  tokens :: int64
  calls :: "(string \<times> int) list"
  exhausted :: bool

definition count_of :: "(string \<times> int) list \<Rightarrow> string \<Rightarrow> int" where
  "count_of m k = (case map_of m k of None \<Rightarrow> 0 | Some n \<Rightarrow> n)"

definition chargeTokens :: "budget \<Rightarrow> int64 option \<Rightarrow> ledger \<Rightarrow> aerr option \<times> ledger" where
  "chargeTokens b reported l =
     (let spend = (case reported of None \<Rightarrow> ReserveTokens b | Some n \<Rightarrow> n);
          total = tokens l + spend in
      if MaxTokens b <s total
      then (Some (errorf ''token budget exhausted''), l\<lparr>tokens := total, exhausted := True\<rparr>)
      else (None, l\<lparr>tokens := total\<rparr>))"

definition chargeCall :: "budget \<Rightarrow> string \<Rightarrow> ledger \<Rightarrow> aerr option \<times> ledger" where
  "chargeCall b name l =
     (let n = count_of (calls l) name + 1;
          l' = l\<lparr>calls := AList.update name n (calls l)\<rparr> in
      if MaxCallsPerTool b < n then (Some (errorf (''tool '' @ Quote name @ '' call cap exceeded'')), l') else (None, l'))"

record gate =
  inflight :: "(string \<times> int) list"
  userCalls :: "(string \<times> int) list"
  gateBudget :: budget

definition NewGate :: "budget \<Rightarrow> gate" where
  "NewGate b = \<lparr>inflight = [], userCalls = [], gateBudget = withDefaults b\<rparr>"

definition beginRun :: "string \<Rightarrow> gate \<Rightarrow> aerr option \<times> gate" where
  "beginRun user g =
     (if MaxConcurrent (gateBudget g) \<le> count_of (inflight g) user
      then (Some (errorf ''too many concurrent runs for this user''), g)
      else if MaxUserCalls (gateBudget g) \<le> count_of (userCalls g) user
      then (Some (errorf ''user call quota exhausted''), g)
      else (None, g\<lparr>inflight := AList.update user (count_of (inflight g) user + 1) (inflight g),
                   userCalls := AList.update user (count_of (userCalls g) user + 1) (userCalls g)\<rparr>))"

definition release :: "string \<Rightarrow> gate \<Rightarrow> gate" where
  "release user g = g\<lparr>inflight := AList.update user (count_of (inflight g) user - 1) (inflight g)\<rparr>"

section \<open>Audit and metrics\<close>

record audit_record =
  Actor :: string
  Tenant :: string
  Decision :: string
  ToolName :: string
  ArgsDigest :: string
  Outcome :: string
  auditProvider :: string

record auditor =
  records :: "audit_record list"
  retained :: nat
  dropped :: nat

definition NewAuditor :: "int \<Rightarrow> auditor" where
  "NewAuditor n = \<lparr>records = [], retained = nat (if n \<le> 0 then 1000 else n), dropped = 0\<rparr>"

definition Append :: "audit_record \<Rightarrow> auditor \<Rightarrow> auditor" where
  "Append r a =
     (let rs = records a @ [r]; over = length rs - retained a in
      if retained a < length rs then a\<lparr>records := drop over rs, dropped := dropped a + over\<rparr> else a\<lparr>records := rs\<rparr>)"

record metrics =
  toolCalls :: "((string \<times> string) \<times> int) list"
  modelTurns :: "(string \<times> int) list"
  budgetEnds :: int
  denials :: int
  quotaBlocks :: int

definition AddToolCall :: "string \<Rightarrow> string \<Rightarrow> metrics \<Rightarrow> metrics" where
  "AddToolCall name status m =
     (let n = (case map_of (toolCalls m) (name, status) of None \<Rightarrow> 0 | Some n \<Rightarrow> n) in
      m\<lparr>toolCalls := AList.update (name, status) (n + 1) (toolCalls m),
        denials := if status = ''denied'' then denials m + 1 else denials m\<rparr>)"

text \<open>The state of a run: the world, its ledger, the two sinks, and the text sent to the client so far.\<close>

record 'w run_state =
  world :: 'w
  ledger :: ledger
  Auditor :: "auditor option"
  Metrics :: "metrics option"
  deltas :: "string list"

definition recordToolCall :: "'w env \<Rightarrow> Identity \<Rightarrow> string \<Rightarrow> string \<Rightarrow> string \<Rightarrow> 'w run_state \<Rightarrow> 'w run_state" where
  "recordToolCall env identity name rawArgs status s =
     s\<lparr>Metrics := map_option (AddToolCall name status) (Metrics s),
       Auditor := map_option (Append \<lparr>Actor = UserID identity, Tenant = TenantID identity, Decision = ''tool:'' @ name,
         ToolName = name, ArgsDigest = Digest env rawArgs, Outcome = status, auditProvider = []\<rparr>) (Auditor s)\<rparr>"

section \<open>One tool call\<close>

definition toolErrorMessage :: "tool_call \<Rightarrow> string \<Rightarrow> message" where
  "toolErrorMessage call detail =
     \<lparr>Role = ToolRole, Content = ''tool error: '' @ detail, ToolCalls = [], ToolCallID = callID call,
      MessageName = callName call, ResponseUsage = None\<rparr>"

definition truncate_output :: "int \<Rightarrow> string \<Rightarrow> string" where
  "truncate_output maxBytes out =
     (if maxBytes * 4 < int (length out) then take (nat (maxBytes * 4)) out @ ''...[truncated]'' else out)"

text \<open>The message for the model, whether the tool was executed, and the error.\<close>

definition invoke :: "'w env \<Rightarrow> 'w registry \<Rightarrow> budget \<Rightarrow> Identity \<Rightarrow> tool_call \<Rightarrow> 'w run_state \<Rightarrow>
    (message \<times> bool \<times> aerr option) \<times> 'w run_state" where
  "invoke env reg b identity call s =
     (let name = callName call; raw = callArguments call;
          fail = (\<lambda>status detail executed e s'. ((toolErrorMessage call detail, executed, Some e), recordToolCall env identity name raw status s')) in
      case Lookup reg name of
        None \<Rightarrow> fail ''error'' (''unknown tool '' @ Quote name) False (errorf (''unknown tool '' @ Quote name)) s
      | Some tool \<Rightarrow>
      case decodeArgs env raw (MaxArgsBytes tool) of
        Inl e \<Rightarrow> fail ''error'' (err_text e) False e s
      | Inr args \<Rightarrow>
      case validateToolArgs (contract_of tool) args of
        Some e \<Rightarrow> fail ''error'' (err_text e) False e s
      | None \<Rightarrow>
      case Authorize tool identity args (world s) of
        (Some e, w) \<Rightarrow> fail ''denied'' ''not authorized'' False e (s\<lparr>world := w\<rparr>)
      | (None, w) \<Rightarrow>
      case chargeCall b name (ledger s) of
        (Some e, l) \<Rightarrow> fail ''error'' (err_text e) False e (s\<lparr>world := w, ledger := l\<rparr>)
      | (None, l) \<Rightarrow>
      case Execute tool identity args w of
        (Inl e, w') \<Rightarrow> fail ''error'' (err_text e) True e (s\<lparr>world := w', ledger := l\<rparr>)
      | (Inr out, w') \<Rightarrow>
          ((\<lparr>Role = ToolRole, Content = truncate_output (MaxArgsBytes tool) out, ToolCalls = [], ToolCallID = callID call,
             MessageName = name, ResponseUsage = None\<rparr>, True, None),
           recordToolCall env identity name raw ''ok'' (s\<lparr>world := w', ledger := l\<rparr>)))"

section \<open>The run loop\<close>

record run_result =
  Text :: string
  Rounds :: int
  ToolCallCount :: int
  BudgetEnd :: bool
  Terminated :: string

definition isBudgetEnd :: "aerr \<Rightarrow> bool" where
  "isBudgetEnd e \<longleftrightarrow> Contains (err_text e) ''budget exhausted'' \<or> Contains (err_text e) ''call cap exceeded'' \<or>
     Contains (err_text e) ''max rounds''"

definition isCancel :: "aerr \<Rightarrow> bool" where
  "isCancel e \<longleftrightarrow> Contains (err_text e) ''context canceled'' \<or> Contains (err_text e) ''context deadline exceeded''"

definition modelUsage :: "message \<Rightarrow> int64 option" where
  "modelUsage answer =
     (case ResponseUsage answer of
        None \<Rightarrow> None
      | Some u \<Rightarrow>
          (let total = (if TotalTokens u \<le>s 0 then PromptTokens u + CompletionTokens u else TotalTokens u) in
           if total \<le>s 0 then None else Some total))"

definition estimate_call :: "tool_call \<Rightarrow> nat" where
  "estimate_call c = length (callID c) + length (callName c) + length (callArguments c) + 32"

definition estimate_message :: "message option \<Rightarrow> nat" where
  "estimate_message m = (case m of None \<Rightarrow> 0 | Some m \<Rightarrow> length (Content m) + 64 + sum_list (map estimate_call (ToolCalls m)))"

definition estimateTokens :: "messages \<Rightarrow> nat" where
  "estimateTokens ms = sum_list (map estimate_message ms) div 4"

definition errBudgetExhausted :: aerr where
  "errBudgetExhausted = sentinel BudgetExhausted ''token budget exhausted''"

text \<open>The output cap for one turn; \<open>turn\<close> has the same text as \<open>streamAllowance\<close>.\<close>

definition streamAllowance :: "budget \<Rightarrow> ledger \<Rightarrow> messages \<Rightarrow> aerr + int64" where
  "streamAllowance b l ms =
     (let remaining = MaxTokens b - tokens l; inputEstimate = int (estimateTokens ms) in
      if remaining \<le>s 0 then Inl errBudgetExhausted
      else if sint remaining \<le> inputEstimate then Inl errBudgetExhausted
      else let rest = word_of_int (sint remaining - inputEstimate);
               allowance = (if rest <s MaxOutputTokens b then rest else MaxOutputTokens b) in
        if allowance <s 1 then Inl errBudgetExhausted else Inr allowance)"

definition turn :: "'w env \<Rightarrow> 'w registry \<Rightarrow> budget \<Rightarrow> messages \<Rightarrow> 'w run_state \<Rightarrow>
    (aerr + message \<times> int64 option) \<times> 'w run_state" where
  "turn env reg b ms s =
     (case streamAllowance b (ledger s) ms of
        Inl e \<Rightarrow> (Inl e, s)
      | Inr allowance \<Rightarrow>
          (case Generate env (ToolInfos reg) ms allowance (world s) of
             (Inl e, w) \<Rightarrow> (Inl (wrapf ''model turn failed: '' e), s\<lparr>world := w\<rparr>)
           | (Inr None, w) \<Rightarrow> (Inl (errorf ''model returned no message''), s\<lparr>world := w\<rparr>)
           | (Inr (Some answer), w) \<Rightarrow> (Inr (answer, modelUsage answer), s\<lparr>world := w\<rparr>)))"

text \<open>The calls of one answer. The flag tells that the run ends here.\<close>

fun invoke_calls :: "'w env \<Rightarrow> 'w registry \<Rightarrow> budget \<Rightarrow> Identity \<Rightarrow> tool_call list \<Rightarrow> messages \<Rightarrow> run_result \<Rightarrow> 'w run_state \<Rightarrow>
    (bool \<times> messages \<times> run_result) \<times> 'w run_state" where
  "invoke_calls env reg b identity [] ms res s = ((False, ms, res), s)"
| "invoke_calls env reg b identity (c # cs) ms res s =
     (case invoke env reg b identity c s of
        ((msg, executed, err), s') \<Rightarrow>
          (let ms' = ms @ [Some msg];
               res' = (if executed then res\<lparr>ToolCallCount := ToolCallCount res + 1\<rparr> else res) in
           case err of
             None \<Rightarrow> invoke_calls env reg b identity cs ms' res' s'
           | Some e \<Rightarrow>
               if isBudgetEnd e \<or> isCancel e
               then ((True, ms', res'\<lparr>BudgetEnd := isBudgetEnd e, Terminated := err_text e\<rparr>), s')
               else invoke_calls env reg b identity cs ms' res' s'))"

definition ended :: "string \<Rightarrow> run_result \<Rightarrow> run_result" where
  "ended why res = res\<lparr>BudgetEnd := True, Terminated := why\<rparr>"

text \<open>The rounds; the first number is how many are left.\<close>

fun run_rounds :: "nat \<Rightarrow> 'w env \<Rightarrow> 'w registry \<Rightarrow> budget \<Rightarrow> Identity \<Rightarrow> messages \<Rightarrow> run_result \<Rightarrow> 'w run_state \<Rightarrow>
    (run_result \<times> aerr option) \<times> 'w run_state" where
  "run_rounds 0 env reg b identity ms res s = ((ended ''max rounds reached'' res, None), s)"
| "run_rounds (Suc n) env reg b identity ms res s =
     (case CtxErr env (world s) of
        (Some e, w) \<Rightarrow> ((res, Some e), s\<lparr>world := w\<rparr>)
      | (None, w) \<Rightarrow>
     (case turn env reg b ms (s\<lparr>world := w\<rparr>) of
        (Inl e, s') \<Rightarrow>
          if errors_is e BudgetExhausted then ((ended ''token budget exhausted'' res, None), s') else ((res, Some e), s')
      | (Inr (answer, reported), s') \<Rightarrow>
          (case chargeTokens b reported (ledger s') of
             (Some e, l) \<Rightarrow> ((ended ''token budget exhausted'' res, None), s'\<lparr>ledger := l\<rparr>)
           | (None, l) \<Rightarrow>
               let res' = res\<lparr>Rounds := MaxRounds b - int n\<rparr> in
               if ToolCalls answer = [] then ((res'\<lparr>Text := Content answer\<rparr>, None), s'\<lparr>ledger := l\<rparr>)
               else case invoke_calls env reg b identity (ToolCalls answer) (ms @ [Some answer]) res' (s'\<lparr>ledger := l\<rparr>) of
                 ((True, ms', res''), s'') \<Rightarrow> ((res'', None), s'')
               | ((False, ms', res''), s'') \<Rightarrow> run_rounds n env reg b identity ms' res'' s'')))"

definition no_result :: run_result where
  "no_result = \<lparr>Text = [], Rounds = 0, ToolCallCount = 0, BudgetEnd = False, Terminated = []\<rparr>"

definition new_ledger :: ledger where
  "new_ledger = \<lparr>tokens = 0, calls = [], exhausted = False\<rparr>"

text \<open>
  Admission, then the run, then the release of the gate. The model and the tools are not nil; without a
  shared gate the run has one of its own, which is dropped.
\<close>

definition admit :: "'w env \<Rightarrow> Identity \<Rightarrow> gate \<Rightarrow> 'w run_state \<Rightarrow> aerr option \<times> gate \<times> 'w run_state" where
  "admit env identity g s =
     (if UserID identity = [] then (Some (errorf ''runs require a trusted identity''), g, s)
      else case beginRun (UserID identity) g of
        (Some e, g') \<Rightarrow> (Some e, g', s)
      | (None, g') \<Rightarrow>
          (case CtxErr env (world s) of
             (Some e, w) \<Rightarrow> (Some e, release (UserID identity) g', s\<lparr>world := w\<rparr>)
           | (None, w) \<Rightarrow> (None, g', s\<lparr>world := w, ledger := new_ledger\<rparr>)))"

definition run_gate :: "budget \<Rightarrow> gate option \<Rightarrow> gate" where
  "run_gate d g = (case g of None \<Rightarrow> NewGate d | Some g \<Rightarrow> g)"

definition Run :: "'w env \<Rightarrow> 'w registry \<Rightarrow> budget \<Rightarrow> Identity \<Rightarrow> messages \<Rightarrow> gate option \<Rightarrow> 'w run_state \<Rightarrow>
    (run_result option \<times> aerr option) \<times> gate option \<times> 'w run_state" where
  "Run env reg b identity input g s =
     (let d = withDefaults b; shared = (\<lambda>g'. map_option (\<lambda>_. g') g) in
      case admit env identity (run_gate d g) s of
        (Some e, g', s') \<Rightarrow> ((None, Some e), shared g', s')
      | (None, g', s') \<Rightarrow>
          (case run_rounds (nat (MaxRounds d)) env reg d identity input no_result s' of
             ((res, err), s'') \<Rightarrow> ((Some res, err), shared (release (UserID identity) g'), s'')))"

section \<open>Streaming\<close>

text \<open>
  The chunks of a stream are merged into one message; a tool call continues the earlier one with the
  same identifier. The end of the list is the end of the stream.
\<close>

definition add_call :: "tool_call \<Rightarrow> tool_call list \<times> (string \<times> nat) list \<Rightarrow> tool_call list \<times> (string \<times> nat) list" where
  "add_call c acc =
     (case acc of (cs, byID) \<Rightarrow>
       (case map_of byID (callID c) of
          Some i \<Rightarrow>
            if callID c \<noteq> []
            then (cs[i := (cs ! i)\<lparr>callName := callName (cs ! i) @ callName c,
                    callArguments := callArguments (cs ! i) @ callArguments c\<rparr>], byID)
            else (cs @ [c], AList.update (callID c) (length cs) byID)
        | None \<Rightarrow> (cs @ [c], AList.update (callID c) (length cs) byID)))"

fun collect_chunks :: "(aerr + message option) list \<Rightarrow> message \<Rightarrow> (string \<times> nat) list \<Rightarrow> string list \<Rightarrow> (aerr + message) \<times> string list" where
  "collect_chunks [] merged byID out = (Inr merged, out)"
| "collect_chunks (Inl e # cs) merged byID out = (Inl (wrapf ''model stream failed: '' e), out)"
| "collect_chunks (Inr None # cs) merged byID out = collect_chunks cs merged byID out"
| "collect_chunks (Inr (Some chunk) # cs) merged byID out =
     (let m = (if Content chunk \<noteq> [] then merged\<lparr>Content := Content merged @ Content chunk\<rparr> else merged);
          out' = (if Content chunk \<noteq> [] then out @ [Content chunk] else out) in
      case fold add_call (ToolCalls chunk) (ToolCalls m, byID) of
        (tcs, byID') \<Rightarrow>
          collect_chunks cs
            (m\<lparr>ToolCalls := tcs,
               ResponseUsage := (case ResponseUsage chunk of None \<Rightarrow> ResponseUsage m | Some u \<Rightarrow> Some u)\<rparr>) byID' out')"

definition collectStream :: "(aerr + message option) list \<Rightarrow> (aerr + message) \<times> string list" where
  "collectStream chunks =
     collect_chunks chunks
       \<lparr>Role = AssistantRole, Content = [], ToolCalls = [], ToolCallID = [], MessageName = [], ResponseUsage = None\<rparr> [] []"

fun stream_rounds :: "nat \<Rightarrow> 'w env \<Rightarrow> 'w registry \<Rightarrow> budget \<Rightarrow> Identity \<Rightarrow> messages \<Rightarrow> run_result \<Rightarrow> 'w run_state \<Rightarrow>
    (run_result \<times> aerr option) \<times> 'w run_state" where
  "stream_rounds 0 env reg b identity ms res s = ((ended ''max rounds reached'' res, None), s)"
| "stream_rounds (Suc n) env reg b identity ms res s =
     (case CtxErr env (world s) of
        (Some e, w) \<Rightarrow> ((res, Some e), s\<lparr>world := w\<rparr>)
      | (None, w) \<Rightarrow>
     (case streamAllowance b (ledger s) ms of
        Inl e \<Rightarrow> ((ended (err_text e) res, None), s\<lparr>world := w\<rparr>)
      | Inr allowance \<Rightarrow>
     (case Stream env (ToolInfos reg) ms allowance w of
        (Inl e, w') \<Rightarrow> ((res, Some (wrapf ''model stream failed: '' e)), s\<lparr>world := w'\<rparr>)
      | (Inr chunks, w') \<Rightarrow>
     (case collectStream chunks of
        (Inl e, out) \<Rightarrow> ((res, Some e), s\<lparr>world := w', deltas := deltas s @ out\<rparr>)
      | (Inr answer, out) \<Rightarrow>
     (case chargeTokens b (modelUsage answer) (ledger s) of
        (Some e, l) \<Rightarrow>
          ((ended ''token budget exhausted'' res, None), s\<lparr>world := w', deltas := deltas s @ out, ledger := l\<rparr>)
      | (None, l) \<Rightarrow>
          let res' = res\<lparr>Rounds := MaxRounds b - int n\<rparr>; s' = s\<lparr>world := w', deltas := deltas s @ out, ledger := l\<rparr> in
          if ToolCalls answer = [] then ((res'\<lparr>Text := Content answer\<rparr>, None), s')
          else case invoke_calls env reg b identity (ToolCalls answer) (ms @ [Some answer]) res' s' of
            ((True, ms', res''), s'') \<Rightarrow> ((res'', None), s'')
          | ((False, ms', res''), s'') \<Rightarrow> stream_rounds n env reg b identity ms' res'' s'')))))"

definition RunStream :: "'w env \<Rightarrow> 'w registry \<Rightarrow> budget \<Rightarrow> Identity \<Rightarrow> messages \<Rightarrow> gate option \<Rightarrow> 'w run_state \<Rightarrow>
    (run_result option \<times> aerr option) \<times> gate option \<times> 'w run_state" where
  "RunStream env reg b identity input g s =
     (let d = withDefaults b; shared = (\<lambda>g'. map_option (\<lambda>_. g') g) in
      case admit env identity (run_gate d g) s of
        (Some e, g', s') \<Rightarrow> ((None, Some e), shared g', s')
      | (None, g', s') \<Rightarrow>
          (case stream_rounds (nat (MaxRounds d)) env reg d identity input no_result s' of
             ((res, err), s'') \<Rightarrow> ((Some res, err), shared (release (UserID identity) g'), s'')))"

section \<open>The handler\<close>

record routing =
  Provider :: string
  Budget :: budget

record handler =
  Disabled :: bool
  Configured :: bool
  routes :: "(string \<times> routing) list"
  gates :: "(string \<times> gate) list"

text \<open>The routing of a task and the gate that its runs share.\<close>

definition runnerFor :: "string \<Rightarrow> handler \<Rightarrow> (aerr + routing \<times> gate) \<times> handler" where
  "runnerFor task h =
     (if Disabled h then (Inl (errorf ''agent is disabled''), h)
      else if \<not> Configured h then (Inl (errorf ''agent is not configured''), h)
      else case map_of (routes h) task of
        None \<Rightarrow> (Inl (errorf (''no routing for task '' @ Quote task)), h)
      | Some route \<Rightarrow>
          (case map_of (gates h) task of
             Some g \<Rightarrow> (Inr (route, g), h)
           | None \<Rightarrow> (let g = NewGate (Budget route) in (Inr (route, g), h\<lparr>gates := AList.update task g (gates h)\<rparr>))))"

definition isQuotaBlock :: "aerr \<Rightarrow> bool" where
  "isQuotaBlock e \<longleftrightarrow> Contains (err_text e) ''quota exhausted'' \<or> Contains (err_text e) ''too many concurrent''"

definition observe :: "string \<Rightarrow> Identity \<Rightarrow> string \<Rightarrow> run_result option \<Rightarrow> aerr option \<Rightarrow> 'w run_state \<Rightarrow> 'w run_state" where
  "observe provider identity task res err s =
     (let budget_end = (case res of None \<Rightarrow> False | Some r \<Rightarrow> BudgetEnd r);
          outcome = (if err \<noteq> None then ''error'' else if budget_end then ''budget_end'' else ''ok'') in
      s\<lparr>Metrics := map_option (\<lambda>m. m
            \<lparr>modelTurns := AList.update provider (count_of (modelTurns m) provider + 1) (modelTurns m),
             budgetEnds := (if budget_end then budgetEnds m + 1 else budgetEnds m),
             quotaBlocks := (case err of Some e \<Rightarrow> if isQuotaBlock e then quotaBlocks m + 1 else quotaBlocks m
                                       | None \<Rightarrow> quotaBlocks m)\<rparr>) (Metrics s),
        Auditor := map_option (Append \<lparr>Actor = UserID identity, Tenant = TenantID identity, Decision = ''invoke:'' @ task,
            ToolName = [], ArgsDigest = [], Outcome = outcome, auditProvider = provider\<rparr>) (Auditor s)\<rparr>)"

datatype response = Failed nat string | Answered run_result

text \<open>The identity is what trusted middleware put into the request, the body the decoded request or an error.\<close>

definition Invoke :: "'w env \<Rightarrow> 'w registry \<Rightarrow> Identity option \<Rightarrow> (string \<times> string) option \<Rightarrow> handler \<times> 'w run_state \<Rightarrow>
    response \<times> handler \<times> 'w run_state" where
  "Invoke env reg ident body hs =
     (case hs of (h, s) \<Rightarrow>
      case ident of
        None \<Rightarrow> (Failed 401 ''unauthorized'', h, s)
      | Some identity \<Rightarrow>
          if UserID identity = [] then (Failed 401 ''unauthorized'', h, s)
          else case body of
            None \<Rightarrow> (Failed 400 ''invalid request'', h, s)
          | Some (task, input) \<Rightarrow>
              if 8192 < length input then (Failed 400 ''input too large'', h, s)
              else case runnerFor task h of
                (Inl e, h') \<Rightarrow> (Failed 503 ''unavailable'', h', s)
              | (Inr (route, g), h') \<Rightarrow>
                  (let ms = [Some \<lparr>Role = UserRole, Content = input, ToolCalls = [], ToolCallID = [], MessageName = [], ResponseUsage = None\<rparr>] in
                   case Run env reg (Budget route) identity ms (Some g) s of
                     ((res, err), g', s') \<Rightarrow>
                       (let h'' = (case g' of None \<Rightarrow> h' | Some g' \<Rightarrow> h'\<lparr>gates := AList.update task g' (gates h')\<rparr>);
                            s'' = observe (Provider route) identity task res err s' in
                        case (err, res) of
                          (None, Some r) \<Rightarrow> (Answered r, h'', s'')
                        | _ \<Rightarrow> (Failed 500 ''run failed'', h'', s''))))"

end
