(* ===== verification/AgentProps.thy ===== *)
theory AgentProps
  imports AgentRunner
begin

text \<open>
  What a run of the agent may do, whatever the chat model proposes and the application's tools answer.
  The statements are about a run in an environment that keeps a log: each call of the chat model, of
  \<open>Authorize\<close> and of \<open>Execute\<close> appends an event to the world.
\<close>

section \<open>Invariants of a run\<close>

text \<open>
  The interface of a run with its environment: what every call that a run makes must keep. The run loops
  then keep it too.
\<close>

locale run_invariant =
  fixes env :: "'w env" and reg :: "'w registry" and b :: budget and identity :: Identity and I :: "'w run_state \<Rightarrow> bool"
  assumes ctx_keeps: "I s \<Longrightarrow> CtxErr env (world s) = (ce, w) \<Longrightarrow> I (s\<lparr>world := w\<rparr>)"
    and generate_failed: "I s \<Longrightarrow> streamAllowance b (ledger s) ms = Inr a \<Longrightarrow>
      Generate env (ToolInfos reg) ms a (world s) = (r, w) \<Longrightarrow> r = Inl e \<or> r = Inr None \<Longrightarrow> I (s\<lparr>world := w\<rparr>)"
    and generate_charged: "I s \<Longrightarrow> streamAllowance b (ledger s) ms = Inr a \<Longrightarrow>
      Generate env (ToolInfos reg) ms a (world s) = (Inr (Some m), w) \<Longrightarrow>
      I (s\<lparr>world := w, ledger := snd (chargeTokens b (modelUsage m) (ledger s))\<rparr>)"
    and stream_failed: "I s \<Longrightarrow> streamAllowance b (ledger s) ms = Inr a \<Longrightarrow>
      Stream env (ToolInfos reg) ms a (world s) = (q, w) \<Longrightarrow> q = Inl e \<or> (\<exists>cs e. q = Inr cs \<and> fst (collectStream cs) = Inl e) \<Longrightarrow>
      I (s\<lparr>world := w, deltas := ds\<rparr>)"
    and stream_charged: "I s \<Longrightarrow> streamAllowance b (ledger s) ms = Inr a \<Longrightarrow>
      Stream env (ToolInfos reg) ms a (world s) = (Inr cs, w) \<Longrightarrow> fst (collectStream cs) = Inr m \<Longrightarrow>
      I (s\<lparr>world := w, deltas := ds, ledger := snd (chargeTokens b (modelUsage m) (ledger s))\<rparr>)"
    and invoke_keeps: "I s \<Longrightarrow> I (snd (invoke env reg b identity c s))"
begin

lemma calls_keep: "I s \<Longrightarrow> I (snd (invoke_calls env reg b identity cs ms res s))"
proof (induction cs arbitrary: ms res s)
  case (Cons c cs)
  obtain msg x e s' where i: "invoke env reg b identity c s = ((msg, x, e), s')"
    by (metis surj_pair)
  then have "I s'" using invoke_keeps [OF Cons.prems, of c] by simp
  then show ?case using i Cons.IH by (auto simp: Let_def split: option.split)
qed simp

lemma turn_keeps:
  assumes "I s" and "turn env reg b ms s = (r, s')"
  shows "case r of Inl e \<Rightarrow> I s' | Inr (m, rep) \<Rightarrow> I (s'\<lparr>ledger := snd (chargeTokens b rep (ledger s'))\<rparr>)"
  using assms generate_failed generate_charged
  by (fastforce simp: turn_def split: sum.splits prod.splits option.splits)

lemma rounds_keep: "I s \<Longrightarrow> I (snd (run_rounds n env reg b identity ms res s))"
proof (induction n arbitrary: ms res s)
  case (Suc n)
  obtain ce w where ce: "CtxErr env (world s) = (ce, w)" by fastforce
  then have w: "I (s\<lparr>world := w\<rparr>)" using ctx_keeps Suc.prems by blast
  obtain r s' where t: "turn env reg b ms (s\<lparr>world := w\<rparr>) = (r, s')" by fastforce
  note k = turn_keeps [OF w t]
  show ?case
  proof (cases ce)
    case None
    show ?thesis
    proof (cases r)
      case (Inl e)
      then show ?thesis using ce None t k by simp
    next
      case (Inr x)
      obtain m rep where x: "x = (m, rep)" by (cases x)
      obtain c l where c: "chargeTokens b rep (ledger s') = (c, l)" by fastforce
      then have l: "I (s'\<lparr>ledger := l\<rparr>)" using k Inr x by simp
      obtain fl ms' res' s'' where i: "invoke_calls env reg b identity (ToolCalls m) (ms @ [Some m])
          (res\<lparr>Rounds := MaxRounds b - int n\<rparr>) (s'\<lparr>ledger := l\<rparr>) = ((fl, ms', res'), s'')" by (metis surj_pair)
      then have "I s''" using calls_keep [OF l] by (metis snd_conv)
      then show ?thesis using ce None t Inr x c l i Suc.IH by (auto simp: Let_def split: option.split bool.split)
    qed
  qed (use ce w in simp)
qed simp

lemma stream_rounds_keep: "I s \<Longrightarrow> I (snd (stream_rounds n env reg b identity ms res s))"
proof (induction n arbitrary: ms res s)
  case (Suc n)
  obtain ce w where ce: "CtxErr env (world s) = (ce, w)" by fastforce
  then have w: "I (s\<lparr>world := w\<rparr>)" using ctx_keeps Suc.prems by blast
  show ?case
  proof (cases "ce = None \<and> (\<exists>a. streamAllowance b (ledger s) ms = Inr a)")
    case True
    then obtain a where a: "streamAllowance b (ledger s) ms = Inr a" by blast
    obtain r w' where r: "Stream env (ToolInfos reg) ms a w = (r, w')" by fastforce
    note failed = stream_failed [OF w, simplified, OF a r] and charged = stream_charged [OF w, simplified, OF a]
    show ?thesis
    proof (cases r)
      case (Inl e)
      then show ?thesis using ce True a r failed [of e "deltas s"] by simp
    next
      case (Inr cs)
      obtain m out where m: "collectStream cs = (m, out)" by fastforce
      show ?thesis
      proof (cases m)
        case (Inl e)
        then show ?thesis using ce True a r \<open>r = Inr cs\<close> m failed [of e "deltas s @ out"] by simp
      next
        case (Inr ans)
        obtain c l where c: "chargeTokens b (modelUsage ans) (ledger s) = (c, l)" by fastforce
        have l: "I (s\<lparr>world := w', deltas := deltas s @ out, ledger := l\<rparr>)"
          using charged [of cs w' ans "deltas s @ out"] r \<open>r = Inr cs\<close> m Inr c by simp
        obtain fl ms' res' s'' where i: "invoke_calls env reg b identity (ToolCalls ans) (ms @ [Some ans])
            (res\<lparr>Rounds := MaxRounds b - int n\<rparr>) (s\<lparr>world := w', deltas := deltas s @ out, ledger := l\<rparr>) = ((fl, ms', res'), s'')"
          by (metis surj_pair)
        then have "I s''" using calls_keep [OF l] by (metis snd_conv)
        then show ?thesis
          using ce True a r \<open>r = Inr cs\<close> m Inr c l i Suc.IH by (auto simp: Let_def split: option.split bool.split)
      qed
    qed
  next
    case False
    then show ?thesis using ce w by (cases ce; cases "streamAllowance b (ledger s) ms") auto
  qed
qed simp

end

section \<open>An environment that keeps a log\<close>

text \<open>
  A model call with its estimate, its output cap and what it is charged (the report or the reserve, if
  the model answered); an authorization with its answer; an execution.
\<close>

datatype event = Dialled nat int64 "int64 option" | Authorized string tool_args Identity bool | Ran string tool_args Identity

definition charge :: "budget \<Rightarrow> message \<Rightarrow> int64" where
  "charge b m = (case modelUsage m of None \<Rightarrow> ReserveTokens b | Some n \<Rightarrow> n)"

definition logged_tool :: "string \<Rightarrow> 'w tool \<Rightarrow> ('w \<times> event list) tool" where
  "logged_tool name t =
     \<lparr>Info = Info t,
      Authorize = (\<lambda>i args wl. case Authorize t i args (fst wl) of (r, w) \<Rightarrow> (r, w, snd wl @ [Authorized name args i (r = None)])),
      HasExecute = HasExecute t,
      Execute = (\<lambda>i args wl. case Execute t i args (fst wl) of (r, w) \<Rightarrow> (r, w, snd wl @ [Ran name args i])),
      MaxArgsBytes = MaxArgsBytes t\<rparr>"

definition logged_reg :: "'w registry \<Rightarrow> ('w \<times> event list) registry" where
  "logged_reg reg = map (\<lambda>(name, t). (name, logged_tool name t)) reg"

definition logged_env :: "budget \<Rightarrow> 'w env \<Rightarrow> ('w \<times> event list) env" where
  "logged_env b env =
     \<lparr>Decode = Decode env, Digest = Digest env,
      Generate = (\<lambda>infos ms a wl. case Generate env infos ms a (fst wl) of (r, w) \<Rightarrow>
        (r, w, snd wl @ [Dialled (estimateTokens ms) a (case r of Inr (Some m) \<Rightarrow> Some (charge b m) | _ \<Rightarrow> None)])),
      Stream = (\<lambda>infos ms a wl. case Stream env infos ms a (fst wl) of (r, w) \<Rightarrow>
        (r, w, snd wl @ [Dialled (estimateTokens ms) a (case r of Inl e \<Rightarrow> None
           | Inr cs \<Rightarrow> (case fst (collectStream cs) of Inl e \<Rightarrow> None | Inr m \<Rightarrow> Some (charge b m)))])),
      CtxErr = (\<lambda>wl. case CtxErr env (fst wl) of (r, w) \<Rightarrow> (r, w, snd wl))\<rparr>"

definition log_of :: "('w \<times> event list) run_state \<Rightarrow> event list" where
  "log_of s = snd (world s)"

lemma log_of_update [simp]:
  "log_of (s\<lparr>world := wl\<rparr>) = snd wl" "log_of (s\<lparr>ledger := l\<rparr>) = log_of s" "log_of (s\<lparr>deltas := d\<rparr>) = log_of s"
  by (simp_all add: log_of_def)

lemma recordToolCall_keeps [simp]:
  "world (recordToolCall env i n raw st s) = world s" "ledger (recordToolCall env i n raw st s) = ledger s"
  by (simp_all add: recordToolCall_def)

lemma Lookup_logged: "Lookup (logged_reg reg) n = map_option (logged_tool n) (Lookup reg n)"
  by (induction reg) (auto simp: Lookup_def logged_reg_def)

lemma logged_tool_simps:
  "contract_of (logged_tool n t) = contract_of t" "MaxArgsBytes (logged_tool n t) = MaxArgsBytes t"
  "Authorize (logged_tool n t) i args wl =
     (fst (Authorize t i args (fst wl)), snd (Authorize t i args (fst wl)),
      snd wl @ [Authorized n args i (fst (Authorize t i args (fst wl)) = None)])"
  "Execute (logged_tool n t) i args wl =
     (fst (Execute t i args (fst wl)), snd (Execute t i args (fst wl)), snd wl @ [Ran n args i])"
  by (simp_all add: logged_tool_def contract_of_def case_prod_beta)

lemma logged_infos: "ToolInfos (logged_reg reg) = ToolInfos reg"
  by (auto simp: ToolInfos_def logged_reg_def logged_tool_def split: option.split)

text \<open>What one call does to the log and the counters, on every branch.\<close>

lemma logged_invoke:
  fixes env :: "'w env" and s :: "('w \<times> event list) run_state"
  assumes "invoke (logged_env b env) (logged_reg reg) b identity c s = (x, s')"
  obtains (refused) "log_of s' = log_of s" "ledger s' = ledger s"
  | (denied) args where "log_of s' = log_of s @ [Authorized (callName c) args identity False]" "ledger s' = ledger s"
  | (capped) args where "log_of s' = log_of s @ [Authorized (callName c) args identity True]"
      "ledger s' = snd (chargeCall b (callName c) (ledger s))"
  | (ran) args tool where
      "log_of s' = log_of s @ [Authorized (callName c) args identity True, Ran (callName c) args identity]"
      "ledger s' = snd (chargeCall b (callName c) (ledger s))" "fst (chargeCall b (callName c) (ledger s)) = None"
      "Lookup reg (callName c) = Some tool"
      "validateToolArgs (contract_of tool) args = None"
proof -
  let ?n = "callName c"
  show thesis
  proof (cases "Lookup reg ?n")
    case None
    then show ?thesis using assms by (intro refused) (auto simp: invoke_def Let_def Lookup_logged log_of_def)
  next
    case (Some tool)
    let ?contract = "contract_of tool"
    show ?thesis
    proof (cases "\<exists>args. decodeArgs (logged_env b env) (callArguments c) (MaxArgsBytes tool) = Inr args \<and> validateToolArgs ?contract args = None")
      case False
      then show ?thesis
        using assms Some
        by (intro refused; cases "decodeArgs (logged_env b env) (callArguments c) (MaxArgsBytes tool)")
          (auto simp: invoke_def Let_def Lookup_logged logged_tool_simps log_of_def split: option.splits)
    next
      case True
      then obtain args where args: "decodeArgs (logged_env b env) (callArguments c) (MaxArgsBytes tool) = Inr args"
        "validateToolArgs ?contract args = None" by blast
      obtain r w where au: "Authorize tool identity args (fst (world s)) = (r, w)" by fastforce
      obtain e l where ch: "chargeCall b ?n (ledger s) = (e, l)" by fastforce
      obtain q w' where ex: "Execute tool identity args w = (q, w')" by fastforce
      have run: "invoke (logged_env b env) (logged_reg reg) b identity c s = (x, s')" by (rule assms)
      note [simp] = Let_def Lookup_logged logged_tool_simps args au ch ex Some
      show ?thesis
      proof (cases r)
        case (Some err)
        then show ?thesis using run by (intro denied [of args]) (auto simp: invoke_def log_of_def)
      next
        case r: None
        show ?thesis
        proof (cases e)
          case (Some err)
          then show ?thesis using run r by (intro capped [of args]) (auto simp: invoke_def log_of_def)
        next
          case None
          then show ?thesis using run r by (intro ran [of args tool]) (auto simp: invoke_def log_of_def split: sum.splits)
        qed
      qed
    qed
  qed
qed

section \<open>Only authorized calls run\<close>

definition runs_of :: "string \<Rightarrow> event list \<Rightarrow> nat" where
  "runs_of name L = length (filter (\<lambda>e. case e of Ran n a i \<Rightarrow> n = name | _ \<Rightarrow> False) L)"

definition permitted :: "'w registry \<Rightarrow> Identity \<Rightarrow> event list \<Rightarrow> event \<Rightarrow> bool" where
  "permitted reg identity L e = (case e of
     Ran name args who \<Rightarrow> who = identity \<and> L \<noteq> [] \<and> last L = Authorized name args identity True \<and>
       (\<exists>tool. Lookup reg name = Some tool \<and> validateToolArgs (contract_of tool) args = None)
   | _ \<Rightarrow> True)"

definition all_permitted :: "'w registry \<Rightarrow> Identity \<Rightarrow> event list \<Rightarrow> bool" where
  "all_permitted reg identity L \<longleftrightarrow> (\<forall>i < length L. permitted reg identity (take i L) (L ! i))"

lemma all_permitted_snoc: "all_permitted reg identity (L @ [e]) \<longleftrightarrow> all_permitted reg identity L \<and> permitted reg identity L e"
  by (auto simp: all_permitted_def nth_append less_Suc_eq)

lemma runs_of_simps [simp]:
  "runs_of name [] = 0" "runs_of name (L @ [Ran n a i]) = runs_of name L + (if n = name then 1 else 0)"
  "runs_of name (L @ [Dialled x y z]) = runs_of name L" "runs_of name (L @ [Authorized n a i ok]) = runs_of name L"
  by (simp_all add: runs_of_def)

definition tool_inv :: "'w registry \<Rightarrow> budget \<Rightarrow> Identity \<Rightarrow> ('w \<times> event list) run_state \<Rightarrow> bool" where
  "tool_inv reg b identity s \<longleftrightarrow> all_permitted reg identity (log_of s) \<and>
     (\<forall>name. int (runs_of name (log_of s)) \<le> min (count_of (calls (ledger s)) name) (MaxCallsPerTool b))"

lemma chargeTokens_calls [simp]: "calls (snd (chargeTokens b r l)) = calls l"
  by (simp add: chargeTokens_def Let_def)

lemma chargeCall_facts:
  "count_of (calls (snd (chargeCall b n l))) name = count_of (calls l) name + (if name = n then 1 else 0)"
  "tokens (snd (chargeCall b n l)) = tokens l"
  "fst (chargeCall b n l) = None \<Longrightarrow> count_of (calls l) n < MaxCallsPerTool b"
  by (auto simp: chargeCall_def Let_def count_of_def update_conv split: if_splits)

lemma tool_inv_dialled:
  "tool_inv reg b identity s \<Longrightarrow> log_of s' = log_of s \<or> (\<exists>x y z. log_of s' = log_of s @ [Dialled x y z]) \<Longrightarrow>
   calls (ledger s') = calls (ledger s) \<Longrightarrow> tool_inv reg b identity s'"
  by (auto simp: tool_inv_def all_permitted_snoc permitted_def)

lemma tool_invD:
  assumes "tool_inv reg b identity s"
  shows "int (runs_of name (log_of s)) \<le> count_of (calls (ledger s)) name" "int (runs_of name (log_of s)) \<le> MaxCallsPerTool b"
    "all_permitted reg identity (log_of s)"
  using assms by (simp_all add: tool_inv_def)

lemma tool_invI:
  "all_permitted reg identity (log_of s) \<Longrightarrow>
   (\<And>name. int (runs_of name (log_of s)) \<le> count_of (calls (ledger s)) name) \<Longrightarrow>
   (\<And>name. int (runs_of name (log_of s)) \<le> MaxCallsPerTool b) \<Longrightarrow> tool_inv reg b identity s"
  by (simp add: tool_inv_def)

lemma tool_inv_invoke:
  fixes env :: "'w env"
  assumes "tool_inv reg b identity s"
  shows "tool_inv reg b identity (snd (invoke (logged_env b env) (logged_reg reg) b identity c s))"
proof -
  obtain x s' where i: "invoke (logged_env b env) (logged_reg reg) b identity c s = (x, s')" by fastforce
  note inv = tool_invD [OF assms]
  note count = chargeCall_facts(1) [of b "callName c" "ledger s"]
  from i have "tool_inv reg b identity s'"
  proof (cases rule: logged_invoke)
    case refused
    then show ?thesis using assms by (simp add: tool_inv_def)
  next
    case denied
    then show ?thesis using assms by (simp add: tool_inv_def all_permitted_snoc permitted_def)
  next
    case capped
    show ?thesis
    proof (rule tool_invI)
      show "all_permitted reg identity (log_of s')" using inv(3) by (simp add: capped(1) all_permitted_snoc permitted_def)
      show "int (runs_of name (log_of s')) \<le> count_of (calls (ledger s')) name" for name
        using inv(1) [of name] by (auto simp: capped count)
      show "int (runs_of name (log_of s')) \<le> MaxCallsPerTool b" for name using inv(2) [of name] by (simp add: capped)
    qed
  next
    case (ran args tool)
    have log: "log_of s' = (log_of s @ [Authorized (callName c) args identity True]) @ [Ran (callName c) args identity]"
      using ran(1) by simp
    show ?thesis
    proof (rule tool_invI)
      show "all_permitted reg identity (log_of s')"
        using inv(3) ran(4,5) unfolding log all_permitted_snoc by (simp add: permitted_def)
      show "int (runs_of name (log_of s')) \<le> count_of (calls (ledger s')) name" for name
        using inv(1) [of name] unfolding log runs_of_simps ran(2) count by auto
      show "int (runs_of name (log_of s')) \<le> MaxCallsPerTool b" for name
        using inv(1,2) [of name] chargeCall_facts(3) [OF ran(3)] unfolding log runs_of_simps by auto
    qed
  qed
  then show ?thesis using i by simp
qed

lemma logged_env_simps:
  "CtxErr (logged_env b env) wl = (r, wl') \<Longrightarrow> snd wl' = snd wl"
  "Generate (logged_env b env) infos ms a wl = (g, wl') \<Longrightarrow>
     snd wl' = snd wl @ [Dialled (estimateTokens ms) a (case g of Inr (Some m) \<Rightarrow> Some (charge b m) | _ \<Rightarrow> None)]"
  "Stream (logged_env b env) infos ms a wl = (q, wl') \<Longrightarrow>
     snd wl' = snd wl @ [Dialled (estimateTokens ms) a (case q of Inl e \<Rightarrow> None
       | Inr cs \<Rightarrow> (case fst (collectStream cs) of Inl e \<Rightarrow> None | Inr m \<Rightarrow> Some (charge b m)))]"
  by (auto simp: logged_env_def split: prod.splits)

interpretation tool_calls: run_invariant "logged_env b env" "logged_reg reg" b identity "tool_inv reg b identity"
proof unfold_locales
  show "tool_inv reg b identity (s\<lparr>world := w\<rparr>)"
    if "tool_inv reg b identity s" "CtxErr (logged_env b env) (world s) = (ce, w)" for s ce w
    using logged_env_simps(1) [OF that(2)] by (intro tool_inv_dialled [OF that(1)]) (auto simp: log_of_def)
next
  show "tool_inv reg b identity (s\<lparr>world := w\<rparr>)"
    if "tool_inv reg b identity s" "Generate (logged_env b env) (ToolInfos (logged_reg reg)) ms a (world s) = (q, w)" for s ms a q w
    using logged_env_simps(2) [OF that(2)] by (intro tool_inv_dialled [OF that(1)]) (auto simp: log_of_def)
next
  show "tool_inv reg b identity (s\<lparr>world := w, ledger := snd (chargeTokens b (modelUsage m) (ledger s))\<rparr>)"
    if "tool_inv reg b identity s"
      "Generate (logged_env b env) (ToolInfos (logged_reg reg)) ms a (world s) = (Inr (Some m), w)" for s ms a m w
    using logged_env_simps(2) [OF that(2)] by (intro tool_inv_dialled [OF that(1)]) (auto simp: log_of_def)
next
  show "tool_inv reg b identity (s\<lparr>world := w, deltas := ds\<rparr>)"
    if "tool_inv reg b identity s" "Stream (logged_env b env) (ToolInfos (logged_reg reg)) ms a (world s) = (q, w)" for s ms a q w ds
    using logged_env_simps(3) [OF that(2)] by (intro tool_inv_dialled [OF that(1)]) (auto simp: log_of_def)
next
  show "tool_inv reg b identity (s\<lparr>world := w, deltas := ds, ledger := snd (chargeTokens b (modelUsage m) (ledger s))\<rparr>)"
    if "tool_inv reg b identity s"
      "Stream (logged_env b env) (ToolInfos (logged_reg reg)) ms a (world s) = (Inr cs, w)" for s ms a cs w m ds
    using logged_env_simps(3) [OF that(2)] by (intro tool_inv_dialled [OF that(1)]) (auto simp: log_of_def)
qed (rule tool_inv_invoke)

text \<open>A whole run, streaming or not, from an empty log.\<close>

lemma run_from_start:
  assumes "run_invariant (logged_env (withDefaults b) env) (logged_reg reg) (withDefaults b) identity I"
    and start: "\<And>s. log_of s = [] \<Longrightarrow> ledger s = new_ledger \<Longrightarrow> I s"
    and "log_of s = []"
    and "Run (logged_env (withDefaults b) env) (logged_reg reg) b identity input g s = (r, g', s') \<or>
      RunStream (logged_env (withDefaults b) env) (logged_reg reg) b identity input g s = (r, g', s')"
  shows "log_of s' = [] \<or> I s'"
proof -
  let ?env = "logged_env (withDefaults b) env"
  obtain e g1 s1 where ad: "admit ?env identity (run_gate (withDefaults b) g) s = (e, g1, s1)" by (metis surj_pair)
  have log: "log_of s1 = []" "e = None \<Longrightarrow> ledger s1 = new_ledger"
    using ad assms(3)
    by (auto simp: admit_def log_of_def split: if_splits prod.splits option.splits dest!: logged_env_simps(1))
  show ?thesis
  proof (cases e)
    case None
    then have "I s1" using start log by blast
    then show ?thesis
      using assms(4) ad None run_invariant.rounds_keep [OF assms(1), of s1] run_invariant.stream_rounds_keep [OF assms(1), of s1]
      by (auto simp: Run_def RunStream_def Let_def split: prod.splits) (metis snd_conv)+
  qed (use assms(4) ad log in \<open>auto simp: Run_def RunStream_def Let_def\<close>)
qed

lemma withDefaults_pos:
  "0 < MaxRounds (withDefaults b)" "0 < MaxCallsPerTool (withDefaults b)" "0 < sint (MaxTokens (withDefaults b))"
  "0 < sint (ReserveTokens (withDefaults b))" "0 < sint (MaxOutputTokens (withDefaults b))"
  by (auto simp: withDefaults_def word_sle_eq)

text \<open>C39: Whatever the model proposes, a tool runs only on a call that names a registered tool, whose arguments
  pass the tool's contract, and that the tool has just authorized for the trusted identity with these
  arguments; and no tool runs more often than the budget's cap, streaming or not.\<close>

theorem only_authorized_calls_run:
  fixes env :: "'w env" and reg :: "'w registry"
  assumes "world s = (w, [])"
    and "Run (logged_env (withDefaults b) env) (logged_reg reg) b identity input g s = (r, g', s') \<or>
      RunStream (logged_env (withDefaults b) env) (logged_reg reg) b identity input g s = (r, g', s')"
  shows "(\<forall>i < length (log_of s'). \<forall>name args who. log_of s' ! i = Ran name args who \<longrightarrow>
      who = identity \<and> 0 < i \<and> log_of s' ! (i - 1) = Authorized name args identity True \<and>
      (\<exists>tool. Lookup reg name = Some tool \<and> validateToolArgs (contract_of tool) args = None)) \<and>
    (\<forall>name. int (runs_of name (log_of s')) \<le> MaxCallsPerTool (withDefaults b))"
proof -
  have start: "tool_inv reg (withDefaults b) identity s" if "log_of s = []" "ledger s = new_ledger"
    for s :: "('w \<times> event list) run_state"
    using that withDefaults_pos(2) [of b]
    by (simp add: tool_inv_def all_permitted_def count_of_def new_ledger_def)
  have "log_of s' = [] \<or> tool_inv reg (withDefaults b) identity s'"
    by (rule run_from_start [OF tool_calls.run_invariant_axioms start _ assms(2)]) (simp_all add: log_of_def assms(1))
  then have inv: "all_permitted reg identity (log_of s')" "\<forall>name. int (runs_of name (log_of s')) \<le> MaxCallsPerTool (withDefaults b)"
    using withDefaults_pos(2) [of b] by (auto simp: tool_inv_def all_permitted_def)
  have "permitted reg identity (take i (log_of s')) (log_of s' ! i) \<and> (take i (log_of s') \<noteq> [] \<longrightarrow>
      last (take i (log_of s')) = log_of s' ! (i - 1))" if "i < length (log_of s')" for i
    using inv(1) that by (auto simp: all_permitted_def last_conv_nth)
  then show ?thesis using inv(2) by (fastforce simp: permitted_def)
qed

section \<open>The token budget\<close>

text \<open>What the model calls were charged, without wrap-around.\<close>

definition charged :: "event list \<Rightarrow> int" where
  "charged L = sum_list (map (\<lambda>e. case e of Dialled n a (Some c) \<Rightarrow> sint c | _ \<Rightarrow> 0) L)"

definition affordable :: "budget \<Rightarrow> event list \<Rightarrow> event \<Rightarrow> bool" where
  "affordable b L e = (case e of
     Dialled n a c \<Rightarrow> 1 \<le> sint a \<and> sint a \<le> sint (MaxOutputTokens b) \<and> charged L + int n + sint a \<le> sint (MaxTokens b)
   | _ \<Rightarrow> True)"

definition all_affordable :: "budget \<Rightarrow> event list \<Rightarrow> bool" where
  "all_affordable b L \<longleftrightarrow> (\<forall>i < length L. affordable b (take i L) (L ! i))"

lemma all_affordable_snoc: "all_affordable b (L @ [e]) \<longleftrightarrow> all_affordable b L \<and> affordable b L e"
  by (auto simp: all_affordable_def nth_append less_Suc_eq)

lemma charged_simps [simp]:
  "charged [] = 0" "charged (L @ [Dialled n a (Some c)]) = charged L + sint c" "charged (L @ [Dialled n a None]) = charged L"
  "charged (L @ [Authorized x y z ok]) = charged L" "charged (L @ [Ran x y z]) = charged L"
  by (simp_all add: charged_def)

text \<open>The counter is exact while the budget lasts; once it is spent every later turn is refused, even if
  the counter wrapped around.\<close>

definition token_inv :: "budget \<Rightarrow> ('w \<times> event list) run_state \<Rightarrow> bool" where
  "token_inv b s \<longleftrightarrow> all_affordable b (log_of s) \<and>
     (sint (tokens (ledger s)) = charged (log_of s) \<and> 0 \<le> charged (log_of s) \<and> charged (log_of s) \<le> sint (MaxTokens b) \<or>
      sint (MaxTokens b - tokens (ledger s)) \<le> 0)"

text \<open>An allowance that was granted fits into what is left.\<close>

lemma allowance_fits:
  assumes "streamAllowance b l ms = Inr a"
  shows "0 < sint (MaxTokens b - tokens l)" "1 \<le> sint a" "sint a \<le> sint (MaxOutputTokens b)"
    "int (estimateTokens ms) + sint a \<le> sint (MaxTokens b - tokens l)"
proof -
  let ?rem = "MaxTokens b - tokens l" and ?n = "int (estimateTokens ms)"
  let ?rest = "word_of_int (sint ?rem - ?n) :: int64"
  have rem: "0 < sint ?rem" "?n < sint ?rem" and a: "a = (if ?rest <s MaxOutputTokens b then ?rest else MaxOutputTokens b)"
    and one: "\<not> a <s 1"
    using assms by (auto simp: streamAllowance_def Let_def word_sle_eq split: if_splits)
  have "sint ?rest = sint ?rem - ?n"
    using rem sint64_bounds [of ?rem] by (intro sint64_of_int) auto
  then show "0 < sint ?rem" "1 \<le> sint a" "sint a \<le> sint (MaxOutputTokens b)" "?n + sint a \<le> sint ?rem"
    using rem a one by (auto simp: word_sless_alt)
qed

text \<open>One charge: a report is positive, the reserve too.\<close>

lemma charge_pos: "0 < sint (ReserveTokens b) \<Longrightarrow> 0 < sint (charge b m)"
  by (auto simp: charge_def modelUsage_def Let_def word_sle_eq split: option.splits if_splits)

lemma chargeTokens_charge: "snd (chargeTokens b (modelUsage m) l) =
    l\<lparr>tokens := tokens l + charge b m, exhausted := MaxTokens b <s tokens l + charge b m \<or> exhausted l\<rparr>"
  by (auto simp: chargeTokens_def charge_def Let_def split: option.split)

lemma charge_step:
  fixes max t c :: int64
  assumes "0 < sint max" and "0 < sint c" and "0 \<le> sint t" and "sint t \<le> sint max"
  shows "sint (t + c) = sint t + sint c \<and> sint t + sint c \<le> sint max \<or> sint (max - (t + c)) \<le> 0"
proof (cases "sint t + sint c \<le> sint max")
  case True
  then have "sint (t + c) = sint t + sint c"
    unfolding sint64_plus using sint64_bounds [of max] assms by (intro signed64) auto
  then show ?thesis using True by simp
next
  case False
  have "max - (t + c) = word_of_int (sint max - (sint t + sint c))" by simp
  moreover have "sint (word_of_int (sint max - (sint t + sint c)) :: int64) = sint max - (sint t + sint c)"
    using False sint64_bounds [of max] sint64_bounds [of c] assms by (intro sint64_of_int) auto
  ultimately show ?thesis using False by simp
qed

text \<open>An invariant over the dialled log.\<close>

lemma granted:
  assumes "token_inv b s" and "0 < sint (MaxTokens b)" and "streamAllowance b (ledger s) ms = Inr a"
  shows "sint (tokens (ledger s)) = charged (log_of s)" "0 \<le> charged (log_of s)" "charged (log_of s) \<le> sint (MaxTokens b)"
    "all_affordable b (log_of s @ [Dialled (estimateTokens ms) a c])"
proof -
  note fits = allowance_fits [OF assms(3)]
  have ex: "sint (tokens (ledger s)) = charged (log_of s) \<and> 0 \<le> charged (log_of s) \<and> charged (log_of s) \<le> sint (MaxTokens b)"
    using assms(1) fits(1) by (auto simp: token_inv_def)
  then show "sint (tokens (ledger s)) = charged (log_of s)" "0 \<le> charged (log_of s)" "charged (log_of s) \<le> sint (MaxTokens b)"
    by simp_all
  have "sint (MaxTokens b - tokens (ledger s)) = sint (MaxTokens b) - charged (log_of s)"
    unfolding sint64_minus using ex sint64_bounds [of "MaxTokens b"] by (subst signed64) auto
  then show "all_affordable b (log_of s @ [Dialled (estimateTokens ms) a c])"
    using assms(1) fits unfolding all_affordable_snoc by (simp add: token_inv_def affordable_def)
qed

lemma token_inv_failed:
  assumes "token_inv b s" and "0 < sint (MaxTokens b)" and "streamAllowance b (ledger s) ms = Inr a"
    and "log_of s' = log_of s @ [Dialled (estimateTokens ms) a None]" and "ledger s' = ledger s"
  shows "token_inv b s'"
  using granted [OF assms(1-3)] assms(4,5) by (simp add: token_inv_def)

lemma token_inv_charged:
  assumes "token_inv b s" and "0 < sint (MaxTokens b)" and "0 < sint (ReserveTokens b)"
    and "streamAllowance b (ledger s) ms = Inr a"
    and "log_of s' = log_of s @ [Dialled (estimateTokens ms) a (Some (charge b m))]"
    and "ledger s' = snd (chargeTokens b (modelUsage m) (ledger s))"
  shows "token_inv b s'"
proof -
  note g = granted [OF assms(1,2,4)]
  have "sint (tokens (ledger s) + charge b m) = sint (tokens (ledger s)) + sint (charge b m) \<and>
      sint (tokens (ledger s)) + sint (charge b m) \<le> sint (MaxTokens b) \<or>
      sint (MaxTokens b - (tokens (ledger s) + charge b m)) \<le> 0"
    using g(1-3) by (intro charge_step assms(2) charge_pos [OF assms(3)]) simp_all
  then show ?thesis
    using g(1,2) g(4) [of "Some (charge b m)"] charge_pos [OF assms(3), of m] assms(5,6)
    by (auto simp: token_inv_def chargeTokens_charge)
qed

lemma token_inv_same:
  "token_inv b s \<Longrightarrow> log_of s' = log_of s \<Longrightarrow> ledger s' = ledger s \<Longrightarrow> token_inv b s'"
  by (simp add: token_inv_def)

lemma token_inv_invoke:
  fixes env :: "'w env"
  assumes "token_inv b s"
  shows "token_inv b (snd (invoke (logged_env b env) (logged_reg reg) b identity c s))"
proof -
  obtain x s' where i: "invoke (logged_env b env) (logged_reg reg) b identity c s = (x, s')" by fastforce
  have ran: "L @ [p, q] = (L @ [p]) @ [q]" for L :: "event list" and p q by simp
  from i have "all_affordable b (log_of s') \<and> charged (log_of s') = charged (log_of s) \<and> tokens (ledger s') = tokens (ledger s)"
  proof (cases rule: logged_invoke)
    case refused
    then show ?thesis using assms by (simp add: token_inv_def)
  next
    case denied
    then show ?thesis using assms by (simp add: token_inv_def all_affordable_snoc affordable_def)
  next
    case capped
    then show ?thesis using assms by (simp add: token_inv_def all_affordable_snoc affordable_def chargeCall_facts)
  next
    case ran
    then show ?thesis
      using assms unfolding \<open>\<And>q p L. L @ [p, q] = (L @ [p]) @ [q]\<close>
      by (simp add: token_inv_def all_affordable_snoc affordable_def chargeCall_facts del: append_assoc)
  qed
  then show ?thesis using i assms by (simp add: token_inv_def)
qed

interpretation token_budget: run_invariant "logged_env (withDefaults b) env" "logged_reg reg" "withDefaults b" identity
  "token_inv (withDefaults b)"
proof unfold_locales
  show "token_inv (withDefaults b) (s\<lparr>world := w\<rparr>)"
    if "token_inv (withDefaults b) s" "CtxErr (logged_env (withDefaults b) env) (world s) = (ce, w)" for s ce w
    using logged_env_simps(1) [OF that(2)] by (intro token_inv_same [OF that(1)]) (auto simp: log_of_def)
next
  show "token_inv (withDefaults b) (s\<lparr>world := w\<rparr>)"
    if "token_inv (withDefaults b) s" "streamAllowance (withDefaults b) (ledger s) ms = Inr a"
      "Generate (logged_env (withDefaults b) env) (ToolInfos (logged_reg reg)) ms a (world s) = (q, w)" "q = Inl e \<or> q = Inr None"
    for s ms a q w e
    using logged_env_simps(2) [OF that(3)] that(4)
    by (intro token_inv_failed [OF that(1) withDefaults_pos(3) that(2)]) (auto simp: log_of_def)
next
  show "token_inv (withDefaults b) (s\<lparr>world := w, ledger := snd (chargeTokens (withDefaults b) (modelUsage m) (ledger s))\<rparr>)"
    if "token_inv (withDefaults b) s" "streamAllowance (withDefaults b) (ledger s) ms = Inr a"
      "Generate (logged_env (withDefaults b) env) (ToolInfos (logged_reg reg)) ms a (world s) = (Inr (Some m), w)" for s ms a m w
    using logged_env_simps(2) [OF that(3)]
    by (intro token_inv_charged [OF that(1) withDefaults_pos(3,4) that(2)]) (auto simp: log_of_def)
next
  show "token_inv (withDefaults b) (s\<lparr>world := w, deltas := ds\<rparr>)"
    if "token_inv (withDefaults b) s" "streamAllowance (withDefaults b) (ledger s) ms = Inr a"
      "Stream (logged_env (withDefaults b) env) (ToolInfos (logged_reg reg)) ms a (world s) = (q, w)"
      "q = Inl e \<or> (\<exists>cs e. q = Inr cs \<and> fst (collectStream cs) = Inl e)" for s ms a q w e ds
    using logged_env_simps(3) [OF that(3)] that(4)
    by (intro token_inv_failed [OF that(1) withDefaults_pos(3) that(2)]) (auto simp: log_of_def)
next
  show "token_inv (withDefaults b)
      (s\<lparr>world := w, deltas := ds, ledger := snd (chargeTokens (withDefaults b) (modelUsage m) (ledger s))\<rparr>)"
    if "token_inv (withDefaults b) s" "streamAllowance (withDefaults b) (ledger s) ms = Inr a"
      "Stream (logged_env (withDefaults b) env) (ToolInfos (logged_reg reg)) ms a (world s) = (Inr cs, w)"
      "fst (collectStream cs) = Inr m" for s ms a cs w m ds
    using logged_env_simps(3) [OF that(3)] that(4)
    by (intro token_inv_charged [OF that(1) withDefaults_pos(3,4) that(2)]) (auto simp: log_of_def)
qed (rule token_inv_invoke)

text \<open>C40: The model is never dialled beyond the budget: at every call, the tokens charged so far, the
  estimate of the input and the output cap that the vendor is given fit into the token budget together,
  and the cap is between one and the configured maximum. This holds for every report of the vendor,
  also for one that makes the 64 bit counter wrap around.\<close>

theorem dials_fit_the_budget:
  fixes env :: "'w env" and reg :: "'w registry"
  assumes "world s = (w, [])"
    and "Run (logged_env (withDefaults b) env) (logged_reg reg) b identity input g s = (r, g', s') \<or>
      RunStream (logged_env (withDefaults b) env) (logged_reg reg) b identity input g s = (r, g', s')"
  shows "\<forall>i < length (log_of s'). \<forall>n a c. log_of s' ! i = Dialled n a c \<longrightarrow>
    1 \<le> sint a \<and> sint a \<le> sint (MaxOutputTokens (withDefaults b)) \<and>
    charged (take i (log_of s')) + int n + sint a \<le> sint (MaxTokens (withDefaults b))"
proof -
  have start: "token_inv (withDefaults b) s" if "log_of s = []" "ledger s = new_ledger"
    for s :: "('w \<times> event list) run_state"
    using that withDefaults_pos(3) [of b] by (simp add: token_inv_def all_affordable_def new_ledger_def)
  have "log_of s' = [] \<or> token_inv (withDefaults b) s'"
    by (rule run_from_start [OF token_budget.run_invariant_axioms start _ assms(2)]) (simp_all add: log_of_def assms(1))
  then have "all_affordable (withDefaults b) (log_of s')" by (auto simp: token_inv_def all_affordable_def)
  then show ?thesis by (fastforce simp: all_affordable_def affordable_def)
qed

section \<open>Admission\<close>

text \<open>A gate that runs share: the users of the open runs and of all runs so far, over any interleaving.\<close>

inductive gate_history :: "budget \<Rightarrow> string list \<Rightarrow> string list \<Rightarrow> gate \<Rightarrow> bool" where
  start: "gate_history b [] [] (NewGate b)"
| admitted: "gate_history b running begun g \<Longrightarrow> beginRun u g = (None, g') \<Longrightarrow> gate_history b (u # running) (u # begun) g'"
| refused: "gate_history b running begun g \<Longrightarrow> beginRun u g = (Some e, g') \<Longrightarrow> gate_history b running begun g'"
| released: "gate_history b running begun g \<Longrightarrow> u \<in> set running \<Longrightarrow> gate_history b (remove1 u running) begun (release u g)"

lemma count_of_update: "count_of (AList.update k n m) j = (if j = k then n else count_of m j)"
  by (simp add: count_of_def update_conv)

lemma count_list_remove1: "u \<in> set xs \<Longrightarrow> int (count_list (remove1 u xs) v) = int (count_list xs v) - (if v = u then 1 else 0)"
  by (induction xs) auto

lemma beginRun_cases:
  "beginRun u g = (None, g') \<longleftrightarrow> count_of (inflight g) u < MaxConcurrent (gateBudget g) \<and>
     count_of (userCalls g) u < MaxUserCalls (gateBudget g) \<and>
     g' = g\<lparr>inflight := AList.update u (count_of (inflight g) u + 1) (inflight g),
            userCalls := AList.update u (count_of (userCalls g) u + 1) (userCalls g)\<rparr>"
  "beginRun u g = (Some e, g') \<Longrightarrow> g' = g"
  by (auto simp: beginRun_def split: if_splits)

lemma gate_history_counts:
  assumes "gate_history b running begun g"
  shows "gateBudget g = withDefaults b \<and> (\<forall>v. count_of (inflight g) v = int (count_list running v) \<and>
      count_of (inflight g) v \<le> MaxConcurrent (withDefaults b) \<and>
      count_of (userCalls g) v = int (count_list begun v) \<and> count_of (userCalls g) v \<le> MaxUserCalls (withDefaults b))"
  using assms
proof (induction rule: gate_history.induct)
  case (start b)
  then show ?case by (auto simp: NewGate_def count_of_def withDefaults_def)
next
  case (admitted b running begun g u g')
  then show ?case by (auto simp: beginRun_cases(1) count_of_update) metis+
next
  case (refused b running begun g u e g')
  then show ?case using beginRun_cases(2) by blast
next
  case (released b running begun g u)
  have c: "int (count_list (remove1 u running) v) = int (count_list running v) - (if v = u then 1 else 0)" for v
    by (rule count_list_remove1 [OF released.hyps(2)])
  have IH: "count_of (inflight g) v = int (count_list running v)" "int (count_list running v) \<le> MaxConcurrent (withDefaults b)"
    "count_of (userCalls g) v = int (count_list begun v)" "int (count_list begun v) \<le> MaxUserCalls (withDefaults b)" for v
    using released.IH by metis+
  have "int (count_list running u) - 1 \<le> MaxConcurrent (withDefaults b)" using IH(2) [of u] by simp
  then show ?case using released.IH IH(3,4) unfolding c by (auto simp: release_def count_of_update IH(1))
qed

text \<open>A gate counts exactly: over any interleaving of admissions and releases of runs, a user has as many
  runs in flight as are open, never more than the concurrency limit, and as many calls as runs were
  ever admitted, never more than the quota; a run is admitted exactly if both counts are below their limits.\<close>

theorem gate_counts_open_runs:
  assumes "gate_history b running begun g"
  shows "count_of (inflight g) u = int (count_list running u) \<and> int (count_list running u) \<le> MaxConcurrent (withDefaults b) \<and>
    count_of (userCalls g) u = int (count_list begun u) \<and> int (count_list begun u) \<le> MaxUserCalls (withDefaults b) \<and>
    (fst (beginRun u g) = None \<longleftrightarrow> int (count_list running u) < MaxConcurrent (withDefaults b) \<and>
       int (count_list begun u) < MaxUserCalls (withDefaults b))"
proof -
  have "fst (beginRun u g) = None \<longleftrightarrow> count_of (inflight g) u < MaxConcurrent (gateBudget g) \<and>
      count_of (userCalls g) u < MaxUserCalls (gateBudget g)"
    by (auto simp: beginRun_def)
  moreover have "gateBudget g = withDefaults b" "count_of (inflight g) u = int (count_list running u)"
    "count_of (inflight g) u \<le> MaxConcurrent (withDefaults b)" "count_of (userCalls g) u = int (count_list begun u)"
    "count_of (userCalls g) u \<le> MaxUserCalls (withDefaults b)"
    using gate_history_counts [OF assms] by blast+
  ultimately show ?thesis by simp
qed

text \<open>A run closes what it opened, on every path.\<close>

lemma run_releases:
  assumes "Run env reg b identity input (Some g) s = (r, g', s') \<or> RunStream env reg b identity input (Some g) s = (r, g', s')"
  shows "\<exists>h. g' = Some h \<and> (\<forall>u. count_of (inflight h) u = count_of (inflight g) u)"
proof -
  obtain e g1 s1 where ad: "admit env identity g s = (e, g1, s1)" by (metis surj_pair)
  have "\<forall>u. count_of (inflight (if e = None then release (UserID identity) g1 else g1)) u = count_of (inflight g) u"
    using ad by (auto simp: admit_def beginRun_def release_def count_of_update split: if_splits prod.splits option.splits)
  then show ?thesis
    using assms ad by (cases e) (auto simp: Run_def RunStream_def run_gate_def Let_def split: prod.splits)
qed

text \<open>With the kill switch on, no request reaches the model or a tool.\<close>

lemma disabled_touches_nothing:
  "Disabled h \<Longrightarrow> snd (snd (Invoke env reg ident body (h, s))) = s"
  by (auto simp: Invoke_def runnerFor_def split: option.split prod.split)

section \<open>A concrete run\<close>

definition demo_agent_tool :: "nat tool" where
  "demo_agent_tool = \<lparr>Info = Some (''echo'', None), Authorize = (\<lambda>i args n. (if UserID i = ''u'' then None else Some (errorf ''no''), n)),
     HasExecute = True, Execute = (\<lambda>i args n. (Inr ''done'', n)), MaxArgsBytes = 100\<rparr>"

definition demo_answer :: "int64 \<Rightarrow> tool_call list \<Rightarrow> message" where
  "demo_answer n cs = \<lparr>Role = AssistantRole, Content = ''hi'', ToolCalls = cs, ToolCallID = [], MessageName = [],
     ResponseUsage = Some \<lparr>TotalTokens = n, PromptTokens = 0, CompletionTokens = 0\<rparr>\<rparr>"

definition demo_agent :: "nat env" where
  "demo_agent = \<lparr>Decode = (\<lambda>raw. Inr []), Digest = (\<lambda>raw. raw),
     Generate = (\<lambda>infos ms a n. (Inr (Some (if n = 0 then demo_answer 15 [\<lparr>callID = ''1'', callName = ''echo'', callArguments = []\<rparr>]
       else demo_answer 9223372036854775807 [])), Suc n)),
     Stream = (\<lambda>infos ms a n. (Inr [Inr (Some (demo_answer 1 []))], Suc n)), CtxErr = (\<lambda>n. (None, n))\<rparr>"

definition demo_budget :: budget where
  "demo_budget = \<lparr>MaxRounds = 3, MaxTokens = 0, ReserveTokens = 0, MaxOutputTokens = 0, TotalTimeout = 0, ToolTimeout = 0,
     MaxCallsPerTool = 1, MaxConcurrent = 1, MaxUserCalls = 0\<rparr>"

definition demo_run :: "(run_result option \<times> aerr option) \<times> gate option \<times> (nat \<times> event list) run_state" where
  "demo_run = Run (logged_env (withDefaults demo_budget) demo_agent) (logged_reg [(''echo'', demo_agent_tool)]) demo_budget
     \<lparr>UserID = ''u'', TenantID = []\<rparr> [] None
     \<lparr>world = (0, []), ledger = new_ledger, Auditor = None, Metrics = None, deltas = []\<rparr>"

theorem only_authorized_calls_run_witness:
  "int (runs_of ''echo'' (log_of (snd (snd demo_run)))) \<le> MaxCallsPerTool (withDefaults demo_budget)"
proof -
  obtain r g s where d: "demo_run = (r, g, s)" by (metis surj_pair)
  show ?thesis
    unfolding d fst_conv snd_conv
    by (rule only_authorized_calls_run [OF _ disjI1 [OF d [unfolded demo_run_def]], THEN conjunct2, rule_format]) simp
qed

lemma demo_log:
  "log_of (snd (snd demo_run)) =
     [Dialled 0 1024 (Some 15), Authorized ''echo'' [] \<lparr>UserID = ''u'', TenantID = []\<rparr> True,
      Ran ''echo'' [] \<lparr>UserID = ''u'', TenantID = []\<rparr>, Dialled 42 1024 (Some 9223372036854775807)]"
  by code_simp

theorem dials_fit_the_budget_witness:
  "log_of (snd (snd demo_run)) ! 3 = Dialled 42 1024 (Some 9223372036854775807) \<and>
   charged (take 3 (log_of (snd (snd demo_run)))) + 42 + sint (1024 :: int64) \<le> sint (MaxTokens (withDefaults demo_budget))"
proof -
  obtain r g s where d: "demo_run = (r, g, s)" by (metis surj_pair)
  note fit = dials_fit_the_budget [OF _ disjI1 [OF d [unfolded demo_run_def]], unfolded run_state.select_convs, OF refl]
  have log: "log_of s = log_of (snd (snd demo_run))" by (simp add: d)
  have "log_of s ! 3 = Dialled 42 1024 (Some 9223372036854775807)" "3 < length (log_of s)" unfolding log demo_log by simp_all
  from fit [rule_format, OF this(2,1)] show ?thesis using \<open>log_of s ! 3 = _\<close> by (simp add: d)
qed

theorem gate_counts_open_runs_witness:
  "fst (beginRun ''u'' (snd (beginRun ''u'' (NewGate demo_budget)))) \<noteq> None"
proof -
  obtain g where g: "beginRun ''u'' (NewGate demo_budget) = (None, g)"
    by (cases "beginRun ''u'' (NewGate demo_budget)") (auto simp: beginRun_def NewGate_def count_of_def demo_budget_def withDefaults_def)
  have "gate_history demo_budget [''u''] [''u''] g" using gate_history.admitted [OF gate_history.start g] .
  from gate_counts_open_runs [OF this, of "''u''"] show ?thesis using g by (simp add: demo_budget_def withDefaults_def)
qed

text \<open>An error that the model can cause by naming a tool ends the run as if the budget were spent.\<close>

lemma unknown_tool_ends_run:
  "isBudgetEnd (errorf (''unknown tool '' @ Quote ''max rounds''))"
proof -
  have "Contains (''unknown tool '' @ Quote ''max rounds'') ''max rounds''"
    using Contains_append [of "''unknown tool '' @ [CHR 0x22]" "''max rounds''" "[CHR 0x22]"] by (simp add: Quote_def)
  then show ?thesis by (simp add: isBudgetEnd_def)
qed

end
