(* ===== verification/Spec2Isabelle.thy ===== *)
theory Spec2Isabelle
  imports TaskProps RequestProps AuthenticationProps RedactionProps OpenApiProps ShutdownProps RateLimitProps LifecycleProps BeanInjectionProps
    PluginDispatchProps MigrationCrash MigrationLoad AgentSchemaProps AgentProps
begin

text \<open>
  A model of the core of gin-bear, a web framework in Go (\<open>pkg/bear\<close>) with an agent module
  (\<open>extensions/agent\<close>), and the theorems that make it correct. Every definition carries the name of the Go
  function, type or constant it translates, or of the part of one; the theory it stands in names the file.

  \<^bold>\<open>The program.\<close> An application is built by \<open>Ignite\<close> (\<open>bear.go\<close>): its beans are registered in a container
  (\<open>ioc.go\<close>), injected and handed to the lifecycle (\<open>lifecycle.go\<close>), which starts them in order and stops
  them in reverse. Routes are compiled to a pipeline: middleware of Gin, the fairings of application,
  controllers and route (\<open>fairing.go\<close>), then the handler (\<open>handler.go\<close>), whose result or error becomes one
  response (\<open>responder.go\<close>, \<open>http_error.go\<close>). Authentication (\<open>jwt_fairing.go\<close>), authorization
  (\<open>authorization.go\<close>) and rate limits (\<open>limiter.go\<close>) are such fairings and middleware. Plugins add
  routes while the application is being built (\<open>plugin.go\<close>). \<open>Serve\<close> and \<open>Shutdown\<close> drain the requests before the
  components stop. Logs pass through \<open>security_redaction.go\<close>. Database migrations (\<open>migration.go\<close>) and the
  durable tasks of agents (\<open>extensions/agent/tasks\<close>) work on a database that other processes share.

  \<^bold>\<open>Foundations.\<close> GoPrelude (computations that return an error or a value, their weakest preconditions,
  SQL statements on tables as lists), GoStrings (Go's \<open>strings\<close> and \<open>strconv\<close> on byte strings), GoInt64 (\<open>int64\<close>
  as a word, where overflow matters), DbWorld (a process on a shared database: interference and faults at
  every statement, and the locale \<open>rely_guarantee\<close>), Registry (the locale \<open>registry\<close>, provided by the
  lifecycle, used by the container).

  \<^bold>\<open>Components.\<close>
  \<^item> TaskStore, TaskOps: the tables, \<open>Store\<close> and \<open>Worker\<close> of \<open>extensions/agent/tasks/tasks.go\<close>. TaskInvariant,
    TaskMoves, TaskSafety and TaskPeers show that every call, interrupted anywhere by other processes and
    faults, keeps the invariant \<open>store_ok\<close> and the history relation \<open>advances\<close>; \<open>peer\<close> is what others may do,
    defined by the same calls. TaskProps holds the properties, TaskDemo the history they are applied to.
  \<^item> Migration: \<open>pkg/bear/migration.go\<close>. MigrationProps (\<open>Up\<close> against a simple specification, mutual exclusion by
    the lock), MigrationCrash (what any interrupted \<open>Up\<close> leaves behind), MigrationLoad (file names).
  \<^item> Lifecycle, BeanContainer, BeanInjection: \<open>lifecycle.go\<close> and the two halves of \<open>ioc.go\<close>, with LifecycleProps,
    BeanContainerProps and BeanInjectionProps.
  \<^item> HttpResponse, RequestPipeline, Authorization, Authentication, RateLimit: \<open>error.go\<close>, \<open>http_error.go\<close>,
    \<open>responder.go\<close>, \<open>handler.go\<close>; \<open>fairing.go\<close> and the pipeline of \<open>bear.go\<close>; \<open>authorization.go\<close>; \<open>jwt.go\<close>,
    \<open>auth_token.go\<close>, \<open>jwt_fairing.go\<close>; \<open>limiter.go\<close>. PipelineProps and RequestProps show that nested guards are one
    flat list of fairings and give the exact trace of a request; the other properties build on it.
  \<^item> Shutdown: \<open>handler_tracker.go\<close>, the connections of \<open>runtime.go\<close>, \<open>Serve\<close>, \<open>Shutdown\<close> and the WebSocket
    handler of \<open>bear.go\<close> as interleaved goroutines. ShutdownProps: safety by an invariant of all
    interleavings, progress by a measure.
  \<^item> PluginDispatch: \<open>plugin.go\<close>, with PluginDispatchProps.
  \<^item> Redaction: \<open>security_redaction.go\<close>. RedactionProps: noninterference (the output does not depend on secrets)
    and bounds.
  \<^item> AgentSchema, AgentRunner: \<open>schema.go\<close>; \<open>tools.go\<close>, \<open>runner.go\<close>, \<open>audit.go\<close> and the run loop of \<open>http.go\<close>.
    AgentSchemaProps compares validation with a reference semantics of JSON Schema; AgentProps gives what
    a run may do whatever the chat model answers.

  \<^bold>\<open>Interfaces.\<close> Locales: \<open>rely_guarantee\<close> (interpreted on the invariants of the task store), \<open>registry\<close>
  (on the lifecycle's table of beans), \<open>hit_counter\<close> and \<open>window_counter\<close> (on the limiter in memory).

  \<^bold>\<open>Bounds and fuel.\<close> The retry loop of \<open>Cancel\<close> ends because each retry uses up an entry of the world's script.
  A strict stop takes two rounds (\<open>stopRounds\<close>): the second finds nothing to do. Stripping pointers from a type's name
  needs at most its length. Redaction has \<open>maxObservableDepth + 1\<close> levels, as many as the code's depth
  counter allows. Token budgets of tasks are integers; the agent's ledger, the limiter's counts and all its durations are words of
  64 bits.

  \<^bold>\<open>Parameters.\<close> What is not in the repository is an argument of the definitions: the SQL of a migration (\<open>ddl\<close>),
  JSON coding, the localizer, SHA-256, the JWT library, the Redis client and its commands, the chat model and
  the tools, the schema library, Gin's \<open>Next\<close> (a continuation), the patterns of redaction, reflection (\<open>tenv\<close>,
  the values it sees), clocks, random numbers, contexts. Go maps are association lists, their order the order of
  one iteration. A transaction is serializable. The heartbeat of a worker is a \<open>RenewLease\<close> of a peer. What runs
  concurrently with a lifecycle operation is what its waits return (\<open>wOthers\<close>).

  \<^bold>\<open>Not modelled.\<close> Parts that only call libraries or assemble text: gRPC servers, GORM and Redis adapters, tracing
  and metrics exporters, logging set-up, cron, i18n, the command line tool with its templates, the MCP tool,
  examples. The launch of the listeners and failures before they serve; the SSE transport of the agent;
  opening shared objects of plugins. \<open>route_tree.go\<close> is not called by the program. PROJECT.json lists each with
  its reason.
\<close>

end
